(* ===== verification/Prelude.thy ===== *)
theory Prelude
  imports Main "HOL-Library.Word" "HOL-Library.Monad_Syntax"
begin

unbundle bit_operations_syntax

section \<open>Shared types, memory views and automation\<close>

text \<open>
  This theory holds what every component shares: names for the machine integers of the
  firmware, byte-addressed read-only views of C buffers with the big-endian loads and stores the
  ZPU soft processor makes, index-wise search in the fixed tables the firmware keeps, and the
  generic lemmas the component proofs use.  All processors modelled here that exchange
  network data are big endian (\<^verbatim>\<open>firmware/usrp3/lwip_port/arch/cc.h\<close> sets
  \<^verbatim>\<open>BYTE_ORDER\<close> to \<^verbatim>\<open>BIG_ENDIAN\<close>), so a field of a packed struct is
  its bytes, most significant first, and \<^verbatim>\<open>htons\<close> and \<^verbatim>\<open>ntohs\<close> are the identity.
\<close>

type_synonym u8 = "8 word"
type_synonym u16 = "16 word"
type_synonym u32 = "32 word"

text \<open>A C buffer as its reader sees it: the byte at each offset from the pointer.\<close>

type_synonym mem = "nat \<Rightarrow> u8"

named_theorems bytes_simps \<open>loads, stores and sizes of byte views\<close>
named_theorems frame_simps \<open>fields an operation leaves alone\<close>

subsection \<open>Byte views\<close>

definition mem_of :: "u8 list \<Rightarrow> mem" where
  "mem_of bs = (\<lambda>i. if i < length bs then bs ! i else 0)"

definition mem_at :: "mem \<Rightarrow> nat \<Rightarrow> mem" where
  "mem_at m k = (\<lambda>i. m (k + i))"

definition be16 :: "mem \<Rightarrow> nat \<Rightarrow> u16" where
  "be16 m i = word_cat (m i) (m (i + 1))"

definition be32 :: "mem \<Rightarrow> nat \<Rightarrow> u32" where
  "be32 m i = word_cat (be16 m i) (be16 m (i + 2))"

definition hi8 :: "u16 \<Rightarrow> u8" where
  "hi8 w = ucast (drop_bit 8 w)"

definition lo8 :: "u16 \<Rightarrow> u8" where
  "lo8 w = ucast w"

definition hi16 :: "u32 \<Rightarrow> u16" where
  "hi16 w = ucast (drop_bit 16 w)"

definition lo16 :: "u32 \<Rightarrow> u16" where
  "lo16 w = ucast w"

definition put16 :: "u16 \<Rightarrow> u8 list" where
  "put16 w = [hi8 w, lo8 w]"

definition put32 :: "u32 \<Rightarrow> u8 list" where
  "put32 w = put16 (hi16 w) @ put16 (lo16 w)"

definition mem_take :: "mem \<Rightarrow> nat \<Rightarrow> u8 list" where
  "mem_take m n = map m [0..<n]"

lemma cat_hi8_lo8 [bytes_simps]: "word_cat (hi8 w) (lo8 w) = w"
  unfolding hi8_def lo8_def by (rule word_cat_split_alt) (simp_all add: word_size word_split_def)

lemma cat_hi16_lo16 [bytes_simps]: "word_cat (hi16 w) (lo16 w) = w"
  unfolding hi16_def lo16_def by (rule word_cat_split_alt) (simp_all add: word_size word_split_def)

lemma length_put16 [simp]: "length (put16 w) = 2"
  by (simp add: put16_def)

lemma length_put32 [simp]: "length (put32 w) = 4"
  by (simp add: put32_def)

lemma length_mem_take [simp]: "length (mem_take m n) = n"
  by (simp add: mem_take_def)

lemma mem_take_nth [simp]: "i < n \<Longrightarrow> mem_take m n ! i = m i"
  by (simp add: mem_take_def)

lemma mem_of_nth: "i < length bs \<Longrightarrow> mem_of bs i = bs ! i"
  by (simp add: mem_of_def)

lemma mem_of_append_left: "i < length xs \<Longrightarrow> mem_of (xs @ ys) i = mem_of xs i"
  by (simp add: mem_of_def nth_append)

lemma mem_of_append_right: "length xs \<le> i \<Longrightarrow> mem_of (xs @ ys) i = mem_of ys (i - length xs)"
  by (simp add: mem_of_def nth_append, arith)

lemma mem_take_mem_of: "mem_take (mem_of bs) (length bs) = bs"
  by (rule nth_equalityI) (simp_all add: mem_of_nth)

lemma be16_put16: "be16 (mem_of (put16 w)) 0 = w"
  by (simp add: be16_def mem_of_def put16_def bytes_simps)

lemma be32_put32: "be32 (mem_of (put32 w)) 0 = w"
  by (simp add: be32_def be16_def mem_of_def put32_def put16_def bytes_simps)

text \<open>Loads from a store that sits at a known offset of a longer buffer.\<close>

lemma be16_at:
  assumes "length xs = k"
  shows "be16 (mem_of (xs @ put16 w @ ys)) k = w"
  using assms by (simp add: be16_def mem_of_def put16_def nth_append bytes_simps)

lemma be32_at:
  assumes "length xs = k"
  shows "be32 (mem_of (xs @ put32 w @ ys)) k = w"
  using assms
  by (simp add: be32_def be16_def mem_of_def put32_def put16_def nth_append bytes_simps)

text \<open>Storing what was loaded gives back the bytes.\<close>

lemma hi8_cat [bytes_simps]: "hi8 (word_cat (a :: u8) (b :: u8)) = a"
  unfolding hi8_def by (rule bit_word_eqI) (simp add: bit_simps)

lemma lo8_cat [bytes_simps]: "lo8 (word_cat (a :: u8) (b :: u8)) = b"
  unfolding lo8_def by (rule bit_word_eqI) (simp add: bit_simps)

lemma hi16_cat [bytes_simps]: "hi16 (word_cat (a :: u16) (b :: u16)) = a"
  unfolding hi16_def by (rule bit_word_eqI) (simp add: bit_simps)

lemma lo16_cat [bytes_simps]: "lo16 (word_cat (a :: u16) (b :: u16)) = b"
  unfolding lo16_def by (rule bit_word_eqI) (simp add: bit_simps)

lemma put16_be16: "put16 (be16 m i) = [m i, m (i + 1)]"
  by (simp add: put16_def be16_def bytes_simps)

lemma put32_be32: "put32 (be32 m i) = [m i, m (i + 1), m (i + 2), m (i + 3)]"
  by (simp add: put32_def be32_def bytes_simps put16_be16 numeral_3_eq_3)

lemma mem_take_add: "mem_take m (a + b) = mem_take m a @ mem_take (mem_at m a) b"
  by (rule nth_equalityI) (auto simp: nth_append mem_at_def)

lemma concat_put32_words:
  "concat (map put32 (map (\<lambda>i. be32 m (4 * i)) [0..<n])) = mem_take m (4 * n)"
proof (induction n)
  case 0
  then show ?case by (simp add: mem_take_def)
next
  case (Suc n)
  have "mem_take m (4 * Suc n) = mem_take m (4 * n + 4)"
    by (simp add: algebra_simps)
  also have "\<dots> = mem_take m (4 * n) @ put32 (be32 m (4 * n))"
    unfolding mem_take_add put32_be32
    by (simp add: mem_take_def mem_at_def numeral_eq_Suc)
  finally show ?case using Suc.IH by simp
qed

lemma mem_at_mem_at [simp]: "mem_at (mem_at m a) b = mem_at m (a + b)"
  by (simp add: mem_at_def add.assoc)

lemma mem_at_0 [simp]: "mem_at m 0 = m"
  by (simp add: mem_at_def)

lemma mem_at_append: "length xs = k \<Longrightarrow> mem_at (mem_of (xs @ ys)) k = mem_of ys"
  by (rule ext) (simp add: mem_at_def mem_of_append_right)

lemma mem_take_append: "length xs = k \<Longrightarrow> mem_take (mem_of (xs @ ys)) k = xs"
  by (rule nth_equalityI) (simp_all add: mem_of_def nth_append)

subsection \<open>Search in a table, first match first\<close>

text \<open>
  The firmware keeps its tables in arrays and searches them with
  \<^verbatim>\<open>for (i = 0; i < n; i++) if (match) return ...\<close>: the least index that matches.
\<close>

fun find_index :: "('a \<Rightarrow> bool) \<Rightarrow> 'a list \<Rightarrow> nat option" where
  "find_index P [] = None"
| "find_index P (x # xs) = (if P x then Some 0 else map_option Suc (find_index P xs))"

lemma find_index_None_iff: "find_index P xs = None \<longleftrightarrow> (\<forall>x\<in>set xs. \<not> P x)"
  by (induction xs) auto

lemma find_index_Some_iff:
  "find_index P xs = Some i \<longleftrightarrow> i < length xs \<and> P (xs ! i) \<and> (\<forall>j<i. \<not> P (xs ! j))"
proof (induction xs arbitrary: i)
  case Nil
  then show ?case by simp
next
  case (Cons x xs)
  show ?case
    by (cases i) (auto simp: Cons.IH All_less_Suc2 split: if_splits)
qed

lemma find_index_bound: "find_index P xs = Some i \<Longrightarrow> i < length xs"
  by (simp add: find_index_Some_iff)

lemma find_index_sat: "find_index P xs = Some i \<Longrightarrow> P (xs ! i)"
  by (simp add: find_index_Some_iff)

lemma find_index_first:
  "i < length xs \<Longrightarrow> P (xs ! i) \<Longrightarrow> \<exists>j\<le>i. find_index P xs = Some j"
proof (induction xs arbitrary: i)
  case Nil
  then show ?case by simp
next
  case (Cons x xs)
  show ?case
  proof (cases "P x")
    case True
    then show ?thesis by auto
  next
    case False
    with Cons.prems obtain k where k: "i = Suc k" "k < length xs" "P (xs ! k)"
      by (cases i) auto
    then obtain j where "j \<le> k" "find_index P xs = Some j"
      using Cons.IH by blast
    with False k show ?thesis by auto
  qed
qed

lemma ex_less_4: "(\<exists>e<4. P e) \<longleftrightarrow> P 0 \<or> P 1 \<or> P 2 \<or> P (3 :: nat)"
  by (auto simp: numeral_eq_Suc less_Suc_eq)

lemma all_less_4: "(\<forall>e<4. P e) \<longleftrightarrow> P 0 \<and> P 1 \<and> P 2 \<and> P (3 :: nat)"
  by (auto simp: numeral_eq_Suc less_Suc_eq)

subsection \<open>Words\<close>

text \<open>The C idiom \<^verbatim>\<open>(1 << n)\<close> on 32 bits.\<close>

definition BIT :: "nat \<Rightarrow> u32" where
  "BIT n = push_bit n 1"

lemma bit_BIT: "bit (BIT n) k \<longleftrightarrow> k = n \<and> n < 32"
  by (auto simp: BIT_def bit_exp_iff)

lemma and_BIT_eq_0_iff:
  assumes n: "n < 32"
  shows "w AND BIT n = 0 \<longleftrightarrow> \<not> bit w n"
proof
  assume "w AND BIT n = 0"
  then have "\<not> bit (w AND BIT n) n" by simp
  with n show "\<not> bit w n" by (simp add: bit_and_iff bit_BIT)
next
  assume "\<not> bit w n"
  then show "w AND BIT n = 0"
    by (intro bit_word_eqI) (auto simp: bit_and_iff bit_BIT)
qed

lemma unat_u32_add_no_wrap:
  fixes a b :: u32
  shows "unat a + unat b < 2 ^ 32 \<Longrightarrow> unat (a + b) = unat a + unat b"
  by (simp add: unat_word_ariths)

lemma unat_u16_less: "unat (w :: u16) < 65536"
  using unsigned_less [of w] by simp

lemma unat_u8_less: "unat (w :: u8) < 256"
  using unsigned_less [of w] by simp

lemma unat_u32_less: "unat (w :: u32) < 4294967296"
  using unsigned_less [of w] by simp

lemma unat_ucast_u16_u32 [simp]: "unat (ucast (w :: u16) :: u32) = unat w"
proof -
  have "unat w < 2 ^ 32"
    by (rule less_trans [OF unat_u16_less]) simp
  then show ?thesis
    by (simp add: unsigned_ucast_eq take_bit_nat_eq_self)
qed

lemma unat_drop_bit_u32: "unat (drop_bit n (w :: u32)) = unat w div 2 ^ n"
  using unat_u32_less [of w]
  by (simp only: unsigned_drop_bit_eq) (simp add: drop_bit_eq_div take_bit_nat_eq_self)

lemma unat_and_ffff: "unat ((w :: u32) AND 0xffff) = unat w mod 65536"
proof -
  have "w AND 0xffff = take_bit 16 w"
    by (simp add: take_bit_eq_mask mask_eq_exp_minus_1)
  then show ?thesis
    by (simp only: unsigned_take_bit_eq) (simp add: take_bit_eq_mod)
qed

lemma unat_high_byte: "unat (word_cat (b :: u8) (0 :: u8) :: u16) = 256 * unat b"
proof -
  have "word_cat b (0 :: u8) = (push_bit 8 (ucast b) :: u16)"
    by (rule bit_word_eqI) (auto simp: bit_simps)
  moreover have "unat (push_bit 8 (ucast b) :: u16) = 256 * unat b"
    using unat_u8_less [of b]
    by (simp add: push_bit_eq_mult unat_word_ariths unsigned_ucast_eq take_bit_nat_eq_self)
  ultimately show ?thesis by simp
qed

text \<open>Signed readings of 32 bits.\<close>

lemma sint_u32_small: "w < 2 ^ 31 \<Longrightarrow> sint (w :: u32) = int (unat w)"
proof -
  assume "w < 2 ^ 31"
  then have u: "uint w < 2 ^ 31" by (simp add: word_less_def)
  have "sint w = signed_take_bit 31 (uint w)" by (simp add: sint_uint)
  also have "\<dots> = uint w"
    using u unsigned_greater_eq [of w, where ?'a = int]
    by (intro signed_take_bit_int_eq_self) linarith+
  also have "\<dots> = int (unat w)" by simp
  finally show ?thesis .
qed

lemma sint_u32_large: "\<not> w < 2 ^ 31 \<Longrightarrow> sint (w :: u32) = int (unat w) - 2 ^ 32"
proof -
  assume "\<not> w < 2 ^ 31"
  then have u: "2 ^ 31 \<le> uint w" by (simp add: word_less_def)
  have "sint w = signed_take_bit 31 (uint w)" by (simp add: sint_uint)
  also have "\<dots> = signed_take_bit 31 (uint w - 2 ^ 32)"
    by (simp only: signed_take_bit_eq_iff_take_bit_eq) (simp add: take_bit_eq_mod)
  also have "\<dots> = uint w - 2 ^ 32"
    using u uint_lt2p [of w] by (intro signed_take_bit_int_eq_self) auto
  also have "\<dots> = int (unat w) - 2 ^ 32" by simp
  finally show ?thesis .
qed

end
