(* ===== verification/ArpSpec.thy ===== *)
theory ArpSpec
  imports Prelude
begin

section \<open>What an ARP cache promises\<close>

text \<open>
  Three firmware images keep a small table from IPv4 addresses to Ethernet addresses:
  \<^verbatim>\<open>firmware/usrp3/lib/u3_net_stack.c\<close> and \<^verbatim>\<open>firmware/usrp2/lib/arp_cache.c\<close>
  (and its twin \<^verbatim>\<open>firmware/octoclock/lib/arp_cache.c\<close>).  Their layout and their replacement
  differ; what a caller may rely on is the same and is the locale below: an update is visible at
  once, and no update may change what the cache says of another address except by forgetting
  it.  \<open>ok\<close> names the addresses the promise is about (the USRP3 stack answers for its own
  addresses from its configuration, and its table starts out filled with address zero).
\<close>

type_synonym ip = u32
type_synonym mac = "u8 list"

definition arp_run :: "('ip \<Rightarrow> 'mac \<Rightarrow> 's \<Rightarrow> 's) \<Rightarrow> ('ip \<times> 'mac) list \<Rightarrow> 's \<Rightarrow> 's" where
  "arp_run update us s = fold (\<lambda>(i, m). update i m) us s"

text \<open>The binding an address had last in a run of updates.\<close>

definition last_binding :: "('ip \<times> 'mac) list \<Rightarrow> 'ip \<Rightarrow> 'mac option" where
  "last_binding us i = map_of (rev us) i"

lemma last_binding_snoc:
  "last_binding (us @ [(i, m)]) j = (if j = i then Some m else last_binding us j)"
  by (simp add: last_binding_def)

lemma arp_run_snoc: "arp_run f (us @ [(i, m)]) s = f i m (arp_run f us s)"
  by (simp add: arp_run_def)

locale arp_table =
  fixes update :: "'ip \<Rightarrow> 'mac \<Rightarrow> 's \<Rightarrow> 's"
    and lookup :: "'ip \<Rightarrow> 's \<Rightarrow> 'mac option"
    and invar :: "'s \<Rightarrow> bool"
    and ok :: "'s \<Rightarrow> 'ip \<Rightarrow> bool"
  assumes invar_update: "invar s \<Longrightarrow> invar (update i m s)"
    and ok_update: "ok (update i m s) j = ok s j"
    and lookup_update_same: "invar s \<Longrightarrow> ok s i \<Longrightarrow> lookup i (update i m s) = Some m"
    and lookup_update_other: "invar s \<Longrightarrow> ok s j \<Longrightarrow> j \<noteq> i \<Longrightarrow>
      lookup j (update i m s) = Some n \<Longrightarrow> lookup j s = Some n"
begin

lemma run_invar: "invar s \<Longrightarrow> invar (arp_run update us s)"
  by (induction us rule: rev_induct)
     (auto simp: arp_run_snoc invar_update arp_run_def split: prod.splits)

lemma run_ok: "ok (arp_run update us s) j = ok s j"
  by (induction us rule: rev_induct)
     (auto simp: arp_run_snoc ok_update arp_run_def split: prod.splits)

text \<open>
  Soundness of any run of updates: what the cache answers for an address is the most recent
  binding it was given for that address, or what it answered before the run if the run never
  mentioned the address.
\<close>

lemma run_lookup_sound:
  assumes "invar s" and "ok s j" and "lookup j (arp_run update us s) = Some n"
  shows "last_binding us j = Some n \<or> last_binding us j = None \<and> lookup j s = Some n"
  using assms(3)
proof (induction us arbitrary: n rule: rev_induct)
  case Nil
  then show ?case by (simp add: arp_run_def last_binding_def)
next
  case (snoc u us)
  obtain i m where u: "u = (i, m)" by (cases u)
  let ?t = "arp_run update us s"
  have t: "invar ?t" "ok ?t j" using assms(1,2) by (simp_all add: run_invar run_ok)
  show ?case
  proof (cases "j = i")
    case True
    with snoc.prems u t show ?thesis
      by (simp add: arp_run_snoc last_binding_snoc lookup_update_same)
  next
    case False
    with snoc.prems u have "lookup j (update i m ?t) = Some n"
      by (simp add: arp_run_snoc)
    from lookup_update_other [OF t False this] have "lookup j ?t = Some n" .
    from snoc.IH [OF this] u False show ?thesis by (simp add: last_binding_snoc)
  qed
qed

lemma run_lookup_last: "invar s \<Longrightarrow> ok s i \<Longrightarrow> lookup i (arp_run update (us @ [(i, m)]) s) = Some m"
  by (simp add: arp_run_snoc lookup_update_same run_invar run_ok)

end

end
