(* ===== verification/Bus.thy ===== *)
theory Bus
  imports Prelude
begin

section \<open>The Wishbone bus and the drivers that poll it\<close>

text \<open>
  Every peripheral of the USRP3 firmware is memory mapped
  (\<^verbatim>\<open>include/wb_utils.h\<close>).  What the hardware answers is not part of the program, so the bus
  record carries it as a parameter: \<open>dev\<close> gives the value of the next read of an address, from
  the whole history of accesses made so far, and \<open>trace\<close> is that history, newest access first.
  A device that ignores, latches or delays is a choice of \<open>dev\<close>; theorems quantify over it or
  name what they need of it.  The drivers of \<^verbatim>\<open>lib/wb_uart.c\<close> and
  \<^verbatim>\<open>lib/wb_pkt_iface64.c\<close> poll status registers without a bound: their
  loops are \<^theory_text>\<open>partial_function (option)\<close>, so \<open>None\<close> is "never returns".
\<close>

datatype access = Rd u32 u32 | Wr u32 u32

record bus =
  dev :: "access list \<Rightarrow> u32 \<Rightarrow> u32"
  trace :: "access list"

definition wb_poke32 :: "u32 \<Rightarrow> u32 \<Rightarrow> 'a bus_scheme \<Rightarrow> 'a bus_scheme" where
  "wb_poke32 addr data s = s\<lparr>trace := Wr addr data # trace s\<rparr>"

definition wb_peek32 :: "u32 \<Rightarrow> 'a bus_scheme \<Rightarrow> u32 \<times> 'a bus_scheme" where
  "wb_peek32 addr s =
     (let data = dev s (trace s) addr in (data, s\<lparr>trace := Rd addr data # trace s\<rparr>))"

definition SR_ADDR :: "u32 \<Rightarrow> u32 \<Rightarrow> u32" where
  "SR_ADDR base off = base + off * 4"

text \<open>The values written so far to an address, newest first.\<close>

definition writes_to :: "u32 \<Rightarrow> access list \<Rightarrow> u32 list" where
  "writes_to a t = List.map_filter (\<lambda>x. case x of Wr b v \<Rightarrow> if b = a then Some v else None | Rd _ _ \<Rightarrow> None) t"

definition is_write :: "access \<Rightarrow> bool" where
  "is_write x = (case x of Wr _ _ \<Rightarrow> True | Rd _ _ \<Rightarrow> False)"

definition wr_log :: "'a bus_scheme \<Rightarrow> access list" where
  "wr_log s = filter is_write (trace s)"

lemma dev_poke [simp]: "dev (wb_poke32 a v s) = dev s"
  by (simp add: wb_poke32_def)

lemma trace_poke [simp]: "trace (wb_poke32 a v s) = Wr a v # trace s"
  by (simp add: wb_poke32_def)

lemma dev_peek [simp]: "dev (snd (wb_peek32 a s)) = dev s"
  by (simp add: wb_peek32_def Let_def)

lemma fst_peek [simp]: "fst (wb_peek32 a s) = dev s (trace s) a"
  by (simp add: wb_peek32_def Let_def)

lemma trace_peek [simp]: "trace (snd (wb_peek32 a s)) = Rd a (dev s (trace s) a) # trace s"
  by (simp add: wb_peek32_def Let_def)

lemma wr_log_poke [simp]: "wr_log (wb_poke32 a v s) = Wr a v # wr_log s"
  by (simp add: wr_log_def is_write_def)

lemma wr_log_peek [simp]: "wr_log (snd (wb_peek32 a s)) = wr_log s"
  by (simp add: wr_log_def is_write_def)

subsection \<open>Busy-wait loops\<close>

text \<open>\<^verbatim>\<open>while (busy(wb_peek32(addr)));\<close> with no bound.\<close>

partial_function (option) spin_while ::
  "u32 \<Rightarrow> (u32 \<Rightarrow> bool) \<Rightarrow> 'a bus_scheme \<Rightarrow> 'a bus_scheme option" where
  "spin_while addr busy s =
     (let (v, s') = wb_peek32 addr s in if busy v then spin_while addr busy s' else Some s')"

text \<open>
  The loop \<^verbatim>\<open>i = 0; while (busy(wb_peek32(addr))) if (++i > timeout) return false;\<close>, where
  the first argument is the number of increments that are still allowed.  It is exact for
  every \<^verbatim>\<open>timeout\<close> below \<^verbatim>\<open>0xFFFFFFFF\<close>, above which \<^verbatim>\<open>++i > timeout\<close> cannot hold;
  the firmware passes 32768.
\<close>

primrec spin_timeout ::
  "nat \<Rightarrow> u32 \<Rightarrow> (u32 \<Rightarrow> bool) \<Rightarrow> 'a bus_scheme \<Rightarrow> bool \<times> 'a bus_scheme" where
  "spin_timeout 0 addr busy s =
     (let (v, s') = wb_peek32 addr s in (\<not> busy v, s'))"
| "spin_timeout (Suc n) addr busy s =
     (let (v, s') = wb_peek32 addr s in
      if busy v then spin_timeout n addr busy s' else (True, s'))"

text \<open>
  \<open>after_reads addr n s\<close> is the bus after \<open>n\<close> reads of \<open>addr\<close>: a spin that ends has made some
  number of reads and nothing else.
\<close>

primrec after_reads :: "u32 \<Rightarrow> nat \<Rightarrow> 'a bus_scheme \<Rightarrow> 'a bus_scheme" where
  "after_reads addr 0 s = s"
| "after_reads addr (Suc n) s = after_reads addr n (snd (wb_peek32 addr s))"

lemma dev_after_reads [simp]: "dev (after_reads a n s) = dev s"
  by (induction n arbitrary: s) simp_all

lemma wr_log_after_reads [simp]: "wr_log (after_reads a n s) = wr_log s"
  by (induction n arbitrary: s) simp_all

lemma after_reads_extends: "\<exists>mid. trace (after_reads a n s) = mid @ trace s"
proof (induction n arbitrary: s)
  case (Suc n)
  obtain mid where "trace (after_reads a n (snd (wb_peek32 a s))) = mid @ trace (snd (wb_peek32 a s))"
    using Suc.IH by blast
  then show ?case by (intro exI [of _ "mid @ [Rd a (dev s (trace s) a)]"]) simp
qed simp

lemma spin_while_exits:
  assumes "\<not> busy (fst (wb_peek32 a (after_reads a n s)))"
  shows "\<exists>k\<le>n. spin_while a busy s = Some (after_reads a (Suc k) s)"
  using assms
proof (induction n arbitrary: s)
  case 0
  then show ?case
    by (subst spin_while.simps) (simp add: case_prod_unfold)
next
  case (Suc n)
  show ?case
  proof (cases "busy (fst (wb_peek32 a s))")
    case True
    from Suc.IH [of "snd (wb_peek32 a s)"] Suc.prems obtain k where
      "k \<le> n" "spin_while a busy (snd (wb_peek32 a s)) = Some (after_reads a (Suc k) (snd (wb_peek32 a s)))"
      by auto
    with True show ?thesis
      by (subst spin_while.simps, intro exI [of _ "Suc k"]) (simp add: case_prod_unfold)
  next
    case False
    then show ?thesis
      by (subst spin_while.simps, intro exI [of _ 0]) (simp add: case_prod_unfold)
  qed
qed

lemma spin_while_result:
  assumes "spin_while a busy s = Some s'"
  shows "\<exists>k. s' = after_reads a (Suc k) s \<and> \<not> busy (fst (wb_peek32 a (after_reads a k s)))"
proof (rule spin_while.raw_induct [where P = "\<lambda>a busy s s'. \<exists>k. s' = after_reads a (Suc k) s
    \<and> \<not> busy (fst (wb_peek32 a (after_reads a k s)))", OF _ assms])
  fix f a busy s s'
  assume IH: "\<And>a busy s s'. f a busy s = Some s' \<Longrightarrow>
      \<exists>k. s' = after_reads a (Suc k) s \<and> \<not> busy (fst (wb_peek32 a (after_reads a k s)))"
    and eq: "(let (v, s') = wb_peek32 a s in if busy v then f a busy s' else Some s') = Some s'"
  show "\<exists>k. s' = after_reads a (Suc k) s \<and> \<not> busy (fst (wb_peek32 a (after_reads a k s)))"
  proof (cases "busy (fst (wb_peek32 a s))")
    case True
    with eq have "f a busy (snd (wb_peek32 a s)) = Some s'"
      by (simp add: case_prod_unfold)
    from IH [OF this] obtain k where
      "s' = after_reads a (Suc k) (snd (wb_peek32 a s))"
      "\<not> busy (fst (wb_peek32 a (after_reads a k (snd (wb_peek32 a s)))))"
      by blast
    then show ?thesis by (intro exI [of _ "Suc k"]) simp
  next
    case False
    with eq show ?thesis by (intro exI [of _ 0]) (simp add: case_prod_unfold)
  qed
qed

text \<open>What a spin leaves in the history: any number of busy answers, then the first that is not.\<close>

definition polled :: "u32 \<Rightarrow> (u32 \<Rightarrow> bool) \<Rightarrow> access list \<Rightarrow> bool" where
  "polled a busy t \<longleftrightarrow> (\<exists>v vs. t = Rd a v # map (Rd a) vs \<and> \<not> busy v \<and> (\<forall>x\<in>set vs. busy x))"

lemma polled_more: "polled a busy t \<Longrightarrow> busy v \<Longrightarrow> polled a busy (t @ [Rd a v])"
proof -
  assume "polled a busy t" "busy v"
  then obtain w ws where "t = Rd a w # map (Rd a) ws" "\<not> busy w" "\<forall>x\<in>set ws. busy x" unfolding polled_def by blast
  with \<open>busy v\<close> show ?thesis unfolding polled_def by (intro exI [of _ w] exI [of _ "ws @ [v]"]) auto
qed

lemma spin_while_polled:
  assumes "spin_while a busy s = Some s'"
  shows "\<exists>t. polled a busy t \<and> trace s' = t @ trace s"
proof (rule spin_while.raw_induct [where P = "\<lambda>a busy s s'. \<exists>t. polled a busy t \<and> trace s' = t @ trace s", OF _ assms])
  fix f a busy s s'
  assume IH: "\<And>a busy s s'. f a busy s = Some s' \<Longrightarrow> \<exists>t. polled a busy t \<and> trace s' = t @ trace s"
    and eq: "(let (v, s') = wb_peek32 a s in if busy v then f a busy s' else Some s') = Some s'"
  show "\<exists>t. polled a busy t \<and> trace s' = t @ trace s"
  proof (cases "busy (fst (wb_peek32 a s))")
    case True
    with eq have "f a busy (snd (wb_peek32 a s)) = Some s'" by (simp add: case_prod_unfold)
    from IH [OF this] obtain t where "polled a busy t" "trace s' = t @ Rd a (dev s (trace s) a) # trace s" by auto
    then show ?thesis using polled_more True by fastforce
  next
    case False
    with eq show ?thesis by (intro exI [of _ "[Rd a (dev s (trace s) a)]"]) (auto simp: case_prod_unfold polled_def)
  qed
qed

lemma spin_timeout_reads:
  "\<exists>k\<le>n. snd (spin_timeout n a busy s) = after_reads a (Suc k) s"
proof (induction n arbitrary: s)
  case 0
  then show ?case by (simp add: case_prod_unfold)
next
  case (Suc n)
  show ?case
  proof (cases "busy (fst (wb_peek32 a s))")
    case True
    from Suc.IH [of "snd (wb_peek32 a s)"] obtain k where "k \<le> n"
      "snd (spin_timeout n a busy (snd (wb_peek32 a s))) = after_reads a (Suc k) (snd (wb_peek32 a s))"
      by blast
    with True show ?thesis by (intro exI [of _ "Suc k"]) (simp add: case_prod_unfold)
  next
    case False
    then show ?thesis by (intro exI [of _ 0]) (simp add: case_prod_unfold)
  qed
qed

lemma spin_timeout_ok:
  "fst (spin_timeout n a busy s) \<longleftrightarrow> (\<exists>k\<le>n. \<not> busy (fst (wb_peek32 a (after_reads a k s))))"
proof (induction n arbitrary: s)
  case 0
  then show ?case by (simp add: case_prod_unfold)
next
  case (Suc n)
  show ?case
  proof (cases "busy (fst (wb_peek32 a s))")
    case True
    then have "fst (spin_timeout (Suc n) a busy s) = fst (spin_timeout n a busy (snd (wb_peek32 a s)))"
      by (simp add: case_prod_unfold)
    also have "\<dots> \<longleftrightarrow> (\<exists>k\<le>n. \<not> busy (fst (wb_peek32 a (after_reads a (Suc k) s))))"
      by (simp add: Suc.IH)
    also have "\<dots> \<longleftrightarrow> (\<exists>k\<le>Suc n. \<not> busy (fst (wb_peek32 a (after_reads a k s))))"
      using True by (metis Suc_le_mono after_reads.simps(1) not0_implies_Suc)
    finally show ?thesis .
  next
    case False
    then show ?thesis by (force simp: case_prod_unfold)
  qed
qed

lemma dev_spin_timeout [simp]: "dev (snd (spin_timeout n a busy s)) = dev s"
  using spin_timeout_reads [of n a busy s] by auto

lemma wr_log_spin_timeout [simp]: "wr_log (snd (spin_timeout n a busy s)) = wr_log s"
  using spin_timeout_reads [of n a busy s] by auto

lemma spin_timeout_ready:
  "\<not> busy (dev s (trace s) a) \<Longrightarrow> spin_timeout n a busy s = (True, snd (wb_peek32 a s))"
  by (cases n) (simp_all add: case_prod_unfold)

subsection \<open>Operations that only access the bus\<close>

definition bus_only :: "'a bus_scheme \<Rightarrow> 'a bus_scheme \<Rightarrow> bool" where
  "bus_only s s' \<longleftrightarrow> (\<exists>t. s' = s\<lparr>trace := t\<rparr>)"

lemma bus_only_refl [simp, intro]: "bus_only s s"
  unfolding bus_only_def by (rule exI [of _ "trace s"]) simp

lemma bus_only_trans [trans]: "bus_only s s' \<Longrightarrow> bus_only s' s'' \<Longrightarrow> bus_only s s''"
  by (auto simp: bus_only_def)

lemma bus_only_left: "bus_only (s\<lparr>trace := t\<rparr>) s' \<longleftrightarrow> bus_only s s'"
  by (simp add: bus_only_def)

lemma bus_only_right: "bus_only s (s'\<lparr>trace := t\<rparr>) \<longleftrightarrow> bus_only s s'"
proof
  assume "bus_only s (s'\<lparr>trace := t\<rparr>)"
  then obtain u where "s'\<lparr>trace := t\<rparr> = s\<lparr>trace := u\<rparr>" by (auto simp: bus_only_def)
  then have "(s'\<lparr>trace := t\<rparr>)\<lparr>trace := trace s'\<rparr> = (s\<lparr>trace := u\<rparr>)\<lparr>trace := trace s'\<rparr>" by (rule arg_cong)
  then show "bus_only s s'" by (auto simp: bus_only_def)
qed (auto simp: bus_only_def)

lemma bus_only_poke [simp]:
  "bus_only (wb_poke32 a v s) s' \<longleftrightarrow> bus_only s s'" "bus_only s (wb_poke32 a v s') \<longleftrightarrow> bus_only s s'"
  by (simp_all add: wb_poke32_def bus_only_left bus_only_right)

lemma bus_only_peek [simp]:
  "bus_only (snd (wb_peek32 a s)) s' \<longleftrightarrow> bus_only s s'" "bus_only s (snd (wb_peek32 a s')) \<longleftrightarrow> bus_only s s'"
  by (simp_all add: wb_peek32_def Let_def bus_only_left bus_only_right)

lemma bus_only_peeked: "wb_peek32 a s = (v, s') \<Longrightarrow> bus_only s s'"
  by (metis bus_only_peek(2) bus_only_refl snd_conv)

lemma bus_only_after_reads [simp]: "bus_only s (after_reads a n s)"
proof (induction n arbitrary: s)
  case (Suc n)
  have "bus_only (snd (wb_peek32 a s)) (after_reads a n (snd (wb_peek32 a s)))" by (rule Suc.IH)
  then show ?case by simp
qed simp

lemma bus_only_spin: "spin_while a busy s = Some s' \<Longrightarrow> bus_only s s'"
  using spin_while_result [of a busy s s'] bus_only_after_reads by blast

lemma bus_only_spin_timeout [simp]: "bus_only s (snd (spin_timeout n a busy s))"
  using spin_timeout_reads [of n a busy s] bus_only_after_reads by metis

lemma bus_only_timeout_right [simp]: "bus_only s (snd (spin_timeout n a busy s')) \<longleftrightarrow> bus_only s s'"
proof -
  obtain t where "snd (spin_timeout n a busy s') = s'\<lparr>trace := t\<rparr>"
    using bus_only_spin_timeout unfolding bus_only_def by blast
  then show ?thesis by (simp add: bus_only_right)
qed

lemma bus_only_then_spin: "spin_while a busy s' = Some s'' \<Longrightarrow> bus_only s s' \<Longrightarrow> bus_only s s''"
  using bus_only_spin bus_only_trans by blast

lemma bus_only_dev: "bus_only s s' \<Longrightarrow> dev s' = dev s"
  by (auto simp: bus_only_def)

text \<open>A device that always answers the same, for concrete runs.\<close>

lemma spin_const:
  assumes "dev s = (\<lambda>_ _. v)" and "\<not> busy v"
  shows "spin_while a busy s = Some (snd (wb_peek32 a s))"
  using assms by (subst spin_while.simps) (simp add: case_prod_unfold)

end
