(* ===== verification/WbDrivers.thy ===== *)
theory WbDrivers
  imports Bus
begin

unbundle bit_operations_syntax

section \<open>UART and packet-interface drivers\<close>

text \<open>
  \<^verbatim>\<open>lib/wb_uart.c\<close> and \<^verbatim>\<open>lib/wb_pkt_iface64.c\<close> of
  \<^verbatim>\<open>firmware/usrp3\<close>, over the bus of theory \<open>Bus\<close>.  The packet interface hands one packet
  buffer between the processor and the FPGA with a claim and release handshake on one
  control and one status word; its functions return the updated configuration record, since
  the C code keeps a shadow of the control word in it.
\<close>

subsection \<open>The UART\<close>

definition SUART_CLKDIV :: u32 where "SUART_CLKDIV = 0"
definition SUART_TXLEVEL :: u32 where "SUART_TXLEVEL = 1"
definition SUART_RXLEVEL :: u32 where "SUART_RXLEVEL = 2"
definition SUART_TXCHAR :: u32 where "SUART_TXCHAR = 3"
definition SUART_RXCHAR :: u32 where "SUART_RXCHAR = 4"

lemmas suart_regs = SUART_CLKDIV_def SUART_TXLEVEL_def SUART_RXLEVEL_def SUART_TXCHAR_def
  SUART_RXCHAR_def

definition wb_uart_init :: "u32 \<Rightarrow> u32 \<Rightarrow> 'a bus_scheme \<Rightarrow> 'a bus_scheme" where
  "wb_uart_init base divisor s = wb_poke32 (base + SUART_CLKDIV * 4) divisor s"

definition wb_uart_putc :: "u32 \<Rightarrow> u32 \<Rightarrow> 'a bus_scheme \<Rightarrow> 'a bus_scheme option" where
  "wb_uart_putc base ch s =
     do { s \<leftarrow> spin_while (base + SUART_TXLEVEL * 4) (\<lambda>v. v = 0) s;
          Some (wb_poke32 (base + SUART_TXCHAR * 4) ch s) }"

definition wb_uart_try_putc :: "u32 \<Rightarrow> u32 \<Rightarrow> 'a bus_scheme \<Rightarrow> bool \<times> 'a bus_scheme" where
  "wb_uart_try_putc base ch s =
     (let (lvl, s) = wb_peek32 (base + SUART_TXLEVEL * 4) s in
      if lvl = 0 then (False, s) else (True, wb_poke32 (base + SUART_TXCHAR * 4) ch s))"

text \<open>The \<^verbatim>\<open>int\<close> result keeps \<^verbatim>\<open>-1\<close> for "nothing received" as the all-ones word.\<close>

definition wb_uart_getc :: "u32 \<Rightarrow> 'a bus_scheme \<Rightarrow> u32 \<times> 'a bus_scheme" where
  "wb_uart_getc base s =
     (let (lvl, s) = wb_peek32 (base + SUART_RXLEVEL * 4) s in
      if lvl = 0 then (- 1, s) else wb_peek32 (base + SUART_RXCHAR * 4) s)"

subsection \<open>The packet interface\<close>

record wb_pkt_iface64_config_t =
  pkt_base :: u32
  pkt_ctrl :: u32
  pkt_config_addr :: u32

definition NUM_BYTES_MASK :: u32 where "NUM_BYTES_MASK = 0x1fff"

definition get_status :: "wb_pkt_iface64_config_t \<Rightarrow> 'a bus_scheme \<Rightarrow> u32 \<times> 'a bus_scheme" where
  "get_status config s = wb_peek32 (pkt_config_addr config) s"

definition set_control :: "wb_pkt_iface64_config_t \<Rightarrow> 'a bus_scheme \<Rightarrow> 'a bus_scheme" where
  "set_control config s = wb_poke32 (pkt_config_addr config) (pkt_ctrl config) s"

definition wb_pkt_iface64_rx_try_claim ::
  "wb_pkt_iface64_config_t \<Rightarrow> 'a bus_scheme \<Rightarrow> (u32 option \<times> u32) \<times> 'a bus_scheme" where
  "wb_pkt_iface64_rx_try_claim config s =
     (let (status, s) = get_status config s;
          rx_state_flag = drop_bit 31 status AND 1;
          num_bytes = status AND NUM_BYTES_MASK
      in ((if rx_state_flag = 0 then None else Some (pkt_base config), num_bytes), s))"

definition wb_pkt_iface64_rx_release ::
  "wb_pkt_iface64_config_t \<Rightarrow> 'a bus_scheme \<Rightarrow> (wb_pkt_iface64_config_t \<times> 'a bus_scheme) option" where
  "wb_pkt_iface64_rx_release config s =
     (let config = config\<lparr>pkt_ctrl := pkt_ctrl config OR BIT 31\<rparr>;
          s = set_control config s
      in do { s \<leftarrow> spin_while (pkt_config_addr config) (\<lambda>status. drop_bit 31 status AND 1 \<noteq> 0) s;
              let config = config\<lparr>pkt_ctrl := pkt_ctrl config AND NOT (BIT 31)\<rparr>;
              Some (config, set_control config s) })"

definition wb_pkt_iface64_init ::
  "u32 \<Rightarrow> u32 \<Rightarrow> 'a bus_scheme \<Rightarrow> (wb_pkt_iface64_config_t \<times> 'a bus_scheme) option" where
  "wb_pkt_iface64_init base ctrl_offset s =
     (let config = \<lparr>pkt_base = base, pkt_ctrl = 0, pkt_config_addr = base + ctrl_offset\<rparr>;
          s = set_control config s
      in wb_pkt_iface64_rx_release config s)"

definition wb_pkt_iface64_tx_claim ::
  "wb_pkt_iface64_config_t \<Rightarrow> 'a bus_scheme \<Rightarrow> (u32 \<times> 'a bus_scheme) option" where
  "wb_pkt_iface64_tx_claim config s =
     do { s \<leftarrow> spin_while (pkt_config_addr config) (\<lambda>status. drop_bit 30 status AND 1 \<noteq> 1) s;
          Some (pkt_base config, s) }"

text \<open>The control word a submit of \<open>num_bytes\<close> writes: flag 30 and the adjusted length.\<close>

definition tx_submit_ctrl :: "u32 \<Rightarrow> u32 \<Rightarrow> u32" where
  "tx_submit_ctrl c num_bytes =
     (let c = c OR BIT 30;
          c = c AND NOT NUM_BYTES_MASK;
          num_bytes = (if num_bytes AND 0x7 \<noteq> 0 then num_bytes + 8 else num_bytes)
      in c OR (num_bytes AND NUM_BYTES_MASK))"

definition wb_pkt_iface64_tx_submit ::
  "wb_pkt_iface64_config_t \<Rightarrow> u32 \<Rightarrow> 'a bus_scheme \<Rightarrow> (wb_pkt_iface64_config_t \<times> 'a bus_scheme) option" where
  "wb_pkt_iface64_tx_submit config num_bytes s =
     (let config = config\<lparr>pkt_ctrl := tx_submit_ctrl (pkt_ctrl config) num_bytes\<rparr>;
          s = set_control config s
      in do { s \<leftarrow> spin_while (pkt_config_addr config) (\<lambda>status. drop_bit 30 status AND 1 \<noteq> 0) s;
              let config = config\<lparr>pkt_ctrl := pkt_ctrl config AND NOT (BIT 30)\<rparr>;
              Some (config, set_control config s) })"

subsection \<open>Facts\<close>

text \<open>The state of the handshake between calls: neither flag is held, and the address is fixed.\<close>

definition pkt_idle :: "wb_pkt_iface64_config_t \<Rightarrow> bool" where
  "pkt_idle config \<longleftrightarrow> \<not> bit (pkt_ctrl config) 31 \<and> \<not> bit (pkt_ctrl config) 30"

text \<open>A handshake on an idle interface sets its flag and clears it again, and nothing else.\<close>

definition wrote :: "wb_pkt_iface64_config_t \<Rightarrow> u32 list \<Rightarrow> 'a bus_scheme \<Rightarrow> 'a bus_scheme \<Rightarrow> bool" where
  "wrote config vs s s' \<longleftrightarrow> wr_log s' = map (Wr (pkt_config_addr config)) vs @ wr_log s"

lemma bit_bytes_mask: "bit NUM_BYTES_MASK n \<longleftrightarrow> n < 13"
proof -
  have eq: "NUM_BYTES_MASK = mask 13"
    by (simp add: NUM_BYTES_MASK_def mask_eq_exp_minus_1)
  show ?thesis unfolding eq bit_mask_iff by auto
qed

lemma tx_submit_flag: "bit (tx_submit_ctrl c n) 30"
  by (simp add: tx_submit_ctrl_def Let_def bit_simps bit_BIT bit_bytes_mask)

lemma tx_submit_length:
  "tx_submit_ctrl c n AND NUM_BYTES_MASK = (if n AND 0x7 \<noteq> 0 then n + 8 else n) AND NUM_BYTES_MASK"
  unfolding tx_submit_ctrl_def Let_def
  by (rule bit_word_eqI) (auto simp: bit_simps bit_bytes_mask bit_BIT)

lemma tx_submit_keeps: "13 \<le> n \<Longrightarrow> n \<noteq> 30 \<Longrightarrow> bit (tx_submit_ctrl c k) n \<longleftrightarrow> bit c n"
  unfolding tx_submit_ctrl_def Let_def
  by (auto simp: bit_simps bit_bytes_mask bit_BIT dest: bit_imp_le_length)

lemma rx_release_effect:
  assumes "wb_pkt_iface64_rx_release config s = Some (config', s')"
  shows "pkt_idle config' \<longleftrightarrow> \<not> bit (pkt_ctrl config) 30"
    and "wrote config [pkt_ctrl config AND NOT (BIT 31), pkt_ctrl config OR BIT 31] s s'"
    and "pkt_config_addr config' = pkt_config_addr config"
proof -
  let ?c1 = "config\<lparr>pkt_ctrl := pkt_ctrl config OR BIT 31\<rparr>"
  have clr: "(pkt_ctrl config OR BIT 31) AND NOT (BIT 31) = pkt_ctrl config AND NOT (BIT 31)"
    by (rule bit_word_eqI) (auto simp: bit_simps bit_BIT)
  from assms obtain s1 where s1:
      "spin_while (pkt_config_addr config) (\<lambda>st. drop_bit 31 st AND 1 \<noteq> 0) (set_control ?c1 s) = Some s1"
    and res: "config' = ?c1\<lparr>pkt_ctrl := pkt_ctrl config AND NOT (BIT 31)\<rparr>" "s' = set_control config' s1"
    by (auto simp: wb_pkt_iface64_rx_release_def Let_def bind_eq_Some_conv clr)
  from spin_while_result [OF s1] have "wr_log s1 = wr_log (set_control ?c1 s)"
    by auto
  then show "wrote config [pkt_ctrl config AND NOT (BIT 31), pkt_ctrl config OR BIT 31] s s'"
    by (simp add: res wrote_def set_control_def)
  show "pkt_idle config' \<longleftrightarrow> \<not> bit (pkt_ctrl config) 30"
    by (simp add: res pkt_idle_def bit_simps bit_BIT)
  show "pkt_config_addr config' = pkt_config_addr config" by (simp add: res)
qed

lemma tx_submit_effect:
  assumes "wb_pkt_iface64_tx_submit config n s = Some (config', s')"
  shows "wrote config [tx_submit_ctrl (pkt_ctrl config) n AND NOT (BIT 30), tx_submit_ctrl (pkt_ctrl config) n] s s'"
    and "pkt_ctrl config' = tx_submit_ctrl (pkt_ctrl config) n AND NOT (BIT 30)"
    and "pkt_config_addr config' = pkt_config_addr config"
proof -
  let ?c1 = "config\<lparr>pkt_ctrl := tx_submit_ctrl (pkt_ctrl config) n\<rparr>"
  from assms obtain s1 where s1:
      "spin_while (pkt_config_addr config) (\<lambda>st. drop_bit 30 st AND 1 \<noteq> 0) (set_control ?c1 s) = Some s1"
    and res: "config' = ?c1\<lparr>pkt_ctrl := tx_submit_ctrl (pkt_ctrl config) n AND NOT (BIT 30)\<rparr>"
      "s' = set_control config' s1"
    by (auto simp: wb_pkt_iface64_tx_submit_def Let_def bind_eq_Some_conv)
  from spin_while_result [OF s1] have "wr_log s1 = wr_log (set_control ?c1 s)"
    by auto
  then show "wrote config [tx_submit_ctrl (pkt_ctrl config) n AND NOT (BIT 30), tx_submit_ctrl (pkt_ctrl config) n] s s'"
    by (simp add: res wrote_def set_control_def)
  show "pkt_ctrl config' = tx_submit_ctrl (pkt_ctrl config) n AND NOT (BIT 30)"
    and "pkt_config_addr config' = pkt_config_addr config"
    by (simp_all add: res)
qed

text \<open>
  The interface answers: after at most \<open>n\<close> further reads of the status register the busy
  condition is false.  This is what the FPGA's state machine promises after each control word.
\<close>

definition answers :: "nat \<Rightarrow> u32 \<Rightarrow> (u32 \<Rightarrow> bool) \<Rightarrow> 'a bus_scheme \<Rightarrow> bool" where
  "answers n addr busy s \<longleftrightarrow> \<not> busy (fst (wb_peek32 addr (after_reads addr n s)))"

lemma tx_submit_returns:
  assumes "answers n (pkt_config_addr config) (\<lambda>st. drop_bit 30 st AND 1 \<noteq> 0)
     (set_control (config\<lparr>pkt_ctrl := tx_submit_ctrl (pkt_ctrl config) len\<rparr>) s)"
  shows "\<exists>r. wb_pkt_iface64_tx_submit config len s = Some r"
proof -
  from spin_while_exits [of "\<lambda>st. drop_bit 30 st AND 1 \<noteq> 0" "pkt_config_addr config"] assms
  obtain s1 where "spin_while (pkt_config_addr config) (\<lambda>st. drop_bit 30 st AND 1 \<noteq> 0)
     (set_control (config\<lparr>pkt_ctrl := tx_submit_ctrl (pkt_ctrl config) len\<rparr>) s) = Some s1"
    unfolding answers_def by blast
  then show ?thesis
    by (simp add: wb_pkt_iface64_tx_submit_def Let_def)
qed

end
