(* ===== verification/NetStack.thy ===== *)
theory NetStack
  imports ArpSpec WbDrivers
begin

unbundle bit_operations_syntax

section \<open>The USRP3 network stack\<close>

text \<open>
  \<^verbatim>\<open>firmware/usrp3/lib/u3_net_stack.c\<close> with the header structures it uses.
  The file-scope variables are the fields of one record, which extends the bus record
  so that packet handlers can reach the hardware.  A transmitted packet is an entry of
  \<open>tx_log\<close>: the 32-bit words copied into the packet buffer and the byte count submitted; the
  handshake that hands the buffer over is the driver of theory \<open>WbDrivers\<close>.  A received
  packet is a view of the packet memory from the frame's first byte.  A function pointer of a
  handler table is a constructor naming the function; the function a constructor stands for is
  an argument (\<open>run_udp\<close>, \<open>run_icmp\<close>) of the operations that call through the table, because the
  handlers are defined in the components above this one.  A handler may block, so calls
  through a table have type \<open>option\<close>.  The padding of the stack
  allocated headers and the uninitialised time-to-live word are the fields \<open>junk_pad\<close> and
  \<open>junk_ttl\<close>: any value, never relied upon.
\<close>

subsection \<open>Constants and structures\<close>

definition MAX_NETHS :: nat where "MAX_NETHS = 4"
definition ARP_CACHE_NENTRIES :: nat where "ARP_CACHE_NENTRIES = 32"
definition UDP_NHANDLERS :: nat where "UDP_NHANDLERS = 16"
definition ICMP_NHANDLERS :: nat where "ICMP_NHANDLERS = 8"

definition ETHERTYPE_IPV4 :: u16 where "ETHERTYPE_IPV4 = 0x0800"
definition ETHERTYPE_ARP :: u16 where "ETHERTYPE_ARP = 0x0806"
definition ARPHRD_ETHER :: u16 where "ARPHRD_ETHER = 1"
definition ARPOP_REQUEST :: u16 where "ARPOP_REQUEST = 1"
definition ARPOP_REPLY :: u16 where "ARPOP_REPLY = 2"
definition IP_PROTO_ICMP :: u16 where "IP_PROTO_ICMP = 1"
definition IP_PROTO_UDP :: u16 where "IP_PROTO_UDP = 17"
definition IP_HLEN :: u32 where "IP_HLEN = 20"
definition UDP_HLEN :: u32 where "UDP_HLEN = 8"
definition ICMP_HLEN :: u32 where "ICMP_HLEN = 8"
definition IP_DF :: u16 where "IP_DF = 0x4000"
definition IP_MF :: u16 where "IP_MF = 0x2000"
definition IP_OFFMASK :: u16 where "IP_OFFMASK = 0x1fff"
definition ICMP_ER :: u8 where "ICMP_ER = 0"
definition ICMP_DUR :: u8 where "ICMP_DUR = 3"
definition ICMP_ECHO :: u8 where "ICMP_ECHO = 8"
definition ICMP_IRQ :: u8 where "ICMP_IRQ = 15"
definition ICMP_IR :: u8 where "ICMP_IR = 16"
definition ICMP_DUR_PORT :: u8 where "ICMP_DUR_PORT = 3"

lemmas net_consts = MAX_NETHS_def ARP_CACHE_NENTRIES_def UDP_NHANDLERS_def ICMP_NHANDLERS_def
lemmas proto_consts = ETHERTYPE_IPV4_def ETHERTYPE_ARP_def ARPHRD_ETHER_def ARPOP_REQUEST_def
  ARPOP_REPLY_def IP_PROTO_ICMP_def IP_PROTO_UDP_def IP_HLEN_def UDP_HLEN_def ICMP_HLEN_def
  IP_DF_def IP_MF_def IP_OFFMASK_def ICMP_ER_def ICMP_DUR_def ICMP_ECHO_def ICMP_IRQ_def
  ICMP_IR_def ICMP_DUR_PORT_def

text \<open>\<^verbatim>\<open>padded_eth_hdr_t\<close>: port number, five bytes of padding, the Ethernet header; 20 bytes.\<close>

record padded_eth_hdr_t =
  eh_ethno :: u8
  eh_pad :: "u8 list"
  eh_dst :: mac
  eh_src :: mac
  eh_ethertype :: u16

definition eth_hdr_bytes :: "padded_eth_hdr_t \<Rightarrow> u8 list" where
  "eth_hdr_bytes h = [eh_ethno h] @ eh_pad h @ eh_dst h @ eh_src h @ put16 (eh_ethertype h)"

definition eth_hdr_of :: "mem \<Rightarrow> padded_eth_hdr_t" where
  "eth_hdr_of m = \<lparr>eh_ethno = m 0, eh_pad = mem_take (mem_at m 1) 5, eh_dst = mem_take (mem_at m 6) 6,
     eh_src = mem_take (mem_at m 12) 6, eh_ethertype = be16 m 18\<rparr>"

text \<open>\<^verbatim>\<open>struct arp_eth_ipv4\<close>, 28 bytes.\<close>

record arp_eth_ipv4 =
  ar_hrd :: u16
  ar_pro :: u16
  ar_hln :: u8
  ar_pln :: u8
  ar_op :: u16
  ar_sha :: mac
  ar_sip :: ip
  ar_tha :: mac
  ar_tip :: ip

definition arp_bytes :: "arp_eth_ipv4 \<Rightarrow> u8 list" where
  "arp_bytes p = put16 (ar_hrd p) @ put16 (ar_pro p) @ [ar_hln p, ar_pln p] @ put16 (ar_op p)
     @ ar_sha p @ put32 (ar_sip p) @ ar_tha p @ put32 (ar_tip p)"

definition arp_of :: "mem \<Rightarrow> arp_eth_ipv4" where
  "arp_of m = \<lparr>ar_hrd = be16 m 0, ar_pro = be16 m 2, ar_hln = m 4, ar_pln = m 5, ar_op = be16 m 6,
     ar_sha = mem_take (mem_at m 8) 6, ar_sip = be32 m 14,
     ar_tha = mem_take (mem_at m 18) 6, ar_tip = be32 m 24\<rparr>"

text \<open>lwIP's \<^verbatim>\<open>struct ip_hdr\<close> without options, 20 bytes, and its accessors.\<close>

record ip_hdr =
  ih_v_hl_tos :: u16
  ih_len :: u16
  ih_id :: u16
  ih_offset :: u16
  ih_ttl_proto :: u16
  ih_chksum :: u16
  ih_src :: ip
  ih_dest :: ip

definition ip_hdr_shorts :: "ip_hdr \<Rightarrow> u16 list" where
  "ip_hdr_shorts h = [ih_v_hl_tos h, ih_len h, ih_id h, ih_offset h, ih_ttl_proto h, ih_chksum h,
     hi16 (ih_src h), lo16 (ih_src h), hi16 (ih_dest h), lo16 (ih_dest h)]"

definition ip_hdr_bytes :: "ip_hdr \<Rightarrow> u8 list" where
  "ip_hdr_bytes h = concat (map put16 (ip_hdr_shorts h))"

definition ip_hdr_of :: "mem \<Rightarrow> ip_hdr" where
  "ip_hdr_of m = \<lparr>ih_v_hl_tos = be16 m 0, ih_len = be16 m 2, ih_id = be16 m 4, ih_offset = be16 m 6,
     ih_ttl_proto = be16 m 8, ih_chksum = be16 m 10, ih_src = be32 m 12, ih_dest = be32 m 16\<rparr>"

definition IPH_V :: "ip_hdr \<Rightarrow> u16" where "IPH_V h = drop_bit 12 (ih_v_hl_tos h)"
definition IPH_HL :: "ip_hdr \<Rightarrow> u16" where "IPH_HL h = drop_bit 8 (ih_v_hl_tos h) AND 0x0f"
definition IPH_TTL :: "ip_hdr \<Rightarrow> u16" where "IPH_TTL h = drop_bit 8 (ih_ttl_proto h)"
definition IPH_PROTO :: "ip_hdr \<Rightarrow> u16" where "IPH_PROTO h = ih_ttl_proto h AND 0xff"

definition IPH_VHLTOS_SET :: "u16 \<Rightarrow> u16 \<Rightarrow> u16 \<Rightarrow> ip_hdr \<Rightarrow> ip_hdr" where
  "IPH_VHLTOS_SET v hl tos h = h\<lparr>ih_v_hl_tos := push_bit 12 v OR push_bit 8 hl OR tos\<rparr>"

definition IPH_TTL_SET :: "u16 \<Rightarrow> ip_hdr \<Rightarrow> ip_hdr" where
  "IPH_TTL_SET ttl h = h\<lparr>ih_ttl_proto := IPH_PROTO h OR push_bit 8 ttl\<rparr>"

definition IPH_PROTO_SET :: "u16 \<Rightarrow> ip_hdr \<Rightarrow> ip_hdr" where
  "IPH_PROTO_SET proto h = h\<lparr>ih_ttl_proto := proto OR push_bit 8 (IPH_TTL h)\<rparr>"

record udp_hdr =
  uh_src :: u16
  uh_dest :: u16
  uh_len :: u16
  uh_chksum :: u16

definition udp_hdr_bytes :: "udp_hdr \<Rightarrow> u8 list" where
  "udp_hdr_bytes h = put16 (uh_src h) @ put16 (uh_dest h) @ put16 (uh_len h) @ put16 (uh_chksum h)"

definition udp_hdr_of :: "mem \<Rightarrow> udp_hdr" where
  "udp_hdr_of m = \<lparr>uh_src = be16 m 0, uh_dest = be16 m 2, uh_len = be16 m 4, uh_chksum = be16 m 6\<rparr>"

record icmp_echo_hdr =
  ic_type :: u8
  ic_code :: u8
  ic_chksum :: u16
  ic_id :: u16
  ic_seqno :: u16

definition icmp_hdr_bytes :: "icmp_echo_hdr \<Rightarrow> u8 list" where
  "icmp_hdr_bytes h = [ic_type h, ic_code h] @ put16 (ic_chksum h) @ put16 (ic_id h) @ put16 (ic_seqno h)"

definition icmp_hdr_shorts :: "icmp_echo_hdr \<Rightarrow> u16 list" where
  "icmp_hdr_shorts h = [word_cat (ic_type h) (ic_code h), ic_chksum h, ic_id h, ic_seqno h]"

definition icmp_hdr_of :: "mem \<Rightarrow> icmp_echo_hdr" where
  "icmp_hdr_of m = \<lparr>ic_type = m 0, ic_code = m 1, ic_chksum = be16 m 2, ic_id = be16 m 4, ic_seqno = be16 m 6\<rparr>"

subsection \<open>State\<close>

datatype udp_handler = Udp_fw_comms | Udp_fpga_prog | Udp_fpga_read | Udp_mtu_detect | Udp_uart_data
datatype icmp_handler = Icmp_echo | Icmp_dur | Icmp_irq | Icmp_ir

record netstack = bus +
  arp_cache_wr_index :: nat
  arp_cache_ips :: "ip list"
  arp_cache_macs :: "mac list"
  arp_cache_eths :: "u8 list"
  net_conf_ips :: "ip list"
  net_conf_macs :: "mac list"
  net_conf_subnets :: "ip list"
  net_conf_bcasts :: "ip list"
  net_stat_counts :: "u32 list"
  udp_handlers :: "(u16 \<times> udp_handler) list"
  icmp_handlers :: "((u8 \<times> u8) \<times> icmp_handler) list"
  tx_log :: "(u32 list \<times> u32) list"
  junk_pad :: "u8 list"
  junk_ttl :: u16
  pkt_iface_config :: wb_pkt_iface64_config_t

text \<open>A handler is called with port, source, destination, two 16-bit values, data and length.\<close>

type_synonym 'a handler =
  "u8 \<Rightarrow> ip \<Rightarrow> ip \<Rightarrow> u16 \<Rightarrow> u16 \<Rightarrow> mem option \<Rightarrow> u32 \<Rightarrow> 'a netstack_scheme \<Rightarrow> 'a netstack_scheme option"

subsection \<open>16-bit one's complement sum\<close>

function fold_carries :: "u32 \<Rightarrow> u32" where
  "fold_carries c = (if drop_bit 16 c \<noteq> 0 then fold_carries ((c AND 0xffff) + drop_bit 16 c) else c)"
  by pat_completeness auto

lemma unat_fold_step: "unat ((c AND 0xffff) + drop_bit 16 c :: u32) = unat c mod 65536 + unat c div 65536"
proof -
  have "unat c div 65536 < 65536"
    using unat_u32_less [of c] by simp
  moreover have "unat c mod 65536 < 65536" by simp
  ultimately have "unat (c AND 0xffff) + unat (drop_bit 16 c) < 2 ^ 32"
    unfolding unat_and_ffff unat_drop_bit_u32 by simp
  then have "unat ((c AND 0xffff) + drop_bit 16 c) = unat (c AND 0xffff) + unat (drop_bit 16 c)"
    by (rule unat_u32_add_no_wrap)
  then show ?thesis
    unfolding unat_and_ffff unat_drop_bit_u32 by simp
qed

lemma drop_16_eq_0: "drop_bit 16 (c :: u32) = 0 \<longleftrightarrow> unat c < 65536"
proof -
  have "drop_bit 16 c = 0 \<longleftrightarrow> unat (drop_bit 16 c) = 0"
    by (rule unsigned_eq_0_iff [symmetric])
  then show ?thesis
    unfolding unat_drop_bit_u32 by (simp add: div_eq_0_iff)
qed

lemma fold_step_less:
  assumes "drop_bit 16 (c :: u32) \<noteq> 0"
  shows "unat ((c AND 0xffff) + drop_bit 16 c) < unat c"
proof -
  from assms have "0 < unat c div 65536"
    by (simp add: drop_16_eq_0 div_greater_zero_iff)
  then show ?thesis
    unfolding unat_fold_step using div_mult_mod_eq [of "unat c" 65536] by linarith
qed

termination fold_carries
  by (relation "measure unat") (simp_all only: fold_step_less in_measure wf_measure not_False_eq_True)

declare fold_carries.simps [simp del]

definition chksum_buffer :: "u16 list \<Rightarrow> u32 \<Rightarrow> u32" where
  "chksum_buffer buf initial_chksum =
     fold_carries (foldl (\<lambda>chksum w. chksum + ucast w) initial_chksum buf)"

text \<open>\<^verbatim>\<open>(unsigned short *)buff\<close>, the first \<open>n\<close> of them.\<close>

definition shorts_of :: "mem \<Rightarrow> nat \<Rightarrow> u16 list" where
  "shorts_of m n = map (\<lambda>i. be16 m (2 * i)) [0..<n]"

subsection \<open>ARP cache\<close>

definition u3_net_stack_get_ip_addr :: "u8 \<Rightarrow> 'a netstack_scheme \<Rightarrow> ip" where
  "u3_net_stack_get_ip_addr ethno s = net_conf_ips s ! unat ethno"

definition u3_net_stack_get_subnet :: "u8 \<Rightarrow> 'a netstack_scheme \<Rightarrow> ip" where
  "u3_net_stack_get_subnet ethno s = net_conf_subnets s ! unat ethno"

definition u3_net_stack_get_mac_addr :: "u8 \<Rightarrow> 'a netstack_scheme \<Rightarrow> mac" where
  "u3_net_stack_get_mac_addr ethno s = net_conf_macs s ! unat ethno"

text \<open>\<^verbatim>\<open>get_bcast\<close> computes the address, stores it in the table it returns a pointer into.\<close>

definition u3_net_stack_get_bcast :: "u8 \<Rightarrow> 'a netstack_scheme \<Rightarrow> ip \<times> 'a netstack_scheme" where
  "u3_net_stack_get_bcast ethno s =
     (let ipa = u3_net_stack_get_ip_addr ethno s;
          subnet = u3_net_stack_get_subnet ethno s;
          b = ipa OR NOT subnet
      in (b, s\<lparr>net_conf_bcasts := (net_conf_bcasts s)[unat ethno := b]\<rparr>))"

definition u3_net_stack_arp_cache_update ::
  "ip \<Rightarrow> mac \<Rightarrow> u8 \<Rightarrow> 'a netstack_scheme \<Rightarrow> 'a netstack_scheme" where
  "u3_net_stack_arp_cache_update ip_addr mac_addr ethno s =
     (case find_index (\<lambda>x. ip_addr = x) (arp_cache_ips s) of
        Some i \<Rightarrow> s\<lparr>arp_cache_macs := (arp_cache_macs s)[i := mac_addr],
                    arp_cache_eths := (arp_cache_eths s)[i := ethno]\<rparr>
      | None \<Rightarrow>
          (let w = (if arp_cache_wr_index s \<ge> ARP_CACHE_NENTRIES then 0 else arp_cache_wr_index s)
           in s\<lparr>arp_cache_ips := (arp_cache_ips s)[w := ip_addr],
                arp_cache_macs := (arp_cache_macs s)[w := mac_addr],
                arp_cache_eths := (arp_cache_eths s)[w := ethno],
                arp_cache_wr_index := w + 1\<rparr>))"

definition u3_net_stack_arp_cache_lookup :: "ip \<Rightarrow> 'a netstack_scheme \<Rightarrow> mac option" where
  "u3_net_stack_arp_cache_lookup ip_addr s =
     (case find_index (\<lambda>e. ip_addr = u3_net_stack_get_ip_addr (of_nat e) s) [0..<MAX_NETHS] of
        Some e \<Rightarrow> Some (u3_net_stack_get_mac_addr (of_nat e) s)
      | None \<Rightarrow>
          (case find_index (\<lambda>x. ip_addr = x) (arp_cache_ips s) of
             Some i \<Rightarrow> Some (arp_cache_macs s ! i)
           | None \<Rightarrow> None))"

text \<open>
  \<^verbatim>\<open>resolve_ip\<close>: the subnet broadcast of any port is the broadcast address; the search
  stores the broadcast address of each port it looks at.
\<close>

fun bcast_search :: "ip \<Rightarrow> nat list \<Rightarrow> 'a netstack_scheme \<Rightarrow> bool \<times> 'a netstack_scheme" where
  "bcast_search ip_addr [] s = (False, s)"
| "bcast_search ip_addr (e # es) s =
     (let (b, s) = u3_net_stack_get_bcast (of_nat e) s in
      if b = ip_addr then (True, s) else bcast_search ip_addr es s)"

definition resolve_ip :: "ip \<Rightarrow> 'a netstack_scheme \<Rightarrow> mac option \<times> 'a netstack_scheme" where
  "resolve_ip ip_addr s =
     (let (found, s) = bcast_search ip_addr [0..<MAX_NETHS] s in
      if found then (Some (replicate 6 0xff), s)
      else (u3_net_stack_arp_cache_lookup ip_addr s, s))"

subsection \<open>Configuration and statistics\<close>

definition u3_net_stack_init_eth ::
  "u8 \<Rightarrow> mac \<Rightarrow> ip \<Rightarrow> ip \<Rightarrow> 'a netstack_scheme \<Rightarrow> 'a netstack_scheme" where
  "u3_net_stack_init_eth ethno m ipa subnet s =
     s\<lparr>net_conf_macs := (net_conf_macs s)[unat ethno := m],
       net_conf_ips := (net_conf_ips s)[unat ethno := ipa],
       net_conf_subnets := (net_conf_subnets s)[unat ethno := subnet],
       net_stat_counts := (net_stat_counts s)[unat ethno := 0]\<rparr>"

definition u3_net_stack_get_stat_counts :: "u8 \<Rightarrow> 'a netstack_scheme \<Rightarrow> u32" where
  "u3_net_stack_get_stat_counts ethno s = net_stat_counts s ! unat ethno"

definition incr_stat_counts :: "mem \<Rightarrow> 'a netstack_scheme \<Rightarrow> 'a netstack_scheme" where
  "incr_stat_counts p s =
     (let ethno = unat (eh_ethno (eth_hdr_of p)) in
      if ethno < MAX_NETHS
      then s\<lparr>net_stat_counts := (net_stat_counts s)[ethno := net_stat_counts s ! ethno + 1]\<rparr>
      else s)"

definition u3_net_stack_register_udp_handler ::
  "u16 \<Rightarrow> udp_handler \<Rightarrow> 'a netstack_scheme \<Rightarrow> 'a netstack_scheme" where
  "u3_net_stack_register_udp_handler port h s =
     (if length (udp_handlers s) < UDP_NHANDLERS
      then s\<lparr>udp_handlers := udp_handlers s @ [(port, h)]\<rparr> else s)"

definition u3_net_stack_register_icmp_handler ::
  "u8 \<Rightarrow> u8 \<Rightarrow> icmp_handler \<Rightarrow> 'a netstack_scheme \<Rightarrow> 'a netstack_scheme" where
  "u3_net_stack_register_icmp_handler typ code h s =
     (if length (icmp_handlers s) < ICMP_NHANDLERS
      then s\<lparr>icmp_handlers := icmp_handlers s @ [((typ, code), h)]\<rparr> else s)"

definition u3_net_stack_init :: "wb_pkt_iface64_config_t \<Rightarrow> 'a netstack_scheme \<Rightarrow> 'a netstack_scheme" where
  "u3_net_stack_init config s =
     (let s = s\<lparr>pkt_iface_config := config\<rparr>;
          s = u3_net_stack_register_icmp_handler ICMP_ECHO 0 Icmp_echo s
      in u3_net_stack_register_icmp_handler ICMP_DUR ICMP_DUR_PORT Icmp_dur s)"

subsection \<open>Sending\<close>

text \<open>\<^verbatim>\<open>((const uint32_t * )p)[i]\<close> for \<^verbatim>\<open>i < (l + 3) / 4\<close>, in \<^verbatim>\<open>size_t\<close> arithmetic.\<close>

definition copy_words :: "mem \<Rightarrow> u32 \<Rightarrow> u32 list" where
  "copy_words p l = map (\<lambda>i. be32 p (4 * i)) [0..<unat ((l + 3) div 4)]"

text \<open>
  \<^verbatim>\<open>send_eth_pkt\<close>: the frame's words and length, and what the submit leaves in the
  driver's shadow of the control word.  The same function with every access to the packet
  memory and the handshake is \<open>send_eth_pkt_hw\<close> of theory \<open>NetHw\<close>, which refines this one.
\<close>

definition submitted :: "u32 \<Rightarrow> wb_pkt_iface64_config_t \<Rightarrow> wb_pkt_iface64_config_t" where
  "submitted num_bytes config = config\<lparr>pkt_ctrl := tx_submit_ctrl (pkt_ctrl config) num_bytes AND NOT (BIT 30)\<rparr>"

definition send_eth_pkt ::
  "mem \<Rightarrow> u32 \<Rightarrow> mem \<Rightarrow> u32 \<Rightarrow> mem \<Rightarrow> u32 \<Rightarrow> 'a netstack_scheme \<Rightarrow> 'a netstack_scheme" where
  "send_eth_pkt p0 l0 p1 l1 p2 l2 s =
     (let s = incr_stat_counts p0 s;
          buff32 = copy_words p0 l0 @ copy_words p1 l1 @ copy_words p2 l2;
          buff32 = (if length buff32 mod 2 = 1 then buff32 @ [0] else buff32)
      in s\<lparr>tx_log := tx_log s @ [(buff32, l0 + l1 + l2)],
           pkt_iface_config := submitted (l0 + l1 + l2) (pkt_iface_config s)\<rparr>)"

text \<open>The null pointer passed with length zero.\<close>

definition no_mem :: mem where "no_mem = (\<lambda>_. 0)"

definition send_arp_reply :: "u8 \<Rightarrow> arp_eth_ipv4 \<Rightarrow> mac \<Rightarrow> 'a netstack_scheme \<Rightarrow> 'a netstack_scheme" where
  "send_arp_reply ethno req our_mac s =
     (let eth = \<lparr>eh_ethno = ethno, eh_pad = junk_pad s, eh_dst = ar_sha req,
                 eh_src = u3_net_stack_get_mac_addr ethno s, eh_ethertype = ETHERTYPE_ARP\<rparr>;
          arp = \<lparr>ar_hrd = ar_hrd req, ar_pro = ar_pro req, ar_hln = ar_hln req, ar_pln = ar_pln req,
                 ar_op = ARPOP_REPLY, ar_sha = our_mac, ar_sip = ar_tip req,
                 ar_tha = ar_sha req, ar_tip = ar_sip req\<rparr>
      in send_eth_pkt (mem_of (eth_hdr_bytes eth @ arp_bytes arp)) 48 no_mem 0 no_mem 0 s)"

definition u3_net_stack_send_arp_request :: "u8 \<Rightarrow> ip \<Rightarrow> 'a netstack_scheme \<Rightarrow> 'a netstack_scheme" where
  "u3_net_stack_send_arp_request ethno addr s =
     (let eth = \<lparr>eh_ethno = ethno, eh_pad = junk_pad s, eh_dst = replicate 6 0xff,
                 eh_src = u3_net_stack_get_mac_addr ethno s, eh_ethertype = ETHERTYPE_ARP\<rparr>;
          arp = \<lparr>ar_hrd = ARPHRD_ETHER, ar_pro = ETHERTYPE_IPV4, ar_hln = 6, ar_pln = 4,
                 ar_op = ARPOP_REQUEST, ar_sha = u3_net_stack_get_mac_addr ethno s,
                 ar_sip = u3_net_stack_get_ip_addr ethno s,
                 ar_tha = replicate 6 0, ar_tip = addr\<rparr>
      in send_eth_pkt (mem_of (eth_hdr_bytes eth @ arp_bytes arp)) 48 no_mem 0 no_mem 0 s)"

text \<open>
  The IPv4 header both senders fill in, field by field, from an uninitialised structure: the
  time-to-live macro reads back the protocol half of a word nobody has written yet.
\<close>

definition fill_ip_hdr :: "u32 \<Rightarrow> u16 \<Rightarrow> ip \<Rightarrow> ip \<Rightarrow> ip_hdr \<Rightarrow> ip_hdr" where
  "fill_ip_hdr len proto src dst h =
     (let h = IPH_VHLTOS_SET 4 5 0 h;
          h = h\<lparr>ih_len := ucast len\<rparr>;
          h = h\<lparr>ih_id := 0\<rparr>;
          h = h\<lparr>ih_offset := IP_DF\<rparr>;
          h = IPH_TTL_SET 32 h;
          h = IPH_PROTO_SET proto h;
          h = h\<lparr>ih_chksum := 0\<rparr>;
          h = h\<lparr>ih_src := src, ih_dest := dst\<rparr>
      in h\<lparr>ih_chksum := ucast (NOT (chksum_buffer (ip_hdr_shorts h) 0))\<rparr>)"

definition raw_ip_hdr :: "u16 \<Rightarrow> ip_hdr" where
  "raw_ip_hdr junk = \<lparr>ih_v_hl_tos = 0, ih_len = 0, ih_id = 0, ih_offset = 0, ih_ttl_proto = junk,
     ih_chksum = 0, ih_src = 0, ih_dest = 0\<rparr>"

definition u3_net_stack_send_udp_pkt ::
  "u8 \<Rightarrow> ip \<Rightarrow> u16 \<Rightarrow> u16 \<Rightarrow> mem \<Rightarrow> u32 \<Rightarrow> 'a netstack_scheme \<Rightarrow> 'a netstack_scheme" where
  "u3_net_stack_send_udp_pkt ethno dst src_port dst_port buff num_bytes s =
     (let (r, s) = resolve_ip dst s in
      case r of None \<Rightarrow> s
      | Some dst_mac_addr \<Rightarrow>
         (let eth = \<lparr>eh_ethno = ethno, eh_pad = junk_pad s, eh_dst = dst_mac_addr,
                     eh_src = u3_net_stack_get_mac_addr ethno s, eh_ethertype = ETHERTYPE_IPV4\<rparr>;
              iph = fill_ip_hdr (IP_HLEN + UDP_HLEN + num_bytes) IP_PROTO_UDP
                      (u3_net_stack_get_ip_addr ethno s) dst (raw_ip_hdr (junk_ttl s));
              udp = \<lparr>uh_src = src_port, uh_dest = dst_port, uh_len = ucast (UDP_HLEN + num_bytes), uh_chksum = 0\<rparr>
          in send_eth_pkt (mem_of (eth_hdr_bytes eth @ ip_hdr_bytes iph @ udp_hdr_bytes udp)) 48
               buff num_bytes no_mem 0 s))"

definition u3_net_stack_send_icmp_pkt ::
  "u8 \<Rightarrow> u8 \<Rightarrow> u8 \<Rightarrow> u16 \<Rightarrow> u16 \<Rightarrow> ip \<Rightarrow> mem \<Rightarrow> u32 \<Rightarrow> 'a netstack_scheme \<Rightarrow> 'a netstack_scheme" where
  "u3_net_stack_send_icmp_pkt ethno typ code ident sq dst buff num_bytes s =
     (let (r, s) = resolve_ip dst s in
      case r of None \<Rightarrow> s
      | Some dst_mac_addr \<Rightarrow>
         (let eth = \<lparr>eh_ethno = ethno, eh_pad = junk_pad s, eh_dst = dst_mac_addr,
                     eh_src = u3_net_stack_get_mac_addr ethno s, eh_ethertype = ETHERTYPE_IPV4\<rparr>;
              iph = fill_ip_hdr (IP_HLEN + ICMP_HLEN + num_bytes) IP_PROTO_ICMP
                      (u3_net_stack_get_ip_addr ethno s) dst (raw_ip_hdr (junk_ttl s));
              icmp = \<lparr>ic_type = typ, ic_code = code, ic_chksum = 0, ic_id = ident, ic_seqno = sq\<rparr>;
              icmp = icmp\<lparr>ic_chksum := ucast (NOT (chksum_buffer (shorts_of buff (unat (num_bytes div 2)))
                       (chksum_buffer (icmp_hdr_shorts icmp) 0)))\<rparr>
          in send_eth_pkt (mem_of (eth_hdr_bytes eth @ ip_hdr_bytes iph @ icmp_hdr_bytes icmp)) 48
               buff num_bytes no_mem 0 s))"

subsection \<open>Receiving\<close>

definition handle_icmp_echo_packet :: "'a handler" where
  "handle_icmp_echo_packet ethno src dst ident sq buff num_bytes s =
     Some (u3_net_stack_send_icmp_pkt ethno ICMP_ER 0 ident sq src
             (case buff of Some m \<Rightarrow> m | None \<Rightarrow> no_mem) num_bytes s)"

definition handle_arp_packet :: "u8 \<Rightarrow> arp_eth_ipv4 \<Rightarrow> 'a netstack_scheme \<Rightarrow> 'a netstack_scheme" where
  "handle_arp_packet ethno p s =
     (if ar_hrd p \<noteq> ARPHRD_ETHER \<or> ar_pro p \<noteq> ETHERTYPE_IPV4 \<or> ar_hln p \<noteq> 6 \<or> ar_pln p \<noteq> 4 then s
      else
        (let s = (if ar_op p = ARPOP_REPLY
                  then u3_net_stack_arp_cache_update (ar_sip p) (ar_sha p) ethno s else s)
         in if ar_op p = ARPOP_REQUEST
            then if ar_tip p = u3_net_stack_get_ip_addr ethno s
                 then send_arp_reply ethno p (u3_net_stack_get_mac_addr ethno s) s else s
            else s))"

definition handle_udp_packet ::
  "(udp_handler \<Rightarrow> 'a handler) \<Rightarrow> u8 \<Rightarrow> ip \<Rightarrow> ip \<Rightarrow> mem \<Rightarrow> u32 \<Rightarrow> 'a netstack_scheme \<Rightarrow> 'a netstack_scheme option" where
  "handle_udp_packet run_udp ethno src dst udp num_bytes s =
     (let u = udp_hdr_of udp in
      case find_index (\<lambda>(port, h). port = uh_dest u) (udp_handlers s) of
        Some i \<Rightarrow> run_udp (snd (udp_handlers s ! i)) ethno src (u3_net_stack_get_ip_addr ethno s)
                    (uh_src u) (uh_dest u) (Some (mem_at udp 8)) (num_bytes - UDP_HLEN) s
      | None \<Rightarrow> Some s)"

definition handle_icmp_packet ::
  "(icmp_handler \<Rightarrow> 'a handler) \<Rightarrow> u8 \<Rightarrow> ip \<Rightarrow> ip \<Rightarrow> mem \<Rightarrow> u32 \<Rightarrow> 'a netstack_scheme \<Rightarrow> 'a netstack_scheme option" where
  "handle_icmp_packet run_icmp ethno src dst icmp num_bytes s =
     (let h = icmp_hdr_of icmp in
      case find_index (\<lambda>((typ, code), f). typ = ic_type h \<and> code = ic_code h) (icmp_handlers s) of
        Some i \<Rightarrow> run_icmp (snd (icmp_handlers s ! i)) ethno src (u3_net_stack_get_ip_addr ethno s)
                    (ic_id h) (ic_seqno h) (Some (mem_at icmp 8)) (num_bytes - ICMP_HLEN) s
      | None \<Rightarrow> Some s)"

definition handle_icmp_dur_packet :: "(udp_handler \<Rightarrow> 'a handler) \<Rightarrow> 'a handler" where
  "handle_icmp_dur_packet run_udp ethno src dst ident sq buff num_bytes s =
     (let m = (case buff of Some m \<Rightarrow> m | None \<Rightarrow> no_mem);
          iph = ip_hdr_of m;
          udp = udp_hdr_of (mem_at m 20)
      in if IPH_PROTO iph \<noteq> IP_PROTO_UDP then Some s
         else case find_index (\<lambda>(port, h). port = uh_src udp) (udp_handlers s) of
                Some i \<Rightarrow> run_udp (snd (udp_handlers s ! i)) ethno src (u3_net_stack_get_ip_addr ethno s)
                            (uh_src udp) (uh_dest udp) None 0 s
              | None \<Rightarrow> Some s)"

definition handle_eth_packet ::
  "(udp_handler \<Rightarrow> 'a handler) \<Rightarrow> (icmp_handler \<Rightarrow> 'a handler) \<Rightarrow> mem \<Rightarrow> u32 \<Rightarrow>
     'a netstack_scheme \<Rightarrow> 'a netstack_scheme option" where
  "handle_eth_packet run_udp run_icmp buff num_bytes s =
     (let eth_hdr = eth_hdr_of buff; eth_body = mem_at buff 20 in
      if eh_ethertype eth_hdr = ETHERTYPE_ARP
      then Some (handle_arp_packet (eh_ethno eth_hdr) (arp_of eth_body) s)
      else if eh_ethertype eth_hdr = ETHERTYPE_IPV4
      then
        (let iph = ip_hdr_of eth_body; ip_body = mem_at eth_body 20 in
         if IPH_V iph \<noteq> 4 \<or> IPH_HL iph \<noteq> 5 then Some s
         else if ih_offset iph AND (IP_MF OR IP_OFFMASK) \<noteq> 0 then Some s
         else
           (let s = u3_net_stack_arp_cache_update (ih_src iph) (eh_src eth_hdr) (eh_ethno eth_hdr) s in
            do { s \<leftarrow> (if IPH_PROTO iph = IP_PROTO_UDP
                       then handle_udp_packet run_udp (eh_ethno eth_hdr) (ih_src iph) (ih_dest iph)
                              ip_body (ucast (ih_len iph) - IP_HLEN) s
                       else Some s);
                 (if IPH_PROTO iph = IP_PROTO_ICMP
                  then handle_icmp_packet run_icmp (eh_ethno eth_hdr) (ih_src iph) (ih_dest iph)
                         ip_body (ucast (ih_len iph) - IP_HLEN) s
                  else Some s) }))
      else Some s)"

text \<open>
  \<^verbatim>\<open>u3_net_stack_handle_one\<close>; \<open>rx_mem t p\<close> is what the packet memory at \<open>p\<close> holds when the
  claim has been made, \<open>t\<close> being the accesses up to then.
\<close>

definition u3_net_stack_handle_one ::
  "(udp_handler \<Rightarrow> 'a handler) \<Rightarrow> (icmp_handler \<Rightarrow> 'a handler) \<Rightarrow> (access list \<Rightarrow> u32 \<Rightarrow> mem) \<Rightarrow>
     'a netstack_scheme \<Rightarrow> 'a netstack_scheme option" where
  "u3_net_stack_handle_one run_udp run_icmp rx_mem s =
     (let ((ptr, num_bytes), s) = wb_pkt_iface64_rx_try_claim (pkt_iface_config s) s in
      case ptr of None \<Rightarrow> Some s
      | Some p \<Rightarrow>
          (let buff = rx_mem (trace s) p in
           do { s \<leftarrow> handle_eth_packet run_udp run_icmp buff num_bytes (incr_stat_counts buff s);
                (config, s) \<leftarrow> wb_pkt_iface64_rx_release (pkt_iface_config s) s;
                Some (s\<lparr>pkt_iface_config := config\<rparr>) }))"

end
