(* ===== verification/NetStackFacts.thy ===== *)
theory NetStackFacts
  imports NetStack
begin

unbundle bit_operations_syntax

section \<open>The network stack: checksum, cache and frames\<close>

text \<open>
  The component lemmas of \<open>NetStack\<close>: the one's complement sum against arithmetic modulo
  65535, the ARP cache as an instance of the contract of \<open>ArpSpec\<close>, and what the bytes of a
  transmitted frame are.
\<close>

subsection \<open>Checksum\<close>

lemma mod_65535_fold: "(n mod 65536 + n div 65536) mod 65535 = n mod (65535 :: nat)"
proof -
  have "n = 65535 * (n div 65536) + (n mod 65536 + n div 65536)"
    using div_mult_mod_eq [of n 65536] by linarith
  then have "n mod 65535 = (65535 * (n div 65536) + (n mod 65536 + n div 65536)) mod 65535"
    by (rule arg_cong)
  also have "\<dots> = (n mod 65536 + n div 65536) mod 65535" by (rule mod_mult_self4)
  finally show ?thesis by (rule sym)
qed

lemma fold_carries_props:
  "unat (fold_carries c) < 65536 \<and> unat (fold_carries c) mod 65535 = unat c mod 65535
    \<and> (unat (fold_carries c) = 0 \<longleftrightarrow> unat c = 0)"
proof (induction c rule: fold_carries.induct)
  case (1 c)
  show ?case
  proof (cases "drop_bit 16 c = 0")
    case True
    then show ?thesis by (subst (1 2 3) fold_carries.simps) (simp add: drop_16_eq_0)
  next
    case False
    let ?c = "(c AND 0xffff) + drop_bit 16 c"
    have z: "unat ?c = 0 \<longleftrightarrow> unat c = 0"
      unfolding unat_fold_step by (auto simp: div_eq_0_iff mod_eq_self_iff_div_eq_0)
    have m: "unat ?c mod 65535 = unat c mod 65535"
      unfolding unat_fold_step by (rule mod_65535_fold)
    show ?thesis
      using "1.IH" [OF False] z m False
      by (subst (1 2 3) fold_carries.simps) (simp only: if_True not_False_eq_True)
  qed
qed

lemma unat_sum_shorts:
  "unat init + 65535 * length ws < 2 ^ 32 \<Longrightarrow>
   unat (foldl (\<lambda>c w. c + ucast w) (init :: u32) (ws :: u16 list)) = unat init + sum_list (map unat ws)"
proof (induction ws arbitrary: init)
  case Nil
  then show ?case by simp
next
  case (Cons w ws)
  have w: "unat w \<le> 65535" using unat_u16_less [of w] by simp
  with Cons.prems have "unat init + unat (ucast w :: u32) < 2 ^ 32" by simp
  then have step: "unat (init + ucast w) = unat init + unat w"
    using unat_u32_add_no_wrap by fastforce
  with Cons.prems w have "unat (init + ucast w) + 65535 * length ws < 2 ^ 32" by simp
  from Cons.IH [OF this] step show ?case by simp
qed

lemma chksum_buffer_props:
  assumes "unat init + 65535 * length ws < 2 ^ 32"
  shows "unat (chksum_buffer ws init) < 65536"
    and "unat (chksum_buffer ws init) mod 65535 = (unat init + sum_list (map unat ws)) mod 65535"
    and "unat (chksum_buffer ws init) = 0 \<longleftrightarrow> unat init + sum_list (map unat ws) = 0"
  unfolding chksum_buffer_def unat_sum_shorts [OF assms, symmetric]
  using fold_carries_props by blast+

lemma unat_not_low: "unat (c :: u32) < 65536 \<Longrightarrow> unat (ucast (NOT c) :: u16) = 65535 - unat c"
proof -
  assume c: "unat c < 65536"
  have "NOT c = - 1 - c" by (simp add: not_eq_complement)
  have "unat (- 1 - c) = unat (- 1 :: u32) - unat c"
    by (rule unat_sub) (rule word_n1_ge)
  then have "unat (NOT c) = 2 ^ 32 - 1 - unat c"
    unfolding \<open>NOT c = - 1 - c\<close> by (simp add: unsigned_minus_1_eq_mask mask_eq_exp_minus_1)
  then have "unat (ucast (NOT c) :: u16) = (2 ^ 32 - 1 - unat c) mod 65536"
    by (simp add: unsigned_ucast_eq take_bit_eq_mod)
  also have "2 ^ 32 - 1 - unat c = (65535 - unat c) + 65535 * 65536"
    using c by simp
  also have "((65535 - unat c) + 65535 * 65536) mod 65536 = (65535 - unat c) mod 65536"
    by (rule mod_mult_self1)
  also have "\<dots> = 65535 - unat c" by (rule mod_less) simp
  finally show ?thesis .
qed

text \<open>Complementing the sum of the rest makes the whole sum to the all-ones value.\<close>

lemma fold_complement: "(C::nat) < 65536 \<Longrightarrow> C mod 65535 = S mod 65535 \<Longrightarrow> (S + (65535 - C)) mod 65535 = 0"
proof -
  assume C: "C < 65536" and eq: "C mod 65535 = S mod 65535"
  have "(S + (65535 - C)) mod 65535 = (C + (65535 - C)) mod 65535"
    using eq by (rule mod_add_cong [OF _ refl, symmetric])
  also have "C + (65535 - C) = 65535" using C by (intro le_add_diff_inverse) linarith
  finally show ?thesis unfolding mod_self .
qed

lemma all_ones_sum: "(r::nat) < 65536 \<Longrightarrow> r mod 65535 = 0 \<Longrightarrow> r \<noteq> 0 \<Longrightarrow> r = 65535"
  by (cases "r < 65535") simp_all

text \<open>Complementing a folded sum of the other shorts makes the whole sum the all-ones value.\<close>

lemma chksum_close:
  assumes len: "65535 * (length xs + length ys + 1) < 2 ^ 32"
    and C: "unat (C :: u32) < 65536" "unat C mod 65535 = sum_list (map unat (xs @ ys)) mod 65535"
      "unat C = 0 \<longleftrightarrow> sum_list (map unat (xs @ ys)) = 0"
  shows "chksum_buffer (xs @ ucast (NOT C) # ys) 0 = 0xffff"
proof -
  let ?S = "sum_list (map unat (xs @ ys))"
  let ?r = "chksum_buffer (xs @ ucast (NOT C) # ys) 0"
  have h: "unat (0 :: u32) + 65535 * length (xs @ w # ys) < 2 ^ 32" for w
    using len by simp
  have s: "unat (0 :: u32) + sum_list (map unat (xs @ w # ys)) = ?S + unat w" for w
    by simp
  note r = chksum_buffer_props [OF h [of "ucast (NOT C)"], unfolded s, unfolded unat_not_low [OF C(1)]]
  have "unat ?r mod 65535 = 0" unfolding r(2) by (rule fold_complement) (rule C)+
  moreover have "unat ?r \<noteq> 0" using r(3) C(3) by auto
  ultimately have "unat ?r = 65535" using r(1) by (intro all_ones_sum)
  then have "unat ?r = unat (0xffff :: u32)" by simp
  then show ?thesis by (rule unsigned_word_eqI)
qed

lemma chksum_complement:
  assumes len: "65535 * (length xs + length ys + 1) < 2 ^ 32"
  shows "chksum_buffer (xs @ ucast (NOT (chksum_buffer (xs @ 0 # ys) 0)) # ys) 0 = 0xffff"
proof (rule chksum_close [OF len])
  have h: "unat (0 :: u32) + 65535 * length (xs @ 0 # ys) < 2 ^ 32" using len by simp
  have s: "unat (0 :: u32) + sum_list (map unat (xs @ 0 # ys)) = sum_list (map unat (xs @ ys))" by simp
  note c = chksum_buffer_props [OF h, unfolded s]
  show "unat (chksum_buffer (xs @ 0 # ys) 0) < 65536"
    "unat (chksum_buffer (xs @ 0 # ys) 0) mod 65535 = sum_list (map unat (xs @ ys)) mod 65535"
    "unat (chksum_buffer (xs @ 0 # ys) 0) = 0 \<longleftrightarrow> sum_list (map unat (xs @ ys)) = 0"
    by (rule c)+
qed

text \<open>Summing in two parts, the first folded before the second is added.\<close>

lemma chksum_two_parts:
  assumes len: "65535 * (length xs + length ys + 1) < 2 ^ 32"
  shows "unat (chksum_buffer ys (chksum_buffer xs 0)) < 65536"
    and "unat (chksum_buffer ys (chksum_buffer xs 0)) mod 65535 = sum_list (map unat (xs @ ys)) mod 65535"
    and "unat (chksum_buffer ys (chksum_buffer xs 0)) = 0 \<longleftrightarrow> sum_list (map unat (xs @ ys)) = 0"
proof -
  have hx: "unat (0 :: u32) + 65535 * length xs < 2 ^ 32" using len by simp
  note cx = chksum_buffer_props [OF hx, unfolded unsigned_0 add_0]
  have hy: "unat (chksum_buffer xs 0) + 65535 * length ys < 2 ^ 32"
    using len cx(1) by (simp add: algebra_simps)
  note cy = chksum_buffer_props [OF hy]
  show "unat (chksum_buffer ys (chksum_buffer xs 0)) < 65536" by (rule cy(1))
  show "unat (chksum_buffer ys (chksum_buffer xs 0)) mod 65535 = sum_list (map unat (xs @ ys)) mod 65535"
    unfolding cy(2) map_append sum_list_append by (rule mod_add_cong [OF cx(2) refl])
  show "unat (chksum_buffer ys (chksum_buffer xs 0)) = 0 \<longleftrightarrow> sum_list (map unat (xs @ ys)) = 0"
    unfolding cy(3) map_append sum_list_append using cx(3) by auto
qed

subsection \<open>The IPv4 header\<close>

lemma vhltos_value: "push_bit 12 4 OR push_bit 8 5 OR 0 = (0x4500 :: u16)"
  by simp

lemma ttl_of_junk: "drop_bit 8 ((j AND 0xff) OR push_bit 8 32 :: u16) = 32"
proof -
  have "drop_bit 8 (j AND 0xff :: u16) = 0"
  proof -
    have "j AND 0xff = take_bit 8 j" by (simp add: take_bit_eq_mask mask_eq_exp_minus_1)
    then show ?thesis by (simp only: drop_bit_take_bit) simp
  qed
  moreover have "drop_bit 8 (push_bit 8 32 :: u16) = 32" by simp
  ultimately show ?thesis by (simp only: drop_bit_or or.left_neutral)
qed

lemma ttl_proto_set: "IPH_PROTO_SET proto (IPH_TTL_SET 32 h) = h\<lparr>ih_ttl_proto := proto OR 0x2000\<rparr>"
proof -
  have "push_bit 8 (drop_bit 8 ((ih_ttl_proto h AND 0xff) OR push_bit 8 32) :: u16) = 0x2000"
    unfolding ttl_of_junk by simp
  then show ?thesis
    by (simp add: IPH_TTL_SET_def IPH_PROTO_SET_def IPH_PROTO_def IPH_TTL_def)
qed

lemma fill_ip_hdr_eq:
  "fill_ip_hdr len proto src dst h =
     (let h0 = h\<lparr>ih_v_hl_tos := 0x4500, ih_len := ucast len, ih_id := 0, ih_offset := IP_DF,
                 ih_ttl_proto := proto OR 0x2000, ih_chksum := 0, ih_src := src, ih_dest := dst\<rparr>
      in h0\<lparr>ih_chksum := ucast (NOT (chksum_buffer (ip_hdr_shorts h0) 0))\<rparr>)"
  unfolding fill_ip_hdr_def Let_def ttl_proto_set
  by (simp add: IPH_VHLTOS_SET_def)

lemma fill_ip_hdr_junk: "fill_ip_hdr len proto src dst (raw_ip_hdr j) = fill_ip_hdr len proto src dst (raw_ip_hdr 0)"
  by (simp add: fill_ip_hdr_eq raw_ip_hdr_def Let_def)

lemma fill_ip_hdr_fields [simp]:
  "ih_v_hl_tos (fill_ip_hdr len proto src dst h) = 0x4500"
  "ih_len (fill_ip_hdr len proto src dst h) = ucast len"
  "ih_offset (fill_ip_hdr len proto src dst h) = IP_DF"
  "ih_ttl_proto (fill_ip_hdr len proto src dst h) = proto OR 0x2000"
  "ih_src (fill_ip_hdr len proto src dst h) = src"
  "ih_dest (fill_ip_hdr len proto src dst h) = dst"
  by (simp_all add: fill_ip_hdr_eq Let_def)

lemma fill_ip_hdr_verifies: "chksum_buffer (ip_hdr_shorts (fill_ip_hdr len proto src dst h)) 0 = 0xffff"
proof -
  let ?xs = "[0x4500, ucast len, 0, IP_DF, proto OR 0x2000]"
  let ?ys = "[hi16 src, lo16 src, hi16 dst, lo16 dst]"
  let ?ck = "ucast (NOT (chksum_buffer (?xs @ 0 # ?ys) 0))"
  have "ip_hdr_shorts (fill_ip_hdr len proto src dst h) = ?xs @ ?ck # ?ys"
    by (simp add: fill_ip_hdr_eq Let_def ip_hdr_shorts_def)
  moreover have "chksum_buffer (?xs @ ?ck # ?ys) 0 = 0xffff"
    by (rule chksum_complement) simp_all
  ultimately show ?thesis by simp
qed

subsection \<open>The ARP cache keeps the contract of an ARP cache\<close>

definition arp_wf :: "'a netstack_scheme \<Rightarrow> bool" where
  "arp_wf s \<longleftrightarrow> length (arp_cache_ips s) = ARP_CACHE_NENTRIES \<and> length (arp_cache_macs s) = ARP_CACHE_NENTRIES
     \<and> length (arp_cache_eths s) = ARP_CACHE_NENTRIES \<and> arp_cache_wr_index s \<le> ARP_CACHE_NENTRIES
     \<and> length (net_conf_ips s) = MAX_NETHS
     \<and> (\<forall>i<ARP_CACHE_NENTRIES. \<forall>j<ARP_CACHE_NENTRIES. arp_cache_ips s ! i = arp_cache_ips s ! j \<longrightarrow>
          arp_cache_ips s ! i \<noteq> 0 \<longrightarrow> i = j)"

definition arp_foreign :: "'a netstack_scheme \<Rightarrow> ip \<Rightarrow> bool" where
  "arp_foreign s i \<longleftrightarrow> i \<noteq> 0 \<and> i \<notin> set (net_conf_ips s)"

lemma arp_update_conf [frame_simps]:
  "net_conf_ips (u3_net_stack_arp_cache_update i m e s) = net_conf_ips s"
  "net_conf_macs (u3_net_stack_arp_cache_update i m e s) = net_conf_macs s"
  "net_conf_subnets (u3_net_stack_arp_cache_update i m e s) = net_conf_subnets s"
  "udp_handlers (u3_net_stack_arp_cache_update i m e s) = udp_handlers s"
  "icmp_handlers (u3_net_stack_arp_cache_update i m e s) = icmp_handlers s"
  "tx_log (u3_net_stack_arp_cache_update i m e s) = tx_log s"
  "junk_pad (u3_net_stack_arp_cache_update i m e s) = junk_pad s"
  "junk_ttl (u3_net_stack_arp_cache_update i m e s) = junk_ttl s"
  by (simp_all add: u3_net_stack_arp_cache_update_def Let_def split: option.splits)

lemma of_nat_port: "e < MAX_NETHS \<Longrightarrow> unat (of_nat e :: u8) = e"
  by (simp add: MAX_NETHS_def unat_of_nat)

lemma own_search_None:
  assumes "length (net_conf_ips s) = MAX_NETHS"
  shows "find_index (\<lambda>e. i = u3_net_stack_get_ip_addr (of_nat e) s) [0..<MAX_NETHS] = None
     \<longleftrightarrow> i \<notin> set (net_conf_ips s)"
  using assms unfolding find_index_None_iff u3_net_stack_get_ip_addr_def in_set_conv_nth
  by (auto simp: of_nat_port)

lemma arp_lookup_foreign:
  assumes "arp_wf s" and "arp_foreign s i"
  shows "u3_net_stack_arp_cache_lookup i s =
    map_option ((!) (arp_cache_macs s)) (find_index (\<lambda>x. i = x) (arp_cache_ips s))"
proof -
  from assms have "find_index (\<lambda>e. i = u3_net_stack_get_ip_addr (of_nat e) s) [0..<MAX_NETHS] = None"
    by (subst own_search_None) (simp_all add: arp_wf_def arp_foreign_def)
  then show ?thesis
    unfolding u3_net_stack_arp_cache_lookup_def by (auto split: option.splits)
qed

lemma arp_wf_length:
  assumes "arp_wf s"
  shows "length (arp_cache_ips s) = ARP_CACHE_NENTRIES" "length (arp_cache_macs s) = ARP_CACHE_NENTRIES"
    "length (arp_cache_eths s) = ARP_CACHE_NENTRIES" "length (net_conf_ips s) = MAX_NETHS"
  using assms by (simp_all add: arp_wf_def)

lemma arp_wf_unique:
  "arp_wf s \<Longrightarrow> a < ARP_CACHE_NENTRIES \<Longrightarrow> b < ARP_CACHE_NENTRIES \<Longrightarrow>
   arp_cache_ips s ! a = x \<Longrightarrow> arp_cache_ips s ! b = x \<Longrightarrow> x \<noteq> 0 \<Longrightarrow> a = b"
  unfolding arp_wf_def by metis

lemma find_index_unique:
  assumes "k < length xs" and "P (xs ! k)" and "\<And>j. j < length xs \<Longrightarrow> P (xs ! j) \<Longrightarrow> j = k"
  shows "find_index P xs = Some k"
  using assms by (metis find_index_first find_index_Some_iff)

lemma arp_wf_update: "arp_wf s \<Longrightarrow> arp_wf (u3_net_stack_arp_cache_update i m e s)"
proof -
  assume wf: "arp_wf s"
  show ?thesis
  proof (cases "find_index (\<lambda>x. i = x) (arp_cache_ips s)")
    case (Some k)
    with wf show ?thesis
      by (simp add: arp_wf_def u3_net_stack_arp_cache_update_def)
  next
    case None
    then have "\<forall>j<ARP_CACHE_NENTRIES. arp_cache_ips s ! j \<noteq> i"
      using wf by (auto simp: find_index_None_iff arp_wf_def all_set_conv_all_nth)
    with wf None show ?thesis
      by (auto simp: arp_wf_def u3_net_stack_arp_cache_update_def Let_def nth_list_update net_consts)
  qed
qed

lemma arp_lookup_update_same:
  assumes wf: "arp_wf s" and f: "arp_foreign s i"
  shows "u3_net_stack_arp_cache_lookup i (u3_net_stack_arp_cache_update i m e s) = Some m"
proof -
  let ?t = "u3_net_stack_arp_cache_update i m e s"
  have t: "arp_wf ?t" "arp_foreign ?t i"
    using wf f by (simp_all add: arp_wf_update arp_foreign_def frame_simps)
  show ?thesis
  proof (cases "find_index (\<lambda>x. i = x) (arp_cache_ips s)")
    case (Some k)
    then have "k < ARP_CACHE_NENTRIES" using wf find_index_bound by (fastforce simp: arp_wf_def)
    with Some wf show ?thesis
      unfolding arp_lookup_foreign [OF t]
      by (simp add: u3_net_stack_arp_cache_update_def arp_wf_def)
  next
    case None
    define w where "w = (if arp_cache_wr_index s \<ge> ARP_CACHE_NENTRIES then 0 else arp_cache_wr_index s)"
    have w: "w < ARP_CACHE_NENTRIES" by (simp add: w_def net_consts)
    have "find_index (\<lambda>x. i = x) ((arp_cache_ips s)[w := i]) = Some w"
    proof (rule find_index_unique)
      show "w < length ((arp_cache_ips s)[w := i])" "i = (arp_cache_ips s)[w := i] ! w"
        using w wf by (simp_all add: arp_wf_def)
      show "j = w" if "j < length ((arp_cache_ips s)[w := i])" "i = (arp_cache_ips s)[w := i] ! j" for j
        using that None by (cases "j = w") (auto simp: find_index_None_iff all_set_conv_all_nth)
    qed
    with None w wf show ?thesis
      unfolding arp_lookup_foreign [OF t]
      by (simp add: u3_net_stack_arp_cache_update_def arp_wf_def Let_def w_def)
  qed
qed

lemma arp_lookup_update_other:
  assumes wf: "arp_wf s" and f: "arp_foreign s j" and ne: "j \<noteq> i"
    and look: "u3_net_stack_arp_cache_lookup j (u3_net_stack_arp_cache_update i m e s) = Some n"
  shows "u3_net_stack_arp_cache_lookup j s = Some n"
proof -
  let ?t = "u3_net_stack_arp_cache_update i m e s"
  have t: "arp_wf ?t" "arp_foreign ?t j"
    using wf f by (simp_all add: arp_wf_update arp_foreign_def frame_simps)
  from look obtain k where k: "find_index (\<lambda>x. j = x) (arp_cache_ips ?t) = Some k"
      "n = arp_cache_macs ?t ! k"
    unfolding arp_lookup_foreign [OF t] by auto
  then have kj: "k < ARP_CACHE_NENTRIES" "arp_cache_ips ?t ! k = j"
    using t(1) find_index_bound find_index_sat by (fastforce simp: arp_wf_def)+
  have same: "arp_cache_ips s ! k = j \<and> arp_cache_macs s ! k = n"
  proof (cases "find_index (\<lambda>x. i = x) (arp_cache_ips s)")
    case (Some a)
    with kj(2) ne find_index_sat [OF Some] have "arp_cache_ips s ! k = j" "k \<noteq> a"
      by (auto simp: u3_net_stack_arp_cache_update_def)
    with Some k(2) show ?thesis by (simp add: u3_net_stack_arp_cache_update_def)
  next
    case None
    define w where "w = (if arp_cache_wr_index s \<ge> ARP_CACHE_NENTRIES then 0 else arp_cache_wr_index s)"
    have w: "w < ARP_CACHE_NENTRIES" by (simp add: w_def net_consts)
    from None have upd: "arp_cache_ips ?t = (arp_cache_ips s)[w := i]" "arp_cache_macs ?t = (arp_cache_macs s)[w := m]"
      by (simp_all add: u3_net_stack_arp_cache_update_def Let_def w_def)
    have "k \<noteq> w" using kj(2) ne w wf by (auto simp: upd arp_wf_length)
    with kj(2) k(2) show ?thesis by (simp add: upd)
  qed
  have "find_index (\<lambda>x. j = x) (arp_cache_ips s) = Some k"
  proof (rule find_index_unique)
    show "k < length (arp_cache_ips s)" "j = arp_cache_ips s ! k"
      using same kj wf by (simp_all add: arp_wf_length)
    show "a = k" if "a < length (arp_cache_ips s)" "j = arp_cache_ips s ! a" for a
    proof (rule arp_wf_unique [OF wf, where x = j])
      show "a < ARP_CACHE_NENTRIES" using that(1) arp_wf_length(1) [OF wf] by simp
      show "j \<noteq> 0" using f by (simp add: arp_foreign_def)
    qed (use that(2) same kj(1) in simp_all)
  qed
  with same show ?thesis unfolding arp_lookup_foreign [OF wf f] by simp
qed

interpretation u3_arp: arp_table "\<lambda>i m. u3_net_stack_arp_cache_update i m e"
  u3_net_stack_arp_cache_lookup arp_wf arp_foreign for e
proof unfold_locales
  fix s :: "'a netstack_scheme" and i j m n
  show "arp_wf s \<Longrightarrow> arp_wf (u3_net_stack_arp_cache_update i m e s)" by (rule arp_wf_update)
  show "arp_foreign (u3_net_stack_arp_cache_update i m e s) j = arp_foreign s j"
    by (simp add: arp_foreign_def frame_simps)
  show "arp_wf s \<Longrightarrow> arp_foreign s i \<Longrightarrow>
      u3_net_stack_arp_cache_lookup i (u3_net_stack_arp_cache_update i m e s) = Some m"
    by (rule arp_lookup_update_same)
  show "arp_wf s \<Longrightarrow> arp_foreign s j \<Longrightarrow> j \<noteq> i \<Longrightarrow>
      u3_net_stack_arp_cache_lookup j (u3_net_stack_arp_cache_update i m e s) = Some n \<Longrightarrow>
      u3_net_stack_arp_cache_lookup j s = Some n"
    by (rule arp_lookup_update_other)
qed

end
