(* ===== verification/NetFrames.thy ===== *)
theory NetFrames
  imports NetStackFacts
begin

unbundle bit_operations_syntax

section \<open>The network stack: what is on the wire\<close>

text \<open>
  A transmitted frame as bytes, and the view a receiver has of it.  The receiver's packet memory
  holds the sender's frame with the first six bytes, which are not sent, replaced by the number of
  the port it arrived on and padding (\<open>delivered\<close>).
\<close>

definition frame_mem :: "u32 list \<times> u32 \<Rightarrow> mem" where
  "frame_mem f = mem_of (concat (map put32 (fst f)))"

definition delivered :: "u8 \<Rightarrow> u32 list \<times> u32 \<Rightarrow> mem \<Rightarrow> bool" where
  "delivered e f m \<longleftrightarrow> m 0 = e \<and> (\<forall>i\<ge>6. m i = frame_mem f i)"

text \<open>The facts about the configuration every frame builder relies on.\<close>

definition net_wf :: "'a netstack_scheme \<Rightarrow> bool" where
  "net_wf s \<longleftrightarrow> arp_wf s \<and> length (junk_pad s) = 5 \<and> length (net_conf_macs s) = MAX_NETHS
     \<and> length (net_conf_subnets s) = MAX_NETHS \<and> length (net_conf_bcasts s) = MAX_NETHS
     \<and> length (net_stat_counts s) = MAX_NETHS
     \<and> (\<forall>m\<in>set (net_conf_macs s). length m = 6) \<and> (\<forall>m\<in>set (arp_cache_macs s). length m = 6)"

subsection \<open>Headers parse back\<close>

lemma length_eth_hdr_bytes:
  "length (eh_pad h) = 5 \<Longrightarrow> length (eh_dst h) = 6 \<Longrightarrow> length (eh_src h) = 6 \<Longrightarrow> length (eth_hdr_bytes h) = 20"
  by (simp add: eth_hdr_bytes_def)

lemma length_ip_hdr_bytes [simp]: "length (ip_hdr_bytes h) = 20"
  by (simp add: ip_hdr_bytes_def ip_hdr_shorts_def)

lemma length_udp_hdr_bytes [simp]: "length (udp_hdr_bytes h) = 8"
  by (simp add: udp_hdr_bytes_def)

lemma length_icmp_hdr_bytes [simp]: "length (icmp_hdr_bytes h) = 8"
  by (simp add: icmp_hdr_bytes_def)

lemma length_arp_bytes: "length (ar_sha p) = 6 \<Longrightarrow> length (ar_tha p) = 6 \<Longrightarrow> length (arp_bytes p) = 28"
  by (simp add: arp_bytes_def)

lemma eth_hdr_parse:
  assumes "length (eh_pad h) = 5" "length (eh_dst h) = 6" "length (eh_src h) = 6"
  shows "eth_hdr_of (mem_of (eth_hdr_bytes h @ rest)) = h"
proof -
  let ?m = "mem_of (eth_hdr_bytes h @ rest)"
  have b: "eth_hdr_bytes h @ rest = [eh_ethno h] @ eh_pad h @ eh_dst h @ eh_src h @ put16 (eh_ethertype h) @ rest"
    by (simp add: eth_hdr_bytes_def)
  have "?m 0 = eh_ethno h" unfolding b by (simp add: mem_of_def)
  moreover have "mem_take (mem_at ?m 1) 5 = eh_pad h"
    unfolding b by (subst mem_at_append) (simp_all add: mem_take_append assms)
  moreover have "mem_take (mem_at ?m 6) 6 = eh_dst h"
    unfolding b using mem_at_append [of "[eh_ethno h] @ eh_pad h" 6] assms
    by (simp add: mem_take_append)
  moreover have "mem_take (mem_at ?m 12) 6 = eh_src h"
    unfolding b using mem_at_append [of "[eh_ethno h] @ eh_pad h @ eh_dst h" 12] assms
    by (simp add: mem_take_append)
  moreover have "be16 ?m 18 = eh_ethertype h"
    unfolding b using be16_at [of "[eh_ethno h] @ eh_pad h @ eh_dst h @ eh_src h" 18] assms by simp
  ultimately show ?thesis by (simp add: eth_hdr_of_def)
qed

lemma put32_halves: "put32 w = put16 (hi16 w) @ put16 (lo16 w)"
  by (simp add: put32_def)

lemma ip_hdr_bytes_eq:
  "ip_hdr_bytes h @ rest = put16 (ih_v_hl_tos h) @ put16 (ih_len h) @ put16 (ih_id h) @ put16 (ih_offset h)
     @ put16 (ih_ttl_proto h) @ put16 (ih_chksum h) @ put32 (ih_src h) @ put32 (ih_dest h) @ rest"
  by (simp add: ip_hdr_bytes_def ip_hdr_shorts_def put32_halves)

lemma ip_hdr_parse: "ip_hdr_of (mem_of (ip_hdr_bytes h @ rest)) = h"
  unfolding ip_hdr_of_def ip_hdr_bytes_eq
  using be16_at [of "[]" 0] be16_at [of "put16 (ih_v_hl_tos h)" 2]
    be16_at [of "put16 (ih_v_hl_tos h) @ put16 (ih_len h)" 4]
    be16_at [of "put16 (ih_v_hl_tos h) @ put16 (ih_len h) @ put16 (ih_id h)" 6]
    be16_at [of "put16 (ih_v_hl_tos h) @ put16 (ih_len h) @ put16 (ih_id h) @ put16 (ih_offset h)" 8]
    be16_at [of "put16 (ih_v_hl_tos h) @ put16 (ih_len h) @ put16 (ih_id h) @ put16 (ih_offset h) @ put16 (ih_ttl_proto h)" 10]
    be32_at [of "put16 (ih_v_hl_tos h) @ put16 (ih_len h) @ put16 (ih_id h) @ put16 (ih_offset h) @ put16 (ih_ttl_proto h) @ put16 (ih_chksum h)" 12]
    be32_at [of "put16 (ih_v_hl_tos h) @ put16 (ih_len h) @ put16 (ih_id h) @ put16 (ih_offset h) @ put16 (ih_ttl_proto h) @ put16 (ih_chksum h) @ put32 (ih_src h)" 16]
  by simp

lemma udp_hdr_parse: "udp_hdr_of (mem_of (udp_hdr_bytes h @ rest)) = h"
  unfolding udp_hdr_of_def udp_hdr_bytes_def
  using be16_at [of "[]" 0] be16_at [of "put16 (uh_src h)" 2] be16_at [of "put16 (uh_src h) @ put16 (uh_dest h)" 4]
    be16_at [of "put16 (uh_src h) @ put16 (uh_dest h) @ put16 (uh_len h)" 6]
  by simp

lemma icmp_hdr_parse: "icmp_hdr_of (mem_of (icmp_hdr_bytes h @ rest)) = h"
proof -
  let ?h = "[ic_type h, ic_code h]"
  let ?m = "mem_of (icmp_hdr_bytes h @ rest)"
  have b: "icmp_hdr_bytes h @ rest = ?h @ put16 (ic_chksum h) @ put16 (ic_id h) @ put16 (ic_seqno h) @ rest"
    by (simp add: icmp_hdr_bytes_def)
  have "?m 0 = ic_type h" "?m 1 = ic_code h"
    unfolding b by (simp_all add: mem_of_def)
  moreover have "be16 ?m 2 = ic_chksum h" unfolding b by (rule be16_at) simp
  moreover have "be16 ?m 4 = ic_id h"
    unfolding b using be16_at [of "?h @ put16 (ic_chksum h)" 4] by simp
  moreover have "be16 ?m 6 = ic_seqno h"
    unfolding b using be16_at [of "?h @ put16 (ic_chksum h) @ put16 (ic_id h)" 6] by simp
  ultimately show ?thesis by (simp add: icmp_hdr_of_def)
qed

lemma arp_parse:
  assumes "length (ar_sha p) = 6" "length (ar_tha p) = 6"
  shows "arp_of (mem_of (arp_bytes p @ rest)) = p"
proof -
  let ?h = "put16 (ar_hrd p) @ put16 (ar_pro p) @ [ar_hln p, ar_pln p]"
  let ?m = "mem_of (arp_bytes p @ rest)"
  have b: "arp_bytes p @ rest = ?h @ put16 (ar_op p) @ ar_sha p @ put32 (ar_sip p) @ ar_tha p @ put32 (ar_tip p) @ rest"
    by (simp add: arp_bytes_def)
  have "be16 ?m 0 = ar_hrd p" "be16 ?m 2 = ar_pro p" "be16 ?m 6 = ar_op p"
    unfolding b using be16_at [of "[]" 0] be16_at [of "put16 (ar_hrd p)" 2] be16_at [of ?h 6] by simp_all
  moreover have "?m 4 = ar_hln p" "?m 5 = ar_pln p"
    unfolding b by (simp_all add: mem_of_def nth_append)
  moreover have "mem_take (mem_at ?m 8) 6 = ar_sha p"
    unfolding b using mem_at_append [of "?h @ put16 (ar_op p)" 8] assms by (simp add: mem_take_append)
  moreover have "be32 ?m 14 = ar_sip p"
    unfolding b using be32_at [of "?h @ put16 (ar_op p) @ ar_sha p" 14] assms by simp
  moreover have "mem_take (mem_at ?m 18) 6 = ar_tha p"
    unfolding b using mem_at_append [of "?h @ put16 (ar_op p) @ ar_sha p @ put32 (ar_sip p)" 18] assms
    by (simp add: mem_take_append)
  moreover have "be32 ?m 24 = ar_tip p"
    unfolding b using be32_at [of "?h @ put16 (ar_op p) @ ar_sha p @ put32 (ar_sip p) @ ar_tha p" 24] assms by simp
  ultimately show ?thesis by (simp add: arp_of_def)
qed

subsection \<open>A sent frame holds its header and its payload\<close>

lemma copy_words_bytes:
  "concat (map put32 (copy_words p l)) = mem_take p (4 * unat ((l + 3) div 4))"
  unfolding copy_words_def by (rule concat_put32_words)

lemma unat_round_up:
  assumes "unat n + 3 < 2 ^ 32"
  shows "unat ((n + 3) div 4 :: u32) = (unat n + 3) div 4"
proof -
  have "unat (n + 3) = unat n + unat (3 :: u32)"
    using assms by (intro unat_u32_add_no_wrap) simp
  then show ?thesis by (simp add: unat_div)
qed

lemma copy_words_0 [simp]: "copy_words p 0 = []"
  by (simp add: copy_words_def)

lemma send_eth_pkt_log:
  assumes hdr: "length hdr = 48" and n: "unat n + 3 < 2 ^ 32"
  shows "\<exists>ws. tx_log (send_eth_pkt (mem_of hdr) 48 p n no_mem 0 s) = tx_log s @ [(ws, 48 + n)]
    \<and> (\<exists>pad. concat (map put32 ws) = hdr @ mem_take p (unat n) @ pad)"
proof -
  have h: "concat (map put32 (copy_words (mem_of hdr) 48)) = hdr"
    unfolding copy_words_bytes using mem_take_mem_of [of hdr] hdr by simp
  have "4 * ((unat n + 3) div 4) = unat n + (4 * ((unat n + 3) div 4) - unat n)" by arith
  then obtain k where k: "4 * ((unat n + 3) div 4) = unat n + k" by blast
  have p: "concat (map put32 (copy_words p n)) = mem_take p (unat n) @ mem_take (mem_at p (unat n)) k"
    unfolding copy_words_bytes unat_round_up [OF n] k by (rule mem_take_add)
  let ?b = "copy_words (mem_of hdr) 48 @ copy_words p n"
  have log: "tx_log (incr_stat_counts q s) = tx_log s" for q
    by (simp add: incr_stat_counts_def Let_def)
  show ?thesis
  proof (cases "length ?b mod 2 = 1")
    case True
    with h p log show ?thesis
      by (intro exI [of _ "?b @ [0]"]) (simp add: send_eth_pkt_def Let_def)
  next
    case False
    with h p log show ?thesis
      by (intro exI [of _ ?b]) (simp add: send_eth_pkt_def Let_def)
  qed
qed

subsection \<open>Resolving an address\<close>

lemma bcast_search_frame: "\<exists>b. snd (bcast_search d es s) = s\<lparr>net_conf_bcasts := b\<rparr>"
proof (induction es arbitrary: s)
  case Nil
  have "s = s\<lparr>net_conf_bcasts := net_conf_bcasts s\<rparr>" by simp
  then show ?case by (metis bcast_search.simps(1) snd_conv)
next
  case (Cons e es)
  show ?case
  proof (cases "fst (u3_net_stack_get_bcast (of_nat e) s) = d")
    case True
    then show ?thesis by (auto simp: u3_net_stack_get_bcast_def Let_def)
  next
    case False
    obtain b where "snd (bcast_search d es (snd (u3_net_stack_get_bcast (of_nat e) s)))
        = (snd (u3_net_stack_get_bcast (of_nat e) s))\<lparr>net_conf_bcasts := b\<rparr>"
      using Cons.IH by blast
    with False show ?thesis by (auto simp: u3_net_stack_get_bcast_def Let_def)
  qed
qed

lemma resolve_ip_frame: "\<exists>b. snd (resolve_ip d s) = s\<lparr>net_conf_bcasts := b\<rparr>"
  using bcast_search_frame [of d "[0..<MAX_NETHS]" s]
  by (auto simp: resolve_ip_def split: prod.splits)

lemma resolve_ip_fields [simp]:
  "tx_log (snd (resolve_ip d s)) = tx_log s" "junk_pad (snd (resolve_ip d s)) = junk_pad s"
  "junk_ttl (snd (resolve_ip d s)) = junk_ttl s"
  "u3_net_stack_get_mac_addr e (snd (resolve_ip d s)) = u3_net_stack_get_mac_addr e s"
  "u3_net_stack_get_ip_addr e (snd (resolve_ip d s)) = u3_net_stack_get_ip_addr e s"
  "net_stat_counts (snd (resolve_ip d s)) = net_stat_counts s"
  using resolve_ip_frame [of d s]
  by (auto simp: u3_net_stack_get_mac_addr_def u3_net_stack_get_ip_addr_def)

definition is_bcast :: "ip \<Rightarrow> 'a netstack_scheme \<Rightarrow> bool" where
  "is_bcast d s \<longleftrightarrow> (\<exists>e<MAX_NETHS. net_conf_ips s ! e OR NOT (net_conf_subnets s ! e) = d)"

lemma bcast_search_found:
  "(\<And>e. e \<in> set es \<Longrightarrow> e < MAX_NETHS) \<Longrightarrow>
   fst (bcast_search d es s) \<longleftrightarrow> (\<exists>e\<in>set es. net_conf_ips s ! e OR NOT (net_conf_subnets s ! e) = d)"
  by (induction es arbitrary: s)
     (auto simp: u3_net_stack_get_bcast_def u3_net_stack_get_ip_addr_def u3_net_stack_get_subnet_def
       Let_def of_nat_port)

lemma lookup_bcasts [simp]:
  "u3_net_stack_arp_cache_lookup d (s\<lparr>net_conf_bcasts := b\<rparr>) = u3_net_stack_arp_cache_lookup d s"
  by (simp add: u3_net_stack_arp_cache_lookup_def u3_net_stack_get_ip_addr_def u3_net_stack_get_mac_addr_def
      split: option.splits)

lemma resolve_ip_result:
  "fst (resolve_ip d s) = (if is_bcast d s then Some (replicate 6 0xff) else u3_net_stack_arp_cache_lookup d s)"
proof -
  have f: "fst (bcast_search d [0..<MAX_NETHS] s) \<longleftrightarrow> is_bcast d s"
    by (subst bcast_search_found) (auto simp: is_bcast_def)
  have "u3_net_stack_arp_cache_lookup d (snd (bcast_search d [0..<MAX_NETHS] s)) = u3_net_stack_arp_cache_lookup d s"
    using bcast_search_frame [of d "[0..<MAX_NETHS]" s] by auto
  with f show ?thesis by (simp add: resolve_ip_def case_prod_unfold)
qed

lemma net_wf_mac: "net_wf s \<Longrightarrow> unat e < MAX_NETHS \<Longrightarrow> length (u3_net_stack_get_mac_addr e s) = 6"
  by (simp add: net_wf_def u3_net_stack_get_mac_addr_def)

lemma net_wf_lookup: "net_wf s \<Longrightarrow> u3_net_stack_arp_cache_lookup d s = Some m \<Longrightarrow> length m = 6"
  by (auto simp: u3_net_stack_arp_cache_lookup_def net_wf_def u3_net_stack_get_mac_addr_def of_nat_port
      arp_wf_length dest!: find_index_bound split: option.splits)

lemma net_wf_resolve: "net_wf s \<Longrightarrow> fst (resolve_ip d s) = Some m \<Longrightarrow> length m = 6"
  by (auto simp: resolve_ip_result net_wf_lookup split: if_splits)

lemma arp_update_macs: "set (arp_cache_macs (u3_net_stack_arp_cache_update i m e s)) \<subseteq> insert m (set (arp_cache_macs s))"
  by (auto simp: u3_net_stack_arp_cache_update_def Let_def dest!: set_update_subset_insert [THEN subsetD]
      split: option.splits)

lemma net_wf_update:
  assumes "net_wf s" and "length m = 6"
  shows "net_wf (u3_net_stack_arp_cache_update i m e s)"
proof -
  have "net_conf_bcasts (u3_net_stack_arp_cache_update i m e s) = net_conf_bcasts s"
    "net_stat_counts (u3_net_stack_arp_cache_update i m e s) = net_stat_counts s"
    by (simp_all add: u3_net_stack_arp_cache_update_def Let_def split: option.splits)
  then show ?thesis
    using assms arp_update_macs [of i m e s] by (auto simp: net_wf_def arp_wf_update frame_simps)
qed

subsection \<open>The frames the senders build\<close>

definition ipv4_eth :: "u8 \<Rightarrow> mac \<Rightarrow> u16 \<Rightarrow> 'a netstack_scheme \<Rightarrow> padded_eth_hdr_t" where
  "ipv4_eth ethno dmac typ s = \<lparr>eh_ethno = ethno, eh_pad = junk_pad s, eh_dst = dmac,
     eh_src = u3_net_stack_get_mac_addr ethno s, eh_ethertype = typ\<rparr>"

lemma length_ipv4_eth:
  "net_wf s \<Longrightarrow> unat ethno < MAX_NETHS \<Longrightarrow> length dmac = 6 \<Longrightarrow> length (eth_hdr_bytes (ipv4_eth ethno dmac typ s)) = 20"
  by (rule length_eth_hdr_bytes) (simp_all add: ipv4_eth_def net_wf_mac, simp add: net_wf_def)

lemma send_udp_pkt_frame:
  assumes wf: "net_wf s" and e: "unat ethno < MAX_NETHS"
    and r: "fst (resolve_ip dst s) = Some dmac" and n: "unat n + 3 < 2 ^ 32"
  shows "\<exists>ws. tx_log (u3_net_stack_send_udp_pkt ethno dst sp dp buff n s) = tx_log s @ [(ws, 48 + n)]
    \<and> (\<exists>pad. concat (map put32 ws) = eth_hdr_bytes (ipv4_eth ethno dmac ETHERTYPE_IPV4 s)
          @ ip_hdr_bytes (fill_ip_hdr (IP_HLEN + UDP_HLEN + n) IP_PROTO_UDP (u3_net_stack_get_ip_addr ethno s) dst (raw_ip_hdr 0))
          @ udp_hdr_bytes \<lparr>uh_src = sp, uh_dest = dp, uh_len = ucast (UDP_HLEN + n), uh_chksum = 0\<rparr>
          @ mem_take buff (unat n) @ pad)"
proof -
  let ?hdr = "eth_hdr_bytes (ipv4_eth ethno dmac ETHERTYPE_IPV4 s)
      @ ip_hdr_bytes (fill_ip_hdr (IP_HLEN + UDP_HLEN + n) IP_PROTO_UDP (u3_net_stack_get_ip_addr ethno s) dst (raw_ip_hdr 0))
      @ udp_hdr_bytes \<lparr>uh_src = sp, uh_dest = dp, uh_len = ucast (UDP_HLEN + n), uh_chksum = 0\<rparr>"
  obtain s' where s': "resolve_ip dst s = (Some dmac, s')"
    using r by (cases "resolve_ip dst s") auto
  have "length ?hdr = 48"
    using length_ipv4_eth [OF wf e net_wf_resolve [OF wf r]] by simp
  from send_eth_pkt_log [OF this n, of buff s'] resolve_ip_fields [where d = dst and s = s]
  show ?thesis
    by (simp add: u3_net_stack_send_udp_pkt_def s' Let_def ipv4_eth_def fill_ip_hdr_junk [of _ _ _ _ "junk_ttl s"])
qed

definition echo_icmp_hdr :: "u8 \<Rightarrow> u8 \<Rightarrow> u16 \<Rightarrow> u16 \<Rightarrow> mem \<Rightarrow> u32 \<Rightarrow> icmp_echo_hdr" where
  "echo_icmp_hdr typ code ident sq buff n =
     (let h = \<lparr>ic_type = typ, ic_code = code, ic_chksum = 0, ic_id = ident, ic_seqno = sq\<rparr>
      in h\<lparr>ic_chksum := ucast (NOT (chksum_buffer (shorts_of buff (unat (n div 2)))
             (chksum_buffer (icmp_hdr_shorts h) 0)))\<rparr>)"

lemma send_icmp_pkt_frame:
  assumes wf: "net_wf s" and e: "unat ethno < MAX_NETHS"
    and r: "fst (resolve_ip dst s) = Some dmac" and n: "unat n + 3 < 2 ^ 32"
  shows "\<exists>ws. tx_log (u3_net_stack_send_icmp_pkt ethno typ code ident sq dst buff n s) = tx_log s @ [(ws, 48 + n)]
    \<and> (\<exists>pad. concat (map put32 ws) = eth_hdr_bytes (ipv4_eth ethno dmac ETHERTYPE_IPV4 s)
          @ ip_hdr_bytes (fill_ip_hdr (IP_HLEN + ICMP_HLEN + n) IP_PROTO_ICMP (u3_net_stack_get_ip_addr ethno s) dst (raw_ip_hdr 0))
          @ icmp_hdr_bytes (echo_icmp_hdr typ code ident sq buff n)
          @ mem_take buff (unat n) @ pad)"
proof -
  let ?hdr = "eth_hdr_bytes (ipv4_eth ethno dmac ETHERTYPE_IPV4 s)
      @ ip_hdr_bytes (fill_ip_hdr (IP_HLEN + ICMP_HLEN + n) IP_PROTO_ICMP (u3_net_stack_get_ip_addr ethno s) dst (raw_ip_hdr 0))
      @ icmp_hdr_bytes (echo_icmp_hdr typ code ident sq buff n)"
  obtain s' where s': "resolve_ip dst s = (Some dmac, s')"
    using r by (cases "resolve_ip dst s") auto
  have "length ?hdr = 48"
    using length_ipv4_eth [OF wf e net_wf_resolve [OF wf r]] by simp
  from send_eth_pkt_log [OF this n, of buff s'] resolve_ip_fields [where d = dst and s = s]
  show ?thesis
    by (simp add: u3_net_stack_send_icmp_pkt_def s' Let_def ipv4_eth_def echo_icmp_hdr_def
        fill_ip_hdr_junk [of _ _ _ _ "junk_ttl s"])
qed

subsection \<open>The receiver's view\<close>

lemma delivered_parts:
  assumes d: "delivered e f m" and f: "concat (map put32 (fst f)) = eth_hdr_bytes h @ rest"
    and len: "length (eh_pad h) = 5" "length (eh_dst h) = 6" "length (eh_src h) = 6"
  shows "eh_ethno (eth_hdr_of m) = e" "eh_src (eth_hdr_of m) = eh_src h"
    "eh_dst (eth_hdr_of m) = eh_dst h" "eh_ethertype (eth_hdr_of m) = eh_ethertype h"
    "mem_at m 20 = mem_of rest"
proof -
  let ?m = "frame_mem f"
  have p: "eth_hdr_of ?m = h" unfolding frame_mem_def f by (rule eth_hdr_parse [OF len])
  have eq: "mem_at m k = mem_at ?m k" if "k \<ge> 6" for k
    using d that by (auto simp: delivered_def mem_at_def)
  have be: "be16 m 18 = be16 ?m 18"
    using d by (simp add: delivered_def be16_def)
  show "eh_ethno (eth_hdr_of m) = e" using d by (simp add: eth_hdr_of_def delivered_def)
  show "eh_src (eth_hdr_of m) = eh_src h" "eh_dst (eth_hdr_of m) = eh_dst h"
    "eh_ethertype (eth_hdr_of m) = eh_ethertype h"
    using arg_cong [OF p, of eh_src] arg_cong [OF p, of eh_dst] arg_cong [OF p, of eh_ethertype]
      eq [of 6] eq [of 12] be by (simp_all add: eth_hdr_of_def)
  show "mem_at m 20 = mem_of rest"
    unfolding eq [of 20, simplified] frame_mem_def f by (rule mem_at_append) (rule length_eth_hdr_bytes [OF len])
qed

text \<open>What a receiver decodes from a delivered UDP frame, field by field.\<close>

lemma ucast16_32: "unat (x :: u32) < 65536 \<Longrightarrow> ucast (ucast x :: u16) = x"
proof -
  assume x: "unat x < 65536"
  have a: "unat (ucast x :: u16) = unat x"
    using x by (simp add: unsigned_ucast_eq take_bit_nat_eq_self)
  have "unat (ucast (ucast x :: u16) :: u32) = unat x"
    unfolding unat_ucast_u16_u32 by (rule a)
  then show ?thesis by (rule unsigned_word_eqI)
qed

lemma ucast_ip_len:
  assumes "unat n + k < 65536"
  shows "ucast (ucast (of_nat k + n) :: u16) = (of_nat k + n :: u32)"
  using assms by (intro ucast16_32, subst unat_u32_add_no_wrap)
    (simp_all add: unat_of_nat)

lemma delivered_ipv4:
  assumes d: "delivered e (ws, l) m" and wf: "net_wf s" and ee: "unat ethno < MAX_NETHS"
    and dm: "length dmac = 6"
    and f: "concat (map put32 ws) = eth_hdr_bytes (ipv4_eth ethno dmac typ s) @ ip_hdr_bytes iph @ hdr @ rest"
    and hdr: "length hdr = 8"
  shows "eh_ethno (eth_hdr_of m) = e" "eh_src (eth_hdr_of m) = u3_net_stack_get_mac_addr ethno s"
    "eh_dst (eth_hdr_of m) = dmac" "eh_ethertype (eth_hdr_of m) = typ"
    "ip_hdr_of (mem_at m 20) = iph" "mem_at m 40 = mem_of (hdr @ rest)" "mem_at m 48 = mem_of rest"
proof -
  have len: "length (eh_pad (ipv4_eth ethno dmac typ s)) = 5" "length (eh_dst (ipv4_eth ethno dmac typ s)) = 6"
      "length (eh_src (ipv4_eth ethno dmac typ s)) = 6"
    using wf ee dm by (simp_all add: ipv4_eth_def net_wf_mac) (simp add: net_wf_def)
  note parts = delivered_parts [OF d _ len, unfolded fst_conv, OF f]
  show "eh_ethno (eth_hdr_of m) = e" "eh_src (eth_hdr_of m) = u3_net_stack_get_mac_addr ethno s"
    "eh_dst (eth_hdr_of m) = dmac" "eh_ethertype (eth_hdr_of m) = typ"
    using parts by (simp_all add: ipv4_eth_def)
  show "ip_hdr_of (mem_at m 20) = iph" unfolding parts(5) by (rule ip_hdr_parse)
  have "mem_at m 40 = mem_at (mem_at m 20) 20" by simp
  also have "\<dots> = mem_of (hdr @ rest)" unfolding parts(5) by (rule mem_at_append) simp
  finally show m40: "mem_at m 40 = mem_of (hdr @ rest)" .
  have "mem_at m 48 = mem_at (mem_at m 40) 8" by simp
  also have "\<dots> = mem_of rest" unfolding m40 by (rule mem_at_append) (rule hdr)
  finally show "mem_at m 48 = mem_of rest" .
qed

lemma proto_bits [simp]:
  "IPH_PROTO (fill_ip_hdr len IP_PROTO_UDP src dst h) = IP_PROTO_UDP"
  "IPH_PROTO (fill_ip_hdr len IP_PROTO_ICMP src dst h) = IP_PROTO_ICMP"
  "IPH_V (fill_ip_hdr len p src dst h) = 4" "IPH_HL (fill_ip_hdr len p src dst h) = 5"
  by (simp_all add: IPH_PROTO_def IPH_V_def IPH_HL_def proto_consts)

lemma proto_distinct [simp]:
  "IP_PROTO_UDP \<noteq> IP_PROTO_ICMP" "IP_PROTO_ICMP \<noteq> IP_PROTO_UDP"
  "ETHERTYPE_IPV4 \<noteq> ETHERTYPE_ARP" "ARPOP_REQUEST \<noteq> ARPOP_REPLY"
  "ETHERTYPE_ARP \<noteq> ETHERTYPE_IPV4" "ARPOP_REPLY \<noteq> ARPOP_REQUEST"
  by (simp_all add: proto_consts)

lemma df_not_fragment [simp]: "IP_DF AND (IP_MF OR IP_OFFMASK) = 0"
  by (simp add: proto_consts)

subsection \<open>The ICMP checksum\<close>

lemma icmp_shorts_split:
  "icmp_hdr_shorts (echo_icmp_hdr typ code ident sq buff n) =
     [word_cat typ code] @ ucast (NOT (chksum_buffer (shorts_of buff (unat (n div 2)))
        (chksum_buffer [word_cat typ code, 0, ident, sq] 0))) # [ident, sq]"
  by (simp add: echo_icmp_hdr_def icmp_hdr_shorts_def Let_def)

lemma length_shorts_of [simp]: "length (shorts_of m n) = n"
  by (simp add: shorts_of_def)

text \<open>The shorts the sender summed, with the stored checksum among them, verify.\<close>

lemma icmp_summed_shorts_verify:
  assumes n: "unat n < 65536"
  shows "chksum_buffer (icmp_hdr_shorts (echo_icmp_hdr typ code ident sq buff n)
     @ shorts_of buff (unat (n div 2))) 0 = 0xffff"
proof -
  let ?ws = "shorts_of buff (unat (n div 2))"
  let ?hs = "[word_cat typ code, 0, ident, sq]"
  have k: "unat (n div 2) < 32768" using n by (simp add: unat_div)
  have len: "65535 * (length ?hs + length ?ws + 1) < 2 ^ 32" using k by simp
  have sum: "sum_list (map unat (?hs @ ?ws)) = sum_list (map unat ([word_cat typ code] @ [ident, sq] @ ?ws))"
    by simp
  note c = chksum_two_parts [OF len, unfolded sum]
  have "chksum_buffer ([word_cat typ code] @ ucast (NOT (chksum_buffer ?ws (chksum_buffer ?hs 0))) # [ident, sq] @ ?ws) 0 = 0xffff"
  proof (rule chksum_close)
    show "65535 * (length [word_cat typ code] + length ([ident, sq] @ ?ws) + 1) < 2 ^ 32" using k by simp
  qed (rule c)+
  then show ?thesis unfolding icmp_shorts_split by simp
qed

lemma icmp_hdr_bytes_shorts: "icmp_hdr_bytes h = concat (map put16 (icmp_hdr_shorts h))"
  by (simp add: icmp_hdr_bytes_def icmp_hdr_shorts_def put16_def bytes_simps)

lemma shorts_of_put16: "shorts_of (mem_of (concat (map put16 ws) @ rest)) (length ws) = ws"
proof (rule nth_equalityI)
  fix i assume "i < length (shorts_of (mem_of (concat (map put16 ws) @ rest)) (length ws))"
  then have i: "i < length ws" by simp
  have len: "length (concat (map put16 xs)) = 2 * length xs" for xs by (induction xs) simp_all
  have "concat (map put16 ws) @ rest = concat (map put16 (take i ws)) @ put16 (ws ! i)
     @ (concat (map put16 (drop (Suc i) ws)) @ rest)"
    using id_take_nth_drop [OF i] by (metis append.assoc concat.simps(2) concat_append list.simps(9) map_append)
  moreover have "length (concat (map put16 (take i ws))) = 2 * i" using i by (simp add: len)
  ultimately have "be16 (mem_of (concat (map put16 ws) @ rest)) (2 * i) = ws ! i"
    using be16_at by metis
  then show "shorts_of (mem_of (concat (map put16 ws) @ rest)) (length ws) ! i = ws ! i"
    using i by (simp add: shorts_of_def)
qed simp

lemma shorts_of_add: "shorts_of m (a + b) = shorts_of m a @ shorts_of (mem_at m (2 * a)) b"
  by (rule nth_equalityI) (auto simp: shorts_of_def nth_append be16_def mem_at_def algebra_simps)

lemma shorts_of_cong: "(\<And>i. i < 2 * n \<Longrightarrow> m i = m' i) \<Longrightarrow> shorts_of m n = shorts_of m' n"
  by (simp add: shorts_of_def be16_def)

lemma icmp_message_shorts:
  "shorts_of (mem_of (icmp_hdr_bytes h @ mem_take buff n @ rest)) (4 + n div 2)
     = icmp_hdr_shorts h @ shorts_of buff (n div 2)"
proof -
  have a: "shorts_of (mem_of (icmp_hdr_bytes h @ mem_take buff n @ rest)) 4 = icmp_hdr_shorts h"
  proof -
    have "length (icmp_hdr_shorts h) = 4" by (simp add: icmp_hdr_shorts_def)
    then show ?thesis
      unfolding icmp_hdr_bytes_shorts using shorts_of_put16 [of "icmp_hdr_shorts h" "mem_take buff n @ rest"] by simp
  qed
  have "mem_at (mem_of (icmp_hdr_bytes h @ mem_take buff n @ rest)) 8 = mem_of (mem_take buff n @ rest)"
    by (rule mem_at_append) simp
  moreover have "shorts_of (mem_of (mem_take buff n @ rest)) (n div 2) = shorts_of buff (n div 2)"
  proof (rule shorts_of_cong)
    fix i assume "i < 2 * (n div 2)"
    then have "i < n" using times_div_less_eq_dividend [of 2 n] by linarith
    then show "mem_of (mem_take buff n @ rest) i = buff i" by (simp add: mem_of_def nth_append)
  qed
  ultimately show ?thesis unfolding shorts_of_add a by simp
qed

subsection \<open>Operations that only transmit\<close>

definition net_out :: "'a netstack_scheme \<Rightarrow> 'a netstack_scheme \<Rightarrow> bool" where
  "net_out s s' \<longleftrightarrow> (\<exists>b c t p. s' = s\<lparr>net_conf_bcasts := b, net_stat_counts := c, tx_log := t, pkt_iface_config := p\<rparr>)"

lemma net_out_refl [simp]: "net_out s s"
  unfolding net_out_def
  by (intro exI [of _ "net_conf_bcasts s"] exI [of _ "net_stat_counts s"] exI [of _ "tx_log s"] exI [of _ "pkt_iface_config s"]) simp

lemma net_out_trans: "net_out s s' \<Longrightarrow> net_out s' s'' \<Longrightarrow> net_out s s''"
  unfolding net_out_def by (clarsimp, intro exI, rule refl)

lemma net_out_incr: "net_out s (incr_stat_counts p s)"
  unfolding net_out_def
  by (intro exI [of _ "net_conf_bcasts s"] exI [of _ "net_stat_counts (incr_stat_counts p s)"] exI [of _ "tx_log s"]
      exI [of _ "pkt_iface_config s"]) (simp add: incr_stat_counts_def Let_def)

lemma net_out_send: "net_out s (send_eth_pkt p0 l0 p1 l1 p2 l2 s)"
proof -
  have "net_out x (x\<lparr>tx_log := t, pkt_iface_config := c\<rparr>)" for x :: "'a netstack_scheme" and t c
    unfolding net_out_def
    by (intro exI [of _ "net_conf_bcasts x"] exI [of _ "net_stat_counts x"] exI [of _ t] exI [of _ c]) simp
  then show ?thesis
    unfolding send_eth_pkt_def Let_def by (rule net_out_trans [OF net_out_incr])
qed

lemma net_out_resolve: "net_out s (snd (resolve_ip d s))"
proof -
  obtain b where "snd (resolve_ip d s) = s\<lparr>net_conf_bcasts := b\<rparr>" using resolve_ip_frame by blast
  then show ?thesis
    unfolding net_out_def
    by (intro exI [of _ b] exI [of _ "net_stat_counts s"] exI [of _ "tx_log s"] exI [of _ "pkt_iface_config s"]) simp
qed

lemma net_out_udp: "net_out s (u3_net_stack_send_udp_pkt e d sp dp buff n s)"
  unfolding u3_net_stack_send_udp_pkt_def Let_def case_prod_unfold
  by (auto split: option.splits intro: net_out_resolve net_out_trans [OF net_out_resolve net_out_send])

lemma net_out_icmp: "net_out s (u3_net_stack_send_icmp_pkt e ty c i sq d buff n s)"
  unfolding u3_net_stack_send_icmp_pkt_def Let_def case_prod_unfold
  by (auto split: option.splits intro: net_out_resolve net_out_trans [OF net_out_resolve net_out_send])

lemma net_out_arp_request: "net_out s (u3_net_stack_send_arp_request e a s)"
  unfolding u3_net_stack_send_arp_request_def Let_def by (rule net_out_send)

lemma net_out_bcast: "net_out s (snd (u3_net_stack_get_bcast e s))"
  unfolding net_out_def u3_net_stack_get_bcast_def Let_def
  by (intro exI [of _ "(net_conf_bcasts s)[unat e := _]"] exI [of _ "net_stat_counts s"] exI [of _ "tx_log s"]
      exI [of _ "pkt_iface_config s"]) simp

text \<open>What that leaves alone.\<close>

lemma net_out_keeps:
  assumes "net_out s s'"
  shows "trace s' = trace s" "dev s' = dev s" "net_conf_ips s' = net_conf_ips s" "net_conf_macs s' = net_conf_macs s"
    "net_conf_subnets s' = net_conf_subnets s" "udp_handlers s' = udp_handlers s" "icmp_handlers s' = icmp_handlers s"
    "arp_cache_ips s' = arp_cache_ips s" "arp_cache_macs s' = arp_cache_macs s" "netstack.more s' = netstack.more s"
  using assms by (auto simp: net_out_def)

end
