(* ===== verification/NetProps.thy ===== *)
theory NetProps
  imports NetFrames
begin

unbundle bit_operations_syntax

section \<open>Properties of the USRP3 network stack\<close>

text \<open>
  The properties of \<^verbatim>\<open>u3_net_stack.c\<close>, each with a witness at a concrete
  configuration (\<open>demo\<close>): two ports, two peers in the ARP cache, one UDP handler that records
  its calls in the transmit log, where a witness can see them.
\<close>

subsection \<open>A concrete stack\<close>

definition demo :: "unit netstack_scheme" where
  "demo = \<lparr>dev = (\<lambda>_ _. 0), trace = [], arp_cache_wr_index = 1,
     arp_cache_ips = 0xC0A80A01 # replicate 31 0,
     arp_cache_macs = [1, 2, 3, 4, 5, 6] # replicate 31 (replicate 6 0),
     arp_cache_eths = replicate 32 0,
     net_conf_ips = [0xC0A80A02, 0xC0A81402, 0, 0],
     net_conf_macs = [[0, 0x50, 0xC2, 0x85, 0x3f, 0xff], [0, 0x50, 0xC2, 0x85, 0x3f, 0x33],
       replicate 6 0, replicate 6 0],
     net_conf_subnets = [0xFFFFFF00, 0xFFFFFF00, 0, 0],
     net_conf_bcasts = [0, 0, 0, 0], net_stat_counts = [0, 0, 0, 0],
     udp_handlers = [(49152, Udp_fw_comms)], icmp_handlers = [((8, 0), Icmp_echo), ((3, 3), Icmp_dur)],
     tx_log = [], junk_pad = [0, 0, 0, 0, 0], junk_ttl = 0xDEAD,
     pkt_iface_config = \<lparr>pkt_base = 0x8000, pkt_ctrl = 0, pkt_config_addr = 0x9ffc\<rparr>\<rparr>"

text \<open>A handler that records the call it gets.\<close>

definition log_call :: "udp_handler \<Rightarrow> unit handler" where
  "log_call h ethno src dst a b m n s =
     Some (s\<lparr>tx_log := tx_log s @ [([src, dst, ucast a, ucast b, n], ucast ethno)]\<rparr>)"

lemma demo_wf: "net_wf demo"
proof -
  have "arp_wf demo"
    unfolding arp_wf_def demo_def net_consts
    by (auto simp: nth_Cons nth_replicate split: nat.splits)
  then show ?thesis
    by (simp add: net_wf_def) (simp add: demo_def net_consts)
qed

text \<open>Packets for the witnesses, from a peer at 192.168.10.99.\<close>

definition peer_eth :: "u16 \<Rightarrow> padded_eth_hdr_t" where
  "peer_eth t = \<lparr>eh_ethno = 0, eh_pad = [0, 0, 0, 0, 0], eh_dst = [0, 0x50, 0xC2, 0x85, 0x3f, 0xff],
     eh_src = [7, 7, 7, 7, 7, 7], eh_ethertype = t\<rparr>"

definition peer_ip :: "u32 \<Rightarrow> u16 \<Rightarrow> ip_hdr" where
  "peer_ip len proto = fill_ip_hdr len proto 0xC0A80A63 0xC0A80A02 (raw_ip_hdr 0)"

definition peer_pkt :: "u32 \<Rightarrow> u16 \<Rightarrow> u8 list \<Rightarrow> mem" where
  "peer_pkt len proto body = mem_of (eth_hdr_bytes (peer_eth ETHERTYPE_IPV4) @ ip_hdr_bytes (peer_ip len proto) @ body)"

definition peer_arp :: arp_eth_ipv4 where
  "peer_arp = \<lparr>ar_hrd = ARPHRD_ETHER, ar_pro = ETHERTYPE_IPV4, ar_hln = 6, ar_pln = 4, ar_op = ARPOP_REQUEST,
     ar_sha = [7, 7, 7, 7, 7, 7], ar_sip = 0xC0A80A63, ar_tha = [0, 0, 0, 0, 0, 0], ar_tip = 0xC0A80A02\<rparr>"

definition peer_arp_pkt :: mem where
  "peer_arp_pkt = mem_of (eth_hdr_bytes (peer_eth ETHERTYPE_ARP) @ arp_bytes peer_arp @ [])"

lemma length_peer_eth: "length (eth_hdr_bytes (peer_eth t)) = 20"
  by (rule length_eth_hdr_bytes) (simp_all add: peer_eth_def)

lemma peer_pkt_view:
  "eth_hdr_of (peer_pkt len proto body) = peer_eth ETHERTYPE_IPV4"
  "ip_hdr_of (mem_at (peer_pkt len proto body) 20) = peer_ip len proto"
  "mem_at (peer_pkt len proto body) 40 = mem_of body"
proof -
  show "eth_hdr_of (peer_pkt len proto body) = peer_eth ETHERTYPE_IPV4"
    unfolding peer_pkt_def by (rule eth_hdr_parse) (simp_all add: peer_eth_def)
  have a: "mem_at (peer_pkt len proto body) 20 = mem_of (ip_hdr_bytes (peer_ip len proto) @ body)"
    unfolding peer_pkt_def by (rule mem_at_append) (rule length_peer_eth)
  show "ip_hdr_of (mem_at (peer_pkt len proto body) 20) = peer_ip len proto"
    unfolding a by (rule ip_hdr_parse)
  have "mem_at (peer_pkt len proto body) 40 = mem_at (mem_at (peer_pkt len proto body) 20) 20" by simp
  also have "\<dots> = mem_of body" unfolding a by (rule mem_at_append) simp
  finally show "mem_at (peer_pkt len proto body) 40 = mem_of body" .
qed

lemma peer_arp_view:
  "eth_hdr_of peer_arp_pkt = peer_eth ETHERTYPE_ARP" "arp_of (mem_at peer_arp_pkt 20) = peer_arp"
proof -
  show "eth_hdr_of peer_arp_pkt = peer_eth ETHERTYPE_ARP"
    unfolding peer_arp_pkt_def by (rule eth_hdr_parse) (simp_all add: peer_eth_def)
  have "mem_at peer_arp_pkt 20 = mem_of (arp_bytes peer_arp @ [])"
    unfolding peer_arp_pkt_def by (rule mem_at_append) (rule length_peer_eth)
  then show "arp_of (mem_at peer_arp_pkt 20) = peer_arp"
    using arp_parse [of peer_arp "[]"] by (simp add: peer_arp_def)
qed

lemma demo_bcast: "is_bcast d demo \<longleftrightarrow> d = 0xC0A80AFF \<or> d = 0xC0A814FF \<or> d = 0xFFFFFFFF"
  unfolding is_bcast_def MAX_NETHS_def ex_less_4 by (auto simp: demo_def)

lemma demo_conf:
  "u3_net_stack_get_ip_addr 0 demo = 0xC0A80A02" "arp_foreign demo 0xC0A80A63" "\<not> is_bcast 0xC0A80A63 demo"
  "udp_handlers demo = [(49152, Udp_fw_comms)]" "icmp_handlers demo = [((8, 0), Icmp_echo), ((3, 3), Icmp_dur)]"
  "tx_log demo = []" "unat (0 :: u8) < MAX_NETHS"
  by (simp_all add: demo_bcast) (simp_all add: demo_def u3_net_stack_get_ip_addr_def arp_foreign_def net_consts)

lemma demo_resolve: "fst (resolve_ip 0xC0A80A01 demo) = Some [1, 2, 3, 4, 5, 6]"
proof -
  have wf: "arp_wf demo" using demo_wf by (simp add: net_wf_def)
  have f: "arp_foreign demo 0xC0A80A01" by (simp add: arp_foreign_def demo_def)
  have b: "\<not> is_bcast 0xC0A80A01 demo" by (simp add: demo_bcast)
  show ?thesis unfolding resolve_ip_result arp_lookup_foreign [OF wf f] using b by (simp add: demo_def)
qed

subsection \<open>Properties\<close>

text \<open>The 16-bit one's complement sum is right for every buffer a packet can hold: folding the
  carries leaves a value below 65536 that is congruent modulo 65535 to the initial value plus
  the sum of the shorts, and that is zero only if all of them are.\<close>

theorem chksum_buffer_correct:
  assumes "length ws \<le> 65536" and "unat init < 65536"
  shows "unat (chksum_buffer ws init) < 65536
    \<and> unat (chksum_buffer ws init) mod 65535 = (unat init + sum_list (map unat ws)) mod 65535
    \<and> (chksum_buffer ws init = 0 \<longleftrightarrow> init = 0 \<and> (\<forall>i<length ws. ws ! i = 0))"
proof -
  from assms have h: "unat init + 65535 * length ws < 2 ^ 32" by simp
  have "chksum_buffer ws init = 0 \<longleftrightarrow> unat (chksum_buffer ws init) = 0"
    by (rule unsigned_eq_0_iff [symmetric])
  also have "\<dots> \<longleftrightarrow> unat init + sum_list (map unat ws) = 0"
    by (rule chksum_buffer_props(3) [OF h])
  also have "\<dots> \<longleftrightarrow> init = 0 \<and> (\<forall>i<length ws. ws ! i = 0)"
    by (auto simp: unsigned_eq_0_iff all_set_conv_all_nth)
  finally show ?thesis using chksum_buffer_props(1,2) [OF h] by blast
qed

lemma chksum_buffer_correct_witness:
  "unat (chksum_buffer [0xffff, 0xffff, 2] 1) < 65536
    \<and> unat (chksum_buffer [0xffff, 0xffff, 2] 1) mod 65535 = 3"
  using chksum_buffer_correct [of "[0xffff, 0xffff, 2]" 1] by simp

text \<open>Every IPv4 header the stack fills in verifies at its receiver: the one's complement sum
  over its ten shorts, checksum included, is all ones, whatever the length, protocol,
  addresses and whatever the uninitialised structure held before.\<close>

theorem ip_header_verifies:
  "chksum_buffer (ip_hdr_shorts (fill_ip_hdr len proto src dst h)) 0 = 0xffff"
  by (rule fill_ip_hdr_verifies)

text \<open>C6. The ARP cache never answers with a forged or superseded address: after any sequence of
  updates, what a lookup returns for a foreign address is the binding that address was given
  last, or, if the sequence does not mention it, what the cache held before.\<close>

theorem arp_cache_sound:
  assumes "arp_wf s" and "arp_foreign s i"
    and "u3_net_stack_arp_cache_lookup i (arp_run (\<lambda>i m. u3_net_stack_arp_cache_update i m e) us s) = Some m"
  shows "last_binding us i = Some m
    \<or> last_binding us i = None \<and> u3_net_stack_arp_cache_lookup i s = Some m"
  using assms by (rule u3_arp.run_lookup_sound)

lemma arp_cache_sound_witness:
  "last_binding [(7 :: ip, [1, 1, 1, 1, 1, 1]), (7, [2, 2, 2, 2, 2, 2])] 7 = Some [2, 2, 2, 2, 2, 2 :: u8]
   \<or> last_binding [(7, [1, 1, 1, 1, 1, 1]), (7, [2, 2, 2, 2, 2, 2])] (7 :: ip) = (None :: mac option)
     \<and> u3_net_stack_arp_cache_lookup 7 demo = Some [2, 2, 2, 2, 2, 2]"
proof -
  have wf: "arp_wf demo" using demo_wf by (simp add: net_wf_def)
  have f: "arp_foreign demo 7" by (simp add: arp_foreign_def demo_def)
  have "u3_net_stack_arp_cache_lookup 7
      (arp_run (\<lambda>i m. u3_net_stack_arp_cache_update i m 0) ([(7, [1, 1, 1, 1, 1, 1])] @ [(7, [2, 2, 2, 2, 2, 2])]) demo)
      = Some [2, 2, 2, 2, 2, 2]"
    by (rule u3_arp.run_lookup_last [OF wf f])
  from arp_cache_sound [OF wf f this] show ?thesis by simp
qed

text \<open>An address that is put in the cache is found there at once, on every well formed cache,
  full or not.\<close>

theorem arp_update_visible:
  assumes "arp_wf s" and "arp_foreign s i"
  shows "u3_net_stack_arp_cache_lookup i (u3_net_stack_arp_cache_update i m e s) = Some m
    \<and> arp_wf (u3_net_stack_arp_cache_update i m e s)"
  using u3_arp.lookup_update_same [OF assms] u3_arp.invar_update [OF assms(1)] by simp

lemma arp_update_visible_witness:
  "u3_net_stack_arp_cache_lookup 9 (u3_net_stack_arp_cache_update 9 [9, 9, 9, 9, 9, 9] 1 demo) = Some [9, 9, 9, 9, 9, 9]"
proof -
  have wf: "arp_wf demo" using demo_wf by (simp add: net_wf_def)
  have f: "arp_foreign demo 9" by (simp add: arp_foreign_def demo_def)
  from arp_update_visible [OF wf f] show ?thesis by blast
qed

lemma udp_delivery:
  assumes wf: "net_wf a" and e: "unat ethno < MAX_NETHS"
    and r: "fst (resolve_ip dst a) = Some dmac" and n: "unat n + 28 < 65536"
    and d: "delivered e' (last (tx_log (u3_net_stack_send_udp_pkt ethno dst sp dp buff n a))) m"
    and h: "find_index (\<lambda>(port, h). port = dp) (udp_handlers b) = Some i"
  shows "\<exists>p. handle_eth_packet run_udp run_icmp m len b =
      run_udp (snd (udp_handlers b ! i)) e' (u3_net_stack_get_ip_addr ethno a) (u3_net_stack_get_ip_addr e' b)
        sp dp (Some p) n
        (u3_net_stack_arp_cache_update (u3_net_stack_get_ip_addr ethno a) (u3_net_stack_get_mac_addr ethno a) e' b)
    \<and> (\<forall>k<unat n. p k = buff k)"
proof -
  from n have n3: "unat n + 3 < 2 ^ 32" by simp
  let ?iph = "fill_ip_hdr (IP_HLEN + UDP_HLEN + n) IP_PROTO_UDP (u3_net_stack_get_ip_addr ethno a) dst (raw_ip_hdr 0)"
  let ?udp = "\<lparr>uh_src = sp, uh_dest = dp, uh_len = ucast (UDP_HLEN + n), uh_chksum = 0\<rparr>"
  from send_udp_pkt_frame [OF wf e r n3, of sp dp buff] obtain ws pad where
    log: "tx_log (u3_net_stack_send_udp_pkt ethno dst sp dp buff n a) = tx_log a @ [(ws, 48 + n)]" and
    bytes: "concat (map put32 ws) = eth_hdr_bytes (ipv4_eth ethno dmac ETHERTYPE_IPV4 a)
       @ ip_hdr_bytes ?iph @ udp_hdr_bytes ?udp @ mem_take buff (unat n) @ pad" by blast
  from d log have d': "delivered e' (ws, 48 + n) m" by simp
  note v = delivered_ipv4 [OF d' wf e net_wf_resolve [OF wf r] bytes length_udp_hdr_bytes]
  have u: "udp_hdr_of (mem_at m 40) = ?udp" unfolding v(6) by (rule udp_hdr_parse)
  have pay: "\<forall>k<unat n. mem_at m 48 k = buff k"
    unfolding v(7) by (simp add: mem_of_def nth_append)
  have len: "ucast (ucast (IP_HLEN + UDP_HLEN + n) :: u16) - IP_HLEN - UDP_HLEN = n"
    using ucast_ip_len [of n 28] n by (simp add: proto_consts)
  show ?thesis
    using v(1-5) u h len pay
    by (intro exI [of _ "mem_at m 48"])
       (simp add: handle_eth_packet_def handle_udp_packet_def Let_def frame_simps
         u3_net_stack_get_ip_addr_def)
qed

text \<open>C1. A UDP datagram sent by one stack and delivered to another reaches exactly the handler
  registered first for its destination port, with the sender's address, both ports, the
  payload length, and a buffer that holds the payload; and the receiver learns the sender's
  Ethernet address on the way.\<close>

theorem udp_end_to_end:
  assumes wf: "net_wf a" and e: "unat ethno < MAX_NETHS"
    and r: "fst (resolve_ip dst a) = Some dmac" and n: "unat n + 28 < 65536"
    and d: "delivered e' (last (tx_log (u3_net_stack_send_udp_pkt ethno dst sp dp buff n a))) m"
    and h: "find_index (\<lambda>(port, h). port = dp) (udp_handlers b) = Some i"
  shows "\<exists>p. handle_eth_packet run_udp run_icmp m len b =
      run_udp (snd (udp_handlers b ! i)) e' (u3_net_stack_get_ip_addr ethno a) (u3_net_stack_get_ip_addr e' b)
        sp dp (Some p) n
        (u3_net_stack_arp_cache_update (u3_net_stack_get_ip_addr ethno a) (u3_net_stack_get_mac_addr ethno a) e' b)
    \<and> (\<forall>k<unat n. p k = buff k)"
  by (rule udp_delivery [OF assms])

lemma udp_end_to_end_witness:
  "\<exists>p. handle_eth_packet log_call (\<lambda>_. handle_icmp_echo_packet)
       ((frame_mem (last (tx_log (u3_net_stack_send_udp_pkt 0 0xC0A80A01 1000 49152 (mem_of [10, 20, 30]) 3 demo))))(0 := 1))
       51 demo =
     log_call Udp_fw_comms 1 0xC0A80A02 0xC0A81402 1000 49152 (Some p) 3
       (u3_net_stack_arp_cache_update 0xC0A80A02 [0, 0x50, 0xC2, 0x85, 0x3f, 0xff] 1 demo)
     \<and> (\<forall>k<3. p k = mem_of [10, 20, 30] k)"
proof -
  let ?f = "last (tx_log (u3_net_stack_send_udp_pkt 0 0xC0A80A01 1000 49152 (mem_of [10, 20, 30]) 3 demo))"
  have d: "delivered 1 ?f ((frame_mem ?f)(0 := 1))" by (simp add: delivered_def)
  have h: "find_index (\<lambda>(port, h). port = 49152) (udp_handlers demo) = Some 0" by (simp add: demo_conf)
  have n: "unat (3 :: u32) + 28 < 65536" by simp
  from udp_end_to_end [OF demo_wf demo_conf(7) demo_resolve n d h, of log_call "\<lambda>_. handle_icmp_echo_packet" 51]
  show ?thesis
    by (simp add: demo_conf(1,4)) (simp add: demo_def u3_net_stack_get_ip_addr_def u3_net_stack_get_mac_addr_def)
qed

text \<open>C2. A ping is answered.  An unfragmented IPv4 ICMP echo request that arrives on a port, from a
  foreign address that is no broadcast, makes the stack send exactly one frame: to the
  Ethernet address the request came from, from the port's address to the request's
  source, an echo reply with the request's identifier and sequence number and its payload.\<close>

theorem icmp_echo_answered:
  fixes s :: "'a netstack_scheme" and m :: mem
  defines "eth \<equiv> eth_hdr_of m" and "iph \<equiv> ip_hdr_of (mem_at m 20)" and "icmp \<equiv> icmp_hdr_of (mem_at m 40)"
  assumes wf: "net_wf s" and e: "unat (eh_ethno eth) < MAX_NETHS"
    and v4: "eh_ethertype eth = ETHERTYPE_IPV4" "IPH_V iph = 4" "IPH_HL iph = 5"
      "ih_offset iph AND (IP_MF OR IP_OFFMASK) = 0" "IPH_PROTO iph = IP_PROTO_ICMP"
    and src: "arp_foreign s (ih_src iph)" "\<not> is_bcast (ih_src iph) s"
    and len: "28 \<le> ih_len iph"
    and tab: "find_index (\<lambda>((typ, code), f). typ = ic_type icmp \<and> code = ic_code icmp) (icmp_handlers s) = Some i"
      "snd (icmp_handlers s ! i) = Icmp_echo" "run_icmp Icmp_echo = handle_icmp_echo_packet"
  shows "\<exists>t ws pad. handle_eth_packet run_udp run_icmp m num_bytes s = Some t
    \<and> tx_log t = tx_log s @ [(ws, 20 + ucast (ih_len iph))]
    \<and> concat (map put32 ws) = eth_hdr_bytes (ipv4_eth (eh_ethno eth) (eh_src eth) ETHERTYPE_IPV4 s)
        @ ip_hdr_bytes (fill_ip_hdr (ucast (ih_len iph)) IP_PROTO_ICMP
             (u3_net_stack_get_ip_addr (eh_ethno eth) s) (ih_src iph) (raw_ip_hdr 0))
        @ icmp_hdr_bytes (echo_icmp_hdr ICMP_ER 0 (ic_id icmp) (ic_seqno icmp) (mem_at m 48) (ucast (ih_len iph) - 28))
        @ mem_take (mem_at m 48) (unat (ih_len iph) - 28) @ pad"
proof -
  let ?s = "u3_net_stack_arp_cache_update (ih_src iph) (eh_src eth) (eh_ethno eth) s"
  let ?n = "ucast (ih_len iph) - 28 :: u32"
  have m6: "length (eh_src eth) = 6" by (simp add: eth_def eth_hdr_of_def)
  have wf': "net_wf ?s" using net_wf_update [OF wf m6] .
  have nb: "\<not> is_bcast (ih_src iph) ?s" using src(2) by (simp add: is_bcast_def frame_simps)
  have aw: "arp_wf s" using wf by (simp add: net_wf_def)
  have r: "fst (resolve_ip (ih_src iph) ?s) = Some (eh_src eth)"
    using nb arp_update_visible [OF aw src(1)] by (simp add: resolve_ip_result)
  have un: "unat ?n = unat (ih_len iph) - 28"
    using len by (subst unat_sub) (simp_all add: word_le_nat_alt)
  then have n3: "unat ?n + 3 < 2 ^ 32" using unat_u16_less [of "ih_len iph"] by simp
  from send_icmp_pkt_frame [OF wf' e r n3, of ICMP_ER 0 "ic_id icmp" "ic_seqno icmp" "mem_at m 48"]
  obtain ws pad where
    log: "tx_log (u3_net_stack_send_icmp_pkt (eh_ethno eth) ICMP_ER 0 (ic_id icmp) (ic_seqno icmp) (ih_src iph)
        (mem_at m 48) ?n ?s) = tx_log s @ [(ws, 48 + ?n)]"
    and bytes: "concat (map put32 ws) = eth_hdr_bytes (ipv4_eth (eh_ethno eth) (eh_src eth) ETHERTYPE_IPV4 ?s)
        @ ip_hdr_bytes (fill_ip_hdr (IP_HLEN + ICMP_HLEN + ?n) IP_PROTO_ICMP
             (u3_net_stack_get_ip_addr (eh_ethno eth) ?s) (ih_src iph) (raw_ip_hdr 0))
        @ icmp_hdr_bytes (echo_icmp_hdr ICMP_ER 0 (ic_id icmp) (ic_seqno icmp) (mem_at m 48) ?n)
        @ mem_take (mem_at m 48) (unat ?n) @ pad"
    by (auto simp: frame_simps)
  have l: "48 + ?n = 20 + ucast (ih_len iph)" "IP_HLEN + ICMP_HLEN + ?n = ucast (ih_len iph)"
    by (simp_all add: proto_consts)
  have run: "handle_eth_packet run_udp run_icmp m num_bytes s =
      Some (u3_net_stack_send_icmp_pkt (eh_ethno eth) ICMP_ER 0 (ic_id icmp) (ic_seqno icmp) (ih_src iph)
        (mem_at m 48) ?n ?s)"
    using v4 tab
    by (simp add: handle_eth_packet_def handle_icmp_packet_def handle_icmp_echo_packet_def Let_def frame_simps
        IP_HLEN_def ICMP_HLEN_def flip: eth_def iph_def icmp_def)
  have same: "ipv4_eth (eh_ethno eth) (eh_src eth) ETHERTYPE_IPV4 ?s = ipv4_eth (eh_ethno eth) (eh_src eth) ETHERTYPE_IPV4 s"
      "u3_net_stack_get_ip_addr (eh_ethno eth) ?s = u3_net_stack_get_ip_addr (eh_ethno eth) s"
    by (simp_all add: ipv4_eth_def u3_net_stack_get_mac_addr_def u3_net_stack_get_ip_addr_def frame_simps)
  show ?thesis
    using run log bytes unfolding same l(1,2) un by blast
qed

lemma icmp_echo_answered_witness:
  "\<exists>t ws. handle_eth_packet log_call (\<lambda>_. handle_icmp_echo_packet)
      (peer_pkt 32 IP_PROTO_ICMP [8, 0, 0, 0, 0, 5, 0, 1, 1, 2, 3, 4]) 52 demo = Some t \<and> tx_log t = [(ws, 52)]"
proof -
  let ?body = "[8, 0, 0, 0, 0, 5, 0, 1, 1, 2, 3, 4] :: u8 list"
  let ?m = "peer_pkt 32 IP_PROTO_ICMP ?body"
  have "ic_type (icmp_hdr_of (mem_of ?body)) = 8" "ic_code (icmp_hdr_of (mem_of ?body)) = 0"
    by (simp_all add: icmp_hdr_of_def mem_of_def)
  then have tab: "find_index (\<lambda>((typ, code), f). typ = ic_type (icmp_hdr_of (mem_at ?m 40))
      \<and> code = ic_code (icmp_hdr_of (mem_at ?m 40))) (icmp_handlers demo) = Some 0"
    by (simp add: peer_pkt_view demo_conf)
  show ?thesis
    using icmp_echo_answered [of demo ?m 0 "\<lambda>_. handle_icmp_echo_packet" log_call 52, OF demo_wf _ _ _ _ _ _ _ _ _ tab]
      demo_conf
    by (simp add: peer_pkt_view(1,2)) (simp add: peer_eth_def peer_ip_def demo_conf MAX_NETHS_def, blast)
qed

text \<open>C3. An ARP request for a port's own address is answered by exactly one frame, sent to the
  asker: an ARP reply that binds the asked address to the port's Ethernet address.  The
  request teaches the cache nothing.\<close>

theorem arp_request_answered:
  fixes s :: "'a netstack_scheme" and m :: mem
  defines "eth \<equiv> eth_hdr_of m" and "p \<equiv> arp_of (mem_at m 20)"
  assumes wf: "net_wf s" and e: "unat (eh_ethno eth) < MAX_NETHS"
    and req: "eh_ethertype eth = ETHERTYPE_ARP" "ar_hrd p = ARPHRD_ETHER" "ar_pro p = ETHERTYPE_IPV4"
      "ar_hln p = 6" "ar_pln p = 4" "ar_op p = ARPOP_REQUEST"
    and own: "ar_tip p = u3_net_stack_get_ip_addr (eh_ethno eth) s"
  shows "\<exists>t ws pad. handle_eth_packet run_udp run_icmp m num_bytes s = Some t
    \<and> tx_log t = tx_log s @ [(ws, 48)]
    \<and> concat (map put32 ws) = eth_hdr_bytes (ipv4_eth (eh_ethno eth) (ar_sha p) ETHERTYPE_ARP s)
        @ arp_bytes \<lparr>ar_hrd = ARPHRD_ETHER, ar_pro = ETHERTYPE_IPV4, ar_hln = 6, ar_pln = 4, ar_op = ARPOP_REPLY,
             ar_sha = u3_net_stack_get_mac_addr (eh_ethno eth) s, ar_sip = ar_tip p,
             ar_tha = ar_sha p, ar_tip = ar_sip p\<rparr> @ pad
    \<and> arp_cache_ips t = arp_cache_ips s \<and> arp_cache_macs t = arp_cache_macs s"
proof -
  let ?hdr = "eth_hdr_bytes (ipv4_eth (eh_ethno eth) (ar_sha p) ETHERTYPE_ARP s)
        @ arp_bytes \<lparr>ar_hrd = ARPHRD_ETHER, ar_pro = ETHERTYPE_IPV4, ar_hln = 6, ar_pln = 4, ar_op = ARPOP_REPLY,
             ar_sha = u3_net_stack_get_mac_addr (eh_ethno eth) s, ar_sip = ar_tip p,
             ar_tha = ar_sha p, ar_tip = ar_sip p\<rparr>"
  have sha: "length (ar_sha p) = 6" by (simp add: p_def arp_of_def)
  have len: "length ?hdr = 48"
    using length_ipv4_eth [OF wf e sha] by (simp add: length_arp_bytes sha net_wf_mac [OF wf e])
  have run: "handle_eth_packet run_udp run_icmp m num_bytes s = Some (send_eth_pkt (mem_of ?hdr) 48 no_mem 0 no_mem 0 s)"
    using req own by (simp add: handle_eth_packet_def handle_arp_packet_def send_arp_reply_def Let_def ipv4_eth_def
        flip: eth_def p_def)
  have keep: "arp_cache_ips (send_eth_pkt a b c d f g s) = arp_cache_ips s"
    "arp_cache_macs (send_eth_pkt a b c d f g s) = arp_cache_macs s" for a b c d f g
    by (simp_all add: send_eth_pkt_def incr_stat_counts_def Let_def)
  from send_eth_pkt_log [OF len, of 0 no_mem s] run keep show ?thesis
    by (auto simp: mem_take_def)
qed

lemma arp_request_answered_witness:
  "\<exists>t ws. handle_eth_packet log_call (\<lambda>_. handle_icmp_echo_packet) peer_arp_pkt 48 demo = Some t
     \<and> tx_log t = [(ws, 48)]"
  using arp_request_answered [of demo peer_arp_pkt log_call "\<lambda>_. handle_icmp_echo_packet" 48, OF demo_wf]
  unfolding peer_arp_view by (simp add: peer_eth_def peer_arp_def demo_conf MAX_NETHS_def) blast

text \<open>Whatever is not for the stack leaves every field of it as it was: another EtherType, an IPv4
  packet with options or another version, a fragment, an ARP packet that is not IPv4 over
  Ethernet, or an ARP request for somebody else's address.\<close>

theorem other_traffic_ignored:
  fixes m :: mem
  defines "eth \<equiv> eth_hdr_of m" and "iph \<equiv> ip_hdr_of (mem_at m 20)" and "p \<equiv> arp_of (mem_at m 20)"
  assumes "eh_ethertype eth \<noteq> ETHERTYPE_ARP \<and> eh_ethertype eth \<noteq> ETHERTYPE_IPV4
    \<or> eh_ethertype eth = ETHERTYPE_IPV4 \<and>
        (IPH_V iph \<noteq> 4 \<or> IPH_HL iph \<noteq> 5 \<or> ih_offset iph AND (IP_MF OR IP_OFFMASK) \<noteq> 0)
    \<or> eh_ethertype eth = ETHERTYPE_ARP \<and>
        (ar_hrd p \<noteq> ARPHRD_ETHER \<or> ar_pro p \<noteq> ETHERTYPE_IPV4 \<or> ar_hln p \<noteq> 6 \<or> ar_pln p \<noteq> 4
         \<or> ar_op p = ARPOP_REQUEST \<and> ar_tip p \<noteq> u3_net_stack_get_ip_addr (eh_ethno eth) s
         \<or> ar_op p \<noteq> ARPOP_REQUEST \<and> ar_op p \<noteq> ARPOP_REPLY)"
  shows "handle_eth_packet run_udp run_icmp m num_bytes s = Some s"
  using assms(4)
  by (auto simp: handle_eth_packet_def handle_arp_packet_def Let_def simp flip: eth_def iph_def p_def)

lemma other_traffic_ignored_witness:
  "handle_eth_packet log_call (\<lambda>_. handle_icmp_echo_packet)
     (mem_of (eth_hdr_bytes (peer_eth 0x86DD) @ [])) 60 demo = Some demo"
proof (rule other_traffic_ignored)
  have "eth_hdr_of (mem_of (eth_hdr_bytes (peer_eth 0x86DD) @ [])) = peer_eth 0x86DD"
    by (rule eth_hdr_parse) (simp_all add: peer_eth_def)
  then have "eh_ethertype (eth_hdr_of (mem_of (eth_hdr_bytes (peer_eth 0x86DD) @ []))) = 0x86DD"
    by (simp only:) (simp add: peer_eth_def)
  then show "eh_ethertype (eth_hdr_of (mem_of (eth_hdr_bytes (peer_eth 0x86DD) @ []))) \<noteq> ETHERTYPE_ARP \<and>
      eh_ethertype (eth_hdr_of (mem_of (eth_hdr_bytes (peer_eth 0x86DD) @ []))) \<noteq> ETHERTYPE_IPV4 \<or> A \<or> B" for A B
    by (simp only:) (simp add: proto_consts)
qed

text \<open>A handler registered for a port nobody holds, while the table of 16 has room, is the one a
  datagram for that port is dispatched to.\<close>

theorem register_then_dispatch:
  assumes "length (udp_handlers s) < UDP_NHANDLERS" and "\<forall>x\<in>set (udp_handlers s). fst x \<noteq> port"
    and "uh_dest (udp_hdr_of udp) = port"
  shows "handle_udp_packet run_udp ethno src dst udp n (u3_net_stack_register_udp_handler port h s) =
    run_udp h ethno src (u3_net_stack_get_ip_addr ethno s) (uh_src (udp_hdr_of udp)) port
      (Some (mem_at udp 8)) (n - UDP_HLEN) (u3_net_stack_register_udp_handler port h s)"
proof -
  have "find_index (\<lambda>(q, f). q = port) (udp_handlers s @ [(port, h)]) = Some (length (udp_handlers s))"
  proof (rule find_index_unique)
    fix j assume j: "j < length (udp_handlers s @ [(port, h)])" "case (udp_handlers s @ [(port, h)]) ! j of (q, f) \<Rightarrow> q = port"
    show "j = length (udp_handlers s)"
    proof (rule ccontr)
      assume "j \<noteq> length (udp_handlers s)"
      with j(1) have "j < length (udp_handlers s)" by simp
      with assms(2) have "fst (udp_handlers s ! j) \<noteq> port" by simp
      with j(2) \<open>j < length (udp_handlers s)\<close> show False by (simp add: nth_append case_prod_unfold)
    qed
  qed simp_all
  with assms(1,3) show ?thesis
    by (simp add: handle_udp_packet_def u3_net_stack_register_udp_handler_def Let_def u3_net_stack_get_ip_addr_def)
qed

lemma register_then_dispatch_witness:
  "handle_udp_packet log_call 0 5 6 (mem_of (udp_hdr_bytes \<lparr>uh_src = 1, uh_dest = 99, uh_len = 8, uh_chksum = 0\<rparr> @ [])) 8
     (u3_net_stack_register_udp_handler 99 Udp_uart_data demo) =
   log_call Udp_uart_data 0 5 0xC0A80A02 1 99
     (Some (mem_at (mem_of (udp_hdr_bytes \<lparr>uh_src = 1, uh_dest = 99, uh_len = 8, uh_chksum = 0\<rparr> @ [])) 8)) 0
     (u3_net_stack_register_udp_handler 99 Udp_uart_data demo)"
  using register_then_dispatch [of demo 99 "mem_of (udp_hdr_bytes \<lparr>uh_src = 1, uh_dest = 99, uh_len = 8, uh_chksum = 0\<rparr> @ [])"
      log_call 0 5 6 8 Udp_uart_data]
  unfolding udp_hdr_parse by (simp add: demo_conf UDP_NHANDLERS_def UDP_HLEN_def)

text \<open>The echo replies and requests the stack sends carry a correct checksum when their payload
  has an even number of bytes: the one's complement sum over the ICMP message, checksum
  included, is all ones in the frame's bytes.\<close>

theorem icmp_checksum_even:
  assumes wf: "net_wf s" and e: "unat ethno < MAX_NETHS"
    and r: "fst (resolve_ip dst s) = Some dmac" and n: "unat n < 65536" and ev: "even (unat n)"
  shows "chksum_buffer (shorts_of (mem_at (frame_mem (last (tx_log
      (u3_net_stack_send_icmp_pkt ethno typ code ident sq dst buff n s)))) 40) (4 + unat n div 2)) 0 = 0xffff"
proof -
  from n have n3: "unat n + 3 < 2 ^ 32" by simp
  let ?h = "echo_icmp_hdr typ code ident sq buff n"
  from send_icmp_pkt_frame [OF wf e r n3, of "typ" code ident sq buff] obtain ws pad where
    log: "tx_log (u3_net_stack_send_icmp_pkt ethno typ code ident sq dst buff n s) = tx_log s @ [(ws, 48 + n)]"
    and bytes: "concat (map put32 ws) = (eth_hdr_bytes (ipv4_eth ethno dmac ETHERTYPE_IPV4 s)
        @ ip_hdr_bytes (fill_ip_hdr (IP_HLEN + ICMP_HLEN + n) IP_PROTO_ICMP (u3_net_stack_get_ip_addr ethno s) dst (raw_ip_hdr 0)))
        @ icmp_hdr_bytes ?h @ mem_take buff (unat n) @ pad"
    by auto
  have "mem_at (frame_mem (ws, 48 + n)) 40 = mem_of (icmp_hdr_bytes ?h @ mem_take buff (unat n) @ pad)"
    unfolding frame_mem_def fst_conv bytes
    by (rule mem_at_append) (simp add: length_ipv4_eth [OF wf e net_wf_resolve [OF wf r]])
  with log show ?thesis
    using icmp_summed_shorts_verify [OF n, of "typ" code ident sq buff]
    by (simp add: icmp_message_shorts unat_div)
qed

lemma icmp_checksum_even_witness:
  "chksum_buffer (shorts_of (mem_at (frame_mem (last (tx_log
      (u3_net_stack_send_icmp_pkt 0 8 0 1 2 0xC0A80A01 (mem_of [1, 2, 3, 4]) 4 demo)))) 40) 6) 0 = 0xffff"
  using icmp_checksum_even [OF demo_wf demo_conf(7) demo_resolve, of 4 8 0 1 2 "mem_of [1, 2, 3, 4]"] by simp

text \<open>With an odd payload the checksum is wrong: the sender adds up only whole shorts, so unless
  the last byte is zero, the sum a receiver forms over the zero-padded message
  (RFC 792 and RFC 1071) is not all ones.\<close>

theorem icmp_checksum_odd_wrong:
  assumes n: "unat n < 65536" and od: "odd (unat n)" and b: "buff (unat n - 1) \<noteq> 0"
  shows "chksum_buffer (icmp_hdr_shorts (echo_icmp_hdr typ code ident sq buff n)
     @ shorts_of buff (unat n div 2) @ [word_cat (buff (unat n - 1)) (0 :: u8)]) 0 \<noteq> 0xffff"
proof
  let ?ws = "icmp_hdr_shorts (echo_icmp_hdr typ code ident sq buff n) @ shorts_of buff (unat n div 2)"
  let ?b = "word_cat (buff (unat n - 1)) (0 :: u8) :: u16"
  assume full: "chksum_buffer (icmp_hdr_shorts (echo_icmp_hdr typ code ident sq buff n)
     @ shorts_of buff (unat n div 2) @ [?b]) 0 = 0xffff"
  have ub: "unat ?b = 256 * unat (buff (unat n - 1))" by (rule unat_high_byte)
  have len: "length ?ws \<le> 65535" using n by (simp add: icmp_hdr_shorts_def)
  then have h: "unat (0 :: u32) + 65535 * length ?ws < 2 ^ 32" "unat (0 :: u32) + 65535 * length (?ws @ [?b]) < 2 ^ 32"
    by simp_all
  have "chksum_buffer ?ws 0 = 0xffff"
    using icmp_summed_shorts_verify [OF n, of "typ" code ident sq buff] by (simp add: unat_div)
  then have S: "sum_list (map unat ?ws) mod 65535 = 0"
    using chksum_buffer_props(2) [OF h(1)] by simp
  have "(sum_list (map unat ?ws) + unat ?b) mod 65535 = 0"
    using chksum_buffer_props(2) [OF h(2)] full by (simp add: add.assoc)
  with S have "unat ?b mod 65535 = 0" by (metis add_0 mod_add_left_eq mod_0)
  moreover have "unat (buff (unat n - 1)) \<noteq> 0"
    using b by (simp add: unsigned_eq_0_iff)
  then have "0 < unat ?b" "unat ?b < 65535"
    using ub unat_u8_less [of "buff (unat n - 1)"] by simp_all
  ultimately show False by simp
qed

lemma icmp_checksum_odd_wrong_witness:
  "chksum_buffer (icmp_hdr_shorts (echo_icmp_hdr 0 0 1 2 (mem_of [9]) 1) @ shorts_of (mem_of [9]) 0 @ [word_cat (9 :: u8) (0 :: u8)]) 0 \<noteq> 0xffff"
  using icmp_checksum_odd_wrong [of 1 "mem_of [9]" 0 0 1 2] by (simp add: mem_of_def)

text \<open>The payload length is computed from the IP length field unchecked: for a UDP packet whose
  total length is below 28 the registered handler is called with a length of at least
  \<open>2 ^ 32 - 28\<close>, far beyond the packet.\<close>

theorem short_udp_underflows:
  fixes m :: mem
  defines "eth \<equiv> eth_hdr_of m" and "iph \<equiv> ip_hdr_of (mem_at m 20)" and "u \<equiv> udp_hdr_of (mem_at m 40)"
  assumes v4: "eh_ethertype eth = ETHERTYPE_IPV4" "IPH_V iph = 4" "IPH_HL iph = 5"
      "ih_offset iph AND (IP_MF OR IP_OFFMASK) = 0" "IPH_PROTO iph = IP_PROTO_UDP"
    and short: "unat (ih_len iph) < 28"
    and h: "find_index (\<lambda>(port, h). port = uh_dest u) (udp_handlers s) = Some i"
  shows "\<exists>n. handle_eth_packet run_udp run_icmp m num_bytes s =
      run_udp (snd (udp_handlers s ! i)) (eh_ethno eth) (ih_src iph) (u3_net_stack_get_ip_addr (eh_ethno eth) s)
        (uh_src u) (uh_dest u) (Some (mem_at m 48)) n
        (u3_net_stack_arp_cache_update (ih_src iph) (eh_src eth) (eh_ethno eth) s)
    \<and> 2 ^ 32 - 28 \<le> unat n"
proof -
  let ?n = "ucast (ih_len iph) - 28 :: u32"
  have "unat ?n = unat (ih_len iph) + 2 ^ 32 - 28"
    using short by (simp add: unat_sub_if')
  then have "2 ^ 32 - 28 \<le> unat ?n" by simp
  moreover have "handle_eth_packet run_udp run_icmp m num_bytes s =
      run_udp (snd (udp_handlers s ! i)) (eh_ethno eth) (ih_src iph) (u3_net_stack_get_ip_addr (eh_ethno eth) s)
        (uh_src u) (uh_dest u) (Some (mem_at m 48)) ?n
        (u3_net_stack_arp_cache_update (ih_src iph) (eh_src eth) (eh_ethno eth) s)"
    using v4 h
    by (simp add: handle_eth_packet_def handle_udp_packet_def Let_def frame_simps u3_net_stack_get_ip_addr_def
        IP_HLEN_def UDP_HLEN_def flip: eth_def iph_def u_def)
  ultimately show ?thesis by blast
qed

lemma short_udp_underflows_witness:
  "\<exists>n p. handle_eth_packet log_call (\<lambda>_. handle_icmp_echo_packet)
      (peer_pkt 20 IP_PROTO_UDP (udp_hdr_bytes \<lparr>uh_src = 1, uh_dest = 49152, uh_len = 8, uh_chksum = 0\<rparr> @ [])) 48 demo =
    log_call Udp_fw_comms 0 0xC0A80A63 0xC0A80A02 1 49152 (Some p) n
      (u3_net_stack_arp_cache_update 0xC0A80A63 [7, 7, 7, 7, 7, 7] 0 demo) \<and> 2 ^ 32 - 28 \<le> unat n"
  using short_udp_underflows [of "peer_pkt 20 IP_PROTO_UDP (udp_hdr_bytes \<lparr>uh_src = 1, uh_dest = 49152, uh_len = 8, uh_chksum = 0\<rparr> @ [])"
      demo 0 log_call "\<lambda>_. handle_icmp_echo_packet" 48]
  unfolding peer_pkt_view udp_hdr_parse
  by (simp add: peer_eth_def peer_ip_def demo_conf) blast

end
