(* ===== verification/NetHw.thy ===== *)
theory NetHw
  imports NetProps
begin

unbundle bit_operations_syntax

section \<open>The network stack on the packet interface\<close>

text \<open>
  \<^verbatim>\<open>send_eth_pkt\<close> as the processor runs it: claim the buffer, store the frame word
  by word, submit.  The model of theory \<open>NetStack\<close> keeps only the frame and the control word; the
  refinement below says that nothing is lost, and that the function returns
  whenever the hardware answers its two polls.
\<close>

primrec poke_words :: "u32 \<Rightarrow> u32 list \<Rightarrow> 'a bus_scheme \<Rightarrow> 'a bus_scheme" where
  "poke_words p [] s = s"
| "poke_words p (w # ws) s = poke_words (p + 4) ws (wb_poke32 p w s)"

definition send_eth_pkt_hw ::
  "mem \<Rightarrow> u32 \<Rightarrow> mem \<Rightarrow> u32 \<Rightarrow> mem \<Rightarrow> u32 \<Rightarrow> 'a netstack_scheme \<Rightarrow> 'a netstack_scheme option" where
  "send_eth_pkt_hw p0 l0 p1 l1 p2 l2 s =
     (let s = incr_stat_counts p0 s in
      do { (ptr, s) \<leftarrow> wb_pkt_iface64_tx_claim (pkt_iface_config s) s;
           let buff32 = copy_words p0 l0 @ copy_words p1 l1 @ copy_words p2 l2;
           let buff32 = (if length buff32 mod 2 = 1 then buff32 @ [0] else buff32);
           let s = poke_words ptr buff32 s;
           (config, s) \<leftarrow> wb_pkt_iface64_tx_submit (pkt_iface_config s) (l0 + l1 + l2) s;
           Some (s\<lparr>pkt_iface_config := config\<rparr>) })"

text \<open>The stores of a frame at consecutive words, oldest first.\<close>

primrec stores :: "u32 \<Rightarrow> u32 list \<Rightarrow> access list" where
  "stores p [] = []"
| "stores p (w # ws) = Wr p w # stores (p + 4) ws"

lemma poke_words_trace: "poke_words p ws s = s\<lparr>trace := rev (stores p ws) @ trace s\<rparr>"
  by (induction ws arbitrary: p s) (simp_all add: wb_poke32_def)

lemma is_write_stores: "filter is_write (stores p ws) = stores p ws"
  by (induction ws arbitrary: p) (simp_all add: is_write_def)

lemma wr_log_poke_words: "wr_log (poke_words p ws s) = rev (stores p ws) @ wr_log s"
  by (simp add: poke_words_trace wr_log_def is_write_stores flip: rev_filter)

lemma after_reads_trace: "\<exists>t. after_reads a n s = s\<lparr>trace := t\<rparr>"
proof (induction n arbitrary: s)
  case 0
  have "s = s\<lparr>trace := trace s\<rparr>" by simp
  then show ?case by (metis after_reads.simps(1))
next
  case (Suc n)
  obtain t where "after_reads a n (snd (wb_peek32 a s)) = (snd (wb_peek32 a s))\<lparr>trace := t\<rparr>"
    using Suc.IH by blast
  then show ?case by (auto simp: wb_peek32_def Let_def)
qed

lemma tx_claim_result:
  assumes "wb_pkt_iface64_tx_claim config s = Some (p, s')"
  shows "p = pkt_base config \<and> (\<exists>t. s' = s\<lparr>trace := t\<rparr>) \<and> wr_log s' = wr_log s"
proof -
  obtain k where "s' = after_reads (pkt_config_addr config) (Suc k) s" "p = pkt_base config"
    using assms spin_while_result by (fastforce simp: wb_pkt_iface64_tx_claim_def bind_eq_Some_conv)
  then show ?thesis using after_reads_trace wr_log_after_reads by metis
qed

lemma tx_submit_result:
  assumes "wb_pkt_iface64_tx_submit config n s = Some (config', s')"
  shows "config' = submitted n config \<and> (\<exists>t. s' = s\<lparr>trace := t\<rparr>)"
proof -
  let ?c1 = "config\<lparr>pkt_ctrl := tx_submit_ctrl (pkt_ctrl config) n\<rparr>"
  from assms obtain s1 where s1:
      "spin_while (pkt_config_addr config) (\<lambda>st. drop_bit 30 st AND 1 \<noteq> 0) (set_control ?c1 s) = Some s1"
    and res: "config' = submitted n config" "s' = set_control config' s1"
    by (auto simp: wb_pkt_iface64_tx_submit_def submitted_def Let_def bind_eq_Some_conv)
  obtain k where "s1 = after_reads (pkt_config_addr config) k (set_control ?c1 s)"
    using spin_while_result [OF s1] by blast
  then obtain t where "s1 = (set_control ?c1 s)\<lparr>trace := t\<rparr>"
    using after_reads_trace by metis
  with res show ?thesis by (auto simp: set_control_def wb_poke32_def)
qed

lemma incr_stat_counts_frame [simp]:
  "trace (incr_stat_counts p s) = trace s" "wr_log (incr_stat_counts p s) = wr_log s"
  "pkt_iface_config (incr_stat_counts p s) = pkt_iface_config s" "dev (incr_stat_counts p s) = dev s"
  "tx_log (incr_stat_counts p s) = tx_log s"
  by (simp_all add: incr_stat_counts_def Let_def wr_log_def)

subsection \<open>The hardware answers\<close>

text \<open>
  What the FPGA's transmit state machine promises: whatever has been done so far, polling the
  status word eventually shows flag 30 in the state the last control word asks for: taken
  while a submit is pending, free otherwise.
\<close>

primrec read_n :: "(access list \<Rightarrow> u32 \<Rightarrow> u32) \<Rightarrow> u32 \<Rightarrow> nat \<Rightarrow> access list \<Rightarrow> access list" where
  "read_n d a 0 t = t"
| "read_n d a (Suc n) t = read_n d a n (Rd a (d t a) # t)"

definition submit_pending :: "u32 \<Rightarrow> access list \<Rightarrow> bool" where
  "submit_pending a t \<longleftrightarrow> (case writes_to a t of [] \<Rightarrow> False | v # _ \<Rightarrow> bit v 30)"

definition tx_live :: "(access list \<Rightarrow> u32 \<Rightarrow> u32) \<Rightarrow> u32 \<Rightarrow> bool" where
  "tx_live d a \<longleftrightarrow> (\<forall>t. \<exists>n. (drop_bit 30 (d (read_n d a n t) a) AND 1 = 1) = (\<not> submit_pending a t))"

definition ready_dev :: "access list \<Rightarrow> u32 \<Rightarrow> u32" where
  "ready_dev t a = (if submit_pending a t then 0 else BIT 30)"

lemma ready_dev_live: "tx_live ready_dev a"
  unfolding tx_live_def
proof
  fix t
  show "\<exists>n. (drop_bit 30 (ready_dev (read_n ready_dev a n t) a) AND 1 = 1) = (\<not> submit_pending a t)"
    by (intro exI [of _ 0]) (simp add: ready_dev_def BIT_def)
qed

lemma trace_after_reads: "trace (after_reads a n s) = read_n (dev s) a n (trace s)"
  by (induction n arbitrary: s) simp_all

lemma writes_to_reads [simp]: "writes_to a (Rd b v # t) = writes_to a t"
  by (simp add: writes_to_def map_filter_simps)

lemma writes_to_write: "writes_to a (Wr b v # t) = (if b = a then v # writes_to a t else writes_to a t)"
  by (simp add: writes_to_def map_filter_simps)

lemma pending_read_n [simp]: "submit_pending a (read_n d b n t) = submit_pending a t"
  by (induction n arbitrary: t) (simp_all add: submit_pending_def)

lemma and_1_cases: "(w :: u32) AND 1 = 0 \<or> w AND 1 = 1"
  by (cases "even w") (simp_all add: and_one_eq even_iff_mod_2_eq_zero odd_iff_mod_2_eq_one)

lemma tx_claim_returns:
  assumes "tx_live (dev s) (pkt_config_addr config)" and "\<not> submit_pending (pkt_config_addr config) (trace s)"
  shows "\<exists>r. wb_pkt_iface64_tx_claim config s = Some r"
proof -
  let ?a = "pkt_config_addr config"
  from assms obtain n where "drop_bit 30 (dev s (read_n (dev s) ?a n (trace s)) ?a) AND 1 = 1"
    unfolding tx_live_def by blast
  then have "\<not> (\<lambda>st. drop_bit 30 st AND 1 \<noteq> 1) (fst (wb_peek32 ?a (after_reads ?a n s)))"
    by (simp add: trace_after_reads)
  from spin_while_exits [where busy = "\<lambda>st. drop_bit 30 st AND 1 \<noteq> 1", OF this] show ?thesis
    by (auto simp: wb_pkt_iface64_tx_claim_def)
qed

lemma tx_submit_live:
  assumes "tx_live (dev s) (pkt_config_addr config)"
  shows "\<exists>r. wb_pkt_iface64_tx_submit config len s = Some r"
proof -
  let ?a = "pkt_config_addr config"
  let ?s = "set_control (config\<lparr>pkt_ctrl := tx_submit_ctrl (pkt_ctrl config) len\<rparr>) s"
  have "submit_pending ?a (trace ?s)"
    by (simp add: set_control_def submit_pending_def writes_to_write tx_submit_flag)
  moreover have "dev ?s = dev s" by (simp add: set_control_def)
  ultimately obtain n where "\<not> drop_bit 30 (dev ?s (read_n (dev ?s) ?a n (trace ?s)) ?a) AND 1 = 1"
    using assms unfolding tx_live_def by metis
  then have "answers n ?a (\<lambda>st. drop_bit 30 st AND 1 \<noteq> 0) ?s"
    using and_1_cases by (auto simp: answers_def trace_after_reads)
  then show ?thesis by (rule tx_submit_returns)
qed

lemma tx_submit_ends_idle:
  assumes "wb_pkt_iface64_tx_submit config n s = Some (config', s')"
  shows "\<not> submit_pending (pkt_config_addr config) (trace s')"
proof -
  from assms obtain s1 where "s' = wb_poke32 (pkt_config_addr config) (tx_submit_ctrl (pkt_ctrl config) n AND NOT (BIT 30)) s1"
    by (auto simp: wb_pkt_iface64_tx_submit_def set_control_def Let_def bind_eq_Some_conv)
  then show ?thesis by (simp add: submit_pending_def writes_to_write bit_simps bit_BIT)
qed

lemma send_eth_pkt_hw_live:
  assumes live: "tx_live (dev s) (pkt_config_addr (pkt_iface_config s))"
    and idle: "\<not> submit_pending (pkt_config_addr (pkt_iface_config s)) (trace s)"
  shows "\<exists>s'. send_eth_pkt_hw p0 l0 p1 l1 p2 l2 s = Some s'
    \<and> dev s' = dev s \<and> pkt_config_addr (pkt_iface_config s') = pkt_config_addr (pkt_iface_config s)
    \<and> \<not> submit_pending (pkt_config_addr (pkt_iface_config s')) (trace s')"
proof -
  let ?s = "incr_stat_counts p0 s" and ?cfg = "pkt_iface_config s"
  let ?b = "copy_words p0 l0 @ copy_words p1 l1 @ copy_words p2 l2"
  define ws where "ws = (if length ?b mod 2 = 1 then ?b @ [0] else ?b)"
  obtain p s1 where c: "wb_pkt_iface64_tx_claim ?cfg ?s = Some (p, s1)"
    using tx_claim_returns [of ?s ?cfg] live idle by auto
  from tx_claim_result [OF c] obtain t1 where s1: "s1 = ?s\<lparr>trace := t1\<rparr>" by auto
  have cfg1: "pkt_iface_config (poke_words p ws s1) = ?cfg" "dev (poke_words p ws s1) = dev s"
    by (simp_all add: poke_words_trace s1)
  obtain cfg s2 where t: "wb_pkt_iface64_tx_submit ?cfg (l0 + l1 + l2) (poke_words p ws s1) = Some (cfg, s2)"
    using tx_submit_live [of "poke_words p ws s1" ?cfg "l0 + l1 + l2"] live cfg1 by auto
  from tx_submit_result [OF t] obtain t2 where
      2: "cfg = submitted (l0 + l1 + l2) ?cfg" "s2 = (poke_words p ws s1)\<lparr>trace := t2\<rparr>" by auto
  have "send_eth_pkt_hw p0 l0 p1 l1 p2 l2 s = Some (s2\<lparr>pkt_iface_config := cfg\<rparr>)"
    unfolding send_eth_pkt_hw_def Let_def ws_def [symmetric] incr_stat_counts_frame c
    using t cfg1(1) by simp
  with tx_submit_ends_idle [OF t] 2 cfg1 show ?thesis by (simp add: submitted_def)
qed

definition demo_hw :: "unit netstack_scheme" where
  "demo_hw = demo\<lparr>dev := ready_dev\<rparr>"

lemma demo_hw_live:
  "tx_live (dev demo_hw) (pkt_config_addr (pkt_iface_config demo_hw))"
  "\<not> submit_pending (pkt_config_addr (pkt_iface_config demo_hw)) (trace demo_hw)"
  by (simp_all add: demo_hw_def ready_dev_live)
     (simp add: demo_def submit_pending_def writes_to_def map_filter_simps)

lemma demo_hw_returns: "\<exists>s'. send_eth_pkt_hw p0 l0 p1 l1 p2 l2 demo_hw = Some s'"
  using send_eth_pkt_hw_live [OF demo_hw_live, of p0 l0 p1 l1 p2 l2] by blast

subsection \<open>Properties\<close>

text \<open>C4. Sending on the hardware refines sending in the model: whenever \<^verbatim>\<open>send_eth_pkt\<close>
  returns, it has stored exactly the frame's words at consecutive addresses of the packet
  buffer, then written the control word with the submit flag and the length, then the same word
  without the flag, and has left every other variable as the model says.\<close>

theorem send_eth_pkt_refines:
  assumes "send_eth_pkt_hw p0 l0 p1 l1 p2 l2 s = Some s'"
  shows "s'\<lparr>trace := [], tx_log := []\<rparr> = (send_eth_pkt p0 l0 p1 l1 p2 l2 s)\<lparr>trace := [], tx_log := []\<rparr>
    \<and> (\<exists>ws. tx_log (send_eth_pkt p0 l0 p1 l1 p2 l2 s) = tx_log s @ [(ws, l0 + l1 + l2)]
        \<and> wr_log s' = (let cfg = pkt_iface_config s; c = tx_submit_ctrl (pkt_ctrl cfg) (l0 + l1 + l2)
            in Wr (pkt_config_addr cfg) (c AND NOT (BIT 30)) # Wr (pkt_config_addr cfg) c
               # rev (stores (pkt_base cfg) ws) @ wr_log s))"
proof -
  let ?n = "l0 + l1 + l2" and ?cfg = "pkt_iface_config s"
  let ?b = "copy_words p0 l0 @ copy_words p1 l1 @ copy_words p2 l2"
  define ws where "ws = (if length ?b mod 2 = 1 then ?b @ [0] else ?b)"
  from assms obtain p s1 s2 cfg where
      c: "wb_pkt_iface64_tx_claim ?cfg (incr_stat_counts p0 s) = Some (p, s1)"
    and t: "wb_pkt_iface64_tx_submit (pkt_iface_config (poke_words p ws s1)) ?n (poke_words p ws s1) = Some (cfg, s2)"
    and r: "s' = s2\<lparr>pkt_iface_config := cfg\<rparr>"
    unfolding send_eth_pkt_hw_def Let_def ws_def [symmetric] by (auto simp: bind_eq_Some_conv)
  from tx_claim_result [OF c] obtain t1 where
      1: "p = pkt_base ?cfg" "s1 = (incr_stat_counts p0 s)\<lparr>trace := t1\<rparr>" "wr_log s1 = wr_log s"
    by auto
  then have cfg1: "pkt_iface_config (poke_words p ws s1) = ?cfg" by (simp add: poke_words_trace)
  from tx_submit_result [OF t] obtain t2 where
      2: "cfg = submitted ?n ?cfg" "s2 = (poke_words p ws s1)\<lparr>trace := t2\<rparr>"
    unfolding cfg1 by auto
  have m: "send_eth_pkt p0 l0 p1 l1 p2 l2 s = (incr_stat_counts p0 s)\<lparr>tx_log := tx_log s @ [(ws, ?n)],
      pkt_iface_config := submitted ?n ?cfg\<rparr>"
    by (simp add: send_eth_pkt_def Let_def ws_def)
  have "s'\<lparr>trace := [], tx_log := []\<rparr> = (send_eth_pkt p0 l0 p1 l1 p2 l2 s)\<lparr>trace := [], tx_log := []\<rparr>"
    unfolding m r 2 poke_words_trace 1(2) by simp
  moreover have "wr_log s' = wr_log s2" unfolding r by (simp add: wr_log_def)
  ultimately show ?thesis
    using tx_submit_effect(1) [OF t, unfolded wrote_def cfg1 wr_log_poke_words] 1(1,3) m
    by (auto simp: Let_def)
qed

lemma send_eth_pkt_refines_witness:
  "\<exists>s' ws. send_eth_pkt_hw (mem_of [1, 2, 3, 4]) 4 no_mem 0 no_mem 0 demo_hw = Some s'
     \<and> tx_log (send_eth_pkt (mem_of [1, 2, 3, 4]) 4 no_mem 0 no_mem 0 demo_hw) = [(ws, 4)]
     \<and> wr_log s' = [Wr 0x9ffc 12, Wr 0x9ffc (0x40000000 + 12)] @ rev (stores 0x8000 ws)"
proof -
  obtain s' where s': "send_eth_pkt_hw (mem_of [1, 2, 3, 4]) 4 no_mem 0 no_mem 0 demo_hw = Some s'"
    using demo_hw_returns by blast
  have c: "tx_submit_ctrl 0 4 = 0x40000000 + 12"
    by (simp add: tx_submit_ctrl_def NUM_BYTES_MASK_def BIT_def)
  show ?thesis
    using send_eth_pkt_refines [OF s'] s' 
    by (auto simp: demo_hw_def demo_def wr_log_def Let_def c BIT_def)
qed

text \<open>C5. Sending never hangs and can be repeated: on an interface that answers, from a state
  with no submit pending, \<^verbatim>\<open>send_eth_pkt\<close> returns, and again leaves no submit pending.\<close>

theorem send_eth_pkt_returns:
  assumes live: "tx_live (dev s) (pkt_config_addr (pkt_iface_config s))"
    and idle: "\<not> submit_pending (pkt_config_addr (pkt_iface_config s)) (trace s)"
  shows "\<exists>s'. send_eth_pkt_hw p0 l0 p1 l1 p2 l2 s = Some s'
    \<and> dev s' = dev s \<and> pkt_config_addr (pkt_iface_config s') = pkt_config_addr (pkt_iface_config s)
    \<and> \<not> submit_pending (pkt_config_addr (pkt_iface_config s')) (trace s')"
  using assms by (rule send_eth_pkt_hw_live)

lemma send_eth_pkt_returns_witness:
  "\<exists>s'. send_eth_pkt_hw (mem_of [1, 2, 3, 4]) 4 no_mem 0 no_mem 0 demo_hw = Some s'"
  using send_eth_pkt_returns [OF demo_hw_live, of "mem_of [1, 2, 3, 4]" 4 no_mem 0 no_mem 0] by blast

text \<open>One turn of \<^verbatim>\<open>u3_net_stack_handle_one\<close>: if the status word shows no packet, nothing
  happens beyond reading it; if it shows one, the packet is handled with the length in the
  status word, and afterwards, last of all writes, the buffer is given back by raising and lowering
  flag 31.\<close>

theorem handle_one_turn:
  assumes "u3_net_stack_handle_one run_udp run_icmp rx_mem s = Some s'"
  defines "a \<equiv> pkt_config_addr (pkt_iface_config s)" and "st \<equiv> dev s (trace s) (pkt_config_addr (pkt_iface_config s))"
  shows "if bit st 31
    then \<exists>s1. handle_eth_packet run_udp run_icmp (rx_mem (Rd a st # trace s) (pkt_base (pkt_iface_config s)))
             (st AND NUM_BYTES_MASK)
             (incr_stat_counts (rx_mem (Rd a st # trace s) (pkt_base (pkt_iface_config s))) (s\<lparr>trace := Rd a st # trace s\<rparr>))
           = Some s1
         \<and> (let cfg = pkt_iface_config s1; c = pkt_ctrl cfg in
             wr_log s' = Wr (pkt_config_addr cfg) (c AND NOT (BIT 31)) # Wr (pkt_config_addr cfg) (c OR BIT 31) # wr_log s1)
    else s' = s\<lparr>trace := Rd a st # trace s\<rparr>"
proof -
  have claim: "wb_pkt_iface64_rx_try_claim (pkt_iface_config s) s =
      ((if bit st 31 then Some (pkt_base (pkt_iface_config s)) else None, st AND NUM_BYTES_MASK), s\<lparr>trace := Rd a st # trace s\<rparr>)"
    by (simp add: wb_pkt_iface64_rx_try_claim_def get_status_def wb_peek32_def Let_def a_def st_def
        and_one_eq bit_iff_odd_drop_bit odd_iff_mod_2_eq_one)
  show ?thesis
  proof (cases "bit st 31")
    case True
    let ?m = "rx_mem (Rd a st # trace s) (pkt_base (pkt_iface_config s))"
    from assms(1) True obtain s1 cfg s2 where
        h: "handle_eth_packet run_udp run_icmp ?m (st AND NUM_BYTES_MASK)
             (incr_stat_counts ?m (s\<lparr>trace := Rd a st # trace s\<rparr>)) = Some s1"
      and r: "wb_pkt_iface64_rx_release (pkt_iface_config s1) s1 = Some (cfg, s2)"
      and s': "s' = s2\<lparr>pkt_iface_config := cfg\<rparr>"
      unfolding u3_net_stack_handle_one_def claim by (auto simp: Let_def bind_eq_Some_conv)
    have "wr_log s' = wr_log s2" unfolding s' by (simp add: wr_log_def)
    with rx_release_effect(2) [OF r] h True show ?thesis
      by (simp add: wrote_def Let_def)
  next
    case False
    with assms(1) show ?thesis unfolding u3_net_stack_handle_one_def claim by simp
  qed
qed

text \<open>A device with a packet of 48 bytes waiting until a control word has been written.\<close>

definition waiting_dev :: "access list \<Rightarrow> u32 \<Rightarrow> u32" where
  "waiting_dev t a = (if writes_to a t = [] then 0x80000030 else 0)"

lemma handle_one_turn_witness:
  "\<exists>s'. u3_net_stack_handle_one log_call (\<lambda>_. handle_icmp_echo_packet) (\<lambda>_ _. no_mem) (demo\<lparr>dev := waiting_dev\<rparr>) = Some s'
    \<and> wr_log s' = [Wr 0x9ffc 0, Wr 0x9ffc 0x80000000]"
proof -
  let ?s = "demo\<lparr>dev := waiting_dev\<rparr>"
  let ?s1 = "incr_stat_counts no_mem (?s\<lparr>trace := [Rd 0x9ffc 0x80000030]\<rparr>)"
  let ?s2 = "set_control \<lparr>pkt_base = 0x8000, pkt_ctrl = BIT 31, pkt_config_addr = 0x9ffc\<rparr> ?s1"
  have ini: "trace ?s = []" "dev ?s = waiting_dev"
      "pkt_iface_config ?s = \<lparr>pkt_base = 0x8000, pkt_ctrl = 0, pkt_config_addr = 0x9ffc\<rparr>"
    by (simp_all add: demo_def)
  have dc: "pkt_iface_config demo = \<lparr>pkt_base = 0x8000, pkt_ctrl = 0, pkt_config_addr = 0x9ffc\<rparr>"
    by (simp add: demo_def)
  have st: "waiting_dev [] 0x9ffc = 0x80000030" by (simp add: waiting_dev_def writes_to_def map_filter_simps)
  have claim: "wb_pkt_iface64_rx_try_claim (pkt_iface_config ?s) ?s =
      ((Some 0x8000, 48), ?s\<lparr>trace := [Rd 0x9ffc 0x80000030]\<rparr>)"
    by (simp add: wb_pkt_iface64_rx_try_claim_def get_status_def wb_peek32_def Let_def ini st NUM_BYTES_MASK_def)
  have t: "eh_ethertype (eth_hdr_of no_mem) = 0" by (simp add: eth_hdr_of_def be16_def no_mem_def)
  have wl: "wr_log (x\<lparr>trace := [Rd a v]\<rparr>) = []" for x :: "unit netstack_scheme" and a v
    by (simp add: wr_log_def is_write_def)
  have h: "handle_eth_packet log_call (\<lambda>_. handle_icmp_echo_packet) no_mem n s = Some s" for s :: "unit netstack_scheme" and n
    by (simp add: handle_eth_packet_def Let_def t) (simp add: proto_consts)
  have tr: "trace demo = []" by (simp add: demo_def)
  have "\<not> (\<lambda>st. drop_bit 31 st AND 1 \<noteq> 0) (fst (wb_peek32 0x9ffc (after_reads 0x9ffc 0 ?s2)))"
    by (simp add: waiting_dev_def set_control_def writes_to_write)
  from spin_while_exits [where busy = "\<lambda>st. drop_bit 31 st AND 1 \<noteq> 0", OF this]
  obtain s3 where "spin_while 0x9ffc (\<lambda>st. drop_bit 31 st AND 1 \<noteq> 0) ?s2 = Some s3" by blast
  then obtain s' where s': "u3_net_stack_handle_one log_call (\<lambda>_. handle_icmp_echo_packet) (\<lambda>_ _. no_mem) ?s = Some s'"
    unfolding u3_net_stack_handle_one_def claim wb_pkt_iface64_rx_release_def by (auto simp: h Let_def dc)
  show ?thesis
    using handle_one_turn [OF s'] s'
    by (simp add: h ini dc st wl tr Let_def BIT_def)
qed

end
