(* ===== verification/X300Defs.thy ===== *)
theory X300Defs
  imports Bus
begin

section \<open>Constants of the X300 firmware\<close>

text \<open>
  \<^verbatim>\<open>firmware/usrp3/x300/x300_defs.h\<close> (memory map, setting and readback registers) and
  \<^verbatim>\<open>host/lib/usrp/x300/x300_fw_common.h\<close> (the constants shared with the host:
  shared memory layout, ports, defaults, flags), as far as the modelled code uses them.
\<close>

definition CPU_CLOCK :: u32 where "CPU_CLOCK = 93750000"
definition PKT_RAM0_BASE :: u32 where "PKT_RAM0_BASE = 0x8000"
definition SFP0_MAC_BASE :: u32 where "SFP0_MAC_BASE = 0xC000"
definition SFP1_MAC_BASE :: u32 where "SFP1_MAC_BASE = 0xD000"
definition UART0_BASE :: u32 where "UART0_BASE = 0xfd00"
definition UART0_BAUD :: u32 where "UART0_BAUD = 115200"
definition UART1_BASE :: u32 where "UART1_BASE = 0xf900"
definition UART1_BAUD :: u32 where "UART1_BAUD = 115200"
definition I2C0_BASE :: u32 where "I2C0_BASE = 0xfe00"
definition I2C1_BASE :: u32 where "I2C1_BASE = 0xff00"
definition I2C2_BASE :: u32 where "I2C2_BASE = 0xfc00"
definition SET0_BASE :: u32 where "SET0_BASE = 0xa000"
definition RB0_BASE :: u32 where "RB0_BASE = 0xa000"
definition MBOARD_EEPROM_ADDR :: u32 where "MBOARD_EEPROM_ADDR = 0x50"
definition SR_LEDS :: u32 where "SR_LEDS = 0"
definition SR_SW_RST :: u32 where "SR_SW_RST = 1"
definition SR_ETHINT0 :: u32 where "SR_ETHINT0 = 40"
definition SR_ETHINT1 :: u32 where "SR_ETHINT1 = 56"
definition SR_SFP0_ADAPTER :: u32 where "SR_SFP0_ADAPTER = 144"
definition SR_SFP1_ADAPTER :: u32 where "SR_SFP1_ADAPTER = 160"
definition LED_LINKSTAT :: u32 where "LED_LINKSTAT = BIT 1"
definition LED_LINKACT :: u32 where "LED_LINKACT = BIT 0"
definition TA_KV_MAC_LO :: u32 where "TA_KV_MAC_LO = 3"
definition TA_KV_MAC_HI :: u32 where "TA_KV_MAC_HI = 4"
definition TA_KV_IPV4 :: u32 where "TA_KV_IPV4 = 5"
definition TA_KV_IPV4_W_ARP :: u32 where "TA_KV_IPV4_W_ARP = 8"
definition RB_COUNTER :: u32 where "RB_COUNTER = 0"
definition RB_SFP0_TYPE :: u32 where "RB_SFP0_TYPE = 4"
definition RB_SFP1_TYPE :: u32 where "RB_SFP1_TYPE = 5"
definition RB_FPGA_COMPAT :: u32 where "RB_FPGA_COMPAT = 6"
definition RB_SFP0_STATUS :: u32 where "RB_SFP0_STATUS = 8"
definition RB_SFP1_STATUS :: u32 where "RB_SFP1_STATUS = 9"
definition SW_RST_PHY :: u32 where "SW_RST_PHY = 0x01"
definition RB_SFP_1G_ETH :: u32 where "RB_SFP_1G_ETH = 0"
definition RB_SFP_10G_ETH :: u32 where "RB_SFP_10G_ETH = 1"
definition RB_SFP_AURORA :: u32 where "RB_SFP_AURORA = 2"
definition X300_FW_COMPAT_MAJOR :: u32 where "X300_FW_COMPAT_MAJOR = 6"
definition X300_FW_COMPAT_MINOR :: u32 where "X300_FW_COMPAT_MINOR = 1"
definition X300_FW_SHMEM_BASE :: u32 where "X300_FW_SHMEM_BASE = 0x6000"
definition X300_FW_SHMEM_COMPAT_NUM :: u32 where "X300_FW_SHMEM_COMPAT_NUM = 0"
definition X300_FW_SHMEM_UART_RX_INDEX :: u32 where "X300_FW_SHMEM_UART_RX_INDEX = 2"
definition X300_FW_SHMEM_UART_TX_INDEX :: u32 where "X300_FW_SHMEM_UART_TX_INDEX = 3"
definition X300_FW_SHMEM_CLAIM_STATUS :: u32 where "X300_FW_SHMEM_CLAIM_STATUS = 5"
definition X300_FW_SHMEM_CLAIM_TIME :: u32 where "X300_FW_SHMEM_CLAIM_TIME = 6"
definition X300_FW_SHMEM_UART_RX_ADDR :: u32 where "X300_FW_SHMEM_UART_RX_ADDR = 8"
definition X300_FW_SHMEM_UART_TX_ADDR :: u32 where "X300_FW_SHMEM_UART_TX_ADDR = 9"
definition X300_FW_SHMEM_UART_WORDS32 :: u32 where "X300_FW_SHMEM_UART_WORDS32 = 10"
definition X300_FW_SHMEM_ROUTE_MAP_ADDR :: u32 where "X300_FW_SHMEM_ROUTE_MAP_ADDR = 11"
definition X300_FW_SHMEM_ROUTE_MAP_LEN :: u32 where "X300_FW_SHMEM_ROUTE_MAP_LEN = 12"
definition X300_FW_SHMEM_IDENT :: u32 where "X300_FW_SHMEM_IDENT = 13"
definition X300_FW_COMMS_UDP_PORT :: u16 where "X300_FW_COMMS_UDP_PORT = 49152"
definition X300_VITA_UDP_PORT :: u32 where "X300_VITA_UDP_PORT = 49153"
definition X300_GPSDO_UDP_PORT :: u16 where "X300_GPSDO_UDP_PORT = 49156"
definition X300_FPGA_PROG_UDP_PORT :: u16 where "X300_FPGA_PROG_UDP_PORT = 49157"
definition X300_MTU_DETECT_UDP_PORT :: u16 where "X300_MTU_DETECT_UDP_PORT = 49158"
definition X300_FPGA_READ_UDP_PORT :: u16 where "X300_FPGA_READ_UDP_PORT = 49159"
definition X300_DEFAULT_MAC_ADDR_0 :: "u8 list" where "X300_DEFAULT_MAC_ADDR_0 = [0x00, 0x50, 0xC2, 0x85, 0x3f, 0xff]"
definition X300_DEFAULT_MAC_ADDR_1 :: "u8 list" where "X300_DEFAULT_MAC_ADDR_1 = [0x00, 0x50, 0xC2, 0x85, 0x3f, 0x33]"
definition X300_DEFAULT_GATEWAY :: u32 where "X300_DEFAULT_GATEWAY = 0xc0a80a01"
definition X300_DEFAULT_IP_ETH0_1G :: u32 where "X300_DEFAULT_IP_ETH0_1G = 0xc0a80a02"
definition X300_DEFAULT_IP_ETH1_1G :: u32 where "X300_DEFAULT_IP_ETH1_1G = 0xc0a81402"
definition X300_DEFAULT_IP_ETH0_10G :: u32 where "X300_DEFAULT_IP_ETH0_10G = 0xc0a81e02"
definition X300_DEFAULT_IP_ETH1_10G :: u32 where "X300_DEFAULT_IP_ETH1_10G = 0xc0a82802"
definition X300_DEFAULT_NETMASK_ETH0_1G :: u32 where "X300_DEFAULT_NETMASK_ETH0_1G = 0xffffff00"
definition X300_DEFAULT_NETMASK_ETH1_1G :: u32 where "X300_DEFAULT_NETMASK_ETH1_1G = 0xffffff00"
definition X300_DEFAULT_NETMASK_ETH0_10G :: u32 where "X300_DEFAULT_NETMASK_ETH0_10G = 0xffffff00"
definition X300_DEFAULT_NETMASK_ETH1_10G :: u32 where "X300_DEFAULT_NETMASK_ETH1_10G = 0xffffff00"
definition X300_FW_COMMS_FLAGS_ACK :: u32 where "X300_FW_COMMS_FLAGS_ACK = BIT 0"
definition X300_FW_COMMS_FLAGS_ERROR :: u32 where "X300_FW_COMMS_FLAGS_ERROR = BIT 1"
definition X300_FW_COMMS_FLAGS_POKE32 :: u32 where "X300_FW_COMMS_FLAGS_POKE32 = BIT 2"
definition X300_FW_COMMS_FLAGS_PEEK32 :: u32 where "X300_FW_COMMS_FLAGS_PEEK32 = BIT 3"
definition X300_FW_COMMS_FLAGS_ARP_FAIL :: u32 where "X300_FW_COMMS_FLAGS_ARP_FAIL = BIT 8"
definition X300_FPGA_PROG_FLAGS_ACK :: u32 where "X300_FPGA_PROG_FLAGS_ACK = BIT 0"
definition X300_FPGA_PROG_FLAGS_ERROR :: u32 where "X300_FPGA_PROG_FLAGS_ERROR = BIT 1"
definition X300_FPGA_PROG_FLAGS_INIT :: u32 where "X300_FPGA_PROG_FLAGS_INIT = BIT 2"
definition X300_FPGA_PROG_FLAGS_CLEANUP :: u32 where "X300_FPGA_PROG_FLAGS_CLEANUP = BIT 3"
definition X300_FPGA_PROG_FLAGS_ERASE :: u32 where "X300_FPGA_PROG_FLAGS_ERASE = BIT 4"
definition X300_FPGA_PROG_FLAGS_VERIFY :: u32 where "X300_FPGA_PROG_FLAGS_VERIFY = BIT 5"
definition X300_FPGA_PROG_CONFIGURE :: u32 where "X300_FPGA_PROG_CONFIGURE = BIT 6"
definition X300_FPGA_PROG_CONFIG_STATUS :: u32 where "X300_FPGA_PROG_CONFIG_STATUS = BIT 7"
definition X300_FPGA_READ_FLAGS_ACK :: u32 where "X300_FPGA_READ_FLAGS_ACK = BIT 0"
definition X300_FPGA_READ_FLAGS_ERROR :: u32 where "X300_FPGA_READ_FLAGS_ERROR = BIT 1"
definition X300_FPGA_READ_FLAGS_INIT :: u32 where "X300_FPGA_READ_FLAGS_INIT = BIT 2"
definition X300_FPGA_READ_FLAGS_CLEANUP :: u32 where "X300_FPGA_READ_FLAGS_CLEANUP = BIT 3"
definition X300_MTU_DETECT_ECHO_REQUEST :: u32 where "X300_MTU_DETECT_ECHO_REQUEST = BIT 0"
definition X300_MTU_DETECT_ECHO_REPLY :: u32 where "X300_MTU_DETECT_ECHO_REPLY = BIT 1"
definition X300_MTU_DETECT_ERROR :: u32 where "X300_MTU_DETECT_ERROR = BIT 2"

lemmas x300_regs = CPU_CLOCK_def PKT_RAM0_BASE_def SFP0_MAC_BASE_def SFP1_MAC_BASE_def 
  UART0_BASE_def UART0_BAUD_def UART1_BASE_def UART1_BAUD_def I2C0_BASE_def I2C1_BASE_def 
  I2C2_BASE_def SET0_BASE_def RB0_BASE_def MBOARD_EEPROM_ADDR_def SR_LEDS_def SR_SW_RST_def 
  SR_ETHINT0_def SR_ETHINT1_def SR_SFP0_ADAPTER_def SR_SFP1_ADAPTER_def LED_LINKSTAT_def 
  LED_LINKACT_def TA_KV_MAC_LO_def TA_KV_MAC_HI_def TA_KV_IPV4_def TA_KV_IPV4_W_ARP_def 
  RB_COUNTER_def RB_SFP0_TYPE_def RB_SFP1_TYPE_def RB_FPGA_COMPAT_def RB_SFP0_STATUS_def 
  RB_SFP1_STATUS_def SW_RST_PHY_def RB_SFP_1G_ETH_def RB_SFP_10G_ETH_def RB_SFP_AURORA_def

lemmas x300_consts = X300_FW_COMPAT_MAJOR_def X300_FW_COMPAT_MINOR_def X300_FW_SHMEM_BASE_def 
  X300_FW_SHMEM_COMPAT_NUM_def X300_FW_SHMEM_UART_RX_INDEX_def X300_FW_SHMEM_UART_TX_INDEX_def 
  X300_FW_SHMEM_CLAIM_STATUS_def X300_FW_SHMEM_CLAIM_TIME_def X300_FW_SHMEM_UART_RX_ADDR_def 
  X300_FW_SHMEM_UART_TX_ADDR_def X300_FW_SHMEM_UART_WORDS32_def X300_FW_SHMEM_ROUTE_MAP_ADDR_def 
  X300_FW_SHMEM_ROUTE_MAP_LEN_def X300_FW_SHMEM_IDENT_def X300_FW_COMMS_UDP_PORT_def 
  X300_VITA_UDP_PORT_def X300_GPSDO_UDP_PORT_def X300_FPGA_PROG_UDP_PORT_def 
  X300_MTU_DETECT_UDP_PORT_def X300_FPGA_READ_UDP_PORT_def X300_DEFAULT_MAC_ADDR_0_def 
  X300_DEFAULT_MAC_ADDR_1_def X300_DEFAULT_GATEWAY_def X300_DEFAULT_IP_ETH0_1G_def 
  X300_DEFAULT_IP_ETH1_1G_def X300_DEFAULT_IP_ETH0_10G_def X300_DEFAULT_IP_ETH1_10G_def 
  X300_DEFAULT_NETMASK_ETH0_1G_def X300_DEFAULT_NETMASK_ETH1_1G_def 
  X300_DEFAULT_NETMASK_ETH0_10G_def X300_DEFAULT_NETMASK_ETH1_10G_def X300_FW_COMMS_FLAGS_ACK_def 
  X300_FW_COMMS_FLAGS_ERROR_def X300_FW_COMMS_FLAGS_POKE32_def X300_FW_COMMS_FLAGS_PEEK32_def 
  X300_FW_COMMS_FLAGS_ARP_FAIL_def X300_FPGA_PROG_FLAGS_ACK_def X300_FPGA_PROG_FLAGS_ERROR_def 
  X300_FPGA_PROG_FLAGS_INIT_def X300_FPGA_PROG_FLAGS_CLEANUP_def X300_FPGA_PROG_FLAGS_ERASE_def 
  X300_FPGA_PROG_FLAGS_VERIFY_def X300_FPGA_PROG_CONFIGURE_def X300_FPGA_PROG_CONFIG_STATUS_def 
  X300_FPGA_READ_FLAGS_ACK_def X300_FPGA_READ_FLAGS_ERROR_def X300_FPGA_READ_FLAGS_INIT_def 
  X300_FPGA_READ_FLAGS_CLEANUP_def X300_MTU_DETECT_ECHO_REQUEST_def X300_MTU_DETECT_ECHO_REPLY_def 
  X300_MTU_DETECT_ERROR_def

end
