(* ===== verification/Cron.thy ===== *)
theory Cron
  imports NetHw X300Defs
begin

section \<open>Timers and periodic jobs\<close>

text \<open>
  \<^verbatim>\<open>firmware/usrp3/lib/cron.c\<close>.  The counter fetcher handed to \<^verbatim>\<open>cron_init\<close> is always
  \<^verbatim>\<open>get_counter_val\<close> of \<^verbatim>\<open>x300_init.c\<close>, a read of the FPGA's free running counter, so it
  is a function here.  The spin of \<^verbatim>\<open>sleep_ticks\<close> may never end; that it does
  on a counter that runs is a property.
\<close>

record cron_job_t =
  tick_interval :: u32
  last_tick_count :: u32

definition CRON_MAX_JOBS :: nat where "CRON_MAX_JOBS = 4"

datatype cron_time_unit_t = SEC | MILLISEC | MICROSEC

definition unit_value :: "cron_time_unit_t \<Rightarrow> u32" where
  "unit_value u = (case u of SEC \<Rightarrow> 1 | MILLISEC \<Rightarrow> 1000 | MICROSEC \<Rightarrow> 1000000)"

record cron = netstack +
  cron_counter_freq :: u32
  cron_job_table :: "cron_job_t list"

definition COUNTER_ADDR :: u32 where "COUNTER_ADDR = SR_ADDR RB0_BASE RB_COUNTER"

definition get_counter_val :: "'a bus_scheme \<Rightarrow> u32 \<times> 'a bus_scheme" where
  "get_counter_val s = wb_peek32 COUNTER_ADDR s"

definition cron_init :: "u32 \<Rightarrow> 'a cron_scheme \<Rightarrow> 'a cron_scheme" where
  "cron_init counter_freq s =
     s\<lparr>cron_counter_freq := counter_freq,
       cron_job_table := map (\<lambda>j. j\<lparr>tick_interval := 0\<rparr>) (cron_job_table s)\<rparr>"

definition cron_get_ticks :: "'a bus_scheme \<Rightarrow> u32 \<times> 'a bus_scheme" where
  "cron_get_ticks s = get_counter_val s"

definition get_elapsed_time :: "u32 \<Rightarrow> u32 \<Rightarrow> cron_time_unit_t \<Rightarrow> 'a cron_scheme \<Rightarrow> u32" where
  "get_elapsed_time start_ticks stop_ticks u s =
     ((stop_ticks - start_ticks) div cron_counter_freq s) * unit_value u"

definition sleep_ticks :: "u32 \<Rightarrow> 'a bus_scheme \<Rightarrow> 'a bus_scheme option" where
  "sleep_ticks ticks s =
     (if ticks = 0 then Some s
      else (let (ticks_begin, s) = get_counter_val s
            in spin_while COUNTER_ADDR (\<lambda>c. c - ticks_begin < ticks) s))"

definition sleep_us :: "u32 \<Rightarrow> 'a cron_scheme \<Rightarrow> 'a cron_scheme option" where
  "sleep_us duration s = sleep_ticks (duration * (cron_counter_freq s div 1000000)) s"

definition sleep_ms :: "u32 \<Rightarrow> 'a cron_scheme \<Rightarrow> 'a cron_scheme option" where
  "sleep_ms duration s = sleep_ticks (duration * (cron_counter_freq s div 1000)) s"

definition cron_job_init :: "nat \<Rightarrow> u32 \<Rightarrow> 'a cron_scheme \<Rightarrow> 'a cron_scheme" where
  "cron_job_init job_id interval_ms s =
     s\<lparr>cron_job_table := (cron_job_table s)
         [job_id := \<lparr>tick_interval = interval_ms * (cron_counter_freq s div 1000), last_tick_count = 0\<rparr>]\<rparr>"

definition cron_job_run_due :: "nat \<Rightarrow> 'a cron_scheme \<Rightarrow> bool \<times> 'a cron_scheme" where
  "cron_job_run_due job_id s =
     (let (new_tick_count, s) = get_counter_val s;
          job = cron_job_table s ! job_id;
          run_job = (new_tick_count - last_tick_count job \<ge> tick_interval job)
      in (run_job, if run_job
                   then s\<lparr>cron_job_table := (cron_job_table s)[job_id := job\<lparr>last_tick_count := new_tick_count\<rparr>]\<rparr>
                   else s))"

subsection \<open>A counter that runs\<close>

text \<open>
  From any history, the counter read after one more access is ahead by at least one and at
  most \<open>k\<close> ticks, modulo its 32 bits.
\<close>

definition counter_runs :: "nat \<Rightarrow> (access list \<Rightarrow> u32 \<Rightarrow> u32) \<Rightarrow> bool" where
  "counter_runs k d \<longleftrightarrow> (\<forall>t x. let step = unat (d (x # t) COUNTER_ADDR - d t COUNTER_ADDR) in 1 \<le> step \<and> step \<le> k)"

definition free_counter :: "access list \<Rightarrow> u32 \<Rightarrow> u32" where
  "free_counter t a = of_nat (length t)"

lemma free_counter_runs: "counter_runs 1 free_counter"
  by (simp add: counter_runs_def free_counter_def)

lemma counter_step:
  assumes "counter_runs k d" and "unat (d t COUNTER_ADDR - t0) + k < 2 ^ 32"
  shows "unat (d t COUNTER_ADDR - t0) + 1 \<le> unat (d (x # t) COUNTER_ADDR - t0)"
    and "unat (d (x # t) COUNTER_ADDR - t0) \<le> unat (d t COUNTER_ADDR - t0) + k"
proof -
  let ?step = "d (x # t) COUNTER_ADDR - d t COUNTER_ADDR"
  have st: "1 \<le> unat ?step" "unat ?step \<le> k"
    using assms(1) by (auto simp: counter_runs_def Let_def)
  have "d (x # t) COUNTER_ADDR - t0 = (d t COUNTER_ADDR - t0) + ?step" by simp
  moreover have "unat ((d t COUNTER_ADDR - t0) + ?step) = unat (d t COUNTER_ADDR - t0) + unat ?step"
    by (rule unat_u32_add_no_wrap) (use assms(2) st in linarith)
  ultimately have "unat (d (x # t) COUNTER_ADDR - t0) = unat (d t COUNTER_ADDR - t0) + unat ?step" by simp
  with st show "unat (d t COUNTER_ADDR - t0) + 1 \<le> unat (d (x # t) COUNTER_ADDR - t0)"
    and "unat (d (x # t) COUNTER_ADDR - t0) \<le> unat (d t COUNTER_ADDR - t0) + k"
    by linarith+
qed

text \<open>By the time \<open>ticks\<close> reads have been made, one of them has passed the goal.\<close>

lemma counter_reaches:
  assumes run: "counter_runs k (dev s)" and room: "unat ticks + k < 2 ^ 32"
    and start: "m \<le> unat (dev s (trace s) COUNTER_ADDR - t0)"
  shows "\<exists>n. \<not> dev s (trace (after_reads COUNTER_ADDR n s)) COUNTER_ADDR - t0 < ticks"
  using start run
proof (induction "unat ticks - m" arbitrary: m s rule: less_induct)
  case less
  show ?case
  proof (cases "dev s (trace s) COUNTER_ADDR - t0 < ticks")
    case False
    then show ?thesis by (intro exI [of _ 0]) simp
  next
    case True
    then have lt: "unat (dev s (trace s) COUNTER_ADDR - t0) < unat ticks" by (simp add: word_less_nat_alt)
    let ?s = "snd (wb_peek32 COUNTER_ADDR s)"
    have "unat (dev s (trace s) COUNTER_ADDR - t0) + k < 2 ^ 32" using lt room by linarith
    from counter_step(1) [OF less.prems(2) this, of "Rd COUNTER_ADDR (dev s (trace s) COUNTER_ADDR)"]
    have "unat (dev s (trace s) COUNTER_ADDR - t0) + 1 \<le> unat (dev ?s (trace ?s) COUNTER_ADDR - t0)" by simp
    with less.prems(1) have "Suc m \<le> unat (dev ?s (trace ?s) COUNTER_ADDR - t0)" by linarith
    moreover have "unat ticks - Suc m < unat ticks - m" using less.prems(1) lt by linarith
    ultimately obtain n where "\<not> dev ?s (trace (after_reads COUNTER_ADDR n ?s)) COUNTER_ADDR - t0 < ticks"
      using less.hyps [of "Suc m" ?s] less.prems(2) by auto
    then show ?thesis by (intro exI [of _ "Suc n"]) simp
  qed
qed

subsection \<open>Properties\<close>

text \<open>Sleeping returns, and not early: on a running counter that cannot step over the end of
  the interval, \<^verbatim>\<open>sleep_ticks\<close> returns after reading the counter only, and its last
  reading is at least \<open>ticks\<close> ahead of its first.\<close>

theorem sleep_ticks_returns:
  assumes "counter_runs k (dev s)" and "unat ticks + k < 2 ^ 32" and "0 < ticks"
  shows "\<exists>s' mid first last. sleep_ticks ticks s = Some s'
    \<and> trace s' = Rd COUNTER_ADDR last # mid @ [Rd COUNTER_ADDR first] @ trace s
    \<and> ticks \<le> last - first \<and> dev s' = dev s \<and> wr_log s' = wr_log s"
proof -
  let ?t0 = "dev s (trace s) COUNTER_ADDR" and ?s = "snd (wb_peek32 COUNTER_ADDR s)"
  have "counter_runs k (dev ?s)" using assms(1) by simp
  from counter_reaches [OF this assms(2), of 0 ?t0] obtain n where
    "\<not> dev ?s (trace (after_reads COUNTER_ADDR n ?s)) COUNTER_ADDR - ?t0 < ticks" by auto
  then have "\<not> (\<lambda>c. c - ?t0 < ticks) (fst (wb_peek32 COUNTER_ADDR (after_reads COUNTER_ADDR n ?s)))" by simp
  from spin_while_exits [where busy = "\<lambda>c. c - ?t0 < ticks", OF this] obtain s' where
      s': "spin_while COUNTER_ADDR (\<lambda>c. c - ?t0 < ticks) ?s = Some s'" by blast
  from spin_while_result [OF this] obtain j where j: "s' = after_reads COUNTER_ADDR (Suc j) ?s"
    "\<not> fst (wb_peek32 COUNTER_ADDR (after_reads COUNTER_ADDR j ?s)) - ?t0 < ticks" by blast
  have suc: "after_reads COUNTER_ADDR (Suc j) x = snd (wb_peek32 COUNTER_ADDR (after_reads COUNTER_ADDR j x))"
    for x :: "'a bus_scheme" by (induction j arbitrary: x) auto
  obtain mid where mid: "trace (after_reads COUNTER_ADDR j ?s) = mid @ trace ?s"
    using after_reads_extends by blast
  have "trace s' = Rd COUNTER_ADDR (fst (wb_peek32 COUNTER_ADDR (after_reads COUNTER_ADDR j ?s))) # mid @ [Rd COUNTER_ADDR ?t0] @ trace s"
    unfolding j(1) suc using mid by simp
  moreover have "sleep_ticks ticks s = Some s'"
    using s' assms(3) by (simp add: sleep_ticks_def get_counter_val_def case_prod_unfold Let_def)
  moreover have "dev s' = dev s" "wr_log s' = wr_log s" unfolding j(1) by simp_all
  ultimately show ?thesis using j(2) by (metis not_less)
qed

lemma sleep_ticks_returns_witness:
  "\<exists>s' mid first last. sleep_ticks 5 \<lparr>dev = free_counter, trace = []\<rparr> = Some s'
    \<and> trace s' = Rd COUNTER_ADDR last # mid @ [Rd COUNTER_ADDR first] \<and> 5 \<le> last - first"
proof -
  have "counter_runs 1 (dev \<lparr>dev = free_counter, trace = []\<rparr>)" using free_counter_runs by simp
  from sleep_ticks_returns [OF this, of 5] show ?thesis by auto
qed

text \<open>\<^verbatim>\<open>get_elapsed_time\<close> has no resolution below a second: it divides before it
  multiplies, so for every unit the elapsed time of anything shorter than a second is zero, and
  any other is a whole number of seconds.\<close>

theorem get_elapsed_time_whole_seconds:
  assumes "0 < cron_counter_freq s"
  shows "(stop - start < cron_counter_freq s \<longrightarrow> get_elapsed_time start stop u s = 0)
    \<and> get_elapsed_time start stop u s = get_elapsed_time start stop SEC s * unit_value u"
proof -
  have "stop - start < cron_counter_freq s \<Longrightarrow> unat ((stop - start) div cron_counter_freq s) = 0"
    by (simp add: unat_div word_less_nat_alt)
  then have "stop - start < cron_counter_freq s \<Longrightarrow> (stop - start) div cron_counter_freq s = 0"
    by (simp only: unsigned_eq_0_iff)
  then show ?thesis by (simp add: get_elapsed_time_def unit_value_def)
qed

definition demo_cron :: "unit cron_scheme" where
  "demo_cron = netstack.extend demo (cron.fields CPU_CLOCK (replicate 4 \<lparr>tick_interval = 0, last_tick_count = 0\<rparr>))"

lemma get_elapsed_time_whole_seconds_witness:
  "get_elapsed_time 0 93000000 MILLISEC demo_cron = 0"
  using get_elapsed_time_whole_seconds [of demo_cron 93000000 0 MILLISEC]
  by (simp add: demo_cron_def netstack.defs cron.defs demo_def CPU_CLOCK_def)

end
