(* ===== verification/WbI2c.thy ===== *)
theory WbI2c
  imports Bus
begin

unbundle bit_operations_syntax

section \<open>The I2C driver\<close>

text \<open>
  \<^verbatim>\<open>firmware/usrp3/lib/wb_i2c.c\<close>, over the bus of theory \<open>Bus\<close>.  All waits are
  unbounded, so every operation is an \<open>option\<close>; \<open>wb_i2c_read\<close> returns the success flag with the
  bytes stored through the buffer pointer.  The properties say what is put on the I2C bus, command
  by command, on success and after a missing acknowledgement: in particular that no
  transaction is left without its STOP condition.
\<close>

definition prescaler_lo :: u32 where "prescaler_lo = 0"
definition prescaler_hi :: u32 where "prescaler_hi = 4"
definition i2c_ctrl :: u32 where "i2c_ctrl = 8"
definition i2c_data :: u32 where "i2c_data = 12"
definition cmd_status :: u32 where "cmd_status = 16"

lemmas i2c_regs = prescaler_lo_def prescaler_hi_def i2c_ctrl_def i2c_data_def cmd_status_def

definition I2C_CTRL_EN :: u32 where "I2C_CTRL_EN = BIT 7"
definition I2C_CMD_START :: u32 where "I2C_CMD_START = BIT 7"
definition I2C_CMD_STOP :: u32 where "I2C_CMD_STOP = BIT 6"
definition I2C_CMD_RD :: u32 where "I2C_CMD_RD = BIT 5"
definition I2C_CMD_WR :: u32 where "I2C_CMD_WR = BIT 4"
definition I2C_CMD_NACK :: u32 where "I2C_CMD_NACK = BIT 3"
definition I2C_ST_RXACK :: u32 where "I2C_ST_RXACK = BIT 7"
definition I2C_ST_BUSY :: u32 where "I2C_ST_BUSY = BIT 6"
definition I2C_ST_TIP :: u32 where "I2C_ST_TIP = BIT 1"

definition wb_i2c_init :: "u32 \<Rightarrow> u32 \<Rightarrow> 'a bus_scheme \<Rightarrow> 'a bus_scheme" where
  "wb_i2c_init base clk_rate s =
     (let prescaler = ucast (clk_rate div (5 * 400000) - 1) :: u16;
          s = wb_poke32 (base + prescaler_lo) (ucast (prescaler AND 0xff)) s;
          s = wb_poke32 (base + prescaler_hi) (ucast (drop_bit 8 prescaler AND 0xff)) s
      in wb_poke32 (base + i2c_ctrl) I2C_CTRL_EN s)"

definition wait_for_xfer :: "u32 \<Rightarrow> 'a bus_scheme \<Rightarrow> 'a bus_scheme option" where
  "wait_for_xfer base s = spin_while (base + cmd_status) (\<lambda>v. v AND I2C_ST_TIP \<noteq> 0) s"

definition wait_chk_ack :: "u32 \<Rightarrow> 'a bus_scheme \<Rightarrow> (bool \<times> 'a bus_scheme) option" where
  "wait_chk_ack base s =
     do { s \<leftarrow> wait_for_xfer base s;
          let (v, s) = wb_peek32 (base + cmd_status) s;
          Some (v AND I2C_ST_RXACK = 0, s) }"

fun i2c_read_bytes :: "u32 \<Rightarrow> nat \<Rightarrow> 'a bus_scheme \<Rightarrow> (u8 list \<times> 'a bus_scheme) option" where
  "i2c_read_bytes base 0 s = Some ([], s)"
| "i2c_read_bytes base (Suc n) s =
     (let s = wb_poke32 (base + cmd_status) (I2C_CMD_RD OR (if Suc n = 1 then I2C_CMD_NACK OR I2C_CMD_STOP else 0)) s in
      do { s \<leftarrow> wait_for_xfer base s;
           let (v, s) = wb_peek32 (base + i2c_data) s;
           (bs, s) \<leftarrow> i2c_read_bytes base n s;
           Some (ucast v # bs, s) })"

definition wb_i2c_read :: "u32 \<Rightarrow> u8 \<Rightarrow> nat \<Rightarrow> 'a bus_scheme \<Rightarrow> ((bool \<times> u8 list) \<times> 'a bus_scheme) option" where
  "wb_i2c_read base i2c_addr len s =
     (if len = 0 then Some ((True, []), s)
      else do { s \<leftarrow> spin_while (base + cmd_status) (\<lambda>v. v AND I2C_ST_BUSY \<noteq> 0) s;
                let s = wb_poke32 (base + i2c_data) (push_bit 1 (ucast i2c_addr) OR 1) s;
                let s = wb_poke32 (base + cmd_status) (I2C_CMD_WR OR I2C_CMD_START) s;
                (ack, s) \<leftarrow> wait_chk_ack base s;
                if \<not> ack then Some ((False, []), wb_poke32 (base + cmd_status) I2C_CMD_STOP s)
                else do { (bs, s) \<leftarrow> i2c_read_bytes base len s; Some ((True, bs), s) } })"

fun i2c_write_bytes :: "u32 \<Rightarrow> u8 list \<Rightarrow> 'a bus_scheme \<Rightarrow> (bool \<times> 'a bus_scheme) option" where
  "i2c_write_bytes base [] s = Some (True, s)"
| "i2c_write_bytes base (b # bs) s =
     (let s = wb_poke32 (base + i2c_data) (ucast b) s;
          s = wb_poke32 (base + cmd_status) (I2C_CMD_WR OR (if bs = [] then I2C_CMD_STOP else 0)) s
      in do { (ack, s) \<leftarrow> wait_chk_ack base s;
              if \<not> ack then Some (False, wb_poke32 (base + cmd_status) I2C_CMD_STOP s)
              else i2c_write_bytes base bs s })"

definition wb_i2c_write :: "u32 \<Rightarrow> u8 \<Rightarrow> u8 list \<Rightarrow> 'a bus_scheme \<Rightarrow> (bool \<times> 'a bus_scheme) option" where
  "wb_i2c_write base i2c_addr buf s =
     do { s \<leftarrow> spin_while (base + cmd_status) (\<lambda>v. v AND I2C_ST_BUSY \<noteq> 0) s;
          let s = wb_poke32 (base + i2c_data) (push_bit 1 (ucast i2c_addr) OR 0) s;
          let s = wb_poke32 (base + cmd_status) (I2C_CMD_WR OR I2C_CMD_START OR (if buf = [] then I2C_CMD_STOP else 0)) s;
          (ack, s) \<leftarrow> wait_chk_ack base s;
          if \<not> ack then Some (False, wb_poke32 (base + cmd_status) I2C_CMD_STOP s)
          else i2c_write_bytes base buf s }"

subsection \<open>What is written\<close>

lemma spin_frame:
  assumes "spin_while a busy s = Some s'"
  shows "wr_log s' = wr_log s" "dev s' = dev s"
  using spin_while_result [OF assms] by auto

lemma wait_for_xfer_frame:
  assumes "wait_for_xfer base s = Some s'"
  shows "wr_log s' = wr_log s" "dev s' = dev s"
  using assms spin_frame unfolding wait_for_xfer_def by blast+

lemma wait_chk_ack_frame:
  assumes "wait_chk_ack base s = Some (ack, s')"
  shows "wr_log s' = wr_log s" "dev s' = dev s"
proof -
  from assms obtain s1 where "wait_for_xfer base s = Some s1" "s' = snd (wb_peek32 (base + cmd_status) s1)"
    by (auto simp: wait_chk_ack_def bind_eq_Some_conv case_prod_unfold Let_def)
  with wait_for_xfer_frame show "wr_log s' = wr_log s" "dev s' = dev s" by force+
qed

lemma i2c_read_bytes_log:
  assumes "i2c_read_bytes base n s = Some (bs, s')"
  shows "length bs = n" and "wr_log s' = (if n = 0 then [] else
    Wr (base + cmd_status) (I2C_CMD_RD OR I2C_CMD_NACK OR I2C_CMD_STOP) # replicate (n - 1) (Wr (base + cmd_status) I2C_CMD_RD)) @ wr_log s"
proof -
  have "length bs = n \<and> wr_log s' = (if n = 0 then [] else
    Wr (base + cmd_status) (I2C_CMD_RD OR I2C_CMD_NACK OR I2C_CMD_STOP) # replicate (n - 1) (Wr (base + cmd_status) I2C_CMD_RD)) @ wr_log s"
    using assms
  proof (induction n arbitrary: s bs)
    case 0
    then show ?case by simp
  next
    case (Suc n)
    let ?c = "I2C_CMD_RD OR (if Suc n = 1 then I2C_CMD_NACK OR I2C_CMD_STOP else 0)"
    from Suc.prems obtain s1 bs' where
        w: "wait_for_xfer base (wb_poke32 (base + cmd_status) ?c s) = Some s1"
      and r: "i2c_read_bytes base n (snd (wb_peek32 (base + i2c_data) s1)) = Some (bs', s')"
      and b: "length bs = Suc (length bs')"
      by (auto simp: Let_def bind_eq_Some_conv case_prod_unfold)
    have "wr_log s1 = Wr (base + cmd_status) ?c # wr_log s" using wait_for_xfer_frame(1) [OF w] by simp
    with Suc.IH [OF r] b show ?case
      by (cases n) (auto simp: replicate_append_same)
  qed
  then show "length bs = n" and "wr_log s' = (if n = 0 then [] else
    Wr (base + cmd_status) (I2C_CMD_RD OR I2C_CMD_NACK OR I2C_CMD_STOP) # replicate (n - 1) (Wr (base + cmd_status) I2C_CMD_RD)) @ wr_log s"
    by blast+
qed

definition i2c_start :: "u32 \<Rightarrow> u32 \<Rightarrow> u32 \<Rightarrow> access list" where
  "i2c_start base addr_rw extra = [Wr (base + i2c_data) addr_rw, Wr (base + cmd_status) (I2C_CMD_WR OR I2C_CMD_START OR extra)]"

subsection \<open>Transactions\<close>

text \<open>
  One transfer of the core, as the history shows it (newest access first): the value is put into
  the data register and the command into the command register, the status is polled until the
  transfer is no longer in progress (bit 1), and the status read after that says whether the device
  acknowledged (bit 7 clear) or not.
\<close>

definition transfer :: "u32 \<Rightarrow> bool \<Rightarrow> u32 \<times> u32 \<Rightarrow> access list \<Rightarrow> bool" where
  "transfer base acked dc t \<longleftrightarrow> (\<exists>st p. polled (base + 16) (\<lambda>v. bit v 1) p \<and> (acked \<longleftrightarrow> \<not> bit st 7)
     \<and> t = Rd (base + 16) st # p @ [Wr (base + 16) (snd dc), Wr (base + 12) (fst dc)])"

text \<open>
  A transaction of some transfers: all of them acknowledged, or all up to one that is refused, which
  is followed by a STOP command and nothing else.
\<close>

definition transaction :: "u32 \<Rightarrow> (u32 \<times> u32) list \<Rightarrow> bool \<Rightarrow> access list \<Rightarrow> bool" where
  "transaction base dcs ok t \<longleftrightarrow>
     (if ok then \<exists>ts. list_all2 (transfer base True) dcs ts \<and> t = concat (rev ts)
      else \<exists>k<length dcs. \<exists>ts u. list_all2 (transfer base True) (take k dcs) ts \<and> transfer base False (dcs ! k) u
        \<and> t = Wr (base + 16) 0x40 # u @ concat (rev ts))"

text \<open>The transfers of a write: the address with the write bit under START, then the bytes, the last
  of them (or the address, if there is none) with STOP.\<close>

definition byte_transfers :: "u8 list \<Rightarrow> (u32 \<times> u32) list" where
  "byte_transfers buf = map (\<lambda>i. (ucast (buf ! i), if Suc i = length buf then 0x50 else 0x10)) [0..<length buf]"

definition write_transfers :: "u8 \<Rightarrow> u8 list \<Rightarrow> (u32 \<times> u32) list" where
  "write_transfers addr buf = (2 * ucast addr, if buf = [] then 0xD0 else 0x90) # byte_transfers buf"

lemma byte_transfers_simps [simp]:
  "byte_transfers [] = []"
  "byte_transfers (b # bs) = (ucast b, if bs = [] then 0x50 else 0x10) # byte_transfers bs"
  by (simp_all add: byte_transfers_def map_upt_Suc del: upt_Suc)

lemma transaction_Nil [simp]: "transaction base [] ok t \<longleftrightarrow> ok \<and> t = []"
  by (auto simp: transaction_def)

lemma transaction_refused: "transfer base False x u \<Longrightarrow> transaction base (x # dcs) False (Wr (base + 16) 0x40 # u)"
  by (auto simp: transaction_def intro!: exI [of _ 0])

lemma transaction_acked:
  assumes "transfer base True x u" and "transaction base dcs ok t"
  shows "transaction base (x # dcs) ok (t @ u)"
proof (cases ok)
  case True
  with assms obtain ts where "list_all2 (transfer base True) dcs ts" "t = concat (rev ts)"
    by (auto simp: transaction_def)
  with assms(1) True show ?thesis by (auto simp: transaction_def intro!: exI [of _ "u # ts"])
next
  case False
  with assms obtain k ts v where "k < length dcs" "list_all2 (transfer base True) (take k dcs) ts"
    "transfer base False (dcs ! k) v" "t = Wr (base + 16) 0x40 # v @ concat (rev ts)"
    by (auto simp: transaction_def)
  with assms(1) False show ?thesis
    by (auto simp: transaction_def intro!: exI [of _ "Suc k"] exI [of _ "u # ts"] exI [of _ v])
qed

lemma wait_chk_ack_transfer:
  assumes "wait_chk_ack base (wb_poke32 (base + cmd_status) c (wb_poke32 (base + i2c_data) d s)) = Some (ack, s')"
  shows "\<exists>t. transfer base ack (d, c) t \<and> trace s' = t @ trace s"
proof -
  let ?s = "wb_poke32 (base + cmd_status) c (wb_poke32 (base + i2c_data) d s)"
  from assms obtain s1 where w: "wait_for_xfer base ?s = Some s1"
      and r: "ack = (dev s1 (trace s1) (base + cmd_status) AND I2C_ST_RXACK = 0)" "s' = snd (wb_peek32 (base + cmd_status) s1)"
    by (auto simp: wait_chk_ack_def bind_eq_Some_conv case_prod_unfold Let_def)
  obtain p where p: "polled (base + cmd_status) (\<lambda>v. v AND I2C_ST_TIP \<noteq> 0) p" "trace s1 = p @ trace ?s"
    using spin_while_polled [OF w [unfolded wait_for_xfer_def]] by blast
  have bits: "v AND I2C_ST_TIP \<noteq> 0 \<longleftrightarrow> bit v 1" "v AND I2C_ST_RXACK = 0 \<longleftrightarrow> \<not> bit v 7" for v :: u32
    by (simp_all add: I2C_ST_TIP_def I2C_ST_RXACK_def and_BIT_eq_0_iff)
  show ?thesis
    using p r unfolding transfer_def bits by (force simp: i2c_regs)
qed

lemma i2c_write_bytes_transaction:
  assumes "i2c_write_bytes base bs s = Some (ok, s')"
  shows "\<exists>t. transaction base (byte_transfers bs) ok t \<and> trace s' = t @ trace s"
  using assms
proof (induction bs arbitrary: s)
  case (Cons b bs)
  let ?c = "I2C_CMD_WR OR (if bs = [] then I2C_CMD_STOP else 0)"
  have c: "?c = (if bs = [] then 0x50 else 0x10)" by (simp add: I2C_CMD_WR_def I2C_CMD_STOP_def BIT_def)
  from Cons.prems obtain ack s1 where
      a: "wait_chk_ack base (wb_poke32 (base + cmd_status) ?c (wb_poke32 (base + i2c_data) (ucast b) s)) = Some (ack, s1)"
    and r: "(if \<not> ack then Some (False, wb_poke32 (base + cmd_status) I2C_CMD_STOP s1) else i2c_write_bytes base bs s1) = Some (ok, s')"
    by (auto simp: Let_def bind_eq_Some_conv)
  obtain u where u: "transfer base ack (ucast b, ?c) u" "trace s1 = u @ trace s" using wait_chk_ack_transfer [OF a] by blast
  show ?case
  proof (cases ack)
    case False
    with r u transaction_refused show ?thesis by (fastforce simp: c i2c_regs I2C_CMD_STOP_def BIT_def)
  next
    case True
    with r Cons.IH [of s1] obtain t where "transaction base (byte_transfers bs) ok t" "trace s' = t @ trace s1" by auto
    with True u transaction_acked show ?thesis by (fastforce simp: c)
  qed
qed simp

text \<open>The last access of a transaction that carries a STOP with its last transfer is a command with STOP
  or a status read after one: no transaction is left open.\<close>

lemma stop_sent:
  assumes "transaction base dcs ok t" and "dcs \<noteq> []" and "bit (snd (last dcs)) 6"
  shows "\<exists>c older. filter is_write t = Wr (base + 16) c # older \<and> bit c 6"
proof (cases ok)
  case True
  with assms(1) obtain ts where ts: "list_all2 (transfer base True) dcs ts" "t = concat (rev ts)" by (auto simp: transaction_def)
  then have ne: "ts \<noteq> []" using assms(2) by auto
  then have "t = last ts @ concat (rev (butlast ts))" unfolding ts(2)
    by (metis append_butlast_last_id concat.simps(2) rev.simps(2) rev_append rev_rev_ident rev_singleton_conv append_Cons append_Nil)
  moreover have "transfer base True (last dcs) (last ts)"
    using ts(1) ne assms(2) by (metis last_conv_nth list_all2_conv_all_nth diff_less length_greater_0_conv zero_less_one)
  moreover have "filter is_write (map (Rd a) vs) = []" for a vs by (induction vs) (auto simp: is_write_def)
  ultimately show ?thesis using assms(3) by (auto simp: transfer_def polled_def is_write_def)
next
  case False
  with assms(1) show ?thesis by (auto simp: transaction_def is_write_def bit_numeral_rec)
qed

subsection \<open>Properties\<close>

text \<open>C11. A write transaction.  The driver waits until the bus is free (bit 6 clear) and then makes the
  transfers of the write, each followed by a look at the device's acknowledgement; it reports success
  exactly when the device acknowledged them all, and otherwise it stops behind the first refused one
  and sends STOP.  The last command carries the STOP bit in every case, so the bus is released.\<close>

theorem i2c_write_protocol:
  assumes "wb_i2c_write base addr buf s = Some (ok, s')"
  shows "\<exists>t p. trace s' = t @ p @ trace s \<and> polled (base + 16) (\<lambda>v. bit v 6) p
    \<and> transaction base (write_transfers addr buf) ok t
    \<and> (\<exists>c older. filter is_write t = Wr (base + 16) c # older \<and> bit c 6)"
proof -
  let ?c = "I2C_CMD_WR OR I2C_CMD_START OR (if buf = [] then I2C_CMD_STOP else 0)"
  have c: "?c = (if buf = [] then 0xD0 else 0x90)" by (simp add: I2C_CMD_WR_def I2C_CMD_START_def I2C_CMD_STOP_def BIT_def)
  have d: "push_bit 1 (ucast addr) OR 0 = (2 * ucast addr :: u32)" by (simp add: push_bit_eq_mult)
  from assms obtain s0 ack s1 where
      sp: "spin_while (base + cmd_status) (\<lambda>v. v AND I2C_ST_BUSY \<noteq> 0) s = Some s0"
    and a: "wait_chk_ack base (wb_poke32 (base + cmd_status) ?c (wb_poke32 (base + i2c_data) (push_bit 1 (ucast addr) OR 0) s0)) = Some (ack, s1)"
    and r: "(if \<not> ack then Some (False, wb_poke32 (base + cmd_status) I2C_CMD_STOP s1) else i2c_write_bytes base buf s1) = Some (ok, s')"
    by (auto simp: wb_i2c_write_def Let_def bind_eq_Some_conv)
  obtain p where p: "polled (base + cmd_status) (\<lambda>v. v AND I2C_ST_BUSY \<noteq> 0) p" "trace s0 = p @ trace s"
    using spin_while_polled [OF sp] by blast
  obtain u where u: "transfer base ack (2 * ucast addr, if buf = [] then 0xD0 else 0x90) u" "trace s1 = u @ trace s0"
    using wait_chk_ack_transfer [OF a] unfolding c d by blast
  have "\<exists>t. transaction base (write_transfers addr buf) ok t \<and> trace s' = t @ trace s0"
  proof (cases ack)
    case False
    with r u transaction_refused show ?thesis unfolding write_transfers_def by (fastforce simp: i2c_regs I2C_CMD_STOP_def BIT_def)
  next
    case True
    with r have w: "i2c_write_bytes base buf s1 = Some (ok, s')" by simp
    obtain t where "transaction base (byte_transfers buf) ok t" "trace s' = t @ trace s1"
      using i2c_write_bytes_transaction [OF w] by blast
    with u True transaction_acked show ?thesis unfolding write_transfers_def by fastforce
  qed
  then obtain t where t: "transaction base (write_transfers addr buf) ok t" "trace s' = t @ trace s0" by blast
  have "bit (snd (last (write_transfers addr buf))) 6"
    by (auto simp: write_transfers_def byte_transfers_def last_map bit_numeral_rec)
  moreover have "write_transfers addr buf \<noteq> []" by (simp add: write_transfers_def)
  ultimately have "\<exists>c older. filter is_write t = Wr (base + 16) c # older \<and> bit c 6"
    using stop_sent [OF t(1)] by blast
  moreover have "v AND I2C_ST_BUSY \<noteq> 0 \<longleftrightarrow> bit v 6" for v :: u32 by (simp add: I2C_ST_BUSY_def and_BIT_eq_0_iff)
  ultimately show ?thesis using t p by (auto simp: i2c_regs)
qed

text \<open>The waits have no bound, so a write returns on a core that gets ready: every busy flag of its
  status is clear at some later read.\<close>

definition status_live :: "(access list \<Rightarrow> u32 \<Rightarrow> u32) \<Rightarrow> u32 \<Rightarrow> bool" where
  "status_live d a \<longleftrightarrow> (\<forall>t. \<forall>b\<in>{1, 6}. \<exists>n. \<not> bit (d (trace (after_reads a n \<lparr>dev = d, trace = t\<rparr>)) a) b)"

lemma read_log_irrelevant: "trace (after_reads a n s) = trace (after_reads a n \<lparr>dev = dev s, trace = trace s\<rparr>)"
proof (induction n arbitrary: s)
  case (Suc n)
  let ?b = "\<lparr>dev = dev s, trace = trace s\<rparr>"
  have "trace (after_reads a n (snd (wb_peek32 a s))) = trace (after_reads a n (snd (wb_peek32 a ?b)))"
    using Suc.IH [of "snd (wb_peek32 a s)"] by (simp add: wb_peek32_def Let_def)
  then show ?case by simp
qed simp

lemma status_spin:
  assumes "status_live (dev s) a" and "b \<in> {1, 6}"
  shows "\<exists>s'. spin_while a (\<lambda>v. v AND BIT b \<noteq> 0) s = Some s' \<and> dev s' = dev s"
proof -
  from assms obtain n where "\<not> bit (dev s (trace (after_reads a n s)) a) b"
    unfolding status_live_def by (metis read_log_irrelevant)
  then have "\<not> fst (wb_peek32 a (after_reads a n s)) AND BIT b \<noteq> 0"
    using assms(2) by (auto simp: and_BIT_eq_0_iff)
  from spin_while_exits [where busy = "\<lambda>v. v AND BIT b \<noteq> 0", OF this] show ?thesis
    using dev_after_reads by fastforce
qed

lemma wait_chk_ack_returns:
  assumes "status_live (dev s) (base + 16)"
  shows "\<exists>ack s'. wait_chk_ack base s = Some (ack, s') \<and> dev s' = dev s"
  using status_spin [OF assms, of 1]
  by (auto simp: wait_chk_ack_def wait_for_xfer_def i2c_regs I2C_ST_TIP_def case_prod_unfold Let_def)

lemma i2c_write_bytes_returns:
  "status_live (dev s) (base + 16) \<Longrightarrow> \<exists>r. i2c_write_bytes base bs s = Some r"
proof (induction bs arbitrary: s)
  case (Cons b bs)
  let ?s = "wb_poke32 (base + cmd_status) (I2C_CMD_WR OR (if bs = [] then I2C_CMD_STOP else 0)) (wb_poke32 (base + i2c_data) (ucast b) s)"
  have "status_live (dev ?s) (base + 16)" using Cons.prems by simp
  from wait_chk_ack_returns [OF this] obtain ack s1 where "wait_chk_ack base ?s = Some (ack, s1)" "dev s1 = dev s" by auto
  then show ?case using Cons.IH [of s1] Cons.prems by (auto simp: Let_def)
qed auto

theorem i2c_write_returns:
  assumes "status_live (dev s) (base + 16)"
  shows "\<exists>r. wb_i2c_write base addr buf s = Some r"
proof -
  obtain s0 where s0: "spin_while (base + cmd_status) (\<lambda>v. v AND I2C_ST_BUSY \<noteq> 0) s = Some s0" "dev s0 = dev s"
    using status_spin [OF assms, of 6] by (auto simp: i2c_regs I2C_ST_BUSY_def)
  let ?s = "wb_poke32 (base + cmd_status) (I2C_CMD_WR OR I2C_CMD_START OR (if buf = [] then I2C_CMD_STOP else 0))
      (wb_poke32 (base + i2c_data) (push_bit 1 (ucast addr) OR 0) s0)"
  have "status_live (dev ?s) (base + 16)" using assms s0 by simp
  from wait_chk_ack_returns [OF this] obtain ack s1 where "wait_chk_ack base ?s = Some (ack, s1)" "dev s1 = dev s"
    using s0 by auto
  then show ?thesis using s0 i2c_write_bytes_returns [of s1 base buf] assms by (auto simp: wb_i2c_write_def Let_def)
qed

text \<open>A bus whose slaves always acknowledge, and one that refuses from the third transfer on.\<close>

definition quiet_bus :: "unit bus_scheme" where
  "quiet_bus = \<lparr>dev = (\<lambda>_ _. 0), trace = []\<rparr>"

definition full_dev :: "access list \<Rightarrow> u32 \<Rightarrow> u32" where
  "full_dev t a = (if 6 \<le> length (filter is_write t) then 0x80 else 0)"

definition full_bus :: "unit bus_scheme" where
  "full_bus = \<lparr>dev = full_dev, trace = []\<rparr>"

lemma full_spin:
  assumes "\<not> busy 0x80" and "\<not> busy 0"
  shows "spin_while a busy \<lparr>dev = full_dev, trace = t\<rparr> = Some \<lparr>dev = full_dev, trace = Rd a (full_dev t a) # t\<rparr>"
  using assms by (subst spin_while.simps) (simp add: wb_peek32_def full_dev_def)

lemma i2c_write_protocol_witness:
  "\<exists>s'. wb_i2c_write 0xff00 0x50 [1, 2, 3] full_bus = Some (False, s')
    \<and> wr_log s' = [Wr 0xff10 0x40, Wr 0xff10 0x10, Wr 0xff0c 2, Wr 0xff10 0x10, Wr 0xff0c 1, Wr 0xff10 0x90, Wr 0xff0c 0xa0]
    \<and> (\<exists>t p. trace s' = t @ p \<and> transaction 0xff00 [(0xa0, 0x90), (1, 0x10), (2, 0x10), (3, 0x50)] False t)"
proof -
  obtain s' where s': "wb_i2c_write 0xff00 0x50 [1, 2, 3] full_bus = Some (False, s')"
      "wr_log s' = [Wr 0xff10 0x40, Wr 0xff10 0x10, Wr 0xff0c 2, Wr 0xff10 0x10, Wr 0xff0c 1, Wr 0xff10 0x90, Wr 0xff0c 0xa0]"
    by (simp add: full_bus_def wb_i2c_write_def wait_chk_ack_def wait_for_xfer_def full_spin wb_poke32_def wb_peek32_def
        i2c_regs I2C_CMD_WR_def I2C_CMD_START_def I2C_CMD_STOP_def I2C_ST_RXACK_def I2C_ST_TIP_def I2C_ST_BUSY_def BIT_def
        full_dev_def is_write_def wr_log_def)
  moreover have "trace full_bus = []" by (simp add: full_bus_def)
  ultimately show ?thesis
    using i2c_write_protocol [OF s'(1)] by (auto simp: write_transfers_def)
qed

text \<open>A read transaction: nothing happens for length zero; otherwise the address is sent with
  the read bit, and on success exactly the requested number of bytes is clocked in, all acknowledged but
  the last, which is refused and followed by STOP; without an acknowledgement no byte is stored
  and STOP is sent.\<close>

theorem i2c_read_protocol:
  assumes "wb_i2c_read base addr len s = Some ((ok, bs), s')"
  defines "hdr \<equiv> i2c_start base (push_bit 1 (ucast addr) OR 1) 0"
  shows "if len = 0 then ok \<and> bs = [] \<and> s' = s
    else if ok then length bs = len
      \<and> wr_log s' = Wr (base + cmd_status) (I2C_CMD_RD OR I2C_CMD_NACK OR I2C_CMD_STOP)
          # replicate (len - 1) (Wr (base + cmd_status) I2C_CMD_RD) @ rev hdr @ wr_log s
    else bs = [] \<and> wr_log s' = Wr (base + cmd_status) I2C_CMD_STOP # rev hdr @ wr_log s"
proof (cases "len = 0")
  case True
  with assms(1) show ?thesis by (simp add: wb_i2c_read_def)
next
  case False
  with assms(1) obtain s0 ack s1 where
      sp: "spin_while (base + cmd_status) (\<lambda>v. v AND I2C_ST_BUSY \<noteq> 0) s = Some s0"
    and a: "wait_chk_ack base (wb_poke32 (base + cmd_status) (I2C_CMD_WR OR I2C_CMD_START)
        (wb_poke32 (base + i2c_data) (push_bit 1 (ucast addr) OR 1) s0)) = Some (ack, s1)"
    and r: "(if \<not> ack then Some ((False, []), wb_poke32 (base + cmd_status) I2C_CMD_STOP s1)
        else do { (bs, s) \<leftarrow> i2c_read_bytes base len s1; Some ((True, bs), s) }) = Some ((ok, bs), s')"
    by (auto simp: wb_i2c_read_def Let_def bind_eq_Some_conv)
  have l: "wr_log s1 = rev hdr @ wr_log s"
    using wait_chk_ack_frame(1) [OF a] spin_frame(1) [OF sp] by (simp add: hdr_def i2c_start_def)
  show ?thesis
  proof (cases ack)
    case True
    with r have ok: ok and rd: "i2c_read_bytes base len s1 = Some (bs, s')" by (auto simp: bind_eq_Some_conv)
    from i2c_read_bytes_log [OF rd] False ok l show ?thesis by simp
  next
    case no: False
    with r l False show ?thesis by auto
  qed
qed

lemma i2c_read_protocol_witness:
  "\<exists>s'. wb_i2c_read 0xff00 0x50 2 quiet_bus = Some ((True, [0, 0]), s') \<and>
     wr_log s' = [Wr 0xff10 0x68, Wr 0xff10 0x20, Wr 0xff10 0x90, Wr 0xff0c 0xa1]"
proof -
  have "\<exists>s'. wb_i2c_read 0xff00 0x50 2 quiet_bus = Some ((True, [0, 0]), s')"
    unfolding numeral_2_eq_2
    by (simp add: wb_i2c_read_def wait_chk_ack_def wait_for_xfer_def spin_const quiet_bus_def wb_poke32_def wb_peek32_def
        Let_def)
  then obtain s' where s': "wb_i2c_read 0xff00 0x50 2 quiet_bus = Some ((True, [0, 0]), s')" by blast
  then show ?thesis
    using i2c_read_protocol [OF s']
    by (auto simp: i2c_start_def i2c_regs I2C_CMD_WR_def I2C_CMD_START_def I2C_CMD_STOP_def I2C_CMD_RD_def I2C_CMD_NACK_def BIT_def)
       (simp add: quiet_bus_def wr_log_def)
qed

end
