(* ===== verification/Ethernet.thy ===== *)
theory Ethernet
  imports Cron WbI2c
begin

unbundle bit_operations_syntax

section \<open>Ethernet PHY and link state\<close>

text \<open>
  \<^verbatim>\<open>firmware/usrp3/lib/ethernet.c\<close>: MDIO transfers of both clauses, the PHY reset, the
  identification of the SFP module over I2C, and the link status kept per port.  The gotos of
  \<^verbatim>\<open>xge_read_sfpp_type\<close> are the functions \<open>sfpp_twinax\<close> and the value
  \<open>SFFP_TYPE_UNKNOWN\<close>.  An MDIO or I2C transfer waits without bound; the polls of
  the PHY reset and of the link status are counted as in the code.  \<^verbatim>\<open>decode_reg\<close> only
  prints.  The port argument is 0 or 1 in every call of the firmware.
\<close>

record ethdrv = cron +
  links_up :: "bool list"

definition NETHS :: nat where "NETHS = 2"
definition MDIO_PORT :: u32 where "MDIO_PORT = 4"

definition XGE_CONFIG :: u32 where "XGE_CONFIG = 0"
definition XGE_MDIO_DATA :: u32 where "XGE_MDIO_DATA = 16"
definition XGE_MDIO_ADDRESS :: u32 where "XGE_MDIO_ADDRESS = 20"
definition XGE_MDIO_OPER :: u32 where "XGE_MDIO_OPER = 24"
definition XGE_MDIO_CONTROL :: u32 where "XGE_MDIO_CONTROL = 28"

definition XGE_TX_ENABLE :: u32 where "XGE_TX_ENABLE = BIT 0"
definition XGE_MDIO_CLAUSE :: "u32 \<Rightarrow> u32" where "XGE_MDIO_CLAUSE n = push_bit 12 (n AND 0x1)"
definition CLAUSE45 :: u32 where "CLAUSE45 = 1"
definition CLAUSE22 :: u32 where "CLAUSE22 = 0"
definition XGE_MDIO_OP :: "u32 \<Rightarrow> u32" where "XGE_MDIO_OP n = push_bit 10 (n AND 0x3)"
definition MDIO_ADDRESS :: u32 where "MDIO_ADDRESS = 0"
definition MDIO_WRITE :: u32 where "MDIO_WRITE = 1"
definition MDIO_READ :: u32 where "MDIO_READ = 3"
definition MDIO_C22_WRITE :: u32 where "MDIO_C22_WRITE = 2"
definition MDIO_C22_READ :: u32 where "MDIO_C22_READ = 1"
definition XGE_MDIO_ADDR :: "u32 \<Rightarrow> u32" where "XGE_MDIO_ADDR n = push_bit 5 (n AND 0x1f)"
definition XGE_MDIO_MMD :: "u32 \<Rightarrow> u32" where "XGE_MDIO_MMD n = n AND 0x1f"
definition XGE_MDIO_DEVICE_PMA :: u32 where "XGE_MDIO_DEVICE_PMA = 1"
definition XGE_MDIO_DEVICE_PCS :: u32 where "XGE_MDIO_DEVICE_PCS = 3"
definition XGE_MDIO_STATUS1 :: u32 where "XGE_MDIO_STATUS1 = 1"

definition SFPP_STATUS_MODABS_CHG :: u32 where "SFPP_STATUS_MODABS_CHG = BIT 5"
definition SFPP_STATUS_TXFAULT_CHG :: u32 where "SFPP_STATUS_TXFAULT_CHG = BIT 4"
definition SFPP_STATUS_RXLOS_CHG :: u32 where "SFPP_STATUS_RXLOS_CHG = BIT 3"
definition SFPP_STATUS_MODABS :: u32 where "SFPP_STATUS_MODABS = BIT 2"
definition SFPP_STATUS_TXFAULT :: u32 where "SFPP_STATUS_TXFAULT = BIT 1"
definition SFPP_STATUS_RXLOS :: u32 where "SFPP_STATUS_RXLOS = BIT 0"

definition SFFP_TYPE_SR :: int where "SFFP_TYPE_SR = 1"
definition SFFP_TYPE_LR :: int where "SFFP_TYPE_LR = 2"
definition SFFP_TYPE_LRM :: int where "SFFP_TYPE_LRM = 3"
definition SFFP_TYPE_TWINAX :: int where "SFFP_TYPE_TWINAX = 4"
definition SFFP_TYPE_TWINAX_LONG :: int where "SFFP_TYPE_TWINAX_LONG = 5"
definition SFFP_TYPE_UNKNOWN :: int where "SFFP_TYPE_UNKNOWN = 6"
definition SFFP_TYPE_1000BASE_SX :: int where "SFFP_TYPE_1000BASE_SX = 7"
definition SFFP_TYPE_1000BASE_LX :: int where "SFFP_TYPE_1000BASE_LX = 8"
definition SFFP_TYPE_1000BASE_T :: int where "SFFP_TYPE_1000BASE_T = 9"
definition MODULE_DEV_ADDR :: u8 where "MODULE_DEV_ADDR = 0x50"

definition ethernet_ninterfaces :: nat where "ethernet_ninterfaces = NETHS"

definition ethernet_get_link_up :: "u32 \<Rightarrow> 'a ethdrv_scheme \<Rightarrow> bool" where
  "ethernet_get_link_up eth s = links_up s ! unat eth"

lemma ninterfaces_list: "[0..<ethernet_ninterfaces] = [0, 1]"
  by (simp add: ethernet_ninterfaces_def NETHS_def numeral_2_eq_2)

subsection \<open>MDIO\<close>

text \<open>Start a bus transaction and wait until it is complete.\<close>

definition mdio_transfer :: "u32 \<Rightarrow> 'a bus_scheme \<Rightarrow> 'a bus_scheme option" where
  "mdio_transfer base s =
     spin_while (base + XGE_MDIO_CONTROL) (\<lambda>v. v = 1) (wb_poke32 (base + XGE_MDIO_CONTROL) 1 s)"

definition xge_read_mdio ::
  "u32 \<Rightarrow> u32 \<Rightarrow> u32 \<Rightarrow> u32 \<Rightarrow> 'a bus_scheme \<Rightarrow> (u32 \<times> 'a bus_scheme) option" where
  "xge_read_mdio base address device port s =
     (let s = wb_poke32 (base + XGE_MDIO_ADDRESS) address s;
          s = wb_poke32 (base + XGE_MDIO_OPER)
                (XGE_MDIO_CLAUSE CLAUSE45 OR XGE_MDIO_OP MDIO_ADDRESS OR XGE_MDIO_ADDR port OR XGE_MDIO_MMD device) s
      in do { s \<leftarrow> mdio_transfer base s;
              let s = wb_poke32 (base + XGE_MDIO_OPER)
                (XGE_MDIO_CLAUSE CLAUSE45 OR XGE_MDIO_OP MDIO_READ OR XGE_MDIO_ADDR port OR XGE_MDIO_MMD device) s;
              s \<leftarrow> mdio_transfer base s;
              Some (wb_peek32 (base + XGE_MDIO_DATA) s) })"

definition xge_write_mdio ::
  "u32 \<Rightarrow> u32 \<Rightarrow> u32 \<Rightarrow> u32 \<Rightarrow> u32 \<Rightarrow> 'a bus_scheme \<Rightarrow> 'a bus_scheme option" where
  "xge_write_mdio base address device port data s =
     (let s = wb_poke32 (base + XGE_MDIO_ADDRESS) address s;
          s = wb_poke32 (base + XGE_MDIO_OPER)
                (XGE_MDIO_CLAUSE CLAUSE45 OR XGE_MDIO_OP MDIO_ADDRESS OR XGE_MDIO_ADDR port OR XGE_MDIO_MMD device) s
      in do { s \<leftarrow> mdio_transfer base s;
              let s = wb_poke32 (base + XGE_MDIO_DATA) data s;
              let s = wb_poke32 (base + XGE_MDIO_OPER)
                (XGE_MDIO_CLAUSE CLAUSE45 OR XGE_MDIO_OP MDIO_WRITE OR XGE_MDIO_ADDR port OR XGE_MDIO_MMD device) s;
              mdio_transfer base s })"

definition ge_read_mdio :: "u32 \<Rightarrow> u32 \<Rightarrow> u32 \<Rightarrow> 'a bus_scheme \<Rightarrow> (u32 \<times> 'a bus_scheme) option" where
  "ge_read_mdio base address port s =
     (let s = wb_poke32 (base + XGE_MDIO_OPER)
                (XGE_MDIO_CLAUSE CLAUSE22 OR XGE_MDIO_OP MDIO_C22_READ OR XGE_MDIO_ADDR port OR address) s
      in do { s \<leftarrow> mdio_transfer base s; Some (wb_peek32 (base + XGE_MDIO_DATA) s) })"

definition ge_write_mdio :: "u32 \<Rightarrow> u32 \<Rightarrow> u32 \<Rightarrow> u32 \<Rightarrow> 'a bus_scheme \<Rightarrow> 'a bus_scheme option" where
  "ge_write_mdio base address port data s =
     (let s = wb_poke32 (base + XGE_MDIO_DATA) data s;
          s = wb_poke32 (base + XGE_MDIO_OPER)
                (XGE_MDIO_CLAUSE CLAUSE22 OR XGE_MDIO_OP MDIO_C22_WRITE OR XGE_MDIO_ADDR port OR address) s
      in mdio_transfer base s)"

definition sfp_type_addr :: "u32 \<Rightarrow> u32" where
  "sfp_type_addr eth = SR_ADDR RB0_BASE (if eth = 0 then RB_SFP0_TYPE else RB_SFP1_TYPE)"

definition sfp_status_addr :: "u32 \<Rightarrow> u32" where
  "sfp_status_addr eth = SR_ADDR RB0_BASE (if eth = 0 then RB_SFP0_STATUS else RB_SFP1_STATUS)"

definition sfp_mac_base :: "u32 \<Rightarrow> u32" where
  "sfp_mac_base eth = (if eth = 0 then SFP0_MAC_BASE else SFP1_MAC_BASE)"

definition read_mdio :: "u8 \<Rightarrow> u32 \<Rightarrow> u32 \<Rightarrow> u32 \<Rightarrow> 'a bus_scheme \<Rightarrow> (u32 \<times> 'a bus_scheme) option" where
  "read_mdio eth address device port s =
     (let (sfp, s) = wb_peek32 (sfp_type_addr (ucast eth)) s in
      if sfp \<noteq> 0 then xge_read_mdio (sfp_mac_base (ucast eth)) address device port s
      else ge_read_mdio (sfp_mac_base (ucast eth)) address port s)"

definition write_mdio :: "u8 \<Rightarrow> u32 \<Rightarrow> u32 \<Rightarrow> u32 \<Rightarrow> u32 \<Rightarrow> 'a bus_scheme \<Rightarrow> 'a bus_scheme option" where
  "write_mdio eth address device port data s =
     (let (sfp, s) = wb_peek32 (sfp_type_addr (ucast eth)) s in
      if sfp \<noteq> 0 then xge_write_mdio (sfp_mac_base (ucast eth)) address device port data s
      else ge_write_mdio (sfp_mac_base (ucast eth)) address port data s)"

subsection \<open>The module in the cage\<close>

definition xge_i2c_rd :: "u32 \<Rightarrow> u8 \<Rightarrow> u8 \<Rightarrow> 'a bus_scheme \<Rightarrow> (int \<times> 'a bus_scheme) option" where
  "xge_i2c_rd base i2c_dev_addr i2c_word_addr s =
     do { (ok, s) \<leftarrow> wb_i2c_write base i2c_dev_addr [i2c_word_addr] s;
          if \<not> ok then Some (- 1, s)
          else do { ((ok, buf), s) \<leftarrow> wb_i2c_read base i2c_dev_addr 1 s;
                    if \<not> ok then Some (- 1, s) else Some (uint (hd buf), s) } }"

definition sfpp_twinax :: "u32 \<Rightarrow> 'a bus_scheme \<Rightarrow> (int \<times> 'a bus_scheme) option" where
  "sfpp_twinax base s =
     do { (x, s) \<leftarrow> xge_i2c_rd base MODULE_DEV_ADDR 0x12 s;
          if x < 0 then Some (x, s)
          else Some (if x > 10 then SFFP_TYPE_TWINAX_LONG else SFFP_TYPE_TWINAX, s) }"

definition xge_read_sfpp_type :: "u32 \<Rightarrow> u32 \<Rightarrow> 'a cron_scheme \<Rightarrow> (int \<times> 'a cron_scheme) option" where
  "xge_read_sfpp_type base delay_ms s =
     do { s \<leftarrow> (if delay_ms \<noteq> 0 then sleep_ms delay_ms s else Some s);
          (x, s) \<leftarrow> xge_i2c_rd base MODULE_DEV_ADDR 3 s;
          if x < 0 then Some (x, s)
          else if x AND 0x01 \<noteq> 0 then sfpp_twinax base s
          else if x AND 0x10 \<noteq> 0 then Some (SFFP_TYPE_SR, s)
          else if x AND 0x20 \<noteq> 0 then Some (SFFP_TYPE_LR, s)
          else if x AND 0x40 \<noteq> 0 then Some (SFFP_TYPE_LRM, s)
          else do {
            (x, s) \<leftarrow> xge_i2c_rd base MODULE_DEV_ADDR 0x6 s;
            if x < 0 then Some (x, s)
            else if x AND 0x01 \<noteq> 0 then Some (SFFP_TYPE_1000BASE_SX, s)
            else if x AND 0x02 \<noteq> 0 then Some (SFFP_TYPE_1000BASE_LX, s)
            else if x AND 0x08 \<noteq> 0 then Some (SFFP_TYPE_1000BASE_T, s)
            else do {
              (x, s) \<leftarrow> xge_i2c_rd base MODULE_DEV_ADDR 8 s;
              if x < 0 then Some (x, s)
              else if x AND 4 = 0 then Some (SFFP_TYPE_UNKNOWN, s)
              else do {
                (x, s) \<leftarrow> xge_i2c_rd base MODULE_DEV_ADDR 0xA s;
                if x < 0 then Some (x, s)
                else if x AND 0x80 \<noteq> 0 then sfpp_twinax base s
                else Some (SFFP_TYPE_UNKNOWN, s) } } } }"

subsection \<open>Bringing a link up\<close>

definition xge_mac_init :: "u32 \<Rightarrow> 'a bus_scheme \<Rightarrow> 'a bus_scheme" where
  "xge_mac_init base s = wb_poke32 (base + XGE_CONFIG) XGE_TX_ENABLE s"

text \<open>
  The reset poll of \<^verbatim>\<open>xge_phy_init\<close>: \<open>while (x & (1 << 15))\<close> with a break when
  \<^verbatim>\<open>loopCount++ > 200\<close>, that is in turn 202 at the latest.  The first argument is the number of
  turns still possible.
\<close>

primrec phy_reset_poll :: "nat \<Rightarrow> u8 \<Rightarrow> u32 \<Rightarrow> u32 \<Rightarrow> 'a bus_scheme \<Rightarrow> 'a bus_scheme option" where
  "phy_reset_poll 0 eth mdio_port x s = Some s"
| "phy_reset_poll (Suc n) eth mdio_port x s =
     (if x AND BIT 15 = 0 then Some s
      else do { (x, s) \<leftarrow> read_mdio eth 0x0 XGE_MDIO_DEVICE_PMA mdio_port s;
                phy_reset_poll n eth mdio_port x s })"

definition xge_phy_init :: "u8 \<Rightarrow> u32 \<Rightarrow> 'a bus_scheme \<Rightarrow> 'a bus_scheme option" where
  "xge_phy_init eth mdio_port s =
     do { (x, s) \<leftarrow> read_mdio eth 0x0 XGE_MDIO_DEVICE_PMA mdio_port s;
          let x = x OR BIT 15;
          s \<leftarrow> write_mdio eth 0x0 XGE_MDIO_DEVICE_PMA mdio_port x s;
          phy_reset_poll 202 eth mdio_port x s }"

text \<open>
  The link poll of \<^verbatim>\<open>update_eth_state\<close>: a do-while with
  \<^verbatim>\<open>!link_up && timeout-- > 0\<close>; the first argument is \<^verbatim>\<open>timeout\<close>.
\<close>

definition read_link :: "u32 \<Rightarrow> u32 \<Rightarrow> 'a bus_scheme \<Rightarrow> (bool \<times> 'a bus_scheme) option" where
  "read_link eth sfp_type s =
     (if sfp_type = RB_SFP_10G_ETH
      then do { (v, s) \<leftarrow> read_mdio (ucast eth) XGE_MDIO_STATUS1 XGE_MDIO_DEVICE_PMA MDIO_PORT s;
                Some (v AND BIT 2 \<noteq> 0, s) }
      else (let (v, s) = wb_peek32 (sfp_status_addr eth) s in Some (drop_bit 16 v AND 0x1 \<noteq> 0, s)))"

primrec link_poll :: "nat \<Rightarrow> u32 \<Rightarrow> u32 \<Rightarrow> 'a bus_scheme \<Rightarrow> (bool \<times> 'a bus_scheme) option" where
  "link_poll 0 eth sfp_type s = read_link eth sfp_type s"
| "link_poll (Suc timeout) eth sfp_type s =
     do { (link_up, s) \<leftarrow> read_link eth sfp_type s;
          if link_up then Some (True, s) else link_poll timeout eth sfp_type s }"

definition update_eth_state :: "u32 \<Rightarrow> u32 \<Rightarrow> 'a ethdrv_scheme \<Rightarrow> 'a ethdrv_scheme option" where
  "update_eth_state eth sfp_type s =
     (let old_link_up = links_up s ! unat eth;
          (v, s) = wb_peek32 (sfp_status_addr eth) s;
          sfpp_status = v AND 0xFFFF
      in do { s \<leftarrow> (if sfpp_status AND (SFPP_STATUS_RXLOS OR SFPP_STATUS_TXFAULT OR SFPP_STATUS_MODABS) = 0
                    then do { s \<leftarrow> (if sfp_type = RB_SFP_10G_ETH
                                    then xge_phy_init (ucast eth) MDIO_PORT (xge_mac_init (sfp_mac_base eth) s)
                                    else Some s);
                              (link_up, s) \<leftarrow> link_poll 100 eth sfp_type s;
                              Some (s\<lparr>links_up := (links_up s)[unat eth := link_up]\<rparr>) }
                    else Some (s\<lparr>links_up := (links_up s)[unat eth := False]\<rparr>));
              Some (if \<not> old_link_up \<and> links_up s ! unat eth
                    then u3_net_stack_send_arp_request (ucast eth) (u3_net_stack_get_ip_addr (ucast eth) s) s
                    else s) })"

definition poll_sfpp_status :: "u32 \<Rightarrow> 'a ethdrv_scheme \<Rightarrow> 'a ethdrv_scheme option" where
  "poll_sfpp_status sfp s =
     (let (sfp_type, s) = wb_peek32 (sfp_type_addr sfp) s;
          (status, s) = wb_peek32 (sfp_status_addr sfp) s
      in do { s \<leftarrow> (if status AND SFPP_STATUS_MODABS_CHG \<noteq> 0 \<and> status AND SFPP_STATUS_MODABS = 0
                       \<and> sfp_type = RB_SFP_10G_ETH
                    then do { (_, s) \<leftarrow> xge_read_sfpp_type (if sfp = 0 then I2C0_BASE else I2C2_BASE) 1 s; Some s }
                    else Some s);
              if sfp_type = RB_SFP_AURORA
              then (let (v, s) = wb_peek32 (sfp_status_addr sfp) s
                    in Some (s\<lparr>links_up := (links_up s)[unat sfp := drop_bit 16 v AND 0x1 \<noteq> 0]\<rparr>))
              else if status AND SFPP_STATUS_RXLOS_CHG \<noteq> 0 \<or> status AND SFPP_STATUS_TXFAULT_CHG \<noteq> 0
                      \<or> status AND SFPP_STATUS_MODABS_CHG \<noteq> 0
              then update_eth_state sfp sfp_type s
              else Some s })"

definition ethernet_init :: "u32 \<Rightarrow> 'a ethdrv_scheme \<Rightarrow> 'a ethdrv_scheme option" where
  "ethernet_init sfp s =
     (let (sfp_type, s) = wb_peek32 (sfp_type_addr sfp) s in update_eth_state sfp sfp_type s)"

text \<open>\<^verbatim>\<open>dump_mdio_regs\<close> reads the registers of two devices; what it decodes is only printed.\<close>

fun read_regs :: "u8 \<Rightarrow> u32 \<Rightarrow> u32 \<Rightarrow> u32 list \<Rightarrow> 'a bus_scheme \<Rightarrow> 'a bus_scheme option" where
  "read_regs eth device mdio_port [] s = Some s"
| "read_regs eth device mdio_port (r # rs) s =
     do { (_, s) \<leftarrow> read_mdio eth r device mdio_port s; read_regs eth device mdio_port rs s }"

definition dump_mdio_regs :: "u8 \<Rightarrow> u32 \<Rightarrow> 'a bus_scheme \<Rightarrow> 'a bus_scheme option" where
  "dump_mdio_regs eth mdio_port s =
     do { s \<leftarrow> read_regs eth XGE_MDIO_DEVICE_PMA mdio_port [0, 1, 4, 5, 6, 7, 8, 10, 11, 65535] s;
          read_regs eth XGE_MDIO_DEVICE_PCS mdio_port [0, 1, 4, 5, 6, 7, 8, 32, 33] s }"

subsection \<open>Only the bus\<close>

lemma mdio_transfer_bus: "mdio_transfer base s = Some s' \<Longrightarrow> bus_only s s'"
  unfolding mdio_transfer_def by (drule bus_only_spin) simp

lemma xge_read_mdio_bus: "xge_read_mdio base a d p s = Some (v, s') \<Longrightarrow> bus_only s s'"
  unfolding xge_read_mdio_def Let_def
  by (auto simp: bind_eq_Some_conv prod_eq_iff dest!: mdio_transfer_bus intro: bus_only_trans)

lemma xge_write_mdio_bus: "xge_write_mdio base a d p x s = Some s' \<Longrightarrow> bus_only s s'"
  unfolding xge_write_mdio_def Let_def
  by (auto simp: bind_eq_Some_conv dest!: mdio_transfer_bus intro: bus_only_trans)

lemma ge_read_mdio_bus: "ge_read_mdio base a p s = Some (v, s') \<Longrightarrow> bus_only s s'"
  unfolding ge_read_mdio_def Let_def
  by (auto simp: bind_eq_Some_conv prod_eq_iff dest!: mdio_transfer_bus intro: bus_only_trans)

lemma ge_write_mdio_bus: "ge_write_mdio base a p x s = Some s' \<Longrightarrow> bus_only s s'"
  unfolding ge_write_mdio_def Let_def
  by (auto simp: bind_eq_Some_conv dest!: mdio_transfer_bus intro: bus_only_trans)

lemma read_mdio_bus: "read_mdio eth a d p s = Some (v, s') \<Longrightarrow> bus_only s s'"
  unfolding read_mdio_def Let_def
  by (auto simp: case_prod_unfold split: if_splits dest!: xge_read_mdio_bus ge_read_mdio_bus)

lemma write_mdio_bus: "write_mdio eth a d p x s = Some s' \<Longrightarrow> bus_only s s'"
  unfolding write_mdio_def Let_def
  by (auto simp: case_prod_unfold split: if_splits dest!: xge_write_mdio_bus ge_write_mdio_bus)

lemma phy_reset_poll_bus: "phy_reset_poll n eth p x s = Some s' \<Longrightarrow> bus_only s s'"
proof (induction n arbitrary: x s)
  case (Suc n)
  then show ?case
    by (auto simp: bind_eq_Some_conv split: if_splits dest!: read_mdio_bus intro: bus_only_trans)
qed simp

lemma xge_phy_init_bus: "xge_phy_init eth p s = Some s' \<Longrightarrow> bus_only s s'"
  unfolding xge_phy_init_def
  by (auto simp: bind_eq_Some_conv Let_def dest!: read_mdio_bus write_mdio_bus phy_reset_poll_bus intro: bus_only_trans)

lemma read_link_bus: "read_link eth ty s = Some (b, s') \<Longrightarrow> bus_only s s'"
  unfolding read_link_def
  by (auto simp: bind_eq_Some_conv Let_def case_prod_unfold split: if_splits dest!: read_mdio_bus)

lemma link_poll_bus: "link_poll n eth ty s = Some (b, s') \<Longrightarrow> bus_only s s'"
proof (induction n arbitrary: s)
  case (Suc n)
  then show ?case
    by (auto simp: bind_eq_Some_conv split: if_splits dest!: read_link_bus intro: bus_only_trans)
qed (simp add: read_link_bus)

lemma trace_arp_request [simp]: "trace (u3_net_stack_send_arp_request e a s) = trace s"
  by (simp add: u3_net_stack_send_arp_request_def send_eth_pkt_def Let_def)

subsection \<open>Properties\<close>

text \<open>What an update of a port's link does: the port's entry becomes the polled link status,
  or down when the module reports a fault, loss of signal or absence; no other variable changes
  except that, when the link was down and is up now, one ARP request for the port's own
  address announces it on that port.\<close>

theorem update_eth_state_announces:
  assumes e: "unat eth < length (links_up s)" and run: "update_eth_state eth sfp_type s = Some s'"
  shows "\<exists>t up. (up \<longrightarrow> dev s (trace s) (sfp_status_addr eth) AND 7 = 0)
    \<and> s' = (let s1 = s\<lparr>trace := t, links_up := (links_up s)[unat eth := up]\<rparr> in
        if \<not> links_up s ! unat eth \<and> up
        then u3_net_stack_send_arp_request (ucast eth) (u3_net_stack_get_ip_addr (ucast eth) s) s1 else s1)"
proof -
  let ?v = "dev s (trace s) (sfp_status_addr eth)"
  let ?s0 = "snd (wb_peek32 (sfp_status_addr eth) s)"
  let ?bad = "SFPP_STATUS_RXLOS OR SFPP_STATUS_TXFAULT OR SFPP_STATUS_MODABS"
  have ffff: "(?v AND 0xFFFF) AND ?bad = ?v AND 7"
    by (simp add: SFPP_STATUS_RXLOS_def SFPP_STATUS_TXFAULT_def SFPP_STATUS_MODABS_def BIT_def and.assoc)
  from run obtain s1 where
      s1: "(if ?v AND 7 = 0
        then do { s \<leftarrow> (if sfp_type = RB_SFP_10G_ETH
                        then xge_phy_init (ucast eth) MDIO_PORT (xge_mac_init (sfp_mac_base eth) ?s0) else Some ?s0);
                  (link_up, s) \<leftarrow> link_poll 100 eth sfp_type s;
                  Some (s\<lparr>links_up := (links_up s)[unat eth := link_up]\<rparr>) }
        else Some (?s0\<lparr>links_up := (links_up ?s0)[unat eth := False]\<rparr>)) = Some s1"
    and s': "s' = (if \<not> links_up s ! unat eth \<and> links_up s1 ! unat eth
        then u3_net_stack_send_arp_request (ucast eth) (u3_net_stack_get_ip_addr (ucast eth) s1) s1 else s1)"
    by (auto simp: update_eth_state_def Let_def case_prod_unfold bind_eq_Some_conv ffff)
  have "\<exists>t up. (up \<longrightarrow> ?v AND 7 = 0) \<and> s1 = s\<lparr>trace := t, links_up := (links_up s)[unat eth := up]\<rparr>"
  proof (cases "?v AND 7 = 0")
    case True
    with s1 obtain s2 s3 up where
        i: "(if sfp_type = RB_SFP_10G_ETH then xge_phy_init (ucast eth) MDIO_PORT (xge_mac_init (sfp_mac_base eth) ?s0) else Some ?s0) = Some s2"
      and p: "link_poll 100 eth sfp_type s2 = Some (up, s3)"
      and r: "s1 = s3\<lparr>links_up := (links_up s3)[unat eth := up]\<rparr>"
      by (auto simp: bind_eq_Some_conv)
    from i have "bus_only s s2" by (auto split: if_splits dest!: xge_phy_init_bus simp: xge_mac_init_def)
    with link_poll_bus [OF p] obtain t where "s3 = s\<lparr>trace := t\<rparr>"
      using bus_only_trans bus_only_def by metis
    with r True show ?thesis by auto
  next
    case False
    with s1 show ?thesis by (auto simp: wb_peek32_def Let_def)
  qed
  then obtain t up where up: "up \<longrightarrow> ?v AND 7 = 0" "s1 = s\<lparr>trace := t, links_up := (links_up s)[unat eth := up]\<rparr>"
    by blast
  then have "links_up s1 ! unat eth = up" using e by simp
  moreover have "u3_net_stack_get_ip_addr (ucast eth) (s\<lparr>trace := x, links_up := y\<rparr>) = u3_net_stack_get_ip_addr (ucast eth) s"
    for x y by (simp add: u3_net_stack_get_ip_addr_def)
  ultimately show ?thesis using up s'
    by (intro exI [of _ t] exI [of _ up]) (simp add: Let_def)
qed

definition demo_eth :: "unit ethdrv_scheme" where
  "demo_eth = (netstack.extend demo \<lparr>cron_counter_freq = CPU_CLOCK, cron_job_table = [], links_up = [False, False]\<rparr>)
     \<lparr>dev := (\<lambda>_ _. 0x10000)\<rparr>"

lemma update_eth_state_announces_witness:
  "\<exists>s'. update_eth_state 0 RB_SFP_1G_ETH demo_eth = Some s' \<and> length (links_up s') = 2"
proof -
  have up: "link_poll (Suc n) 0 0 s = Some (True, snd (wb_peek32 (sfp_status_addr 0) s))"
    if "dev s = (\<lambda>_ _. 0x10000)" for s :: "unit ethdrv_scheme" and n
    using that by (simp add: read_link_def RB_SFP_10G_ETH_def case_prod_unfold Let_def)
  have d: "dev demo_eth = (\<lambda>_ _. 0x10000)" "links_up demo_eth = [False, False]"
    by (simp_all add: demo_eth_def netstack.defs)
  have "\<exists>s'. update_eth_state 0 RB_SFP_1G_ETH demo_eth = Some s'"
    by (simp add: update_eth_state_def case_prod_unfold Let_def d up [of _ 99, simplified] x300_regs
        SFPP_STATUS_RXLOS_def SFPP_STATUS_TXFAULT_def SFPP_STATUS_MODABS_def BIT_def)
  then obtain s' where s': "update_eth_state 0 RB_SFP_1G_ETH demo_eth = Some s'" by blast
  have "unat (0 :: u32) < length (links_up demo_eth)" by (simp add: d)
  from update_eth_state_announces [OF this s'] obtain t up where
    "s' = (let s1 = demo_eth\<lparr>trace := t, links_up := (links_up demo_eth)[unat (0 :: u32) := up]\<rparr> in
        if \<not> links_up demo_eth ! unat (0 :: u32) \<and> up
        then u3_net_stack_send_arp_request (ucast (0 :: u32)) (u3_net_stack_get_ip_addr (ucast (0 :: u32)) demo_eth) s1 else s1)"
    by blast
  then have "length (links_up s') = 2"
    by (simp add: Let_def d u3_net_stack_send_arp_request_def send_eth_pkt_def incr_stat_counts_def)
  with s' show ?thesis by blast
qed

lemma read_link_1g:
  "sfp_type \<noteq> RB_SFP_10G_ETH \<Longrightarrow> \<exists>b. read_link eth sfp_type s = Some (b, snd (wb_peek32 (sfp_status_addr eth) s))"
  by (simp add: read_link_def Let_def case_prod_unfold)

lemma link_poll_1g:
  assumes "sfp_type \<noteq> RB_SFP_10G_ETH"
  shows "\<exists>b k. link_poll n eth sfp_type s = Some (b, after_reads (sfp_status_addr eth) k s) \<and> k \<le> Suc n"
proof (induction n arbitrary: s)
  case 0
  obtain b where "read_link eth sfp_type s = Some (b, snd (wb_peek32 (sfp_status_addr eth) s))"
    using read_link_1g [OF assms] by blast
  then show ?case by (intro exI [of _ b] exI [of _ 1]) simp
next
  case (Suc n)
  let ?s = "snd (wb_peek32 (sfp_status_addr eth) s)"
  obtain b where b: "read_link eth sfp_type s = Some (b, ?s)"
    using read_link_1g [OF assms] by blast
  obtain c k where "link_poll n eth sfp_type ?s = Some (c, after_reads (sfp_status_addr eth) k ?s)" "k \<le> Suc n"
    using Suc.IH by blast
  then have c: "link_poll n eth sfp_type ?s = Some (c, after_reads (sfp_status_addr eth) (Suc k) s)" "Suc k \<le> Suc (Suc n)"
    by simp_all
  show ?case
  proof (cases b)
    case True
    with b show ?thesis by (intro exI [of _ True] exI [of _ 1]) simp
  next
    case False
    with b c show ?thesis by (intro exI [of _ c] exI [of _ "Suc k"]) simp
  qed
qed

lemma length_after_reads: "length (trace (after_reads a n s)) = n + length (trace s)"
  by (induction n arbitrary: s) simp_all

text \<open>A port of a 1-gigabit or Aurora image is updated in bounded time: whatever the hardware
  answers, the update returns after at most 102 reads of the status register.\<close>

theorem update_eth_state_1g_bounded:
  assumes "sfp_type \<noteq> RB_SFP_10G_ETH"
  shows "\<exists>s'. update_eth_state eth sfp_type s = Some s' \<and> length (trace s') \<le> length (trace s) + 102 \<and> wr_log s' = wr_log s"
proof -
  let ?s0 = "snd (wb_peek32 (sfp_status_addr eth) s)"
  obtain b k where p: "link_poll 100 eth sfp_type ?s0 = Some (b, after_reads (sfp_status_addr eth) k ?s0)" "k \<le> Suc 100"
    using link_poll_1g [OF assms] by blast
  have w: "wr_log (u3_net_stack_send_arp_request e a s) = wr_log s" for e a and s :: "'a ethdrv_scheme"
    by (simp add: wr_log_def)
  have l: "wr_log (s\<lparr>links_up := x\<rparr>) = wr_log s" for x and s :: "'a ethdrv_scheme"
    by (simp add: wr_log_def)
  show ?thesis
    using assms p
    by (simp add: update_eth_state_def case_prod_unfold Let_def length_after_reads w l)
qed

lemma update_eth_state_1g_bounded_witness:
  "\<exists>s'. update_eth_state 1 RB_SFP_AURORA demo_eth = Some s' \<and> length (trace s') \<le> 102"
  using update_eth_state_1g_bounded [of RB_SFP_AURORA 1 demo_eth]
  by (auto simp: RB_SFP_AURORA_def RB_SFP_10G_ETH_def demo_eth_def netstack.defs demo_def)

end
