(* ===== verification/LinkState.thy ===== *)
theory LinkState
  imports Ethernet
begin

unbundle bit_operations_syntax

section \<open>The link state route protocol\<close>

text \<open>
  \<^verbatim>\<open>firmware/usrp3/lib/link_state_route_proto.c\<close>.  Devices daisy-chained over their
  two ports discover their neighbours and flood lists of them, so that each can tell whether
  forwarding between its ports would close a loop.  The tables keep the arrays' order, since the
  first match and the shift on overflow depend on it; an entry whose address is zero is free.
  Link state data is a view of the packet (or of the buffer it is built in) with the accessors
  below.  The recursion of \<^verbatim>\<open>follow_links\<close> carries its depth; theory
  \<open>LinkStateFacts\<close> shows that the depth given to it is never used up.
\<close>

definition LS_PROTO_VERSION :: nat where "LS_PROTO_VERSION = 6"
definition LS_ID_DISCOVER :: u16 where "LS_ID_DISCOVER = 0 OR push_bit LS_PROTO_VERSION 8"
definition LS_ID_INFORM :: u16 where "LS_ID_INFORM = 1 OR push_bit LS_PROTO_VERSION 8"
definition LS_PAYLOAD_MTU :: u32 where "LS_PAYLOAD_MTU = 1024"
definition LS_NUM_NBOR_ENTRIES :: nat where "LS_NUM_NBOR_ENTRIES = 16"
definition LS_NUM_NODE_ENTRIES :: nat where "LS_NUM_NODE_ENTRIES = 64"
definition LS_NUM_MAP_ENTRIES :: nat where "LS_NUM_MAP_ENTRIES = 128"
definition LS_NETHS :: nat where "LS_NETHS = 4"

record ls_node_entry_t =
  ne_seq :: u16
  ne_tick :: u16
  ne_ethno :: u8
  ne_ip :: ip

record ls_node_mapping_t =
  map_node :: ip
  map_nbor :: ip

record linkstate = ethdrv +
  ls_ticker :: u16
  ls_current_seq :: u16
  ls_nbors :: "ls_node_entry_t list"
  ls_nodes :: "ls_node_entry_t list"
  ls_node_maps :: "ls_node_mapping_t list"
  ls_causes_cycle :: "bool list list"

text \<open>\<^verbatim>\<open>ls_data_t\<close> in memory.\<close>

definition ls_num_nbors :: "mem \<Rightarrow> u32" where "ls_num_nbors m = be32 m 0"
definition ls_num_ports :: "mem \<Rightarrow> u32" where "ls_num_ports m = be32 m 4"
definition ls_node :: "mem \<Rightarrow> ip" where "ls_node m = be32 m 8"
definition ls_nbor :: "mem \<Rightarrow> nat \<Rightarrow> ip" where "ls_nbor m i = be32 m (12 + 4 * i)"

definition sizeof_ls_data :: "mem \<Rightarrow> u32" where
  "sizeof_ls_data m = 0 + 4 + 4 + 4 + 4 * ls_num_nbors m"

subsection \<open>Ticks and sequence numbers\<close>

definition link_state_route_proto_tick :: "'a linkstate_scheme \<Rightarrow> 'a linkstate_scheme" where
  "link_state_route_proto_tick s = s\<lparr>ls_ticker := ls_ticker s + 1\<rparr>"

definition is_tick_expired :: "u16 \<Rightarrow> u16 \<Rightarrow> bool" where
  "is_tick_expired ticker tick \<longleftrightarrow> ticker - tick > 2"

definition is_seq_newer :: "u16 \<Rightarrow> u16 \<Rightarrow> bool" where
  "is_seq_newer sq entry_seq \<longleftrightarrow>
     (if sq = entry_seq then False else (sq - entry_seq) AND push_bit 15 1 = 0)"

subsection \<open>Node entries\<close>

definition ls_node_entry_valid :: "u16 \<Rightarrow> ls_node_entry_t \<Rightarrow> bool" where
  "ls_node_entry_valid ticker e \<longleftrightarrow> ne_ip e \<noteq> 0 \<and> \<not> is_tick_expired ticker (ne_tick e)"

definition ls_node_entry_update :: "u16 \<Rightarrow> u8 \<Rightarrow> u16 \<Rightarrow> ip \<Rightarrow> ls_node_entry_t" where
  "ls_node_entry_update ticker ethno sq ip_addr = \<lparr>ne_seq = sq, ne_tick = ticker, ne_ethno = ethno, ne_ip = ip_addr\<rparr>"

text \<open>The port is an \<^verbatim>\<open>int8_t\<close> here, so it is compared sign extended.\<close>

definition ls_node_entries_update ::
  "u16 \<Rightarrow> u8 \<Rightarrow> u16 \<Rightarrow> ip \<Rightarrow> ls_node_entry_t list \<Rightarrow> bool \<times> ls_node_entry_t list" where
  "ls_node_entries_update ticker ethno sq ip_addr entries =
     (let new = ls_node_entry_update ticker ethno sq ip_addr in
      case find_index (\<lambda>e. \<not> ls_node_entry_valid ticker e \<or> ne_ip e = ip_addr \<and> uint (ne_ethno e) = sint ethno) entries of
        Some i \<Rightarrow>
          if \<not> ls_node_entry_valid ticker (entries ! i) then (True, entries[i := new])
          else if is_seq_newer sq (ne_seq (entries ! i)) then (True, entries[i := new])
          else (False, entries)
      | None \<Rightarrow> (True, (new # butlast entries)))"

subsection \<open>The node table\<close>

definition link_state_route_get_node_mapping :: "'a linkstate_scheme \<Rightarrow> ls_node_mapping_t list \<times> nat" where
  "link_state_route_get_node_mapping s = (ls_node_maps s, length (ls_node_maps s))"

definition add_node_mapping :: "ip \<Rightarrow> ip \<Rightarrow> ls_node_mapping_t list \<Rightarrow> ls_node_mapping_t list" where
  "add_node_mapping node nbor maps =
     (case find_index (\<lambda>m. map_node m = 0) maps of
        Some i \<Rightarrow> maps[i := \<lparr>map_node = node, map_nbor = nbor\<rparr>]
      | None \<Rightarrow> \<lparr>map_node = node, map_nbor = nbor\<rparr> # butlast maps)"

definition remove_node_matches :: "ip \<Rightarrow> ls_node_mapping_t list \<Rightarrow> ls_node_mapping_t list" where
  "remove_node_matches node maps =
     map (\<lambda>m. if map_node m = node then \<lparr>map_node = 0, map_nbor = 0\<rparr> else m) maps"

definition is_local_node :: "ip \<Rightarrow> 'a linkstate_scheme \<Rightarrow> bool" where
  "is_local_node node s \<longleftrightarrow> (\<exists>e\<in>set [0..<ethernet_ninterfaces]. node = u3_net_stack_get_ip_addr (of_nat e) s)"

definition remove_expired :: "'a linkstate_scheme \<Rightarrow> ls_node_mapping_t list" where
  "remove_expired s = fold (\<lambda>e maps. if ne_ip e \<noteq> 0 \<and> is_tick_expired (ls_ticker s) (ne_tick e)
       then remove_node_matches (ne_ip e) maps else maps) (ls_nodes s) (ls_node_maps s)"

definition load_nbors :: "bool \<Rightarrow> mem \<Rightarrow> ls_node_mapping_t list \<Rightarrow> ls_node_mapping_t list" where
  "load_nbors is_local ls_data maps = fold (\<lambda>i maps.
       if is_local \<and> i < unat (ls_num_ports ls_data) then maps
       else add_node_mapping (ls_node ls_data) (ls_nbor ls_data i) maps)
     [0..<unat (ls_num_nbors ls_data)] maps"

definition update_node_mappings :: "mem \<Rightarrow> 'a linkstate_scheme \<Rightarrow> 'a linkstate_scheme" where
  "update_node_mappings ls_data s =
     (let maps = remove_node_matches (ls_node ls_data) (remove_expired s)
      in s\<lparr>ls_node_maps := load_nbors (is_local_node (ls_node ls_data) s) ls_data maps\<rparr>)"

subsection \<open>Cycle detection\<close>

text \<open>The indices \<^verbatim>\<open>follow_links\<close> recurses into, in order: for every mapping out of the current
  node, the nodes that have its neighbour's address.\<close>

definition link_targets :: "ls_node_mapping_t list \<Rightarrow> ip list \<Rightarrow> nat \<Rightarrow> nat list" where
  "link_targets maps nodes current = concat (map (\<lambda>m.
     if map_node m \<noteq> nodes ! current then []
     else filter (\<lambda>j. nodes ! j = map_nbor m) [0..<length nodes]) maps)"

primrec follow_links :: "nat \<Rightarrow> ls_node_mapping_t list \<Rightarrow> ip list \<Rightarrow> nat \<Rightarrow> bool list \<Rightarrow> bool list" where
  "follow_links 0 maps nodes current visited = visited"
| "follow_links (Suc depth) maps nodes current visited =
     (if visited ! current then visited
      else fold (follow_links depth maps nodes) (link_targets maps nodes current) (visited[current := True]))"

definition node_set :: "ls_node_mapping_t list \<Rightarrow> ip list" where
  "node_set maps = fold (\<lambda>m nodes.
     if map_node m = 0 \<or> map_nbor m = 0 then nodes
     else if map_node m \<in> set nodes then nodes else nodes @ [map_node m]) maps []"

definition follow_from :: "ls_node_mapping_t list \<Rightarrow> ip list \<Rightarrow> ip \<Rightarrow> bool list" where
  "follow_from maps nodes src = fold (\<lambda>i visited.
       if nodes ! i = src then follow_links (Suc (length nodes)) maps nodes i visited else visited)
     [0..<length nodes] (replicate (length nodes) False)"

definition link_state_route_proto_causes_cycle :: "ip \<Rightarrow> ip \<Rightarrow> 'a linkstate_scheme \<Rightarrow> bool" where
  "link_state_route_proto_causes_cycle src dst s =
     (let nodes = node_set (ls_node_maps s);
          visited = follow_from (ls_node_maps s) nodes src
      in \<exists>i\<in>set [0..<length nodes]. nodes ! i = dst \<and> visited ! i)"

definition set_causes_cycle :: "nat \<Rightarrow> nat \<Rightarrow> bool \<Rightarrow> 'a linkstate_scheme \<Rightarrow> 'a linkstate_scheme" where
  "set_causes_cycle i j b s = s\<lparr>ls_causes_cycle := (ls_causes_cycle s)[i := (ls_causes_cycle s ! i)[j := b]]\<rparr>"

definition link_state_route_proto_update_cycle_cache :: "u8 \<Rightarrow> 'a linkstate_scheme \<Rightarrow> 'a linkstate_scheme" where
  "link_state_route_proto_update_cycle_cache eth_src s = fold (\<lambda>eth_dst s.
       if unat eth_src = eth_dst then s
       else set_causes_cycle (unat eth_src) eth_dst
              (link_state_route_proto_causes_cycle (u3_net_stack_get_ip_addr eth_src s)
                 (u3_net_stack_get_ip_addr (of_nat eth_dst) s) s) s)
     [0..<ethernet_ninterfaces] s"

definition link_state_route_proto_causes_cycle_cached :: "u8 \<Rightarrow> u8 \<Rightarrow> 'a linkstate_scheme \<Rightarrow> bool" where
  "link_state_route_proto_causes_cycle_cached eth_src eth_dst s = ls_causes_cycle s ! unat eth_src ! unat eth_dst"

subsection \<open>Flooding\<close>

definition forward_link_state :: "u16 \<Rightarrow> mem \<Rightarrow> 'a linkstate_scheme \<Rightarrow> 'a linkstate_scheme" where
  "forward_link_state sq ls_data s = fold (\<lambda>nbor s.
       if ne_ip nbor = ls_node ls_data then s
       else if ls_node_entry_valid (ls_ticker s) nbor
       then if ethernet_get_link_up (ucast (ne_ethno nbor)) s
            then u3_net_stack_send_icmp_pkt (ne_ethno nbor) ICMP_IRQ 0 LS_ID_INFORM sq (ne_ip nbor)
                   ls_data (sizeof_ls_data ls_data) s
            else s
       else s) (ls_nbors s) s"

definition send_link_state_data_to_all_neighbors ::
  "u8 \<Rightarrow> u16 \<Rightarrow> mem \<Rightarrow> 'a linkstate_scheme \<Rightarrow> 'a linkstate_scheme" where
  "send_link_state_data_to_all_neighbors ethno sq ls_data s =
     (let (fresh, nodes) = ls_node_entries_update (ls_ticker s) ethno sq (ls_node ls_data) (ls_nodes s) in
      if \<not> fresh then s
      else (let s = s\<lparr>ls_nodes := nodes\<rparr>;
                s = update_node_mappings ls_data s;
                s = forward_link_state sq ls_data s
            in link_state_route_proto_update_cycle_cache ethno s))"

text \<open>The neighbours listed for port \<open>e\<close>: the other local ports, then the live neighbours seen on
  the port, as long as they fit.\<close>

fun append_nbors :: "u16 \<Rightarrow> nat \<Rightarrow> ls_node_entry_t list \<Rightarrow> ip list \<Rightarrow> ip list" where
  "append_nbors ticker e [] acc = acc"
| "append_nbors ticker e (n # ns) acc =
     (if (4 + 4 + 4 + 4 * of_nat (length acc)) + 4 \<ge> LS_PAYLOAD_MTU then acc
      else append_nbors ticker e ns
             (if ls_node_entry_valid ticker n \<and> unat (ne_ethno n) = e then acc @ [ne_ip n] else acc))"

definition flood_data :: "nat \<Rightarrow> 'a linkstate_scheme \<Rightarrow> u8 list" where
  "flood_data e s =
     (let ports = map (\<lambda>ej. u3_net_stack_get_ip_addr (of_nat ej) s) (filter (\<lambda>ej. e \<noteq> ej) [0..<ethernet_ninterfaces]);
          nbors = append_nbors (ls_ticker s) e (ls_nbors s) ports
      in put32 (of_nat (length nbors)) @ put32 (of_nat (length ports))
         @ put32 (u3_net_stack_get_ip_addr (of_nat e) s) @ concat (map put32 nbors))"

definition link_state_route_proto_flood :: "u8 \<Rightarrow> 'a linkstate_scheme \<Rightarrow> 'a linkstate_scheme" where
  "link_state_route_proto_flood ethno s = fold (\<lambda>e s.
       (let ls_data = mem_of (flood_data e s);
            sq = ls_current_seq s;
            s = s\<lparr>ls_current_seq := sq + 1\<rparr>
        in send_link_state_data_to_all_neighbors ethno sq ls_data s)) [0..<ethernet_ninterfaces] s"

definition link_state_route_proto_update :: "u8 \<Rightarrow> 'a linkstate_scheme \<Rightarrow> 'a linkstate_scheme" where
  "link_state_route_proto_update ethno s =
     (let sq = ls_current_seq s;
          s = s\<lparr>ls_current_seq := sq + 1\<rparr>;
          (bcast, s) = u3_net_stack_get_bcast ethno s
      in u3_net_stack_send_icmp_pkt ethno ICMP_IRQ 0 LS_ID_DISCOVER sq bcast no_mem 0 s)"

subsection \<open>Handlers\<close>

definition handle_icmp_ir ::
  "u8 \<Rightarrow> ip \<Rightarrow> ip \<Rightarrow> u16 \<Rightarrow> u16 \<Rightarrow> mem option \<Rightarrow> u32 \<Rightarrow> 'a linkstate_scheme \<Rightarrow> 'a linkstate_scheme option" where
  "handle_icmp_ir ethno src dst ident sq buff num_bytes s =
     Some (if ident = LS_ID_DISCOVER
           then (let (fresh, nbors) = ls_node_entries_update (ls_ticker s) ethno sq src (ls_nbors s)
                 in if fresh then link_state_route_proto_flood ethno (s\<lparr>ls_nbors := nbors\<rparr>) else s)
           else s)"

definition handle_icmp_irq ::
  "u8 \<Rightarrow> ip \<Rightarrow> ip \<Rightarrow> u16 \<Rightarrow> u16 \<Rightarrow> mem option \<Rightarrow> u32 \<Rightarrow> 'a linkstate_scheme \<Rightarrow> 'a linkstate_scheme option" where
  "handle_icmp_irq ethno src dst ident sq buff num_bytes s =
     (let m = (case buff of Some m \<Rightarrow> m | None \<Rightarrow> no_mem) in
      Some (if ident = LS_ID_DISCOVER
            then u3_net_stack_send_icmp_pkt ethno ICMP_IR 0 ident sq src m num_bytes s
            else if ident = LS_ID_INFORM
            then send_link_state_data_to_all_neighbors ethno sq m s
            else s))"

definition link_state_route_proto_init :: "'a linkstate_scheme \<Rightarrow> 'a linkstate_scheme" where
  "link_state_route_proto_init s =
     (let s = u3_net_stack_register_icmp_handler ICMP_IRQ 0 Icmp_irq s;
          s = u3_net_stack_register_icmp_handler ICMP_IR 0 Icmp_ir s
      in s\<lparr>ls_causes_cycle := replicate LS_NETHS (replicate LS_NETHS True)\<rparr>)"

text \<open>The functions behind the ICMP handler table.\<close>

definition run_icmp ::
  "(udp_handler \<Rightarrow> ('a linkstate_ext ethdrv_ext cron_ext) handler) \<Rightarrow> icmp_handler \<Rightarrow> ('a linkstate_ext ethdrv_ext cron_ext) handler" where
  "run_icmp run_udp h = (case h of
       Icmp_echo \<Rightarrow> handle_icmp_echo_packet
     | Icmp_dur \<Rightarrow> handle_icmp_dur_packet run_udp
     | Icmp_irq \<Rightarrow> handle_icmp_irq
     | Icmp_ir \<Rightarrow> handle_icmp_ir)"

end
