(* ===== verification/LinkStateFacts.thy ===== *)
theory LinkStateFacts
  imports LinkState
begin

unbundle bit_operations_syntax

section \<open>Link state: the search visits what can be reached\<close>

text \<open>
  Facts about the traversal of \<^verbatim>\<open>follow_links\<close> over an arbitrary successor function, then
  for the node table, and facts about the two tables.
\<close>

subsection \<open>Depth first search with a visited array\<close>

primrec dfs :: "nat \<Rightarrow> (nat \<Rightarrow> nat list) \<Rightarrow> nat \<Rightarrow> bool list \<Rightarrow> bool list" where
  "dfs 0 succ cur v = v"
| "dfs (Suc n) succ cur v = (if v ! cur then v else fold (dfs n succ) (succ cur) (v[cur := True]))"

lemma follow_links_dfs: "follow_links n maps nodes cur v = dfs n (link_targets maps nodes) cur v"
proof (induction n arbitrary: cur v)
  case (Suc n)
  have "follow_links n maps nodes = dfs n (link_targets maps nodes)"
    using Suc.IH by (intro ext)
  then show ?case by simp
qed simp

definition visited_set :: "bool list \<Rightarrow> nat set" where
  "visited_set v = {i. i < length v \<and> v ! i}"

definition unvisited :: "bool list \<Rightarrow> nat" where
  "unvisited v = card {i. i < length v \<and> \<not> v ! i}"

text \<open>What one call guarantees: it keeps the length, only adds, and closes what it adds.\<close>

definition grows :: "(nat \<Rightarrow> nat list) \<Rightarrow> bool list \<Rightarrow> bool list \<Rightarrow> bool" where
  "grows succ v w \<longleftrightarrow> length w = length v \<and> visited_set v \<subseteq> visited_set w
     \<and> (\<forall>x\<in>visited_set w - visited_set v. set (succ x) \<subseteq> visited_set w)"

lemma grows_refl: "grows succ v v"
  by (simp add: grows_def)

lemma grows_trans: "grows succ u v \<Longrightarrow> grows succ v w \<Longrightarrow> grows succ u w"
  unfolding grows_def by (auto 4 3 simp: subset_iff)

lemma unvisited_mono: "length w = length v \<Longrightarrow> visited_set v \<subseteq> visited_set w \<Longrightarrow> unvisited w \<le> unvisited v"
  unfolding unvisited_def visited_set_def by (rule card_mono) auto

lemma unvisited_bound: "unvisited v \<le> length v"
  unfolding unvisited_def by (rule order_trans [OF card_mono [of "{..<length v}"]]) auto

lemma unvisited_mark:
  assumes "cur < length v" and "\<not> v ! cur"
  shows "Suc (unvisited (v[cur := True])) = unvisited v"
proof -
  have "{i. i < length v \<and> \<not> v ! i} = insert cur {i. i < length v \<and> \<not> v[cur := True] ! i}"
    using assms by (auto simp: nth_list_update)
  moreover have "cur \<notin> {i. i < length v \<and> \<not> v[cur := True] ! i}" using assms by simp
  ultimately show ?thesis by (simp add: unvisited_def)
qed

lemma visited_mark: "cur < length v \<Longrightarrow> visited_set (v[cur := True]) = insert cur (visited_set v)"
  by (auto simp: visited_set_def nth_list_update split: if_splits)

lemma fold_grows:
  assumes step: "\<And>j w. j \<in> set js \<Longrightarrow> length w = length v \<Longrightarrow> visited_set v \<subseteq> visited_set w \<Longrightarrow>
      grows succ w (f j w) \<and> j \<in> visited_set (f j w)"
  shows "grows succ v (fold f js v) \<and> set js \<subseteq> visited_set (fold f js v)"
  using step
proof (induction js rule: rev_induct)
  case Nil
  then show ?case by (simp add: grows_refl)
next
  case (snoc j js)
  let ?w = "fold f js v"
  have w: "grows succ v ?w" "set js \<subseteq> visited_set ?w" using snoc by auto
  then have "grows succ ?w (f j ?w) \<and> j \<in> visited_set (f j ?w)"
    using snoc.prems [of j ?w] by (simp add: grows_def)
  then have "grows succ v (f j ?w)" "visited_set ?w \<subseteq> visited_set (f j ?w)" "j \<in> visited_set (f j ?w)"
    using grows_trans [OF w(1)] by (auto simp: grows_def)
  with w(2) show ?case by auto
qed

lemma dfs_grows:
  assumes "cur < length v" and "unvisited v < n" and "\<And>x. set (succ x) \<subseteq> {..<length v}"
  shows "grows succ v (dfs n succ cur v) \<and> cur \<in> visited_set (dfs n succ cur v)"
  using assms
proof (induction n arbitrary: cur v)
  case (Suc n)
  show ?case
  proof (cases "v ! cur")
    case True
    then show ?thesis using Suc.prems by (simp add: grows_refl visited_set_def)
  next
    case False
    let ?v = "v[cur := True]"
    let ?r = "fold (dfs n succ) (succ cur) ?v"
    have "grows succ ?v ?r \<and> set (succ cur) \<subseteq> visited_set ?r"
    proof (rule fold_grows)
      fix j w assume j: "j \<in> set (succ cur)" and w: "length w = length ?v" "visited_set ?v \<subseteq> visited_set w"
      have "unvisited w < n"
        using unvisited_mono [OF w] unvisited_mark [OF Suc.prems(1) False] Suc.prems(2) by simp
      moreover have "j < length w" using Suc.prems(3) [of cur] j w(1) by auto
      ultimately show "grows succ w (dfs n succ j w) \<and> j \<in> visited_set (dfs n succ j w)"
        using Suc.IH [of j w] Suc.prems(3) w(1) by simp
    qed
    then show ?thesis
      using False visited_mark [OF Suc.prems(1)] by (auto simp: grows_def)
  qed
qed simp

text \<open>Soundness, for any depth: only what can be reached is added.\<close>

definition edges :: "(nat \<Rightarrow> nat list) \<Rightarrow> (nat \<times> nat) set" where
  "edges succ = {(x, y). y \<in> set (succ x)}"

lemma dfs_sound:
  "i \<in> visited_set (dfs n succ cur v) \<Longrightarrow> i \<in> visited_set v \<or> (cur, i) \<in> (edges succ)\<^sup>*"
proof (induction n arbitrary: cur v i)
  case (Suc n)
  have fold: "i \<in> visited_set (fold (dfs n succ) js w) \<Longrightarrow> i \<in> visited_set w \<or> (\<exists>j\<in>set js. (j, i) \<in> (edges succ)\<^sup>*)"
    for js w i
  proof (induction js arbitrary: w)
    case (Cons j js)
    then have "i \<in> visited_set (dfs n succ j w) \<or> (\<exists>j\<in>set js. (j, i) \<in> (edges succ)\<^sup>*)" by simp
    with Suc.IH show ?case by auto
  qed simp
  show ?case
  proof (cases "v ! cur")
    case False
    with Suc.prems fold have "i \<in> visited_set (v[cur := True]) \<or> (\<exists>j\<in>set (succ cur). (j, i) \<in> (edges succ)\<^sup>*)"
      by auto
    moreover have "i \<in> visited_set (v[cur := True]) \<Longrightarrow> i = cur \<or> i \<in> visited_set v"
      by (cases "i = cur") (auto simp: visited_set_def)
    moreover have "j \<in> set (succ cur) \<Longrightarrow> (cur, j) \<in> edges succ" for j by (simp add: edges_def)
    ultimately show ?thesis by (auto intro: converse_rtrancl_into_rtrancl)
  qed (use Suc.prems in simp)
qed simp

text \<open>From nothing visited and with enough depth, the visited set is the set of reachable indices.\<close>

lemma dfs_reachable:
  assumes "cur < k" and "k < n" and s: "\<And>x. set (succ x) \<subseteq> {..<k}"
  shows "visited_set (dfs n succ cur (replicate k False)) = {i. (cur, i) \<in> (edges succ)\<^sup>*}"
proof
  have none: "visited_set (replicate k False) = {}" by (simp add: visited_set_def)
  show "visited_set (dfs n succ cur (replicate k False)) \<subseteq> {i. (cur, i) \<in> (edges succ)\<^sup>*}"
    using dfs_sound [of _ n succ cur "replicate k False"] none by auto
  have "unvisited (replicate k False) \<le> k"
    using unvisited_bound [of "replicate k False"] by simp
  then have g: "grows succ (replicate k False) (dfs n succ cur (replicate k False))"
      "cur \<in> visited_set (dfs n succ cur (replicate k False))"
    using dfs_grows [of cur "replicate k False" n succ] assms by simp_all
  show "{i. (cur, i) \<in> (edges succ)\<^sup>*} \<subseteq> visited_set (dfs n succ cur (replicate k False))"
  proof
    fix i assume "i \<in> {i. (cur, i) \<in> (edges succ)\<^sup>*}"
    then have "(cur, i) \<in> (edges succ)\<^sup>*" by simp
    then show "i \<in> visited_set (dfs n succ cur (replicate k False))"
      by (induction rule: rtrancl_induct) (use g none in \<open>auto simp: grows_def edges_def\<close>)
  qed
qed

subsection \<open>The links the table knows\<close>

definition live_links :: "ls_node_mapping_t list \<Rightarrow> (ip \<times> ip) set" where
  "live_links maps = {(map_node m, map_nbor m) | m. m \<in> set maps \<and> map_node m \<noteq> 0 \<and> map_nbor m \<noteq> 0}"

lemma node_set_props: "set (node_set maps) = Domain (live_links maps) \<and> distinct (node_set maps)"
proof -
  have "set (fold (\<lambda>m nodes. if map_node m = 0 \<or> map_nbor m = 0 then nodes
      else if map_node m \<in> set nodes then nodes else nodes @ [map_node m]) maps ns) = set ns \<union> Domain (live_links maps)
    \<and> (distinct ns \<longrightarrow> distinct (fold (\<lambda>m nodes. if map_node m = 0 \<or> map_nbor m = 0 then nodes
      else if map_node m \<in> set nodes then nodes else nodes @ [map_node m]) maps ns))" for ns
  proof (induction maps arbitrary: ns)
    case Nil
    then show ?case by (simp add: live_links_def)
  next
    case (Cons m maps)
    have "live_links (m # maps) = (if map_node m \<noteq> 0 \<and> map_nbor m \<noteq> 0 then {(map_node m, map_nbor m)} else {}) \<union> live_links maps"
      by (auto simp: live_links_def)
    then have d: "Domain (live_links (m # maps)) = (if map_node m \<noteq> 0 \<and> map_nbor m \<noteq> 0 then {map_node m} else {}) \<union> Domain (live_links maps)"
      by auto
    show ?case
      using Cons.IH [of ns] Cons.IH [of "ns @ [map_node m]"] unfolding d by auto
  qed
  from this [of "[]"] show ?thesis by (simp add: node_set_def)
qed

lemma link_targets_iff:
  "j \<in> set (link_targets maps nodes c) \<longleftrightarrow>
     j < length nodes \<and> (\<exists>m\<in>set maps. map_node m = nodes ! c \<and> map_nbor m = nodes ! j)"
  unfolding link_targets_def by (force split: if_splits)

lemma fold_select:
  assumes "distinct xs" and "i \<in> set xs" and "\<And>x. x \<in> set xs \<Longrightarrow> P x \<longleftrightarrow> x = i"
  shows "fold (\<lambda>x v. if P x then f x v else v) xs v = f i v"
proof -
  have none: "fold (\<lambda>x v. if P x then f x v else v) ys w = w" if "\<forall>y\<in>set ys. \<not> P y" for ys w
    using that by (induction ys arbitrary: w) auto
  from assms(2) obtain as bs where xs: "xs = as @ i # bs" by (auto simp: in_set_conv_decomp)
  with assms(1,3) have "\<forall>y\<in>set as. \<not> P y" "\<forall>y\<in>set bs. \<not> P y" "P i" by auto
  then show ?thesis by (simp add: xs none)
qed

lemma index_reach_links:
  assumes "(i, j) \<in> (edges (link_targets maps nodes))\<^sup>*" and "i < length nodes" and nz: "0 \<notin> set nodes"
  shows "j < length nodes \<and> (nodes ! i, nodes ! j) \<in> (live_links maps)\<^sup>*"
  using assms(1)
proof (induction rule: rtrancl_induct)
  case (step x y)
  then have e: "y < length nodes" "\<exists>m\<in>set maps. map_node m = nodes ! x \<and> map_nbor m = nodes ! y"
    by (simp_all add: edges_def link_targets_iff)
  moreover have "nodes ! x \<noteq> 0" "nodes ! y \<noteq> 0" using nz step.IH e(1) by (metis nth_mem)+
  ultimately have "(nodes ! x, nodes ! y) \<in> live_links maps"
    unfolding live_links_def by (smt (verit, ccfv_threshold) mem_Collect_eq)
  with step.IH e(1) show ?case by auto
qed (use assms in auto)

lemma links_index_reach:
  assumes "(a, b) \<in> (live_links maps)\<^sup>*" and n: "set nodes = Domain (live_links maps)" and b: "b \<in> set nodes"
  shows "a \<in> set nodes \<and> (\<forall>i<length nodes. nodes ! i = a \<longrightarrow>
    (\<exists>j<length nodes. nodes ! j = b \<and> (i, j) \<in> (edges (link_targets maps nodes))\<^sup>*))"
  using assms(1)
proof (induction rule: converse_rtrancl_induct)
  case base
  then show ?case using b by auto
next
  case (step a c)
  from step.IH obtain k where k: "k < length nodes" "nodes ! k = c" by (auto simp: in_set_conv_nth)
  have "(i, k) \<in> edges (link_targets maps nodes)" if "nodes ! i = a" for i
    using that step.hyps(1) k by (auto simp: edges_def link_targets_iff live_links_def)
  moreover obtain j where "j < length nodes" "nodes ! j = b" "(k, j) \<in> (edges (link_targets maps nodes))\<^sup>*"
    using step.IH k by blast
  ultimately have "\<exists>j<length nodes. nodes ! j = b \<and> (i, j) \<in> (edges (link_targets maps nodes))\<^sup>*" if "nodes ! i = a" for i
    using that converse_rtrancl_into_rtrancl by metis
  moreover have "a \<in> set nodes" using step.hyps(1) n by auto
  ultimately show ?case by blast
qed

lemma follow_from_visited:
  assumes d: "distinct nodes"
  shows "i < length nodes \<Longrightarrow> follow_from maps nodes src ! i \<longleftrightarrow>
    (\<exists>k<length nodes. nodes ! k = src \<and> (k, i) \<in> (edges (link_targets maps nodes))\<^sup>*)"
proof (cases "src \<in> set nodes")
  case True
  assume i: "i < length nodes"
  from True obtain k where k: "k < length nodes" "nodes ! k = src" by (auto simp: in_set_conv_nth)
  let ?v = "dfs (Suc (length nodes)) (link_targets maps nodes) k (replicate (length nodes) False)"
  have u: "x < length nodes \<Longrightarrow> nodes ! x = src \<longleftrightarrow> x = k" for x
    using d k by (auto simp: nth_eq_iff_index_eq)
  then have "follow_from maps nodes src = ?v"
    unfolding follow_from_def follow_links_dfs
    by (intro fold_select) (use k in auto)
  moreover have "set (link_targets maps nodes x) \<subseteq> {..<length nodes}" for x
    by (auto simp: link_targets_iff)
  then have "visited_set ?v = {i. (k, i) \<in> (edges (link_targets maps nodes))\<^sup>*}"
      and "grows (link_targets maps nodes) (replicate (length nodes) False) ?v"
    using dfs_reachable [OF k(1), of "Suc (length nodes)" "link_targets maps nodes"]
      dfs_grows [of k "replicate (length nodes) False" "Suc (length nodes)" "link_targets maps nodes"] k(1)
      unvisited_bound [of "replicate (length nodes) False"] by auto
  ultimately show ?thesis using i k u by (auto simp: visited_set_def grows_def)
next
  case False
  assume i: "i < length nodes"
  have "fold (\<lambda>i visited. if nodes ! i = src then f i visited else visited) xs v = v"
    if "set xs \<subseteq> {..<length nodes}" for xs v and f :: "nat \<Rightarrow> bool list \<Rightarrow> bool list"
    using that False by (induction xs arbitrary: v) auto
  then have "follow_from maps nodes src = replicate (length nodes) False"
    unfolding follow_from_def by (simp add: atLeast0LessThan)
  with i False show ?thesis by auto
qed

text \<open>The answer of the cycle test, in terms of the links.\<close>

lemma causes_cycle_iff:
  "link_state_route_proto_causes_cycle src dst s \<longleftrightarrow>
     dst \<in> Domain (live_links (ls_node_maps s)) \<and> (src, dst) \<in> (live_links (ls_node_maps s))\<^sup>*"
proof -
  let ?maps = "ls_node_maps s" and ?nodes = "node_set (ls_node_maps s)"
  have n: "set ?nodes = Domain (live_links ?maps)" and d: "distinct ?nodes"
    using node_set_props by blast+
  then have nz: "0 \<notin> set ?nodes" by (auto simp: live_links_def)
  have "link_state_route_proto_causes_cycle src dst s \<longleftrightarrow>
      (\<exists>i<length ?nodes. ?nodes ! i = dst \<and> (\<exists>k<length ?nodes. ?nodes ! k = src \<and> (k, i) \<in> (edges (link_targets ?maps ?nodes))\<^sup>*))"
    unfolding link_state_route_proto_causes_cycle_def Let_def using follow_from_visited [OF d] by auto
  also have "\<dots> \<longleftrightarrow> dst \<in> set ?nodes \<and> (src, dst) \<in> (live_links ?maps)\<^sup>*"
  proof
    assume "dst \<in> set ?nodes \<and> (src, dst) \<in> (live_links ?maps)\<^sup>*"
    then show "\<exists>i<length ?nodes. ?nodes ! i = dst \<and> (\<exists>k<length ?nodes. ?nodes ! k = src \<and> (k, i) \<in> (edges (link_targets ?maps ?nodes))\<^sup>*)"
      using links_index_reach [OF _ n, of src dst] by (metis in_set_conv_nth)
  qed (use index_reach_links [OF _ _ nz] in fastforce)
  finally show ?thesis unfolding n .
qed

end
