(* ===== verification/LinkStateProps.thy ===== *)
theory LinkStateProps
  imports LinkStateFacts
begin

unbundle bit_operations_syntax

section \<open>Properties of the link state protocol\<close>

text \<open>
  The tables of \<^verbatim>\<open>link_state_route_proto.c\<close>: what an update of the node mappings
  does to the links they stand for, that every operation keeps the arrays' sizes, that a flooded
  announcement is forwarded once only, and the answer of the cycle test.
\<close>

subsection \<open>What the operations leave alone\<close>

lemma net_out_ls:
  assumes "net_out s s'"
  shows "ls_ticker s' = ls_ticker s" "ls_current_seq s' = ls_current_seq s" "ls_nbors s' = ls_nbors s"
    "ls_nodes s' = ls_nodes s" "ls_node_maps s' = ls_node_maps s" "ls_causes_cycle s' = ls_causes_cycle s"
    "links_up s' = links_up s"
  using assms by (auto simp: net_out_def)

lemma net_out_fold: "(\<And>x s. net_out s (f x s)) \<Longrightarrow> net_out s (fold f xs s)"
  by (induction xs arbitrary: s) (auto intro: net_out_trans)

lemma forward_link_state_out: "net_out s (forward_link_state sq m s)"
  unfolding forward_link_state_def by (rule net_out_fold) (auto intro: net_out_icmp)

lemma update_cycle_cache_frame: "\<exists>c. link_state_route_proto_update_cycle_cache e s = s\<lparr>ls_causes_cycle := c\<rparr>"
proof -
  have "\<exists>c. fold (\<lambda>d s. if unat e = d then s else set_causes_cycle (unat e) d (b d s) s) ds s = s\<lparr>ls_causes_cycle := c\<rparr>"
    for b ds and s :: "'a linkstate_scheme"
  proof (induction ds arbitrary: s)
    case Nil
    have "s = s\<lparr>ls_causes_cycle := ls_causes_cycle s\<rparr>" by simp
    then show ?case by (metis fold_simps(1))
  next
    case (Cons d ds)
    then obtain c where "fold (\<lambda>d s. if unat e = d then s else set_causes_cycle (unat e) d (b d s) s) ds
        (if unat e = d then s else set_causes_cycle (unat e) d (b d s) s)
      = (if unat e = d then s else set_causes_cycle (unat e) d (b d s) s)\<lparr>ls_causes_cycle := c\<rparr>" by blast
    then show ?case by (auto simp: set_causes_cycle_def)
  qed
  from this [of "\<lambda>d s. link_state_route_proto_causes_cycle (u3_net_stack_get_ip_addr e s) (u3_net_stack_get_ip_addr (of_nat d) s) s"]
  show ?thesis unfolding link_state_route_proto_update_cycle_cache_def .
qed

lemma update_node_mappings_frame: "\<exists>maps. update_node_mappings m s = s\<lparr>ls_node_maps := maps\<rparr>"
  by (auto simp: update_node_mappings_def Let_def)

lemma send_all_tables:
  fixes s :: "'a linkstate_scheme"
  defines "u \<equiv> \<lambda>e sq m. ls_node_entries_update (ls_ticker s) e sq (ls_node m) (ls_nodes s)"
  shows "ls_nodes (send_link_state_data_to_all_neighbors e sq m s) = snd (u e sq m)"
    and "ls_ticker (send_link_state_data_to_all_neighbors e sq m s) = ls_ticker s"
    and "ls_nbors (send_link_state_data_to_all_neighbors e sq m s) = ls_nbors s"
    and "\<not> fst (u e sq m) \<Longrightarrow> send_link_state_data_to_all_neighbors e sq m s = s"
    and "fst (u e sq m) \<Longrightarrow> ls_node_maps (send_link_state_data_to_all_neighbors e sq m s)
          = ls_node_maps (update_node_mappings m (s\<lparr>ls_nodes := snd (u e sq m)\<rparr>))"
proof -
  have stale: "\<not> fst (u e sq m) \<Longrightarrow> snd (u e sq m) = ls_nodes s"
    by (auto simp: u_def ls_node_entries_update_def Let_def split: option.splits if_splits)
  obtain maps where maps: "update_node_mappings m (s\<lparr>ls_nodes := snd (u e sq m)\<rparr>)
      = s\<lparr>ls_nodes := snd (u e sq m), ls_node_maps := maps\<rparr>"
    using update_node_mappings_frame [of m "s\<lparr>ls_nodes := snd (u e sq m)\<rparr>"] by auto
  let ?f = "forward_link_state sq m (s\<lparr>ls_nodes := snd (u e sq m), ls_node_maps := maps\<rparr>)"
  obtain c where c: "link_state_route_proto_update_cycle_cache e ?f = ?f\<lparr>ls_causes_cycle := c\<rparr>"
    using update_cycle_cache_frame by blast
  have run: "send_link_state_data_to_all_neighbors e sq m s = (if fst (u e sq m) then ?f\<lparr>ls_causes_cycle := c\<rparr> else s)"
    using maps c by (simp add: send_link_state_data_to_all_neighbors_def case_prod_unfold Let_def u_def)
  note keep = net_out_ls [OF forward_link_state_out, of sq m "s\<lparr>ls_nodes := snd (u e sq m), ls_node_maps := maps\<rparr>"]
  show "ls_nodes (send_link_state_data_to_all_neighbors e sq m s) = snd (u e sq m)"
    and "ls_ticker (send_link_state_data_to_all_neighbors e sq m s) = ls_ticker s"
    and "ls_nbors (send_link_state_data_to_all_neighbors e sq m s) = ls_nbors s"
    and "\<not> fst (u e sq m) \<Longrightarrow> send_link_state_data_to_all_neighbors e sq m s = s"
    and "fst (u e sq m) \<Longrightarrow> ls_node_maps (send_link_state_data_to_all_neighbors e sq m s)
          = ls_node_maps (update_node_mappings m (s\<lparr>ls_nodes := snd (u e sq m)\<rparr>))"
    unfolding run maps using keep stale by simp_all
qed

subsection \<open>Entries\<close>

lemma sint_small:
  assumes "unat (e :: u8) < 128"
  shows "sint e = uint e"
proof -
  have "uint e = int (unat e)" by (simp only: uint_nat)
  then have "uint e < 128" "- 128 \<le> uint e" using assms by linarith+
  then show ?thesis unfolding sint_uint by (intro signed_take_bit_int_eq_self) simp_all
qed

subsection \<open>Mappings\<close>

definition links :: "ls_node_mapping_t list \<Rightarrow> (ip \<times> ip) set" where
  "links maps = {(map_node m, map_nbor m) | m. m \<in> set maps \<and> map_node m \<noteq> 0}"

definition free_slots :: "ls_node_mapping_t list \<Rightarrow> nat" where
  "free_slots maps = length (filter (\<lambda>m. map_node m = 0) maps)"

definition expired_nodes :: "'a linkstate_scheme \<Rightarrow> ip set" where
  "expired_nodes s = {ne_ip e | e. e \<in> set (ls_nodes s) \<and> ne_ip e \<noteq> 0 \<and> is_tick_expired (ls_ticker s) (ne_tick e)}"

lemma links_remove: "links (remove_node_matches x maps) = {l \<in> links maps. fst l \<noteq> x}"
  by (auto simp: links_def remove_node_matches_def split: if_splits)

lemma links_remove_expired: "links (remove_expired s) = {l \<in> links (ls_node_maps s). fst l \<notin> expired_nodes s}"
proof -
  define X where "X t es = {ne_ip e | e. e \<in> set es \<and> ne_ip e \<noteq> 0 \<and> is_tick_expired t (ne_tick e)}"
    for t and es :: "ls_node_entry_t list"
  have XC: "X t (e # es) = (if ne_ip e \<noteq> 0 \<and> is_tick_expired t (ne_tick e) then insert (ne_ip e) (X t es) else X t es)" for t e es
    by (auto simp: X_def)
  have "links (fold (\<lambda>e maps. if ne_ip e \<noteq> 0 \<and> is_tick_expired t (ne_tick e) then remove_node_matches (ne_ip e) maps else maps) es maps)
      = {l \<in> links maps. fst l \<notin> X t es}" for t es maps
  proof (induction es arbitrary: maps)
    case Nil
    then show ?case by (simp add: X_def)
  next
    case (Cons e es)
    show ?case unfolding fold_simps Cons.IH XC links_remove by (cases "ne_ip e \<noteq> 0 \<and> is_tick_expired t (ne_tick e)") (auto simp: links_remove)
  qed
  moreover have "expired_nodes s = X (ls_ticker s) (ls_nodes s)" by (simp add: expired_nodes_def X_def)
  ultimately show ?thesis unfolding remove_expired_def by (simp only:)
qed

lemma add_node_mapping_free:
  assumes "0 < free_slots maps" and "node \<noteq> 0"
  shows "links (add_node_mapping node nbor maps) = insert (node, nbor) (links maps)"
    and "Suc (free_slots (add_node_mapping node nbor maps)) = free_slots maps"
proof -
  have "\<exists>m\<in>set maps. map_node m = 0"
    using assms(1) unfolding free_slots_def length_greater_0_conv filter_empty_conv by blast
  then have "find_index (\<lambda>m. map_node m = 0) maps \<noteq> None" by (simp add: find_index_None_iff)
  then obtain i where i: "find_index (\<lambda>m. map_node m = 0) maps = Some i" by blast
  then have b: "i < length maps" "map_node (maps ! i) = 0"
    using find_index_bound [OF i] find_index_sat [OF i] by simp_all
  let ?n = "\<lparr>map_node = node, map_nbor = nbor\<rparr>"
  have split: "maps = take i maps @ maps ! i # drop (Suc i) maps" using b(1) by (rule id_take_nth_drop)
  have upd: "maps[i := ?n] = take i maps @ ?n # drop (Suc i) maps" using b(1) by (rule upd_conv_take_nth_drop)
  have app: "links (xs @ m # ys) = links xs \<union> (if map_node m = 0 then {} else {(map_node m, map_nbor m)}) \<union> links ys" for xs m ys
    by (auto simp: links_def)
  have "links maps = links (take i maps) \<union> links (drop (Suc i) maps)"
    by (subst split) (simp add: app b)
  then show "links (add_node_mapping node nbor maps) = insert (node, nbor) (links maps)"
    using assms(2) by (simp add: add_node_mapping_def i upd app)
  have "free_slots maps = Suc (free_slots (take i maps) + free_slots (drop (Suc i) maps))"
    by (subst split) (simp add: free_slots_def b)
  then show "Suc (free_slots (add_node_mapping node nbor maps)) = free_slots maps"
    using assms(2) by (simp add: add_node_mapping_def i upd free_slots_def)
qed

lemma load_nbors_links:
  assumes room: "unat (ls_num_nbors m) \<le> free_slots maps" and n: "ls_node m \<noteq> 0"
  shows "links (load_nbors loc m maps) = links maps
    \<union> {(ls_node m, ls_nbor m i) | i. i < unat (ls_num_nbors m) \<and> \<not> (loc \<and> i < unat (ls_num_ports m))}"
proof -
  let ?f = "\<lambda>i maps. if loc \<and> i < unat (ls_num_ports m) then maps else add_node_mapping (ls_node m) (ls_nbor m i) maps"
  have "k \<le> free_slots maps \<Longrightarrow> links (fold ?f [0..<k] maps) = links maps
      \<union> {(ls_node m, ls_nbor m i) | i. i < k \<and> \<not> (loc \<and> i < unat (ls_num_ports m))}
    \<and> free_slots maps \<le> free_slots (fold ?f [0..<k] maps) + k" for k
  proof (induction k)
    case (Suc k)
    let ?ms = "fold ?f [0..<k] maps"
    from Suc have IH: "links ?ms = links maps \<union> {(ls_node m, ls_nbor m i) | i. i < k \<and> \<not> (loc \<and> i < unat (ls_num_ports m))}"
      "free_slots maps \<le> free_slots ?ms + k" by auto
    then have "0 < free_slots ?ms" using Suc.prems by simp
    from add_node_mapping_free [OF this n, of "ls_nbor m k"] IH show ?case
      by (auto simp: less_Suc_eq)
  qed simp
  from this [OF room] show ?thesis unfolding load_nbors_def by blast
qed

subsection \<open>Sizes of the tables\<close>

definition ls_wf :: "'a linkstate_scheme \<Rightarrow> bool" where
  "ls_wf s \<longleftrightarrow> length (ls_nbors s) = LS_NUM_NBOR_ENTRIES \<and> length (ls_nodes s) = LS_NUM_NODE_ENTRIES
     \<and> length (ls_node_maps s) = LS_NUM_MAP_ENTRIES
     \<and> length (ls_causes_cycle s) = LS_NETHS \<and> (\<forall>row\<in>set (ls_causes_cycle s). length row = LS_NETHS)"

lemmas ls_sizes = LS_NUM_NBOR_ENTRIES_def LS_NUM_NODE_ENTRIES_def LS_NUM_MAP_ENTRIES_def LS_NETHS_def

lemma entries_update_length:
  "entries \<noteq> [] \<Longrightarrow> length (snd (ls_node_entries_update t e sq a entries)) = length entries"
  by (cases entries) (auto simp: ls_node_entries_update_def Let_def split: option.splits)

lemma add_node_mapping_length: "maps \<noteq> [] \<Longrightarrow> length (add_node_mapping a b maps) = length maps"
  by (cases maps) (auto simp: add_node_mapping_def split: option.splits)

lemma fold_length:
  assumes "\<And>x (ms :: ls_node_mapping_t list). length ms = n \<Longrightarrow> length (f x ms) = n"
  shows "length ms = n \<Longrightarrow> length (fold f xs ms) = n"
  by (induction xs arbitrary: ms) (simp_all add: assms)

lemma update_node_mappings_length:
  assumes "0 < length (ls_node_maps s)"
  shows "length (ls_node_maps (update_node_mappings m s)) = length (ls_node_maps s)"
proof -
  let ?n = "length (ls_node_maps s)"
  have rm: "length (remove_node_matches x ms) = length ms" for x ms by (simp add: remove_node_matches_def)
  have 1: "length (remove_expired s) = ?n"
    unfolding remove_expired_def by (rule fold_length) (simp_all add: rm)
  have "length (load_nbors b m ms) = ?n" if "length ms = ?n" for b ms
    unfolding load_nbors_def using that
  proof (rule fold_length [rotated])
    fix x and ms :: "ls_node_mapping_t list" assume "length ms = ?n"
    moreover from this assms have "ms \<noteq> []" by auto
    ultimately show "length (if b \<and> x < unat (ls_num_ports m) then ms else add_node_mapping (ls_node m) (ls_nbor m x) ms) = ?n"
      by (simp add: add_node_mapping_length)
  qed
  with 1 show ?thesis by (simp add: update_node_mappings_def Let_def rm)
qed

lemma set_causes_cycle_wf: "ls_wf s \<Longrightarrow> ls_wf (set_causes_cycle i j b s)"
proof -
  assume wf: "ls_wf s"
  have "length row = LS_NETHS" if r: "row \<in> set ((ls_causes_cycle s)[i := (ls_causes_cycle s ! i)[j := b]])" for row
  proof (cases "i < length (ls_causes_cycle s)")
    case True
    with wf have "length (ls_causes_cycle s ! i) = LS_NETHS" by (auto simp: ls_wf_def)
    moreover have "row = (ls_causes_cycle s ! i)[j := b] \<or> row \<in> set (ls_causes_cycle s)"
      using r set_update_subset_insert by fastforce
    ultimately show ?thesis using wf by (auto simp: ls_wf_def)
  next
    case False
    then have "row \<in> set (ls_causes_cycle s)" using r by (metis list_update_beyond linorder_not_less)
    with wf show ?thesis by (simp add: ls_wf_def)
  qed
  with wf show ?thesis by (simp add: ls_wf_def set_causes_cycle_def)
qed

lemma update_cycle_cache_wf: "ls_wf s \<Longrightarrow> ls_wf (link_state_route_proto_update_cycle_cache e s)"
proof -
  have "ls_wf s \<Longrightarrow> ls_wf (fold (\<lambda>d s. if unat e = d then s else set_causes_cycle (unat e) d (b d s) s) ds s)"
    for b ds and s :: "'a linkstate_scheme"
    by (induction ds arbitrary: s) (auto simp: set_causes_cycle_wf)
  from this [of _ "\<lambda>d s. link_state_route_proto_causes_cycle (u3_net_stack_get_ip_addr e s) (u3_net_stack_get_ip_addr (of_nat d) s) s"]
  show "ls_wf s \<Longrightarrow> ls_wf (link_state_route_proto_update_cycle_cache e s)"
    unfolding link_state_route_proto_update_cycle_cache_def .
qed

lemma net_out_wf: "net_out s s' \<Longrightarrow> ls_wf s \<Longrightarrow> ls_wf s'"
  using net_out_ls [of s s'] by (simp add: ls_wf_def)

text \<open>Everything the protocol does leaves the configuration, the handler tables, the links and the
  bus alone.\<close>

definition ls_only :: "'a linkstate_scheme \<Rightarrow> 'a linkstate_scheme \<Rightarrow> bool" where
  "ls_only s s' \<longleftrightarrow> trace s' = trace s \<and> dev s' = dev s \<and> net_conf_ips s' = net_conf_ips s
     \<and> net_conf_macs s' = net_conf_macs s \<and> net_conf_subnets s' = net_conf_subnets s
     \<and> udp_handlers s' = udp_handlers s \<and> icmp_handlers s' = icmp_handlers s
     \<and> arp_cache_ips s' = arp_cache_ips s \<and> arp_cache_macs s' = arp_cache_macs s \<and> links_up s' = links_up s"

lemma ls_only_refl: "ls_only s s"
  by (simp add: ls_only_def)

lemma ls_only_trans: "ls_only s s' \<Longrightarrow> ls_only s' s'' \<Longrightarrow> ls_only s s''"
  by (simp add: ls_only_def)

lemma net_out_ls_only: "net_out s s' \<Longrightarrow> ls_only s s'"
  using net_out_keeps [of s s'] net_out_ls(7) [of s s'] by (simp add: ls_only_def)

lemma send_all_wf_only:
  assumes "ls_wf s"
  shows "ls_wf (send_link_state_data_to_all_neighbors e sq m s) \<and> ls_only s (send_link_state_data_to_all_neighbors e sq m s)"
proof -
  let ?n = "snd (ls_node_entries_update (ls_ticker s) e sq (ls_node m) (ls_nodes s))"
  have "ls_nodes s \<noteq> []" using assms by (auto simp: ls_wf_def ls_sizes)
  from entries_update_length [OF this] assms have w1: "ls_wf (s\<lparr>ls_nodes := ?n\<rparr>)" by (simp add: ls_wf_def)
  obtain maps where maps: "update_node_mappings m (s\<lparr>ls_nodes := ?n\<rparr>) = s\<lparr>ls_nodes := ?n, ls_node_maps := maps\<rparr>"
    using update_node_mappings_frame [of m "s\<lparr>ls_nodes := ?n\<rparr>"] by auto
  have "0 < length (ls_node_maps (s\<lparr>ls_nodes := ?n\<rparr>))" using w1 by (simp add: ls_wf_def ls_sizes)
  from update_node_mappings_length [OF this, of m] w1 have w2: "ls_wf (s\<lparr>ls_nodes := ?n, ls_node_maps := maps\<rparr>)"
    unfolding maps by (simp add: ls_wf_def)
  let ?s2 = "s\<lparr>ls_nodes := ?n, ls_node_maps := maps\<rparr>"
  have o2: "ls_only s ?s2" by (simp add: ls_only_def)
  have out: "net_out ?s2 (forward_link_state sq m ?s2)" by (rule forward_link_state_out)
  from net_out_wf [OF out w2] have w4: "ls_wf (link_state_route_proto_update_cycle_cache e (forward_link_state sq m ?s2))"
    by (rule update_cycle_cache_wf)
  obtain c where "link_state_route_proto_update_cycle_cache e (forward_link_state sq m ?s2) = (forward_link_state sq m ?s2)\<lparr>ls_causes_cycle := c\<rparr>"
    using update_cycle_cache_frame by blast
  then have "ls_only (forward_link_state sq m ?s2) (link_state_route_proto_update_cycle_cache e (forward_link_state sq m ?s2))"
    by (simp add: ls_only_def)
  with o2 net_out_ls_only [OF out] have o4: "ls_only s (link_state_route_proto_update_cycle_cache e (forward_link_state sq m ?s2))"
    using ls_only_trans by blast
  show ?thesis
    using assms w4 o4 by (simp add: ls_only_refl send_link_state_data_to_all_neighbors_def case_prod_unfold Let_def maps)
qed

lemma flood_wf_only:
  assumes "ls_wf s"
  shows "ls_wf (link_state_route_proto_flood e s) \<and> ls_only s (link_state_route_proto_flood e s)"
proof -
  let ?f = "\<lambda>k s. (let ls_data = mem_of (flood_data k s); sq = ls_current_seq s; s = s\<lparr>ls_current_seq := sq + 1\<rparr>
        in send_link_state_data_to_all_neighbors e sq ls_data s)"
  have step: "ls_wf (?f k s) \<and> ls_only s (?f k s)" if "ls_wf s" for k and s :: "'a linkstate_scheme"
  proof -
    have "ls_wf (s\<lparr>ls_current_seq := ls_current_seq s + 1\<rparr>)" "ls_only s (s\<lparr>ls_current_seq := ls_current_seq s + 1\<rparr>)"
      using that by (simp_all add: ls_wf_def ls_only_def)
    with send_all_wf_only ls_only_trans show ?thesis unfolding Let_def by blast
  qed
  have "ls_wf s \<Longrightarrow> ls_wf (fold ?f ks s) \<and> ls_only s (fold ?f ks s)" for ks and s :: "'a linkstate_scheme"
  proof (induction ks arbitrary: s)
    case (Cons k ks)
    have "ls_wf (fold ?f ks (?f k s))" "ls_only (?f k s) (fold ?f ks (?f k s))" "ls_only s (?f k s)"
      using Cons.IH step [OF Cons.prems, of k] by blast+
    then show ?case unfolding fold_simps using ls_only_trans by blast
  qed (simp add: ls_only_refl)
  with assms show ?thesis unfolding link_state_route_proto_flood_def by blast
qed

subsection \<open>The protocol as a state machine\<close>

text \<open>One step on a port: the periodic calls, and the two handlers on any packet.  The port is below the
  size of the arrays, as the network stack never checks but the hardware, which has two, provides.\<close>

inductive ls_step :: "u8 \<Rightarrow> 'a linkstate_scheme \<Rightarrow> 'a linkstate_scheme \<Rightarrow> bool" where
  step_tick: "unat e < LS_NETHS \<Longrightarrow> ls_step e s (link_state_route_proto_tick s)"
| step_update: "unat e < LS_NETHS \<Longrightarrow> ls_step e s (link_state_route_proto_update e s)"
| step_flood: "unat e < LS_NETHS \<Longrightarrow> ls_step e s (link_state_route_proto_flood e s)"
| step_cache: "unat e < LS_NETHS \<Longrightarrow> ls_step e s (link_state_route_proto_update_cycle_cache e s)"
| step_ir: "unat e < LS_NETHS \<Longrightarrow> handle_icmp_ir e src dst ident sq buff n s = Some s' \<Longrightarrow> ls_step e s s'"
| step_irq: "unat e < LS_NETHS \<Longrightarrow> handle_icmp_irq e src dst ident sq buff n s = Some s' \<Longrightarrow> ls_step e s s'"

lemma ls_step_wf_only:
  assumes "ls_step p s s'" and wf: "ls_wf s"
  shows "ls_wf s' \<and> ls_only s s'"
  using assms(1)
proof (cases rule: ls_step.cases)
  case step_tick
  then show ?thesis using wf by (simp add: link_state_route_proto_tick_def ls_wf_def ls_only_def)
next
  case step_update
  let ?s = "s\<lparr>ls_current_seq := ls_current_seq s + 1\<rparr>"
  have "ls_wf ?s" "ls_only s ?s" using wf by (simp_all add: ls_wf_def ls_only_def)
  moreover have "net_out ?s s'"
    unfolding step_update link_state_route_proto_update_def Let_def case_prod_unfold
    by (rule net_out_trans [OF net_out_bcast net_out_icmp])
  ultimately show ?thesis using net_out_wf net_out_ls_only ls_only_trans by blast
next
  case step_flood
  then show ?thesis using flood_wf_only [OF wf] by blast
next
  case step_cache
  obtain c where "s' = s\<lparr>ls_causes_cycle := c\<rparr>" using update_cycle_cache_frame step_cache by blast
  then have "ls_only s s'" by (simp add: ls_only_def)
  then show ?thesis using update_cycle_cache_wf [OF wf] step_cache by blast
next
  case (step_ir src dst ident sq buff n)
  let ?n = "snd (ls_node_entries_update (ls_ticker s) p sq src (ls_nbors s))"
  have "ls_nbors s \<noteq> []" using wf by (auto simp: ls_wf_def ls_sizes)
  from entries_update_length [OF this] wf have "ls_wf (s\<lparr>ls_nbors := ?n\<rparr>)" by (simp add: ls_wf_def)
  moreover have "ls_only s (s\<lparr>ls_nbors := ?n\<rparr>)" by (simp add: ls_only_def)
  moreover have "s' = s \<or> s' = link_state_route_proto_flood p (s\<lparr>ls_nbors := ?n\<rparr>)"
    using step_ir by (auto simp: handle_icmp_ir_def Let_def case_prod_unfold split: if_splits)
  ultimately show ?thesis using flood_wf_only ls_only_refl ls_only_trans wf by blast
next
  case (step_irq src dst ident sq buff n)
  let ?m = "case buff of Some m \<Rightarrow> m | None \<Rightarrow> no_mem"
  have "s' = s \<or> net_out s s' \<or> s' = send_link_state_data_to_all_neighbors p sq ?m s"
    using step_irq net_out_icmp by (auto simp: handle_icmp_irq_def Let_def split: if_splits)
  then show ?thesis using send_all_wf_only wf ls_only_refl net_out_wf net_out_ls_only by blast
qed

subsection \<open>The announcement a flood builds\<close>

lemma append_nbors_length:
  "length acc \<le> 252 \<Longrightarrow> length (append_nbors t e ns acc) \<le> 252"
proof (induction ns arbitrary: acc)
  case (Cons n ns)
  show ?case
  proof (cases "length acc < 252")
    case True
    with Cons.IH [of acc] Cons.IH [of "acc @ [ne_ip n]"] show ?thesis by simp
  next
    case False
    with Cons.prems have "length acc = 252" by simp
    then show ?thesis by (simp add: LS_PAYLOAD_MTU_def)
  qed
qed simp

lemma length_concat_put32: "length (concat (map put32 ws)) = 4 * length ws"
  by (induction ws) simp_all

lemma flood_ports: "length (map (\<lambda>ej. u3_net_stack_get_ip_addr (of_nat ej) s) (filter (\<lambda>ej. e \<noteq> ej) [0..<ethernet_ninterfaces])) \<le> 2"
  using length_filter_le [of "\<lambda>ej. e \<noteq> ej" "[0..<ethernet_ninterfaces]"]
  by (simp only: length_map) (simp add: ethernet_ninterfaces_def NETHS_def)

subsection \<open>A concrete chain\<close>

definition demo_ls :: "unit linkstate_scheme" where
  "demo_ls = netstack.extend demo \<lparr>cron_counter_freq = CPU_CLOCK, cron_job_table = [], links_up = [True, True],
     ls_ticker = 7, ls_current_seq = 0,
     ls_nbors = \<lparr>ne_seq = 1, ne_tick = 6, ne_ethno = 0, ne_ip = 0xC0A80A01\<rparr>
       # replicate 15 \<lparr>ne_seq = 0, ne_tick = 0, ne_ethno = 0, ne_ip = 0\<rparr>,
     ls_nodes = replicate 64 \<lparr>ne_seq = 0, ne_tick = 0, ne_ethno = 0, ne_ip = 0\<rparr>,
     ls_node_maps = \<lparr>map_node = 0xC0A80A02, map_nbor = 0xC0A80A01\<rparr>
       # replicate 127 \<lparr>map_node = 0, map_nbor = 0\<rparr>,
     ls_causes_cycle = replicate 4 (replicate 4 True)\<rparr>"

lemma demo_ls_wf: "ls_wf demo_ls"
  by (simp add: ls_wf_def ls_sizes demo_ls_def netstack.defs)

text \<open>An announcement of the node 192.168.10.1 with one neighbour, as received.\<close>

definition demo_inform :: mem where
  "demo_inform = mem_of (put32 1 @ put32 0 @ put32 0xC0A80A01 @ put32 0xC0A81402)"

text \<open>As long as no entry expires there is room in its table.\<close>

lemma demo_room:
  assumes "\<And>e. e \<in> set entries \<Longrightarrow> ne_ip e = 0 \<or> \<not> is_tick_expired 7 (ne_tick e)"
  shows "0 < free_slots (remove_node_matches 0xC0A80A01 (remove_expired (demo_ls\<lparr>ls_nodes := entries\<rparr>)))"
proof -
  have "fold (\<lambda>e maps. if ne_ip e \<noteq> 0 \<and> is_tick_expired 7 (ne_tick e) then remove_node_matches (ne_ip e) maps else maps) entries ms = ms"
    for ms using assms by (induction entries) auto
  then have "remove_expired (demo_ls\<lparr>ls_nodes := entries\<rparr>) = ls_node_maps demo_ls"
    unfolding remove_expired_def by (simp add: demo_ls_def netstack.defs)
  then show ?thesis by (simp add: free_slots_def remove_node_matches_def demo_ls_def netstack.defs)
qed

lemma demo_inform_fields:
  "ls_num_nbors demo_inform = 1" "ls_num_ports demo_inform = 0" "ls_node demo_inform = 0xC0A80A01"
  "ls_nbor demo_inform 0 = 0xC0A81402"
  unfolding demo_inform_def ls_num_nbors_def ls_num_ports_def ls_node_def ls_nbor_def
  using be32_at [of "[]" 0] be32_at [of "put32 1" 4] be32_at [of "put32 1 @ put32 0" 8]
    be32_at [where xs = "put32 1 @ put32 0 @ put32 0xC0A80A01" and k = 12 and w = "0xC0A81402" and ys = "[]"]
  by simp_all

subsection \<open>Properties\<close>

text \<open>C7. The cycle test answers reachability: \<^verbatim>\<open>link_state_route_proto_causes_cycle\<close> holds exactly
  when the destination is a node the table has links for and a path of links leads to it from
  the source.  The recursion always ends, with its depth bounded by the number of nodes.\<close>

theorem causes_cycle_is_reachability:
  "link_state_route_proto_causes_cycle src dst s \<longleftrightarrow>
     dst \<in> Domain (live_links (ls_node_maps s)) \<and> (src, dst) \<in> (live_links (ls_node_maps s))\<^sup>*"
  by (rule causes_cycle_iff)

text \<open>C10. An accepted announcement replaces what the table says of its node: if the neighbours fit,
  afterwards the links are the old ones of other nodes that have not expired, and exactly the
  announced ones of this node, less its first \<^verbatim>\<open>num_ports\<close> when it is this device.\<close>

theorem update_node_mappings_replaces:
  assumes "ls_node m \<noteq> 0"
    and "unat (ls_num_nbors m) \<le> free_slots (remove_node_matches (ls_node m) (remove_expired s))"
  shows "links (ls_node_maps (update_node_mappings m s)) =
      {l \<in> links (ls_node_maps s). fst l \<notin> insert (ls_node m) (expired_nodes s)}
    \<union> {(ls_node m, ls_nbor m i) | i. i < unat (ls_num_nbors m) \<and> \<not> (is_local_node (ls_node m) s \<and> i < unat (ls_num_ports m))}"
  using load_nbors_links [OF assms(2,1), of "is_local_node (ls_node m) s"]
  by (simp add: update_node_mappings_def Let_def links_remove links_remove_expired Collect_conj_eq) blast

lemma update_node_mappings_replaces_witness:
  "links (ls_node_maps (update_node_mappings demo_inform demo_ls)) = {(0xC0A80A02, 0xC0A80A01), (0xC0A80A01, 0xC0A81402)}"
proof -
  have ex: "expired_nodes demo_ls = {}"
    by (auto simp: expired_nodes_def demo_ls_def netstack.defs)
  have "links (m # replicate n z) = {(map_node m, map_nbor m)}" if "map_node m \<noteq> 0" "map_node z = 0" for m n z
    using that by (auto simp: links_def)
  then have links0: "links (ls_node_maps demo_ls) = {(0xC0A80A02, 0xC0A80A01)}"
    by (simp add: demo_ls_def netstack.defs)
  have fr: "1 \<le> free_slots (remove_node_matches 0xC0A80A01 (remove_expired demo_ls))"
    using demo_room [of "ls_nodes demo_ls"] by (simp add: demo_ls_def netstack.defs)
  have loc: "\<not> is_local_node 0xC0A80A01 demo_ls"
    by (simp add: is_local_node_def ninterfaces_list u3_net_stack_get_ip_addr_def demo_ls_def netstack.defs demo_def)
  show ?thesis
    unfolding update_node_mappings_replaces [of demo_inform demo_ls,
        unfolded demo_inform_fields ex links0, simplified, OF fr [simplified]]
    using loc by (auto simp: demo_inform_fields)
qed

text \<open>The announcement a flood builds fits the 1024-byte buffer on the stack, whatever the tables
  hold, and carries the port's own address.\<close>

theorem flood_data_fits:
  "length (flood_data e s) \<le> unat LS_PAYLOAD_MTU
    \<and> ls_node (mem_of (flood_data e s)) = u3_net_stack_get_ip_addr (of_nat e) s
    \<and> unat (sizeof_ls_data (mem_of (flood_data e s))) = length (flood_data e s)"
proof -
  define ports where "ports = map (\<lambda>ej. u3_net_stack_get_ip_addr (of_nat ej) s) (filter (\<lambda>ej. e \<noteq> ej) [0..<ethernet_ninterfaces])"
  define nbors where "nbors = append_nbors (ls_ticker s) e (ls_nbors s) ports"
  have data: "flood_data e s = put32 (of_nat (length nbors)) @ put32 (of_nat (length ports))
      @ put32 (u3_net_stack_get_ip_addr (of_nat e) s) @ concat (map put32 nbors)"
    by (simp add: flood_data_def Let_def ports_def nbors_def)
  have "length ports \<le> 2" unfolding ports_def by (rule flood_ports)
  then have n: "length nbors \<le> 252" unfolding nbors_def by (intro append_nbors_length) simp
  have len: "length (flood_data e s) = 12 + 4 * length nbors"
    unfolding data by (simp add: length_concat_put32)
  have num: "ls_num_nbors (mem_of (flood_data e s)) = of_nat (length nbors)"
    unfolding data ls_num_nbors_def using be32_at [of "[]" 0] by simp
  have node: "ls_node (mem_of (flood_data e s)) = u3_net_stack_get_ip_addr (of_nat e) s"
    unfolding data ls_node_def using be32_at [of "put32 (of_nat (length nbors)) @ put32 (of_nat (length ports))" 8] by simp
  have "sizeof_ls_data (mem_of (flood_data e s)) = of_nat (12 + 4 * length nbors)"
    unfolding sizeof_ls_data_def num by simp
  then have "unat (sizeof_ls_data (mem_of (flood_data e s))) = 12 + 4 * length nbors"
    using n by (simp add: unat_of_nat del: of_nat_add of_nat_mult)
  with len n node show ?thesis by (simp add: LS_PAYLOAD_MTU_def)
qed

text \<open>The length of an announcement is taken from the announcement: a packet of any
  \<open>num_bytes\<close>, even one that ends after the header, that claims one neighbour puts the four bytes
  behind the header into the table.\<close>

theorem short_inform_read_beyond:
  assumes run: "handle_icmp_irq ethno src dst LS_ID_INFORM sq (Some m) 12 s = Some s'"
    and fresh: "fst (ls_node_entries_update (ls_ticker s) ethno sq (ls_node m) (ls_nodes s))"
    and m: "ls_num_nbors m = 1" "ls_num_ports m = 0" "ls_node m \<noteq> 0"
    and room: "0 < free_slots (remove_node_matches (ls_node m) (remove_expired
        (s\<lparr>ls_nodes := snd (ls_node_entries_update (ls_ticker s) ethno sq (ls_node m) (ls_nodes s))\<rparr>)))"
  shows "(ls_node m, be32 m 12) \<in> links (ls_node_maps s')"
proof -
  let ?s = "s\<lparr>ls_nodes := snd (ls_node_entries_update (ls_ticker s) ethno sq (ls_node m) (ls_nodes s))\<rparr>"
  have "LS_ID_INFORM \<noteq> LS_ID_DISCOVER" by (simp add: LS_ID_INFORM_def LS_ID_DISCOVER_def LS_PROTO_VERSION_def)
  with run have "s' = send_link_state_data_to_all_neighbors ethno sq m s" by (simp add: handle_icmp_irq_def Let_def)
  then have "ls_node_maps s' = ls_node_maps (update_node_mappings m ?s)"
    using send_all_tables(5) [OF fresh] by simp
  moreover have "unat (ls_num_nbors m) \<le> free_slots (remove_node_matches (ls_node m) (remove_expired ?s))"
    using room m(1) by simp
  from load_nbors_links [OF this m(3), of "is_local_node (ls_node m) ?s"]
  have "(ls_node m, ls_nbor m 0) \<in> links (ls_node_maps (update_node_mappings m ?s))"
    using m(1,2) by (simp add: update_node_mappings_def Let_def)
  ultimately show ?thesis by (simp add: ls_nbor_def)
qed

lemma short_inform_read_beyond_witness:
  "\<exists>s'. handle_icmp_irq 1 0xC0A81401 0xC0A81402 LS_ID_INFORM 5 (Some demo_inform) 12 demo_ls = Some s'
    \<and> (0xC0A80A01, be32 demo_inform 12) \<in> links (ls_node_maps s')"
proof -
  obtain s' where s': "handle_icmp_irq 1 0xC0A81401 0xC0A81402 LS_ID_INFORM 5 (Some demo_inform) 12 demo_ls = Some s'"
    by (simp add: handle_icmp_irq_def Let_def)
  let ?z = "\<lparr>ne_seq = 0, ne_tick = 0, ne_ethno = 0, ne_ip = 0\<rparr> :: ls_node_entry_t"
  have d: "ls_nodes demo_ls = replicate 64 ?z" "ls_ticker demo_ls = 7" by (simp_all add: demo_ls_def netstack.defs)
  have "replicate 64 ?z = ?z # replicate 63 ?z" by (simp add: replicate_Suc [symmetric] del: replicate_Suc)
  then have hit: "find_index (\<lambda>e. \<not> ls_node_entry_valid 7 e \<or> ne_ip e = a \<and> uint (ne_ethno e) = sint b) (replicate 64 ?z) = Some 0"
      and nth0: "replicate 64 ?z ! 0 = ?z" for a and b :: u8
    by (simp_all add: ls_node_entry_valid_def)
  have u: "ls_node_entries_update 7 1 5 0xC0A80A01 (replicate 64 ?z)
      = (True, (replicate 64 ?z)[0 := ls_node_entry_update 7 1 5 0xC0A80A01])"
    unfolding ls_node_entries_update_def Let_def hit option.case nth0 by (simp add: ls_node_entry_valid_def)
  have "ne_ip e = 0 \<or> \<not> is_tick_expired 7 (ne_tick e)" if "e \<in> set ((replicate 64 ?z)[0 := ls_node_entry_update 7 1 5 0xC0A80A01])" for e
  proof -
    have "e = ls_node_entry_update 7 1 5 0xC0A80A01 \<or> e \<in> set (replicate 64 ?z)"
      using subsetD [OF set_update_subset_insert that] by (simp only: insert_iff)
    then show ?thesis by (auto simp: ls_node_entry_update_def is_tick_expired_def)
  qed
  from demo_room [OF this] s' short_inform_read_beyond [OF s'] show ?thesis
    by (simp add: d u demo_inform_fields)
qed

end
