(* ===== verification/Chinch.thy ===== *)
theory Chinch
  imports LinkStateProps
begin

unbundle bit_operations_syntax

section \<open>The PCIe bridge: registers, flash and configuration\<close>

text \<open>
  \<^verbatim>\<open>firmware/usrp3/lib/chinch.c\<close> with \<^verbatim>\<open>include/chinch.h\<close>.  Register accesses
  wait for the bridge with a timeout, so they are total functions; polling the flash for
  completion ends only when the flash or an access says so, so it is an \<open>option\<close>.  A local that is
  read without having been set has the value \<open>junk_word\<close>.  \<open>chain\<close> and \<open>merge\<close> are the macros
  \<^verbatim>\<open>STATUS_CHAIN\<close> and \<^verbatim>\<open>STATUS_MERGE\<close> on a status and a state.
\<close>

definition PCIE_MSG_REG_BASE :: u32 where "PCIE_MSG_REG_BASE = 0xFB00"
definition PCIE_MSG_DATA_REG :: u32 where "PCIE_MSG_DATA_REG = 0"
definition PCIE_MSG_CTRL_REG :: u32 where "PCIE_MSG_CTRL_REG = 1"
definition PCIE_MSG_RESP_REG :: u32 where "PCIE_MSG_RESP_REG = 2"
definition PCIE_MSG_STATUS_REG :: u32 where "PCIE_MSG_STATUS_REG = 3"
definition PCIE_CTRL_REG_READ_RESP :: u32 where "PCIE_CTRL_REG_READ_RESP = BIT 31"
definition PCIE_CTRL_REG_WRITE :: u32 where "PCIE_CTRL_REG_WRITE = BIT 30"
definition PCIE_CTRL_REG_READ :: u32 where "PCIE_CTRL_REG_READ = BIT 29"
definition PCIE_CTRL_REG_HALF_WORD :: u32 where "PCIE_CTRL_REG_HALF_WORD = BIT 28"
definition PCIE_CTRL_REG_ADDR_MASK :: u32 where "PCIE_CTRL_REG_ADDR_MASK = 0x000FFFFF"
definition PCIE_STATUS_REG_READ_PENDING :: u32 where "PCIE_STATUS_REG_READ_PENDING = BIT 0"
definition PCIE_STATUS_REG_REQ_PENDING :: u32 where "PCIE_STATUS_REG_REQ_PENDING = BIT 1"
definition PCIE_STATUS_REG_BUSY :: u32 where "PCIE_STATUS_REG_BUSY = BIT 4"
definition CHINCH_FPGA_CONFIG_REG :: u32 where "CHINCH_FPGA_CONFIG_REG = 0x58"
definition CHINCH_FLASH_WINDOW_REG0 :: u32 where "CHINCH_FLASH_WINDOW_REG0 = 0xC0"
definition CHINCH_FLASH_WINDOW_REG1 :: u32 where "CHINCH_FLASH_WINDOW_REG1 = 0xE0"
definition CHINCH_FLASH_2AAA_REG :: u32 where "CHINCH_FLASH_2AAA_REG = 0x400"
definition CHINCH_FLASH_5555_REG :: u32 where "CHINCH_FLASH_5555_REG = 0x408"
definition CHINCH_FLASH_WINDOW_BASE :: u32 where "CHINCH_FLASH_WINDOW_BASE = 0x60000"
definition CHINCH_FLASH_WINDOW_SIZE :: u32 where "CHINCH_FLASH_WINDOW_SIZE = 0x20000"
definition CHINCH_FLASH_WINDOW_CONF :: u32 where "CHINCH_FLASH_WINDOW_CONF = 0x91"
definition CHINCH_DEFAULT_XACT_TIMEOUT :: u32 where "CHINCH_DEFAULT_XACT_TIMEOUT = 32768"
definition CHINCH_FLASH_MAX_BUF_WRITES :: u32 where "CHINCH_FLASH_MAX_BUF_WRITES = 32"
definition CHINCH_CONFIG_COMPLETED :: u8 where "CHINCH_CONFIG_COMPLETED = 2"
definition CHINCH_CONFIG_ERROR :: u8 where "CHINCH_CONFIG_ERROR = 3"

definition PCIE_DATA :: u32 where "PCIE_DATA = SR_ADDR PCIE_MSG_REG_BASE PCIE_MSG_DATA_REG"
definition PCIE_CTRL :: u32 where "PCIE_CTRL = SR_ADDR PCIE_MSG_REG_BASE PCIE_MSG_CTRL_REG"
definition PCIE_RESP :: u32 where "PCIE_RESP = SR_ADDR PCIE_MSG_REG_BASE PCIE_MSG_RESP_REG"
definition PCIE_STATUS :: u32 where "PCIE_STATUS = SR_ADDR PCIE_MSG_REG_BASE PCIE_MSG_STATUS_REG"

datatype pcie_xact_t = PCIE_XACT_ERROR | PCIE_XACT_READ | PCIE_XACT_WRITE
datatype pcie_xact_size_t = PCIE_XACT_32_BIT | PCIE_XACT_16_BIT

record pcie_register_xact_t =
  xact_type :: pcie_xact_t
  xact_addr :: u32
  xact_data :: u32
  xact_size :: pcie_xact_size_t

record chinch = linkstate +
  g_cached_win_reg0 :: u32
  g_cached_win_reg1 :: u32
  g_pcie_reg_xact_info :: pcie_register_xact_t
  g_pcie_res_timeout :: u32
  junk_word :: u32

definition chain :: "('s \<Rightarrow> bool \<times> 's) \<Rightarrow> bool \<times> 's \<Rightarrow> bool \<times> 's" where
  "chain f = (\<lambda>(status, s). if status then f s else (status, s))"

definition merge :: "('s \<Rightarrow> bool \<times> 's) \<Rightarrow> bool \<times> 's \<Rightarrow> bool \<times> 's" where
  "merge f = (\<lambda>(status, s). let (r, s) = f s in (status \<and> r, s))"

subsection \<open>Peek and poke\<close>

definition chinch_poke :: "u32 \<Rightarrow> u32 \<Rightarrow> bool \<Rightarrow> u32 \<Rightarrow> 'a bus_scheme \<Rightarrow> bool \<times> 'a bus_scheme" where
  "chinch_poke addr data half_word timeout s =
     (let ctrl_word = 0 OR (addr AND PCIE_CTRL_REG_ADDR_MASK);
          ctrl_word = (if half_word then ctrl_word OR PCIE_CTRL_REG_HALF_WORD else ctrl_word);
          ctrl_word = ctrl_word OR PCIE_CTRL_REG_WRITE;
          (ready, s) = spin_timeout (unat timeout) PCIE_STATUS (\<lambda>v. v AND PCIE_STATUS_REG_BUSY \<noteq> 0) s
      in if \<not> ready then (False, s)
         else (True, wb_poke32 PCIE_CTRL ctrl_word (wb_poke32 PCIE_DATA data s)))"

text \<open>The value behind the data pointer before the call is an argument, after it a result.\<close>

definition chinch_peek :: "u32 \<Rightarrow> u32 \<Rightarrow> bool \<Rightarrow> u32 \<Rightarrow> 'a bus_scheme \<Rightarrow> (bool \<times> u32) \<times> 'a bus_scheme" where
  "chinch_peek addr data half_word timeout s =
     (let ctrl_word = 0 OR (addr AND PCIE_CTRL_REG_ADDR_MASK);
          ctrl_word = (if half_word then ctrl_word OR PCIE_CTRL_REG_HALF_WORD else ctrl_word);
          ctrl_word = ctrl_word OR PCIE_CTRL_REG_READ;
          (ready, s) = spin_timeout (unat timeout) PCIE_STATUS (\<lambda>v. v AND PCIE_STATUS_REG_BUSY \<noteq> 0) s
      in if \<not> ready then ((False, data), s)
         else (let s = wb_poke32 PCIE_CTRL ctrl_word s;
                   (complete, s) = spin_timeout (unat timeout) PCIE_STATUS (\<lambda>v. v AND PCIE_STATUS_REG_READ_PENDING \<noteq> 0) s
               in if \<not> complete then ((False, 0), s)
                  else (let (v, s) = wb_peek32 PCIE_RESP s in ((True, v), s))))"

definition chinch_poke32 :: "u32 \<Rightarrow> u32 \<Rightarrow> 'a bus_scheme \<Rightarrow> bool \<times> 'a bus_scheme" where
  "chinch_poke32 addr data s = chinch_poke addr data False CHINCH_DEFAULT_XACT_TIMEOUT s"

definition chinch_poke16 :: "u32 \<Rightarrow> u32 \<Rightarrow> 'a bus_scheme \<Rightarrow> bool \<times> 'a bus_scheme" where
  "chinch_poke16 addr data s = chinch_poke addr data True CHINCH_DEFAULT_XACT_TIMEOUT s"

definition chinch_peek32 :: "u32 \<Rightarrow> u32 \<Rightarrow> 'a bus_scheme \<Rightarrow> (bool \<times> u32) \<times> 'a bus_scheme" where
  "chinch_peek32 addr data s = chinch_peek addr data False CHINCH_DEFAULT_XACT_TIMEOUT s"

definition chinch_peek16 :: "u32 \<Rightarrow> u32 \<Rightarrow> 'a bus_scheme \<Rightarrow> (bool \<times> u32) \<times> 'a bus_scheme" where
  "chinch_peek16 addr data s = chinch_peek addr data True CHINCH_DEFAULT_XACT_TIMEOUT s"

subsection \<open>Flash access\<close>

definition chinch_flash_init :: "'a chinch_scheme \<Rightarrow> bool \<times> 'a chinch_scheme" where
  "chinch_flash_init s =
     (let ((_, w0), s) = chinch_peek32 CHINCH_FLASH_WINDOW_REG0 (g_cached_win_reg0 s) s;
          s = s\<lparr>g_cached_win_reg0 := w0\<rparr>;
          ((_, w1), s) = chinch_peek32 CHINCH_FLASH_WINDOW_REG1 (g_cached_win_reg1 s) s;
          s = s\<lparr>g_cached_win_reg1 := w1\<rparr>;
          (status, s) = merge (chinch_poke32 CHINCH_FLASH_WINDOW_REG0 (CHINCH_FLASH_WINDOW_BASE OR CHINCH_FLASH_WINDOW_CONF)) (True, s);
          (status, s) = merge (chinch_poke32 0x200 0xDEADBEEF) (status, s);
          (status, s) = merge (chinch_poke16 0x204 0x5678) (status, s);
          ((ok, reg_val), s) = chinch_peek16 0x0 (junk_word s) s; status = (status \<and> ok);
          (status, s) = merge (chinch_poke16 0x206 reg_val) (status, s);
          ((ok, reg_val), s) = chinch_peek32 0x200 reg_val s; status = (status \<and> ok);
          passed = (reg_val = 0xDEADBEEF);
          ((ok, reg_val), s) = chinch_peek32 0x204 reg_val s; status = (status \<and> ok);
          passed = (passed \<and> reg_val = 0x7AD05678)
      in (status \<and> passed, s))"

definition chinch_flash_cleanup :: "'a chinch_scheme \<Rightarrow> 'a chinch_scheme" where
  "chinch_flash_cleanup s =
     (let (_, s) = chinch_poke32 CHINCH_FLASH_WINDOW_REG0 (g_cached_win_reg0 s) s;
          (_, s) = chinch_poke32 CHINCH_FLASH_WINDOW_REG1 (g_cached_win_reg1 s) s
      in s)"

definition chinch_flash_select_sector :: "u32 \<Rightarrow> 'a bus_scheme \<Rightarrow> bool \<times> 'a bus_scheme" where
  "chinch_flash_select_sector sector s =
     chinch_poke32 CHINCH_FLASH_WINDOW_REG1 (sector * CHINCH_FLASH_WINDOW_SIZE) s"

text \<open>A run of half-word pokes under \<^verbatim>\<open>STATUS_CHAIN\<close>.\<close>

definition chain_pokes :: "(u32 \<times> u32) list \<Rightarrow> bool \<times> 'a bus_scheme \<Rightarrow> bool \<times> 'a bus_scheme" where
  "chain_pokes cmds st = fold (\<lambda>(addr, data). chain (chinch_poke16 addr data)) cmds st"

partial_function (option) erase_poll :: "u32 \<Rightarrow> 'a bus_scheme \<Rightarrow> (bool \<times> 'a bus_scheme) option" where
  "erase_poll read_data s =
     (let ((status, read_data), s') = chinch_peek16 CHINCH_FLASH_WINDOW_BASE read_data s
      in if read_data AND 0xFFFF = 0xFFFF \<or> \<not> status then Some (status, s')
         else erase_poll read_data s')"

definition ERASE_CMDS :: "(u32 \<times> u32) list" where
  "ERASE_CMDS = [(CHINCH_FLASH_5555_REG, 0x00AA), (CHINCH_FLASH_2AAA_REG, 0x0055), (CHINCH_FLASH_5555_REG, 0x0080),
     (CHINCH_FLASH_5555_REG, 0x00AA), (CHINCH_FLASH_2AAA_REG, 0x0055), (CHINCH_FLASH_WINDOW_BASE, 0x0030)]"

definition chinch_flash_erase_sector :: "'a chinch_scheme \<Rightarrow> (bool \<times> 'a chinch_scheme) option" where
  "chinch_flash_erase_sector s =
     (let (status, s) = chain_pokes ERASE_CMDS (True, s)
      in if status then erase_poll (junk_word s) s else Some (status, s))"

definition flash_base_addr :: "u32 \<Rightarrow> u32" where
  "flash_base_addr offset = CHINCH_FLASH_WINDOW_BASE OR (offset AND 0x3FFFF)"

text \<open>The words read so far and the status; an element is stored even when its access failed.\<close>

primrec read_buf_loop :: "nat \<Rightarrow> u32 \<Rightarrow> u32 \<Rightarrow> 'a chinch_scheme \<Rightarrow> (bool \<times> u16 list) \<times> 'a chinch_scheme" where
  "read_buf_loop 0 base_addr i s = ((True, []), s)"
| "read_buf_loop (Suc n) base_addr i s =
     (let ((ok, w), s) = chinch_peek16 (base_addr + i * 2) (junk_word s) s in
      if ok then (let ((status, ws), s) = read_buf_loop n base_addr (i + 1) s in ((status, ucast w # ws), s))
      else ((False, [ucast w]), s))"

definition chinch_flash_read_buf :: "u32 \<Rightarrow> u32 \<Rightarrow> 'a chinch_scheme \<Rightarrow> (bool \<times> u16 list) \<times> 'a chinch_scheme" where
  "chinch_flash_read_buf offset nwords s = read_buf_loop (unat nwords) (flash_base_addr offset) 0 s"

partial_function (option) write_poll :: "u32 \<Rightarrow> u16 \<Rightarrow> bool \<Rightarrow> u32 \<Rightarrow> 'a bus_scheme \<Rightarrow> (bool \<times> 'a bus_scheme) option" where
  "write_poll addr last_word status read_data s =
     (let ((ok, read_data), s') = chinch_peek16 addr read_data s; status = (status \<and> ok)
      in if status \<and> (ucast read_data XOR last_word) AND (push_bit 7 1) \<noteq> 0
         then write_poll addr last_word status read_data s' else Some (status, s'))"

definition chinch_flash_write_buf :: "u32 \<Rightarrow> u16 list \<Rightarrow> u32 \<Rightarrow> 'a chinch_scheme \<Rightarrow> (bool \<times> 'a chinch_scheme) option" where
  "chinch_flash_write_buf offset buf nwords s =
     (if nwords > CHINCH_FLASH_MAX_BUF_WRITES then Some (False, s)
      else (let st = chain (chinch_poke16 CHINCH_FLASH_5555_REG 0x00AA) (True, s);
                st = merge (chinch_poke16 CHINCH_FLASH_2AAA_REG 0x0055) st;
                st = chain_pokes [(CHINCH_FLASH_WINDOW_BASE, 0x0025), (CHINCH_FLASH_WINDOW_BASE, nwords - 1)] st;
                base_addr = flash_base_addr offset;
                st = chain_pokes (map (\<lambda>i. (base_addr + of_nat i * 2, ucast (buf ! i))) [0..<unat nwords]) st;
                (status, s) = chain_pokes [(CHINCH_FLASH_WINDOW_BASE, 0x0029)] st
            in write_poll (base_addr + (nwords - 1) * 2) (buf ! unat (nwords - 1)) status (junk_word s) s))"

subsection \<open>Configuration\<close>

definition chinch_start_config :: "'a bus_scheme \<Rightarrow> 'a bus_scheme" where
  "chinch_start_config s = snd (chinch_poke32 CHINCH_FPGA_CONFIG_REG 0x1 s)"

definition chinch_get_config_status :: "'a chinch_scheme \<Rightarrow> u8 \<times> 'a chinch_scheme" where
  "chinch_get_config_status s =
     (let ((status, read_data), s) = chinch_peek32 CHINCH_FPGA_CONFIG_REG (junk_word s) s
      in (if status then ucast read_data else CHINCH_CONFIG_ERROR, s))"

subsection \<open>Requests from the host over PCIe\<close>

text \<open>The responder waits for \<^verbatim>\<open>g_pcie_res_timeout\<close> turns; its own argument is not used.\<close>

definition respond_to_pcie_xact_request :: "u32 \<Rightarrow> u32 \<Rightarrow> 'a chinch_scheme \<Rightarrow> bool \<times> 'a chinch_scheme" where
  "respond_to_pcie_xact_request response timeout s =
     (let (ready, s) = spin_timeout (unat (g_pcie_res_timeout s)) PCIE_STATUS (\<lambda>v. v AND PCIE_STATUS_REG_BUSY \<noteq> 0) s
      in if \<not> ready then (False, s)
         else (True, wb_poke32 PCIE_CTRL PCIE_CTRL_REG_READ_RESP (wb_poke32 PCIE_DATA response s)))"

definition check_pcie_user_regport :: "'a chinch_scheme \<Rightarrow> bool \<times> 'a chinch_scheme" where
  "check_pcie_user_regport s =
     (let (v, s) = wb_peek32 PCIE_STATUS s in
      if v AND PCIE_STATUS_REG_REQ_PENDING \<noteq> 0
      then (let (data, s) = wb_peek32 PCIE_DATA s;
                (xact_control, s) = wb_peek32 PCIE_CTRL s;
                info = \<lparr>xact_type = (if xact_control AND PCIE_CTRL_REG_READ \<noteq> 0 then PCIE_XACT_READ
                            else if xact_control AND PCIE_CTRL_REG_WRITE \<noteq> 0 then PCIE_XACT_WRITE else PCIE_XACT_ERROR),
                   xact_addr = xact_control AND PCIE_CTRL_REG_ADDR_MASK, xact_data = data,
                   xact_size = (if xact_control AND PCIE_CTRL_REG_HALF_WORD = 0 then PCIE_XACT_32_BIT else PCIE_XACT_16_BIT)\<rparr>
            in (True, s\<lparr>g_pcie_reg_xact_info := info\<rparr>))
      else (False, s))"

definition forward_pcie_user_xact_to_wb :: "'a chinch_scheme \<Rightarrow> bool \<times> 'a chinch_scheme" where
  "forward_pcie_user_xact_to_wb s =
     (let (pending, s) = check_pcie_user_regport s; info = g_pcie_reg_xact_info s in
      if pending \<and> xact_size info = PCIE_XACT_32_BIT
      then (case xact_type info of
              PCIE_XACT_WRITE \<Rightarrow> (True, wb_poke32 (xact_addr info) (xact_data info) s)
            | PCIE_XACT_READ \<Rightarrow>
                (let (v, s) = wb_peek32 (xact_addr info) s
                 in respond_to_pcie_xact_request v CHINCH_DEFAULT_XACT_TIMEOUT s)
            | PCIE_XACT_ERROR \<Rightarrow> (False, s))
      else (False, s))"

subsection \<open>What an access puts on the bridge\<close>

definition ctrl_word :: "u32 \<Rightarrow> bool \<Rightarrow> u32 \<Rightarrow> u32" where
  "ctrl_word addr half_word dir = (addr AND PCIE_CTRL_REG_ADDR_MASK) OR (if half_word then PCIE_CTRL_REG_HALF_WORD else 0) OR dir"

definition poke_xact :: "bool \<Rightarrow> u32 \<times> u32 \<Rightarrow> access list" where
  "poke_xact half_word = (\<lambda>(addr, data). [Wr PCIE_DATA data, Wr PCIE_CTRL (ctrl_word addr half_word PCIE_CTRL_REG_WRITE)])"

definition peek_xact :: "bool \<Rightarrow> u32 \<Rightarrow> access list" where
  "peek_xact half_word addr = [Wr PCIE_CTRL (ctrl_word addr half_word PCIE_CTRL_REG_READ)]"

lemma chinch_poke_log:
  "wr_log (snd (chinch_poke addr data h t s)) =
     (if fst (chinch_poke addr data h t s) then rev (poke_xact h (addr, data)) else []) @ wr_log s"
  by (simp add: chinch_poke_def case_prod_unfold Let_def poke_xact_def ctrl_word_def or.assoc or.commute or.left_commute)

lemma chinch_poke_bus [simp]: "bus_only s (snd (chinch_poke addr data h t s))"
  by (simp add: chinch_poke_def case_prod_unfold Let_def)

lemma chinch_peek_bus [simp]: "bus_only s (snd (chinch_peek addr d h t s))"
  by (simp add: chinch_peek_def case_prod_unfold Let_def)

lemma chinch_peek_log:
  "wr_log (snd (chinch_peek addr d h t s)) = wr_log s \<or> wr_log (snd (chinch_peek addr d h t s)) = rev (peek_xact h addr) @ wr_log s"
  by (simp add: chinch_peek_def case_prod_unfold Let_def peek_xact_def ctrl_word_def or.assoc or.commute or.left_commute)

lemma chain_pokes_result:
  "\<exists>k\<le>length cmds. wr_log (snd (chain_pokes cmds (st, s))) = rev (concat (map (poke_xact True) (take k cmds))) @ wr_log s
    \<and> (fst (chain_pokes cmds (st, s)) \<longleftrightarrow> st \<and> k = length cmds)
    \<and> bus_only s (snd (chain_pokes cmds (st, s)))"
proof (induction cmds arbitrary: st s)
  case Nil
  then show ?case by (simp add: chain_pokes_def)
next
  case (Cons c cmds)
  obtain addr data where c: "c = (addr, data)" by (cases c)
  let ?r = "chain (chinch_poke16 addr data) (st, s)"
  have unf: "chain_pokes (c # cmds) (st, s) = chain_pokes cmds ?r" by (simp add: chain_pokes_def c)
  show ?case
  proof (cases "fst ?r")
    case True
    then have st: st and r: "?r = (True, snd (chinch_poke16 addr data s))"
      by (auto simp: chain_def prod_eq_iff split: if_splits)
    from True st have ok: "fst (chinch_poke16 addr data s)" by (simp add: chain_def)
    have l: "wr_log (snd (chinch_poke16 addr data s)) = rev (poke_xact True c) @ wr_log s"
      using ok by (simp add: chinch_poke16_def chinch_poke_log c)
    have b: "bus_only s (snd (chinch_poke16 addr data s))" by (simp add: chinch_poke16_def)
    obtain k where k: "k \<le> length cmds" "wr_log (snd (chain_pokes cmds ?r)) = rev (concat (map (poke_xact True) (take k cmds))) @ wr_log (snd (chinch_poke16 addr data s))"
      "fst (chain_pokes cmds ?r) \<longleftrightarrow> k = length cmds" "bus_only (snd (chinch_poke16 addr data s)) (snd (chain_pokes cmds ?r))"
      using Cons.IH [of True "snd (chinch_poke16 addr data s)"] unfolding r by auto
    then show ?thesis
      unfolding unf using st l bus_only_trans [OF b k(4)] by (intro exI [of _ "Suc k"]) simp
  next
    case False
    have stop: "chain_pokes cs (False, t) = (False, t)" for cs and t :: "'a bus_scheme"
      by (induction cs) (auto simp: chain_pokes_def chain_def)
    have "wr_log (snd ?r) = wr_log s" "bus_only s (snd ?r)"
      using False by (auto simp: chain_def chinch_poke16_def chinch_poke_log split: if_splits)
    moreover have "chain_pokes cmds ?r = (False, snd ?r)" using stop [of cmds "snd ?r"] False by (metis prod.collapse)
    moreover have "\<not> (st \<and> 0 = length (c # cmds))" by simp
    ultimately show ?thesis unfolding unf by (intro exI [of _ 0]) simp
  qed
qed

lemma chain_pokes_ok:
  "fst (chain_pokes cmds (st, s)) \<Longrightarrow> st \<and> wr_log (snd (chain_pokes cmds (st, s))) = rev (concat (map (poke_xact True) cmds)) @ wr_log s"
  using chain_pokes_result [of cmds st s] by auto

lemma chinch_peek_ok_log:
  "fst (fst (chinch_peek addr d h t s)) \<Longrightarrow> wr_log (snd (chinch_peek addr d h t s)) = rev (peek_xact h addr) @ wr_log s"
  by (simp add: chinch_peek_def case_prod_unfold Let_def peek_xact_def ctrl_word_def or.assoc or.commute or.left_commute
      split: if_splits)

lemma peek16_step:
  assumes "chinch_peek16 a d s = ((ok, d'), s')"
  shows "\<exists>k\<le>1. wr_log s' = concat (replicate k (peek_xact True a)) @ wr_log s \<and> (ok \<longrightarrow> k = 1)" and "bus_only s s'"
proof -
  have s': "s' = snd (chinch_peek a d True CHINCH_DEFAULT_XACT_TIMEOUT s)" "ok = fst (fst (chinch_peek a d True CHINCH_DEFAULT_XACT_TIMEOUT s))"
    using assms by (simp_all add: chinch_peek16_def)
  have r: "rev (peek_xact True a) = peek_xact True a" by (simp add: peek_xact_def)
  show "bus_only s s'" unfolding s' by simp
  show "\<exists>k\<le>1. wr_log s' = concat (replicate k (peek_xact True a)) @ wr_log s \<and> (ok \<longrightarrow> k = 1)"
  proof (cases "ok")
    case True
    with s'(2) chinch_peek_ok_log [of a d True CHINCH_DEFAULT_XACT_TIMEOUT s] show ?thesis
      unfolding s'(1) r by (intro exI [of _ 1]) simp
  next
    case False
    then show ?thesis
      using chinch_peek_log [of a d True CHINCH_DEFAULT_XACT_TIMEOUT s] unfolding s'(1) r
      by (metis append_Nil append_Nil2 concat.simps le_numeral_extra(4) replicate_0 replicate_Suc One_nat_def zero_le)
  qed
qed

lemma peeks_more:
  assumes "wr_log s1 = concat (replicate k x) @ wr_log s" and "wr_log s2 = concat (replicate n x) @ wr_log s1"
  shows "wr_log s2 = concat (replicate (n + k) x) @ wr_log s"
  using assms by (simp add: replicate_add)

lemma erase_poll_log:
  assumes "erase_poll d s = Some r"
  shows "\<exists>n. wr_log (snd r) = concat (replicate n (peek_xact True CHINCH_FLASH_WINDOW_BASE)) @ wr_log s \<and> (fst r \<longrightarrow> 0 < n)"
proof (rule erase_poll.raw_induct [where P = "\<lambda>d s r. \<exists>n. wr_log (snd r) =
    concat (replicate n (peek_xact True CHINCH_FLASH_WINDOW_BASE)) @ wr_log s \<and> (fst r \<longrightarrow> 0 < n)", OF _ assms])
  fix f d and s :: "'a bus_scheme" and r
  assume IH: "\<And>d s r. f d s = Some r \<Longrightarrow> \<exists>n. wr_log (snd r) =
      concat (replicate n (peek_xact True CHINCH_FLASH_WINDOW_BASE)) @ wr_log s \<and> (fst r \<longrightarrow> 0 < n)"
    and eq: "(let ((status, read_data), s') = chinch_peek16 CHINCH_FLASH_WINDOW_BASE d s
      in if read_data AND 0xFFFF = 0xFFFF \<or> \<not> status then Some (status, s') else f read_data s') = Some r"
  obtain ok d' s1 where p: "chinch_peek16 CHINCH_FLASH_WINDOW_BASE d s = ((ok, d'), s1)" by (metis surj_pair)
  from peek16_step(1) [OF p] obtain k where k: "wr_log s1 = concat (replicate k (peek_xact True CHINCH_FLASH_WINDOW_BASE)) @ wr_log s" "ok \<longrightarrow> k = 1"
    by blast
  show "\<exists>n. wr_log (snd r) = concat (replicate n (peek_xact True CHINCH_FLASH_WINDOW_BASE)) @ wr_log s \<and> (fst r \<longrightarrow> 0 < n)"
  proof (cases "d' AND 0xFFFF = 0xFFFF \<or> \<not> ok")
    case True
    with eq p have "r = (ok, s1)" by (simp add: Let_def)
    with k show ?thesis by auto
  next
    case False
    with eq p have "f d' s1 = Some r" by (simp add: Let_def)
    from IH [OF this] obtain n where n: "wr_log (snd r) = concat (replicate n (peek_xact True CHINCH_FLASH_WINDOW_BASE)) @ wr_log s1"
      "fst r \<longrightarrow> 0 < n" by blast
    from peeks_more [OF k(1) n(1)] n(2) show ?thesis by (intro exI [of _ "n + k"]) auto
  qed
qed

lemma write_poll_log:
  assumes "write_poll a w st0 d s = Some r"
  shows "\<exists>n. wr_log (snd r) = concat (replicate n (peek_xact True a)) @ wr_log s \<and> (fst r \<longrightarrow> 0 < n \<and> st0)"
proof (rule write_poll.raw_induct [where P = "\<lambda>a w st0 d s r. \<exists>n. wr_log (snd r) =
    concat (replicate n (peek_xact True a)) @ wr_log s \<and> (fst r \<longrightarrow> 0 < n \<and> st0)", OF _ assms])
  fix f a w st0 d and s :: "'a bus_scheme" and r
  assume IH: "\<And>a w st0 d s r. f a w st0 d s = Some r \<Longrightarrow> \<exists>n. wr_log (snd r) =
      concat (replicate n (peek_xact True a)) @ wr_log s \<and> (fst r \<longrightarrow> 0 < n \<and> st0)"
    and eq: "(let ((ok, read_data), s') = chinch_peek16 a d s; status = (st0 \<and> ok)
      in if status \<and> (ucast read_data XOR w) AND (push_bit 7 1) \<noteq> 0
         then f a w status read_data s' else Some (status, s')) = Some r"
  obtain ok d' s1 where p: "chinch_peek16 a d s = ((ok, d'), s1)" by (metis surj_pair)
  from peek16_step(1) [OF p] obtain k where k: "wr_log s1 = concat (replicate k (peek_xact True a)) @ wr_log s" "ok \<longrightarrow> k = 1"
    by blast
  show "\<exists>n. wr_log (snd r) = concat (replicate n (peek_xact True a)) @ wr_log s \<and> (fst r \<longrightarrow> 0 < n \<and> st0)"
  proof (cases "(st0 \<and> ok) \<and> (ucast d' XOR w) AND (push_bit 7 1) \<noteq> 0")
    case False
    with eq p have "r = (st0 \<and> ok, s1)" by (simp add: Let_def split: if_splits)
    with k show ?thesis by auto
  next
    case True
    with eq p have "f a w (st0 \<and> ok) d' s1 = Some r" by (simp add: Let_def)
    from IH [OF this] obtain n where n: "wr_log (snd r) = concat (replicate n (peek_xact True a)) @ wr_log s1"
      "fst r \<longrightarrow> 0 < n \<and> st0 \<and> ok" by blast
    from peeks_more [OF k(1) n(1)] n(2) show ?thesis by (intro exI [of _ "n + k"]) auto
  qed
qed

subsection \<open>A bridge that is ready\<close>

definition bridge_dev :: "access list \<Rightarrow> u32 \<Rightarrow> u32" where
  "bridge_dev t a = (if a = PCIE_RESP then 0xFFFF else 0)"

definition demo_chinch :: "unit chinch_scheme" where
  "demo_chinch = (netstack.extend demo \<lparr>cron_counter_freq = CPU_CLOCK, cron_job_table = [], links_up = [True, True],
     ls_ticker = 0, ls_current_seq = 0, ls_nbors = [], ls_nodes = [], ls_node_maps = [], ls_causes_cycle = [],
     g_cached_win_reg0 = 0, g_cached_win_reg1 = 0,
     g_pcie_reg_xact_info = \<lparr>xact_type = PCIE_XACT_ERROR, xact_addr = 0, xact_data = 0, xact_size = PCIE_XACT_32_BIT\<rparr>,
     g_pcie_res_timeout = 0, junk_word = 0xDEAD\<rparr>)\<lparr>dev := bridge_dev\<rparr>"

lemma pcie_regs_distinct: "PCIE_STATUS \<noteq> PCIE_RESP"
  by (simp add: PCIE_STATUS_def PCIE_RESP_def SR_ADDR_def PCIE_MSG_REG_BASE_def PCIE_MSG_STATUS_REG_def PCIE_MSG_RESP_REG_def)

lemma bridge_poke: "dev s = bridge_dev \<Longrightarrow> fst (chinch_poke a v h t s)"
  by (simp add: chinch_poke_def case_prod_unfold Let_def spin_timeout_ready bridge_dev_def pcie_regs_distinct)

lemma dev_chinch_poke [simp]: "dev (snd (chinch_poke a v h t s)) = dev s"
  by (rule bus_only_dev) simp

lemma bridge_pokes: "dev s = bridge_dev \<Longrightarrow> fst (chain_pokes cmds (True, s)) \<and> dev (snd (chain_pokes cmds (True, s))) = bridge_dev"
proof (induction cmds arbitrary: s)
  case (Cons c cmds)
  obtain a v where c: "c = (a, v)" by (cases c)
  let ?s = "snd (chinch_poke16 a v s)"
  have "dev ?s = bridge_dev" using Cons.prems by (simp add: chinch_poke16_def)
  moreover have "chinch_poke16 a v s = (True, ?s)"
    using bridge_poke [OF Cons.prems, of a v True CHINCH_DEFAULT_XACT_TIMEOUT] by (simp add: chinch_poke16_def prod_eq_iff)
  then have "chain_pokes (c # cmds) (True, s) = chain_pokes cmds (True, ?s)"
    by (simp add: chain_pokes_def chain_def c)
  ultimately show ?case using Cons.IH by simp
qed (simp add: chain_pokes_def)

lemma bridge_peek16:
  assumes "dev s = bridge_dev"
  shows "\<exists>s'. chinch_peek16 a d s = ((True, 0xFFFF), s')"
  using assms
  by (simp add: chinch_peek16_def chinch_peek_def case_prod_unfold Let_def spin_timeout_ready bridge_dev_def pcie_regs_distinct prod_eq_iff)

subsection \<open>Properties\<close>

text \<open>A register write through the bridge: it always returns, after at most \<open>timeout + 1\<close> polls;
  it succeeds exactly if one of them finds the bridge not busy, and then writes the data and
  after it a control word with the write flag, the half-word flag as asked and the low 20 bits of
  the address, without the read flags; otherwise nothing is written.\<close>

theorem chinch_poke_effect:
  "(fst (chinch_poke addr data h t s) \<longleftrightarrow>
      (\<exists>k\<le>unat t. dev s (trace (after_reads PCIE_STATUS k s)) PCIE_STATUS AND PCIE_STATUS_REG_BUSY = 0))
   \<and> wr_log (snd (chinch_poke addr data h t s)) =
      (if fst (chinch_poke addr data h t s)
       then [Wr PCIE_CTRL (ctrl_word addr h PCIE_CTRL_REG_WRITE), Wr PCIE_DATA data] else []) @ wr_log s
   \<and> length (trace (snd (chinch_poke addr data h t s))) \<le> length (trace s) + unat t + 3
   \<and> ctrl_word addr h PCIE_CTRL_REG_WRITE AND PCIE_CTRL_REG_ADDR_MASK = addr AND PCIE_CTRL_REG_ADDR_MASK
   \<and> bit (ctrl_word addr h PCIE_CTRL_REG_WRITE) 30 \<and> (bit (ctrl_word addr h PCIE_CTRL_REG_WRITE) 28 \<longleftrightarrow> h)
   \<and> \<not> bit (ctrl_word addr h PCIE_CTRL_REG_WRITE) 29 \<and> \<not> bit (ctrl_word addr h PCIE_CTRL_REG_WRITE) 31"
proof -
  have mask: "PCIE_CTRL_REG_ADDR_MASK = mask 20" by (simp add: PCIE_CTRL_REG_ADDR_MASK_def mask_eq_exp_minus_1)
  have b: "bit PCIE_CTRL_REG_ADDR_MASK n \<longleftrightarrow> n < 20" for n unfolding mask bit_mask_iff by auto
  note bits = ctrl_word_def PCIE_CTRL_REG_WRITE_def PCIE_CTRL_REG_HALF_WORD_def bit_simps bit_BIT b
  have "ctrl_word addr h PCIE_CTRL_REG_WRITE AND PCIE_CTRL_REG_ADDR_MASK = addr AND PCIE_CTRL_REG_ADDR_MASK"
    by (rule bit_word_eqI) (auto simp: bits)
  moreover have "bit (ctrl_word addr h PCIE_CTRL_REG_WRITE) 30" "bit (ctrl_word addr h PCIE_CTRL_REG_WRITE) 28 \<longleftrightarrow> h"
    "\<not> bit (ctrl_word addr h PCIE_CTRL_REG_WRITE) 29" "\<not> bit (ctrl_word addr h PCIE_CTRL_REG_WRITE) 31"
    by (simp_all add: bits)
  moreover have "fst (chinch_poke addr data h t s) \<longleftrightarrow>
      (\<exists>k\<le>unat t. dev s (trace (after_reads PCIE_STATUS k s)) PCIE_STATUS AND PCIE_STATUS_REG_BUSY = 0)"
    using spin_timeout_ok [of "unat t" PCIE_STATUS "\<lambda>v. v AND PCIE_STATUS_REG_BUSY \<noteq> 0" s]
    by (simp add: chinch_poke_def case_prod_unfold Let_def)
  moreover obtain k where "k \<le> unat t" "snd (spin_timeout (unat t) PCIE_STATUS (\<lambda>v. v AND PCIE_STATUS_REG_BUSY \<noteq> 0) s) = after_reads PCIE_STATUS (Suc k) s"
    using spin_timeout_reads by blast
  then have "length (trace (snd (chinch_poke addr data h t s))) \<le> length (trace s) + unat t + 3"
    by (simp add: chinch_poke_def case_prod_unfold Let_def length_after_reads del: after_reads.simps)
  ultimately show ?thesis
    using chinch_poke_log [of addr data h t s] by (simp add: poke_xact_def)
qed

text \<open>Erasing a sector: the flash is sent the six commands of the erase sequence, in order and
  each only after the one before was accepted, then only read; success is reported only after
  the whole sequence and at least one read.\<close>

theorem flash_erase_sequence:
  assumes "chinch_flash_erase_sector s = Some (ok, s')"
  shows "\<exists>k n. wr_log s' = concat (replicate n (peek_xact True CHINCH_FLASH_WINDOW_BASE))
        @ rev (concat (map (poke_xact True) (take k ERASE_CMDS))) @ wr_log s
      \<and> k \<le> 6 \<and> (0 < n \<longrightarrow> k = 6) \<and> (ok \<longrightarrow> 0 < n)"
proof -
  let ?r = "chain_pokes ERASE_CMDS (True, s)"
  have len: "length ERASE_CMDS = 6" by (simp add: ERASE_CMDS_def)
  obtain k where k: "k \<le> 6" "wr_log (snd ?r) = rev (concat (map (poke_xact True) (take k ERASE_CMDS))) @ wr_log s"
    "fst ?r \<longleftrightarrow> k = 6"
    using chain_pokes_result [of ERASE_CMDS True s] len by auto
  show ?thesis
  proof (cases "fst ?r")
    case True
    with assms have "erase_poll (junk_word (snd ?r)) (snd ?r) = Some (ok, s')"
      by (simp add: chinch_flash_erase_sector_def case_prod_unfold Let_def)
    from erase_poll_log [OF this] k True show ?thesis by auto
  next
    case False
    with assms have "ok = False" "s' = snd ?r"
      by (auto simp: chinch_flash_erase_sector_def case_prod_unfold Let_def)
    with k show ?thesis by (intro exI [of _ k] exI [of _ 0]) simp
  qed
qed

lemma flash_erase_sequence_witness:
  "\<exists>s' n. chinch_flash_erase_sector demo_chinch = Some (True, s') \<and> 0 < n
     \<and> wr_log s' = concat (replicate n (peek_xact True CHINCH_FLASH_WINDOW_BASE)) @ rev (concat (map (poke_xact True) ERASE_CMDS))"
proof -
  have d: "dev demo_chinch = bridge_dev" and l: "wr_log demo_chinch = []"
    by (simp_all add: demo_chinch_def netstack.defs demo_def wr_log_def)
  let ?r = "chain_pokes ERASE_CMDS (True, demo_chinch)"
  obtain s' where p: "chinch_peek16 CHINCH_FLASH_WINDOW_BASE (junk_word (snd ?r)) (snd ?r) = ((True, 0xFFFF), s')"
    using bridge_peek16 bridge_pokes [OF d] by blast
  have "chinch_flash_erase_sector demo_chinch = Some (True, s')"
    using bridge_pokes [OF d, of ERASE_CMDS]
    by (simp add: chinch_flash_erase_sector_def case_prod_unfold Let_def erase_poll.simps p)
  moreover from flash_erase_sequence [OF this] obtain k n where
    "wr_log s' = concat (replicate n (peek_xact True CHINCH_FLASH_WINDOW_BASE)) @ rev (concat (map (poke_xact True) (take k ERASE_CMDS))) @ wr_log demo_chinch"
    "0 < n" "k = 6" by auto
  ultimately show ?thesis using l by (auto simp: ERASE_CMDS_def)
qed

end
