(* ===== verification/UdpUart.thy ===== *)
theory UdpUart
  imports Chinch
begin

unbundle bit_operations_syntax

section \<open>Serial ports over UDP\<close>

text \<open>
  \<^verbatim>\<open>firmware/usrp3/lib/udp_uart.c\<close>: up to four serial ports, each bound to a UDP port.
  Characters that come in are collected in a 256-byte buffer and sent to the last host that
  wrote, at the end of a line or after the line has been idle for a while; datagrams are written
  out character by character.  The lengths are below 256 and 24, as the property on the poll
  shows, so they are naturals.  Whether a plain \<^verbatim>\<open>char\<close> widens to
  \<^verbatim>\<open>int\<close> with or without its sign is the compiler's choice, the field \<open>char_to_int\<close>.
\<close>

definition MAX_NUM_UARTS :: nat where "MAX_NUM_UARTS = 4"
definition num_idle_cyc_b4_flush :: nat where "num_idle_cyc_b4_flush = 22"

record udp_uart_state_t =
  uart_base :: u32
  host_addr :: ip
  host_ethno :: u8
  host_port :: u16
  local_port :: u16
  ubuf :: "u8 list"
  ulen :: nat
  ucyc :: nat

record udpuart = chinch +
  uart_states :: "udp_uart_state_t list"
  char_to_int :: "u8 \<Rightarrow> u32"

definition set_uart :: "nat \<Rightarrow> udp_uart_state_t \<Rightarrow> 'a udpuart_scheme \<Rightarrow> 'a udpuart_scheme" where
  "set_uart i st s = s\<lparr>uart_states := (uart_states s)[i := st]\<rparr>"

definition udp_uart_lookup :: "u16 \<Rightarrow> 'a udpuart_scheme \<Rightarrow> nat option" where
  "udp_uart_lookup port s = find_index (\<lambda>st. local_port st = port) (uart_states s)"

definition udp_uart_init :: "u32 \<Rightarrow> u16 \<Rightarrow> 'a udpuart_scheme \<Rightarrow> 'a udpuart_scheme" where
  "udp_uart_init base udp_port s =
     (case find_index (\<lambda>st. uart_base st = 0) (uart_states s) of
        None \<Rightarrow> s
      | Some i \<Rightarrow> u3_net_stack_register_udp_handler udp_port Udp_uart_data
          (set_uart i ((uart_states s ! i)\<lparr>uart_base := base, local_port := udp_port, host_port := 0, ulen := 0, ucyc := 0\<rparr>) s))"

text \<open>The reading loop of the poll; the first argument is the room left in the buffer.\<close>

primrec uart_fill :: "nat \<Rightarrow> bool \<Rightarrow> udp_uart_state_t \<Rightarrow> 'a bus_scheme \<Rightarrow> (bool \<times> udp_uart_state_t) \<times> 'a bus_scheme" where
  "uart_fill 0 newline st s = ((newline, st), s)"
| "uart_fill (Suc n) newline st s =
     (let (ret, s) = wb_uart_getc (uart_base st) s in
      if ret = - 1 then ((newline, st), s)
      else (let ch = ucast ret :: u8;
                newline = (if ch = 10 \<or> ch = 13 then True else newline)
            in uart_fill n newline (st\<lparr>ubuf := (ubuf st)[ulen st := ch], ulen := ulen st + 1, ucyc := 0\<rparr>) s))"

definition uart_poll_one :: "nat \<Rightarrow> 'a udpuart_scheme \<Rightarrow> 'a udpuart_scheme" where
  "uart_poll_one i s =
     (let st = uart_states s ! i in
      if uart_base st = 0 then s
      else (let ((newline, st), s) = uart_fill (256 - ulen st) False st s in
            if ulen st = 0 then set_uart i st s
            else if newline \<or> ucyc st > num_idle_cyc_b4_flush
            then (let s = (if host_port st \<noteq> 0
                           then u3_net_stack_send_udp_pkt (host_ethno st) (host_addr st) (local_port st) (host_port st)
                                  (mem_of (ubuf st)) (of_nat (ulen st)) s
                           else s)
                  in set_uart i (st\<lparr>ulen := 0, ucyc := 0\<rparr>) s)
            else set_uart i (st\<lparr>ucyc := ucyc st + 1\<rparr>) s))"

definition udp_uart_poll :: "'a udpuart_scheme \<Rightarrow> 'a udpuart_scheme" where
  "udp_uart_poll s = fold uart_poll_one [0..<MAX_NUM_UARTS] s"

fun uart_write_chars :: "nat \<Rightarrow> u8 list \<Rightarrow> 'a udpuart_scheme \<Rightarrow> 'a udpuart_scheme option" where
  "uart_write_chars which [] s = Some s"
| "uart_write_chars which (ch # chs) s =
     do { s \<leftarrow> (if ch = 10 then wb_uart_putc (uart_base (uart_states s ! which)) 13 s else Some s);
          s \<leftarrow> wb_uart_putc (uart_base (uart_states s ! which)) (char_to_int s ch) s;
          uart_write_chars which chs (udp_uart_poll s) }"

definition handle_uart_data_packet ::
  "u8 \<Rightarrow> ip \<Rightarrow> ip \<Rightarrow> u16 \<Rightarrow> u16 \<Rightarrow> mem option \<Rightarrow> u32 \<Rightarrow> 'a udpuart_scheme \<Rightarrow> 'a udpuart_scheme option" where
  "handle_uart_data_packet ethno src dst src_port dst_port buff num_bytes s =
     (case buff of
        None \<Rightarrow> (case udp_uart_lookup src_port s of
            None \<Rightarrow> Some s
          | Some which \<Rightarrow> Some (set_uart which ((uart_states s ! which)\<lparr>host_port := 0\<rparr>) s))
      | Some m \<Rightarrow> (case udp_uart_lookup dst_port s of
            None \<Rightarrow> Some s
          | Some which \<Rightarrow> uart_write_chars which (mem_take m (unat num_bytes))
              (set_uart which ((uart_states s ! which)\<lparr>host_ethno := ethno, host_addr := src, host_port := src_port\<rparr>) s)))"

subsection \<open>The characters that came in\<close>

definition rx_chars :: "u32 \<Rightarrow> access list \<Rightarrow> u8 list" where
  "rx_chars base t = rev (concat (map (\<lambda>x. case x of
     Rd a v \<Rightarrow> if a = base + SUART_RXCHAR * 4 \<and> v \<noteq> - 1 then [ucast v] else [] | Wr a v \<Rightarrow> []) t))"

lemma rx_chars_Nil [simp]: "rx_chars base [] = []"
  by (simp add: rx_chars_def)

lemma rx_chars_append: "rx_chars base (t' @ t) = rx_chars base t @ rx_chars base t'"
  by (simp add: rx_chars_def)

lemma uart_regs_distinct: "(base :: u32) + SUART_RXLEVEL * 4 \<noteq> base + SUART_RXCHAR * 4"
  by (simp add: suart_regs)

text \<open>What one call of \<^verbatim>\<open>wb_uart_getc\<close> adds to the characters received.\<close>

lemma getc_trace:
  assumes "wb_uart_getc base s = (ret, s')"
  shows "\<exists>mid. s' = s\<lparr>trace := mid @ trace s\<rparr> \<and> rx_chars base mid = (if ret = - 1 then [] else [ucast ret])"
proof -
  let ?lvl = "dev s (trace s) (base + SUART_RXLEVEL * 4)"
  let ?s = "snd (wb_peek32 (base + SUART_RXLEVEL * 4) s)"
  show ?thesis
  proof (cases "?lvl = 0")
    case True
    with assms have "ret = - 1" "s' = ?s" by (auto simp: wb_uart_getc_def case_prod_unfold Let_def)
    then show ?thesis
      using uart_regs_distinct [of base]
      by (intro exI [of _ "[Rd (base + SUART_RXLEVEL * 4) ?lvl]"]) (simp add: rx_chars_def wb_peek32_def Let_def)
  next
    case False
    with assms have r: "(ret, s') = wb_peek32 (base + SUART_RXCHAR * 4) ?s"
      by (auto simp: wb_uart_getc_def case_prod_unfold Let_def)
    then have "ret = dev s (Rd (base + SUART_RXLEVEL * 4) ?lvl # trace s) (base + SUART_RXCHAR * 4)"
      by (simp add: wb_peek32_def Let_def)
    with r show ?thesis
      using uart_regs_distinct [of base]
      by (intro exI [of _ "[Rd (base + SUART_RXCHAR * 4) ret, Rd (base + SUART_RXLEVEL * 4) ?lvl]"])
        (auto simp: rx_chars_def wb_peek32_def Let_def)
  qed
qed

lemma take_snoc_upd:
  "k < length xs \<Longrightarrow> take (Suc k) (xs[k := x]) = take k xs @ [x]"
  by (simp add: take_Suc_conv_app_nth)

lemma uart_fill_spec:
  assumes "ulen st + n \<le> length (ubuf st)" and "uart_fill n nl st s = ((nl', st'), s')"
  shows "\<exists>mid got buf. s' = s\<lparr>trace := mid @ trace s\<rparr> \<and> rx_chars (uart_base st) mid = got \<and> length got \<le> n
    \<and> st' = st\<lparr>ubuf := buf, ulen := ulen st + length got, ucyc := (if got = [] then ucyc st else 0)\<rparr>
    \<and> length buf = length (ubuf st) \<and> take (ulen st + length got) buf = take (ulen st) (ubuf st) @ got
    \<and> (nl' \<longleftrightarrow> nl \<or> 10 \<in> set got \<or> 13 \<in> set got)"
  using assms
proof (induction n arbitrary: nl st s)
  case 0
  then show ?case by (intro exI [of _ "[]"] exI [of _ "ubuf st"]) auto
next
  case (Suc n)
  obtain ret s1 where g: "wb_uart_getc (uart_base st) s = (ret, s1)" by (cases "wb_uart_getc (uart_base st) s")
  from getc_trace [OF g] obtain mid where m: "s1 = s\<lparr>trace := mid @ trace s\<rparr>"
    "rx_chars (uart_base st) mid = (if ret = - 1 then [] else [ucast ret])" by blast
  show ?case
  proof (cases "ret = - 1")
    case True
    with Suc.prems(2) g have "nl' = nl" "st' = st" "s' = s1" by simp_all
    with m True show ?thesis by (intro exI [of _ mid] exI [of _ "[]"] exI [of _ "ubuf st"]) auto
  next
    case False
    let ?ch = "ucast ret :: u8"
    let ?st = "st\<lparr>ubuf := (ubuf st)[ulen st := ?ch], ulen := ulen st + 1, ucyc := 0\<rparr>"
    from Suc.prems(2) g False have "uart_fill n (if ?ch = 10 \<or> ?ch = 13 then True else nl) ?st s1 = ((nl', st'), s')"
      by (simp add: Let_def)
    from Suc.IH [OF _ this] Suc.prems(1) obtain mid' got buf where
        r: "s' = s1\<lparr>trace := mid' @ trace s1\<rparr>" "rx_chars (uart_base st) mid' = got" "length got \<le> n"
        "st' = ?st\<lparr>ubuf := buf, ulen := ulen ?st + length got, ucyc := (if got = [] then ucyc ?st else 0)\<rparr>"
        "length buf = length (ubuf ?st)" "take (ulen ?st + length got) buf = take (ulen ?st) (ubuf ?st) @ got"
        "nl' \<longleftrightarrow> (if ?ch = 10 \<or> ?ch = 13 then True else nl) \<or> 10 \<in> set got \<or> 13 \<in> set got"
      by auto
    have "take (Suc (ulen st)) ((ubuf st)[ulen st := ?ch]) = take (ulen st) (ubuf st) @ [?ch]"
      by (rule take_snoc_upd) (use Suc.prems(1) in simp)
    then have tk: "take (ulen st + length (?ch # got)) buf = take (ulen st) (ubuf st) @ ?ch # got"
      using r(6) by simp
    have "rx_chars (uart_base st) (mid' @ mid) = ?ch # got"
      using r(2) m(2) False by (simp add: rx_chars_append)
    moreover have "s' = s\<lparr>trace := (mid' @ mid) @ trace s\<rparr>" using r(1) m(1) by simp
    moreover have "st' = st\<lparr>ubuf := buf, ulen := ulen st + length (?ch # got), ucyc := 0\<rparr>" using r(4) by simp
    moreover have "nl' \<longleftrightarrow> nl \<or> 10 \<in> set (?ch # got) \<or> 13 \<in> set (?ch # got)" using r(7) by auto
    moreover have "length buf = length (ubuf st)" using r(5) by simp
    ultimately show ?thesis using tk r(3)
      by (intro exI [of _ "mid' @ mid"] exI [of _ "?ch # got"] exI [of _ buf] conjI) simp_all
  qed
qed

subsection \<open>Properties\<close>

text \<open>C15. No character is lost, reordered or duplicated by a poll: what the port has received since is
  appended to the buffered line.  At the end of a line, or after 23 polls without a
  character, the whole line leaves in one datagram to the last host (or is dropped when
  there is none) and the buffer is empty; otherwise it stays in the buffer.  The length
  stays within the buffer and the idle count below 24.\<close>

theorem uart_poll_stream:
  fixes s :: "'a udpuart_scheme"
  defines "st i \<equiv> uart_states s ! i"
  assumes "i < length (uart_states s)" and "uart_base (st i) \<noteq> 0"
    and "length (ubuf (st i)) = 256" and "ulen (st i) \<le> 256" and "ucyc (st i) \<le> 23"
  shows "\<exists>mid got buf line. rx_chars (uart_base (st i)) mid = got \<and> length buf = 256
    \<and> line = take (ulen (st i)) (ubuf (st i)) @ got \<and> take (length line) buf = line \<and> length line \<le> 256
    \<and> uart_poll_one i s = (let s1 = s\<lparr>trace := mid @ trace s\<rparr>; st1 = (st i)\<lparr>ubuf := buf\<rparr> in
           if line = [] then set_uart i st1 s1
           else if 10 \<in> set got \<or> 13 \<in> set got \<or> got = [] \<and> ucyc (st i) = 23
           then set_uart i (st1\<lparr>ulen := 0, ucyc := 0\<rparr>)
                 (if host_port (st i) \<noteq> 0
                  then u3_net_stack_send_udp_pkt (host_ethno (st i)) (host_addr (st i)) (local_port (st i)) (host_port (st i))
                         (mem_of buf) (of_nat (length line)) s1
                  else s1)
           else set_uart i (st1\<lparr>ulen := length line, ucyc := (if got = [] then ucyc (st i) + 1 else 1)\<rparr>) s1)"
proof -
  obtain nl st' s' where f: "uart_fill (256 - ulen (st i)) False (st i) s = ((nl, st'), s')" by (metis prod.exhaust)
  have "ulen (st i) + (256 - ulen (st i)) \<le> length (ubuf (st i))" using assms by simp
  from uart_fill_spec [OF this f] obtain mid got buf where
      r: "s' = s\<lparr>trace := mid @ trace s\<rparr>" "rx_chars (uart_base (st i)) mid = got" "length got \<le> 256 - ulen (st i)"
      "st' = (st i)\<lparr>ubuf := buf, ulen := ulen (st i) + length got, ucyc := (if got = [] then ucyc (st i) else 0)\<rparr>"
      "length buf = 256" "take (ulen (st i) + length got) buf = take (ulen (st i)) (ubuf (st i)) @ got"
      "nl \<longleftrightarrow> 10 \<in> set got \<or> 13 \<in> set got"
    using assms by auto
  define line where "line = take (ulen (st i)) (ubuf (st i)) @ got"
  have len: "length line = ulen (st i) + length got" "line = [] \<longleftrightarrow> ulen (st i) + length got = 0"
    using assms by (auto simp: line_def simp flip: length_greater_0_conv)
  have unf: "uart_poll_one i s =
      (if ulen st' = 0 then set_uart i st' s'
       else if nl \<or> ucyc st' > 22
       then set_uart i (st'\<lparr>ulen := 0, ucyc := 0\<rparr>)
              (if host_port st' \<noteq> 0
               then u3_net_stack_send_udp_pkt (host_ethno st') (host_addr st') (local_port st') (host_port st') (mem_of (ubuf st')) (of_nat (ulen st')) s'
               else s')
       else set_uart i (st'\<lparr>ucyc := ucyc st' + 1\<rparr>) s')"
    using assms f by (simp add: uart_poll_one_def num_idle_cyc_b4_flush_def Let_def case_prod_unfold)
  have le: "length line \<le> 256" using len r(3) assms by simp
  have tk: "take (length line) buf = line" using len r(6) by (simp add: line_def)
  have st': "st' = (st i)\<lparr>ubuf := buf\<rparr>\<lparr>ulen := length line, ucyc := (if got = [] then ucyc (st i) else 0)\<rparr>"
    using r(4) len(1) by simp
  have idle: "ucyc st' > 22 \<longleftrightarrow> got = [] \<and> ucyc (st i) = 23" using r(4) assms by auto
  have nil: "line = [] \<Longrightarrow> st' = (st i)\<lparr>ubuf := buf\<rparr>" using r(4) len by simp
  have z: "ulen st' = 0 \<longleftrightarrow> line = []" unfolding st' by simp
  have "uart_poll_one i s =
      (if line = [] then set_uart i ((st i)\<lparr>ubuf := buf\<rparr>) s'
       else if 10 \<in> set got \<or> 13 \<in> set got \<or> got = [] \<and> ucyc (st i) = 23
       then set_uart i ((st i)\<lparr>ubuf := buf, ulen := 0, ucyc := 0\<rparr>)
             (if host_port (st i) \<noteq> 0
              then u3_net_stack_send_udp_pkt (host_ethno (st i)) (host_addr (st i)) (local_port (st i)) (host_port (st i))
                     (mem_of buf) (of_nat (length line)) s'
              else s')
       else set_uart i ((st i)\<lparr>ubuf := buf, ulen := length line, ucyc := (if got = [] then ucyc (st i) + 1 else 1)\<rparr>) s')"
  proof (cases "line = []")
    case True
    with z nil show ?thesis unfolding unf by simp
  next
    case False
    with z have "ulen st' \<noteq> 0" by simp
    then show ?thesis unfolding unf r(7) idle using False by (simp add: st' cong: if_cong)
  qed
  then show ?thesis
    using r(1,2,5) tk le unfolding Let_def
    by (intro exI [of _ mid] exI [of _ got] exI [of _ buf] exI [of _ line] conjI)
      (simp_all only: udp_uart_state_t.simps line_def [symmetric])
qed

definition demo_port :: udp_uart_state_t where
  "demo_port = \<lparr>uart_base = UART0_BASE, host_addr = 0xC0A80A01, host_ethno = 0, host_port = 0,
     local_port = X300_GPSDO_UDP_PORT, ubuf = 36 # replicate 255 0, ulen = 1, ucyc = 23\<rparr>"

definition demo_uart :: "unit udpuart_scheme" where
  "demo_uart = netstack.extend demo \<lparr>cron_counter_freq = CPU_CLOCK, cron_job_table = [], links_up = [True, True],
     ls_ticker = 0, ls_current_seq = 0, ls_nbors = [], ls_nodes = [], ls_node_maps = [], ls_causes_cycle = [],
     g_cached_win_reg0 = 0, g_cached_win_reg1 = 0,
     g_pcie_reg_xact_info = \<lparr>xact_type = PCIE_XACT_ERROR, xact_addr = 0, xact_data = 0, xact_size = PCIE_XACT_32_BIT\<rparr>,
     g_pcie_res_timeout = 0, junk_word = 0xDEAD,
     uart_states = [demo_port], char_to_int = ucast\<rparr>"

lemma uart_poll_stream_witness:
  "length (uart_states (uart_poll_one 0 demo_uart)) = 1 \<and> ulen (uart_states (uart_poll_one 0 demo_uart) ! 0) \<le> 256"
proof -
  have d: "uart_states demo_uart = [demo_port]"
    by (simp add: demo_uart_def netstack.defs)
  have p: "0 < length (uart_states demo_uart)" "uart_base (uart_states demo_uart ! 0) \<noteq> 0"
      "length (ubuf (uart_states demo_uart ! 0)) = 256" "ulen (uart_states demo_uart ! 0) \<le> 256"
      "ucyc (uart_states demo_uart ! 0) \<le> 23"
    and h: "host_port demo_port = 0" "ulen demo_port = 1"
    by (simp_all add: d demo_port_def UART0_BASE_def)
  from uart_poll_stream [OF p] obtain mid buf and line got :: "u8 list" where
    len: "length line \<le> 256" and eq: "uart_poll_one 0 demo_uart =
      (let s1 = demo_uart\<lparr>trace := mid @ trace demo_uart\<rparr>; st1 = (uart_states demo_uart ! 0)\<lparr>ubuf := buf\<rparr> in
       if line = [] then set_uart 0 st1 s1
       else if 10 \<in> set got \<or> 13 \<in> set got \<or> got = [] \<and> ucyc (uart_states demo_uart ! 0) = 23
       then set_uart 0 (st1\<lparr>ulen := 0, ucyc := 0\<rparr>)
           (if host_port (uart_states demo_uart ! 0) \<noteq> 0
                  then u3_net_stack_send_udp_pkt (host_ethno (uart_states demo_uart ! 0)) (host_addr (uart_states demo_uart ! 0)) (local_port (uart_states demo_uart ! 0)) (host_port (uart_states demo_uart ! 0))
                         (mem_of buf) (of_nat (length line)) s1
                  else s1)
       else set_uart 0 (st1\<lparr>ulen := length line, ucyc := (if got = [] then ucyc (uart_states demo_uart ! 0) + 1 else 1)\<rparr>) s1)"
    by (elim exE conjE) (rule that, assumption+)
  then show ?thesis
    unfolding eq using len by (simp add: Let_def set_uart_def d h)
qed

end
