(* ===== verification/X300Init.thy ===== *)
theory X300Init
  imports UdpUart
begin

unbundle bit_operations_syntax

section \<open>Start-up of the X300\<close>

text \<open>
  \<^verbatim>\<open>firmware/usrp3/x300/x300_init.c\<close> and the structures of
  \<^verbatim>\<open>host/lib/usrp/x300/x300_fw_common.h\<close>.  The record holds the static variables of the
  start-up and of the main program.  The memory shared with the host, and the two pools of
  characters whose addresses are published there, are read and written as bus accesses, because
  the host changes them by poke requests; \<open>rxpool_addr\<close>, \<open>txpool_addr\<close> and \<open>node_maps_addr\<close> are
  the addresses the linker gave to those arrays.  \<open>eeprom_map\<close> are the 108 bytes read from
  the board's EEPROM.  \<open>stack_junk\<close> is what the stack holds at a local variable before it is
  written, and \<open>overrun\<close> is a ghost: it records a store behind the end of a local array.
\<close>

record x300 = udpuart +
  eeprom_map :: "u8 list"
  ticks_last_claim :: u32
  last_time :: u32
  last_packet_total :: u32
  garp_count :: u32
  link_count :: u32
  rxpool_addr :: u32
  txpool_addr :: u32
  node_maps_addr :: u32
  rxoffset :: u32
  rxword32 :: u32
  txoffset :: u32
  last_cronjob :: u32
  stack_junk :: mem
  overrun :: bool

subsection \<open>The EEPROM map\<close>

definition EEPROM_MAP_SIZE :: nat where "EEPROM_MAP_SIZE = 108"

definition eeprom_mac :: "nat \<Rightarrow> u8 list \<Rightarrow> mac" where
  "eeprom_mac ethno m = take 6 (drop (8 + 8 * ethno) m)"

definition eeprom_subnet :: "nat \<Rightarrow> u8 list \<Rightarrow> u8 list" where
  "eeprom_subnet i m = take 4 (drop (28 + 4 * i) m)"

definition eeprom_ip :: "nat \<Rightarrow> u8 list \<Rightarrow> u8 list" where
  "eeprom_ip i m = take 4 (drop (44 + 4 * i) m)"

text \<open>The fields of \<^verbatim>\<open>default_map\<close> the code uses.\<close>

definition default_mac :: "nat \<Rightarrow> mac" where
  "default_mac ethno = (if ethno = 0 then X300_DEFAULT_MAC_ADDR_0 else X300_DEFAULT_MAC_ADDR_1)"

definition default_subnet :: "nat \<Rightarrow> u32" where
  "default_subnet i = [X300_DEFAULT_NETMASK_ETH0_1G, X300_DEFAULT_NETMASK_ETH1_1G,
     X300_DEFAULT_NETMASK_ETH0_10G, X300_DEFAULT_NETMASK_ETH1_10G] ! i"

definition default_ip :: "nat \<Rightarrow> u32" where
  "default_ip i = [X300_DEFAULT_IP_ETH0_1G, X300_DEFAULT_IP_ETH1_1G,
     X300_DEFAULT_IP_ETH0_10G, X300_DEFAULT_IP_ETH1_10G] ! i"

text \<open>A field of the EEPROM counts unless its bytes are all zeros or all ones.\<close>

definition pick_inited_field :: "u8 list \<Rightarrow> u8 list \<Rightarrow> u8 list" where
  "pick_inited_field eeprom def =
     (let all_zeros = list_all (\<lambda>b. \<not> b \<noteq> 0x00) eeprom;
          all_ones = list_all (\<lambda>b. \<not> b \<noteq> 0xff) eeprom
      in if all_zeros then def else if all_ones then def else eeprom)"

subsection \<open>Configuring the ports\<close>

definition mac_lo :: "mac \<Rightarrow> u32" where
  "mac_lo m = push_bit 0 (ucast (m ! 5)) OR push_bit 8 (ucast (m ! 4)) OR push_bit 16 (ucast (m ! 3)) OR push_bit 24 (ucast (m ! 2))"

definition mac_hi :: "mac \<Rightarrow> u32" where
  "mac_hi m = push_bit 0 (ucast (m ! 1)) OR push_bit 8 (ucast (m ! 0))"

text \<open>The four settings registers of a port's interface: both halves of its address, its IP
  address and the port of the data transport.\<close>

definition set_eth_regs :: "u32 \<Rightarrow> mac \<Rightarrow> ip \<Rightarrow> 'a bus_scheme \<Rightarrow> 'a bus_scheme" where
  "set_eth_regs ethint m ipa s =
     (let s = wb_poke32 (SR_ADDR SET0_BASE (ethint + 8 + 0)) (mac_lo m) s;
          s = wb_poke32 (SR_ADDR SET0_BASE (ethint + 8 + 1)) (mac_hi m) s;
          s = wb_poke32 (SR_ADDR SET0_BASE (ethint + 8 + 2)) ipa s
      in wb_poke32 (SR_ADDR SET0_BASE (ethint + 8 + 3)) X300_VITA_UDP_PORT s)"

text \<open>The addresses of a port with the EEPROM at hand; \<open>i\<close> is the port's entry, which depends on the
  speed of the image.\<close>

definition port_mac :: "nat \<Rightarrow> u8 list \<Rightarrow> mac" where
  "port_mac ethno m = pick_inited_field (eeprom_mac ethno m) (default_mac ethno)"

definition port_ip :: "nat \<Rightarrow> u8 list \<Rightarrow> ip" where
  "port_ip i m = be32 (mem_of (pick_inited_field (eeprom_ip i m) (put32 (default_ip i)))) 0"

definition port_subnet :: "nat \<Rightarrow> u8 list \<Rightarrow> ip" where
  "port_subnet i m = be32 (mem_of (pick_inited_field (eeprom_subnet i m) (put32 (default_subnet i)))) 0"

text \<open>The ports, once the EEPROM has been read.\<close>

definition init_ports :: "'a x300_scheme \<Rightarrow> 'a x300_scheme" where
  "init_ports s =
     (let (type0, s) = wb_peek32 (SR_ADDR RB0_BASE RB_SFP0_TYPE) s;
          (type1, s) = wb_peek32 (SR_ADDR RB0_BASE RB_SFP1_TYPE) s;
          eth0no = (if type0 \<noteq> 0 then 2 else 0);
          eth1no = (if type1 \<noteq> 0 then 3 else 1);
          m = eeprom_map s;
          s = u3_net_stack_init_eth 0 (port_mac 0 m) (port_ip eth0no m) (port_subnet eth0no m) s;
          s = set_eth_regs SR_ETHINT0 (port_mac 0 m) (port_ip eth0no m) s;
          s = u3_net_stack_init_eth 1 (port_mac 1 m) (port_ip eth1no m) (port_subnet eth1no m) s
      in set_eth_regs SR_ETHINT1 (port_mac 1 m) (port_ip eth1no m) s)"

definition init_network :: "'a x300_scheme \<Rightarrow> 'a x300_scheme option" where
  "init_network s =
     do { (pkt_config, s) \<leftarrow> wb_pkt_iface64_init PKT_RAM0_BASE 0x1ffc s;
          let s = u3_net_stack_init pkt_config s;
          let s = link_state_route_proto_init s;
          (_, s) \<leftarrow> wb_i2c_write I2C1_BASE (ucast MBOARD_EEPROM_ADDR) [0, 0] s;
          ((ok, bs), s) \<leftarrow> wb_i2c_read I2C1_BASE (ucast MBOARD_EEPROM_ADDR) EEPROM_MAP_SIZE s;
          Some (init_ports (if ok then s\<lparr>eeprom_map := bs\<rparr> else s)) }"

text \<open>Prints are left out; the reads made for them only are kept.\<close>

definition x300_init :: "'a x300_scheme \<Rightarrow> 'a x300_scheme option" where
  "x300_init s =
     (let s = wb_uart_init UART0_BASE (CPU_CLOCK div UART0_BAUD) s;
          s = wb_uart_init UART1_BASE (CPU_CLOCK div UART1_BAUD) s;
          (fpga_compat, s) = wb_peek32 (SR_ADDR SET0_BASE RB_FPGA_COMPAT) s;
          s = cron_init CPU_CLOCK s;
          s = wb_i2c_init I2C0_BASE CPU_CLOCK s;
          s = wb_i2c_init I2C1_BASE CPU_CLOCK s;
          s = wb_i2c_init I2C2_BASE CPU_CLOCK s;
          s = wb_poke32 (SR_ADDR SET0_BASE SR_SW_RST) SW_RST_PHY s
      in do { s \<leftarrow> init_network s;
              let s = wb_poke32 (SR_ADDR SET0_BASE SR_SW_RST) 0 s;
              let s = fold (\<lambda>sfp s. snd (wb_peek32 (SR_ADDR RB0_BASE (if sfp = 1 then RB_SFP1_TYPE else RB_SFP0_TYPE)) s))
                        [0..<ethernet_ninterfaces] s;
              s \<leftarrow> sleep_ms 100 s;
              s \<leftarrow> ethernet_init 0 s;
              ethernet_init 1 s })"

end
