(* ===== verification/X300Main.thy ===== *)
theory X300Main
  imports X300Init
begin

unbundle bit_operations_syntax

section \<open>The main program of the X300 firmware\<close>

text \<open>
  \<^verbatim>\<open>firmware/usrp3/x300/x300_main.c\<close>: the handlers of the four host ports, the claim
  of the device, the front panel lights, gratuitous ARP, the serial port in shared memory and
  one turn of the main loop.  The static variables are fields of the record of theory
  \<open>X300Init\<close>.  A structure in a packet is read at its offsets.
\<close>

definition shmem_addr :: "u32 \<Rightarrow> u32" where
  "shmem_addr i = X300_FW_SHMEM_BASE + 4 * i"

definition shmem_get :: "u32 \<Rightarrow> 'a bus_scheme \<Rightarrow> u32 \<times> 'a bus_scheme" where
  "shmem_get i s = wb_peek32 (shmem_addr i) s"

definition shmem_set :: "u32 \<Rightarrow> u32 \<Rightarrow> 'a bus_scheme \<Rightarrow> 'a bus_scheme" where
  "shmem_set i v s = wb_poke32 (shmem_addr i) v s"

subsection \<open>Peek and poke from the host\<close>

record x300_fw_comms_t =
  fc_flags :: u32
  fc_sequence :: u32
  fc_addr :: u32
  fc_data :: u32

definition fw_comms_of :: "mem \<Rightarrow> x300_fw_comms_t" where
  "fw_comms_of m = \<lparr>fc_flags = be32 m 0, fc_sequence = be32 m 4, fc_addr = be32 m 8, fc_data = be32 m 12\<rparr>"

definition fw_comms_bytes :: "x300_fw_comms_t \<Rightarrow> u8 list" where
  "fw_comms_bytes r = put32 (fc_flags r) @ put32 (fc_sequence r) @ put32 (fc_addr r) @ put32 (fc_data r)"

definition program_ta_mac ::
  "x300_fw_comms_t \<Rightarrow> x300_fw_comms_t \<Rightarrow> u32 \<Rightarrow> 'a netstack_scheme \<Rightarrow> (x300_fw_comms_t \<times> u32) \<times> 'a netstack_scheme" where
  "program_ta_mac request reply addr s =
     (let ta_base_addr = (if addr \<ge> SR_ADDR SET0_BASE SR_SFP1_ADAPTER
                          then SR_ADDR SET0_BASE SR_SFP1_ADAPTER else SR_ADDR SET0_BASE SR_SFP0_ADAPTER);
          dst_ip = fc_data request;
          (reply, s) = (case u3_net_stack_arp_cache_lookup dst_ip s of
              Some dst_mac \<Rightarrow>
                (let s = wb_poke32 (SR_ADDR ta_base_addr TA_KV_MAC_LO) (mac_lo dst_mac) s;
                     s = wb_poke32 (SR_ADDR ta_base_addr TA_KV_MAC_HI) (mac_hi dst_mac) s
                 in (reply, s))
            | None \<Rightarrow> (reply\<lparr>fc_flags := fc_flags reply OR X300_FW_COMMS_FLAGS_ARP_FAIL\<rparr>, s))
      in ((reply, SR_ADDR ta_base_addr TA_KV_IPV4), s))"

definition fw_comms_peek :: "x300_fw_comms_t \<Rightarrow> x300_fw_comms_t \<Rightarrow> 'a bus_scheme \<Rightarrow> x300_fw_comms_t \<times> 'a bus_scheme" where
  "fw_comms_peek request reply s =
     (if fc_addr request AND 0x00100000 \<noteq> 0
      then (let ((_, v), s) = chinch_peek32 (fc_addr request AND 0x000FFFFF) (fc_data reply) s in (reply\<lparr>fc_data := v\<rparr>, s))
      else (let (v, s) = wb_peek32 (fc_addr request) s in (reply\<lparr>fc_data := v\<rparr>, s)))"

definition fw_comms_poke :: "x300_fw_comms_t \<Rightarrow> x300_fw_comms_t \<Rightarrow> 'a netstack_scheme \<Rightarrow> x300_fw_comms_t \<times> 'a netstack_scheme" where
  "fw_comms_poke request reply s =
     (let addr = fc_addr request in
      if addr AND 0x00100000 \<noteq> 0
      then (reply, snd (chinch_poke32 (addr AND 0x000FFFFF) (fc_data request) s))
      else (let ((reply, addr), s) =
                  (if addr = SR_ADDR SET0_BASE (SR_SFP0_ADAPTER + TA_KV_IPV4_W_ARP)
                      \<or> addr = SR_ADDR SET0_BASE (SR_SFP1_ADAPTER + TA_KV_IPV4_W_ARP)
                   then program_ta_mac request reply addr s else ((reply, addr), s))
            in (reply, if fc_flags request = fc_flags reply then wb_poke32 addr (fc_data request) s else s)))"

definition fw_comms_act :: "x300_fw_comms_t \<Rightarrow> 'a netstack_scheme \<Rightarrow> x300_fw_comms_t \<times> 'a netstack_scheme" where
  "fw_comms_act request s =
     (let (reply, s) = (if fc_flags request AND X300_FW_COMMS_FLAGS_PEEK32 \<noteq> 0
                        then fw_comms_peek request request s else (request, s))
      in if fc_flags request AND X300_FW_COMMS_FLAGS_POKE32 \<noteq> 0
         then fw_comms_poke request reply s else (reply, s))"

definition handle_udp_fw_comms ::
  "u8 \<Rightarrow> ip \<Rightarrow> ip \<Rightarrow> u16 \<Rightarrow> u16 \<Rightarrow> mem option \<Rightarrow> u32 \<Rightarrow> 'a netstack_scheme \<Rightarrow> 'a netstack_scheme option" where
  "handle_udp_fw_comms ethno src dst src_port dst_port buff num_bytes s =
     (case buff of None \<Rightarrow> Some s
      | Some m \<Rightarrow>
          (let request = fw_comms_of m;
               (reply, s) = (if num_bytes < 16
                             then (request\<lparr>fc_flags := fc_flags request OR X300_FW_COMMS_FLAGS_ERROR\<rparr>, s)
                             else fw_comms_act request s)
           in Some (if fc_flags request AND X300_FW_COMMS_FLAGS_ACK \<noteq> 0
                    then u3_net_stack_send_udp_pkt ethno src dst_port src_port (mem_of (fw_comms_bytes reply)) 16 s
                    else s)))"

subsection \<open>Programming and reading the FPGA image\<close>

text \<open>\<^verbatim>\<open>x300_fpga_prog_t\<close> and \<^verbatim>\<open>x300_fpga_read_t\<close>; the data array of the reply has 128 elements.\<close>

definition fp_flags :: "mem \<Rightarrow> u32" where "fp_flags m = be32 m 0"
definition fp_sector :: "mem \<Rightarrow> u32" where "fp_sector m = be32 m 4"
definition fp_index :: "mem \<Rightarrow> u32" where "fp_index m = be32 m 8"
definition fp_size :: "mem \<Rightarrow> u32" where "fp_size m = be32 m 12"
definition fp_data :: "mem \<Rightarrow> nat \<Rightarrow> u16" where "fp_data m i = be16 m (16 + 2 * i)"
definition FPGA_DATA_WORDS :: nat where "FPGA_DATA_WORDS = 128"

text \<open>
  The loop that writes the data in buffers of at most 32 words; the first argument is the
  number of buffers left.  It stops at the first buffer that fails.
\<close>

primrec write_buffers :: "nat \<Rightarrow> mem \<Rightarrow> u32 \<Rightarrow> 'a chinch_scheme \<Rightarrow> (bool \<times> 'a chinch_scheme) option" where
  "write_buffers 0 m data_idx s = Some (True, s)"
| "write_buffers (Suc n) m data_idx s =
     (let wr_len = (if fp_size m - data_idx \<ge> CHINCH_FLASH_MAX_BUF_WRITES
                    then CHINCH_FLASH_MAX_BUF_WRITES else fp_size m - data_idx)
      in do { (ok, s) \<leftarrow> chinch_flash_write_buf ((fp_index m + data_idx) * 2)
                (map (\<lambda>i. fp_data m (unat data_idx + i)) [0..<unat wr_len]) wr_len s;
              if ok then write_buffers n m (data_idx + wr_len) s else Some (False, s) })"

definition num_buff_writes :: "u32 \<Rightarrow> u32" where
  "num_buff_writes n = n div CHINCH_FLASH_MAX_BUF_WRITES + (if n mod CHINCH_FLASH_MAX_BUF_WRITES = 0 then 0 else 1)"

definition verify_words :: "mem \<Rightarrow> 'a chinch_scheme \<Rightarrow> bool \<times> 'a chinch_scheme" where
  "verify_words m s =
     (let ((ok, data), s) = chinch_flash_read_buf (fp_index m * 2) (fp_size m) s
      in (ok \<and> list_all (\<lambda>i. data ! i = fp_data m i) [0..<unat (fp_size m)], s))"

definition write_sector :: "mem \<Rightarrow> 'a chinch_scheme \<Rightarrow> (bool \<times> 'a chinch_scheme) option" where
  "write_sector m s =
     (let (status, s) = chinch_flash_select_sector (fp_sector m) s
      in do { (status, s) \<leftarrow> (if fp_flags m AND X300_FPGA_PROG_FLAGS_ERASE \<noteq> 0 \<and> status
                              then chinch_flash_erase_sector s else Some (status, s));
              (status, s) \<leftarrow> (if status then write_buffers (unat (num_buff_writes (fp_size m))) m 0 s
                              else Some (status, s));
              Some (if fp_flags m AND X300_FPGA_PROG_FLAGS_VERIFY \<noteq> 0
                    then (let (ok, s) = verify_words m s in (status \<and> ok, s)) else (status, s)) })"

text \<open>Status and flags of the reply.\<close>

definition fpga_prog_act :: "mem \<Rightarrow> 'a chinch_scheme \<Rightarrow> ((bool \<times> u32) \<times> 'a chinch_scheme) option" where
  "fpga_prog_act m s =
     (if fp_flags m AND X300_FPGA_PROG_FLAGS_INIT \<noteq> 0
      then (let (ok, s) = chinch_flash_init s in Some ((ok, 0), s))
      else if fp_flags m AND X300_FPGA_PROG_FLAGS_CLEANUP \<noteq> 0
      then Some ((True, 0), chinch_flash_cleanup s)
      else if fp_flags m AND X300_FPGA_PROG_CONFIGURE \<noteq> 0
      then Some ((True, 0), chinch_start_config s)
      else if fp_flags m AND X300_FPGA_PROG_CONFIG_STATUS \<noteq> 0
      then (let (st, s) = chinch_get_config_status s
            in Some ((True, if st \<noteq> CHINCH_CONFIG_COMPLETED then X300_FPGA_PROG_FLAGS_ERROR else 0), s))
      else do { (status, s) \<leftarrow> write_sector m s; Some ((status, 0), s) })"

definition handle_udp_fpga_prog ::
  "u8 \<Rightarrow> ip \<Rightarrow> ip \<Rightarrow> u16 \<Rightarrow> u16 \<Rightarrow> mem option \<Rightarrow> u32 \<Rightarrow> 'a chinch_scheme \<Rightarrow> 'a chinch_scheme option" where
  "handle_udp_fpga_prog ethno src dst src_port dst_port buff num_bytes s =
     (case buff of None \<Rightarrow> Some s
      | Some m \<Rightarrow>
          do { ((status, flags), s) \<leftarrow> (if num_bytes < 16 then Some ((True, X300_FPGA_PROG_FLAGS_ERROR), s) else fpga_prog_act m s);
               let flags = (if \<not> status then flags OR X300_FPGA_PROG_FLAGS_ERROR else flags);
               Some (if fp_flags m AND X300_FPGA_PROG_FLAGS_ACK \<noteq> 0
                     then u3_net_stack_send_udp_pkt ethno src dst_port src_port (mem_of (put32 flags)) 4 s
                     else s) })"

text \<open>
  The reply of the image reader is a structure on the stack with room for 128 words; the flash is
  read straight into it, as many words as the host asked for.
\<close>

definition read_reply_bytes :: "u32 \<Rightarrow> u32 \<Rightarrow> u32 \<Rightarrow> u32 \<Rightarrow> u16 list \<Rightarrow> u8 list" where
  "read_reply_bytes flags sector index nwords data =
     put32 flags @ put32 sector @ put32 index @ put32 nwords
     @ concat (map put16 (take FPGA_DATA_WORDS (data @ replicate FPGA_DATA_WORDS 0)))"

definition handle_udp_fpga_read ::
  "u8 \<Rightarrow> ip \<Rightarrow> ip \<Rightarrow> u16 \<Rightarrow> u16 \<Rightarrow> mem option \<Rightarrow> u32 \<Rightarrow> 'a x300_scheme \<Rightarrow> 'a x300_scheme option" where
  "handle_udp_fpga_read ethno src dst src_port dst_port buff num_bytes s =
     (case buff of None \<Rightarrow> Some s
      | Some m \<Rightarrow>
          (let (bytes, s) =
             (if num_bytes < 12 then (read_reply_bytes X300_FPGA_READ_FLAGS_ERROR 0 0 0 [], s)
              else if fp_flags m AND X300_FPGA_READ_FLAGS_INIT \<noteq> 0
              then (let (ok, s) = chinch_flash_init s
                    in (read_reply_bytes (if ok then 0 else X300_FPGA_READ_FLAGS_ERROR) 0 0 0 [], s))
              else if fp_flags m AND X300_FPGA_READ_FLAGS_CLEANUP \<noteq> 0
              then (read_reply_bytes 0 0 0 0 [], chinch_flash_cleanup s)
              else (let (ok1, s) = chinch_flash_select_sector (fp_sector m) s;
                        ((ok2, data), s) = chinch_flash_read_buf (fp_index m * 2) (fp_size m) s;
                        s = s\<lparr>overrun := overrun s \<or> length data > FPGA_DATA_WORDS\<rparr>;
                        status = (ok1 \<and> ok2);
                        flags = 0 OR X300_FPGA_READ_FLAGS_ACK;
                        flags = (if \<not> status then flags OR X300_FPGA_READ_FLAGS_ERROR else flags)
                    in (read_reply_bytes flags (fp_sector m) (fp_index m) (fp_size m) data, s)))
           in Some (u3_net_stack_send_udp_pkt ethno src dst_port src_port (mem_of bytes) 272 s)))"

subsection \<open>MTU detection\<close>

text \<open>The reply is not initialised, and is followed in memory by whatever the stack holds.\<close>

definition mtu_flags :: "mem \<Rightarrow> u32" where "mtu_flags m = be32 m 0"
definition mtu_size :: "mem \<Rightarrow> u32" where "mtu_size m = be32 m 4"

definition handle_udp_mtu_detect ::
  "u8 \<Rightarrow> ip \<Rightarrow> ip \<Rightarrow> u16 \<Rightarrow> u16 \<Rightarrow> mem option \<Rightarrow> u32 \<Rightarrow> 'a x300_scheme \<Rightarrow> 'a x300_scheme option" where
  "handle_udp_mtu_detect ethno src dst src_port dst_port buff num_bytes s =
     (case buff of None \<Rightarrow> Some s
      | Some m \<Rightarrow>
          (let flags = mtu_flags (stack_junk s);
               flags = (if mtu_flags m AND X300_MTU_DETECT_ECHO_REQUEST = 0 then flags OR X300_MTU_DETECT_ERROR else flags);
               flags = flags OR X300_MTU_DETECT_ECHO_REPLY;
               reply = (\<lambda>i. if i < 8 then (put32 flags @ put32 num_bytes) ! i else stack_junk s i)
           in Some (u3_net_stack_send_udp_pkt ethno src dst_port src_port reply (mtu_size m) s)))"

subsection \<open>The claim, lights and gratuitous ARP\<close>

definition CLAIM_TIMEOUT :: u32 where "CLAIM_TIMEOUT = 2 * CPU_CLOCK"

definition handle_claim :: "u32 \<Rightarrow> 'a x300_scheme \<Rightarrow> 'a x300_scheme" where
  "handle_claim ticks_now s =
     (let (status, s) = shmem_get X300_FW_SHMEM_CLAIM_STATUS s;
          (over, s) =
            (if status \<noteq> 0
             then (let (t, s) = shmem_get X300_FW_SHMEM_CLAIM_TIME s
                   in if t = 0 then (True, s) else (ticks_now - ticks_last_claim s > CLAIM_TIMEOUT, s))
             else (False, s))
      in if over
         then (let s = shmem_set X300_FW_SHMEM_CLAIM_STATUS 0 s;
                   (t, s) = shmem_get X300_FW_SHMEM_CLAIM_TIME s
               in s\<lparr>last_time := t\<rparr>)
         else (let (t, s) = shmem_get X300_FW_SHMEM_CLAIM_TIME s in
               if last_time s \<noteq> t
               then (let s = shmem_set X300_FW_SHMEM_CLAIM_STATUS 1 s;
                         (t, s) = shmem_get X300_FW_SHMEM_CLAIM_TIME s
                     in s\<lparr>last_time := t, ticks_last_claim := ticks_now\<rparr>)
               else s))"

definition update_leds :: "'a x300_scheme \<Rightarrow> 'a x300_scheme" where
  "update_leds s =
     (let current_total = u3_net_stack_get_stat_counts 0 s + u3_net_stack_get_stat_counts 1 s;
          activity = (last_packet_total s \<noteq> current_total);
          s = s\<lparr>last_packet_total := current_total\<rparr>;
          (v, s) = shmem_get X300_FW_SHMEM_CLAIM_STATUS s;
          claimed = (v \<noteq> 0)
      in wb_poke32 (SR_ADDR SET0_BASE SR_LEDS)
           ((if activity then LED_LINKACT else 0) OR (if claimed then LED_LINKSTAT else 0)) s)"

definition garp :: "'a x300_scheme \<Rightarrow> 'a x300_scheme" where
  "garp s =
     (if garp_count s < 3000 then s\<lparr>garp_count := garp_count s + 1\<rparr>
      else fold (\<lambda>e s.
        (let (v, s) = wb_peek32 (SR_ADDR RB0_BASE (if e = 0 then RB_SFP0_TYPE else RB_SFP1_TYPE)) s in
         if v \<noteq> RB_SFP_AURORA
         then if \<not> ethernet_get_link_up (of_nat e) s then s
              else u3_net_stack_send_arp_request (of_nat e) (u3_net_stack_get_ip_addr (of_nat e) s) s
         else s)) [0..<ethernet_ninterfaces] (s\<lparr>garp_count := 0\<rparr>))"

subsection \<open>The serial port in shared memory\<close>

definition NUM_POOL_WORDS32 :: u32 where "NUM_POOL_WORDS32 = 64"

definition uart_rx_char :: "u32 \<Rightarrow> 'a x300_scheme \<Rightarrow> 'a x300_scheme" where
  "uart_rx_char rxch s =
     (let shift = unat ((rxoffset s mod 4) * 8);
          w = (if shift = 0 then 0 else rxword32 s);
          w = w OR push_bit shift (rxch AND 0xFF);
          s = s\<lparr>rxword32 := w\<rparr>;
          s = wb_poke32 (rxpool_addr s + 4 * ((rxoffset s div 4) mod NUM_POOL_WORDS32)) w s;
          s = s\<lparr>rxoffset := rxoffset s + 1\<rparr>
      in shmem_set X300_FW_SHMEM_UART_RX_INDEX (rxoffset s) s)"

partial_function (option) uart_rx_loop :: "'a x300_scheme \<Rightarrow> 'a x300_scheme option" where
  "uart_rx_loop s =
     (let (rxch, s') = wb_uart_getc UART0_BASE s in
      if rxch = - 1 then Some s' else uart_rx_loop (uart_rx_char rxch s'))"

definition uart_tx_char :: "'a x300_scheme \<Rightarrow> 'a x300_scheme option" where
  "uart_tx_char s =
     (let shift = unat ((txoffset s mod 4) * 8);
          (v, s) = wb_peek32 (txpool_addr s + 4 * (txoffset s div 4)) s;
          txch = drop_bit shift v
      in do { s \<leftarrow> wb_uart_putc UART0_BASE txch s;
              Some (s\<lparr>txoffset := (txoffset s + 1) mod (NUM_POOL_WORDS32 * 4)\<rparr>) })"

partial_function (option) uart_tx_loop :: "'a x300_scheme \<Rightarrow> 'a x300_scheme option" where
  "uart_tx_loop s =
     (let (idx, s') = shmem_get X300_FW_SHMEM_UART_TX_INDEX s in
      if txoffset s' \<noteq> idx then do { s'' \<leftarrow> uart_tx_char s'; uart_tx_loop s'' } else Some s')"

definition handle_uarts :: "'a x300_scheme \<Rightarrow> 'a x300_scheme option" where
  "handle_uarts s =
     (let s = shmem_set X300_FW_SHMEM_UART_RX_ADDR (rxpool_addr s) s;
          s = shmem_set X300_FW_SHMEM_UART_TX_ADDR (txpool_addr s) s;
          s = shmem_set X300_FW_SHMEM_UART_WORDS32 NUM_POOL_WORDS32 s
      in do { s \<leftarrow> uart_rx_loop s; uart_tx_loop s })"

subsection \<open>Link state updates\<close>

text \<open>The body of \<^verbatim>\<open>update_forwarding\<close> is commented out, and so is the call of
  \<^verbatim>\<open>handle_link_state\<close> in the main loop.\<close>

definition update_forwarding :: "u8 \<Rightarrow> 'a x300_scheme \<Rightarrow> 'a x300_scheme" where
  "update_forwarding e s = s"

definition handle_link_state :: "'a x300_scheme \<Rightarrow> 'a x300_scheme" where
  "handle_link_state s =
     (let (maps, map_len) = link_state_route_get_node_mapping s;
          s = shmem_set X300_FW_SHMEM_ROUTE_MAP_ADDR (node_maps_addr s) s;
          s = shmem_set X300_FW_SHMEM_ROUTE_MAP_LEN (of_nat map_len) s
      in if link_count s \<noteq> 0 then s\<lparr>link_count := link_count s - 1\<rparr>
         else (let s = link_state_route_proto_tick (s\<lparr>link_count := 2000\<rparr>)
               in fold (\<lambda>e s.
                    (let s = (if ethernet_get_link_up (of_nat e) s
                              then link_state_route_proto_flood (of_nat e) (link_state_route_proto_update (of_nat e) s) else s);
                         before = link_state_route_proto_causes_cycle_cached (of_nat e) (of_nat ((e + 1) mod 2)) s;
                         s = link_state_route_proto_update_cycle_cache (of_nat e) s
                     in if before \<noteq> link_state_route_proto_causes_cycle_cached (of_nat e) (of_nat ((e + 1) mod 2)) s
                        then update_forwarding (of_nat e) s else s)) [0..<ethernet_ninterfaces] s))"

subsection \<open>The main loop\<close>

text \<open>The functions behind the UDP handler table.\<close>

definition run_udp ::
  "udp_handler \<Rightarrow> ('a x300_ext udpuart_ext chinch_ext linkstate_ext ethdrv_ext cron_ext) handler" where
  "run_udp h = (case h of
       Udp_fw_comms \<Rightarrow> handle_udp_fw_comms
     | Udp_fpga_prog \<Rightarrow> handle_udp_fpga_prog
     | Udp_fpga_read \<Rightarrow> handle_udp_fpga_read
     | Udp_mtu_detect \<Rightarrow> handle_udp_mtu_detect
     | Udp_uart_data \<Rightarrow> handle_uart_data_packet)"

definition main_init :: "'a x300_scheme \<Rightarrow> 'a x300_scheme option" where
  "main_init s =
     do { s \<leftarrow> x300_init s;
          let s = u3_net_stack_register_udp_handler X300_FW_COMMS_UDP_PORT Udp_fw_comms s;
          let s = u3_net_stack_register_udp_handler X300_FPGA_PROG_UDP_PORT Udp_fpga_prog s;
          let s = u3_net_stack_register_udp_handler X300_FPGA_READ_UDP_PORT Udp_fpga_read s;
          let s = u3_net_stack_register_udp_handler X300_MTU_DETECT_UDP_PORT Udp_mtu_detect s;
          Some (s\<lparr>last_cronjob := 0\<rparr>) }"

definition tick_delta :: u32 where "tick_delta = CPU_CLOCK div 100"

definition cron_jobs :: "u32 \<Rightarrow> 'a x300_scheme \<Rightarrow> 'a x300_scheme option" where
  "cron_jobs ticks_now s =
     do { s \<leftarrow> poll_sfpp_status 0 s;
          s \<leftarrow> poll_sfpp_status 1 s;
          let s = update_leds s;
          let s = garp s;
          Some (s\<lparr>last_cronjob := ticks_now\<rparr>) }"

definition main_turn :: "(access list \<Rightarrow> u32 \<Rightarrow> mem) \<Rightarrow> 'a x300_scheme \<Rightarrow> 'a x300_scheme option" where
  "main_turn rx_mem s =
     (let (ticks_now, s) = wb_peek32 (SR_ADDR RB0_BASE RB_COUNTER) s;
          s = handle_claim ticks_now s;
          ticks_passed = ticks_now - last_cronjob s
      in do { s \<leftarrow> (if ticks_passed > tick_delta then cron_jobs ticks_now s else Some s);
              s \<leftarrow> u3_net_stack_handle_one run_udp (run_icmp run_udp) rx_mem s;
              let (_, s) = forward_pcie_user_xact_to_wb s;
              s \<leftarrow> handle_uarts s;
              Some (shmem_set X300_FW_SHMEM_COMPAT_NUM
                     (push_bit 16 X300_FW_COMPAT_MAJOR OR X300_FW_COMPAT_MINOR) s) })"

end
