(* ===== verification/X300Props.thy ===== *)
theory X300Props
  imports X300Main
begin

unbundle bit_operations_syntax

section \<open>What the main program does\<close>

text \<open>
  Properties of theories \<open>X300Init\<close> and \<open>X300Main\<close>: host access to the registers, by itself and
  from the frame on the wire, the addresses programmed for a transport, the claim of the
  device as a state machine over the shared memory, the bounds of the image reader, the serial
  port, and the network configuration at start-up.
\<close>

subsection \<open>Memory on the bus\<close>

text \<open>The device is a memory at address \<open>a\<close>: it holds the value last written.\<close>

definition ram :: "(access list \<Rightarrow> u32 \<Rightarrow> u32) \<Rightarrow> u32 \<Rightarrow> bool" where
  "ram d a \<longleftrightarrow> (\<forall>t x. d (x # t) a = (case x of Wr b v \<Rightarrow> if b = a then v else d t a | Rd b v \<Rightarrow> d t a))"

definition cell :: "'a bus_scheme \<Rightarrow> u32 \<Rightarrow> u32" where
  "cell s a = dev s (trace s) a"

lemma cell_poke [simp]: "ram (dev s) a \<Longrightarrow> cell (wb_poke32 b v s) a = (if b = a then v else cell s a)"
  by (simp add: ram_def cell_def)

lemma cell_peek [simp]: "ram (dev s) a \<Longrightarrow> cell (snd (wb_peek32 b s)) a = cell s a"
  by (simp add: ram_def cell_def)

lemma bus_send_udp [simp]:
  "trace (u3_net_stack_send_udp_pkt e d sp dp buff n s) = trace s"
  "dev (u3_net_stack_send_udp_pkt e d sp dp buff n s) = dev s"
  using net_out_keeps(1,2) [OF net_out_udp] by blast+

lemma config_trace [simp]:
  "u3_net_stack_arp_cache_lookup d (s\<lparr>trace := t\<rparr>) = u3_net_stack_arp_cache_lookup d s"
  "u3_net_stack_get_ip_addr e (s\<lparr>trace := t\<rparr>) = u3_net_stack_get_ip_addr e s"
  "is_bcast d (s\<lparr>trace := t\<rparr>) \<longleftrightarrow> is_bcast d s"
  by (simp_all add: u3_net_stack_arp_cache_lookup_def u3_net_stack_get_ip_addr_def u3_net_stack_get_mac_addr_def is_bcast_def
      split: option.split)

text \<open>A memory, as a device one can run.\<close>

fun last_written :: "u32 \<Rightarrow> access list \<Rightarrow> u32 \<Rightarrow> u32" where
  "last_written z [] a = z"
| "last_written z (Wr b v # t) a = (if b = a then v else last_written z t a)"
| "last_written z (Rd b v # t) a = last_written z t a"

lemma last_written_ram: "ram (last_written z) a"
  unfolding ram_def by (auto split: access.split)

subsection \<open>Peek and poke\<close>

lemma be32_cong:
  assumes "\<And>k. k < 4 \<Longrightarrow> p (i + k) = q (i + k)"
  shows "be32 p i = be32 q i"
  using assms [of 0] assms [of 1] assms [of 2] assms [of 3]
  by (simp add: be32_def be16_def numeral_eq_Suc)

lemma fw_comms_roundtrip:
  assumes "\<And>k. k < 16 \<Longrightarrow> p k = mem_of (fw_comms_bytes r) k"
  shows "fw_comms_of p = r"
proof -
  have "be32 p i = be32 (mem_of (fw_comms_bytes r)) i" if "i \<le> 12" for i
    by (rule be32_cong) (use assms that in simp)
  moreover have "be32 (mem_of (fw_comms_bytes r)) 0 = fc_flags r"
      "be32 (mem_of (fw_comms_bytes r)) 4 = fc_sequence r"
      "be32 (mem_of (fw_comms_bytes r)) 8 = fc_addr r"
      "be32 (mem_of (fw_comms_bytes r)) 12 = fc_data r"
    using be32_at [of "[]" 0 "fc_flags r"] be32_at [of "put32 (fc_flags r)" 4 "fc_sequence r"]
      be32_at [of "put32 (fc_flags r) @ put32 (fc_sequence r)" 8 "fc_addr r"]
      be32_at [of "put32 (fc_flags r) @ put32 (fc_sequence r) @ put32 (fc_addr r)" 12 "fc_data r" "[]"]
    by (simp_all add: fw_comms_bytes_def)
  ultimately show ?thesis by (simp add: fw_comms_of_def)
qed

definition plain_reg :: "u32 \<Rightarrow> bool" where
  "plain_reg a \<longleftrightarrow> a AND 0x00100000 = 0 \<and> a \<noteq> SR_ADDR SET0_BASE (SR_SFP0_ADAPTER + TA_KV_IPV4_W_ARP)
     \<and> a \<noteq> SR_ADDR SET0_BASE (SR_SFP1_ADAPTER + TA_KV_IPV4_W_ARP)"

lemma fc_flag_bits:
  "w AND X300_FW_COMMS_FLAGS_ACK = 0 \<longleftrightarrow> \<not> bit w 0" "w AND X300_FW_COMMS_FLAGS_POKE32 = 0 \<longleftrightarrow> \<not> bit w 2"
  "w AND X300_FW_COMMS_FLAGS_PEEK32 = 0 \<longleftrightarrow> \<not> bit w 3"
  by (simp_all add: x300_consts and_BIT_eq_0_iff)

lemma fw_comms_plain:
  assumes "plain_reg (fc_addr r)"
  shows "fw_comms_act r s =
    (let v = dev s (trace s) (fc_addr r);
         s1 = (if bit (fc_flags r) 3 then snd (wb_peek32 (fc_addr r) s) else s);
         s2 = (if bit (fc_flags r) 2 then wb_poke32 (fc_addr r) (fc_data r) s1 else s1)
     in (if bit (fc_flags r) 3 then r\<lparr>fc_data := v\<rparr> else r, s2))"
  using assms
  by (simp add: fw_comms_act_def fw_comms_peek_def fw_comms_poke_def plain_reg_def fc_flag_bits Let_def case_prod_unfold)

text \<open>Peek and poke: a request for a plain register reads it if the peek flag is set, then writes the
  request's data to it if the poke flag is set, with no other access to the hardware; the
  request comes back, with the value read in its data if it was a peek, exactly when an
  acknowledgement was asked for.  A request shorter than its structure reads and writes nothing
  and comes back with the error flag.\<close>

theorem fw_comms_peek_poke:
  assumes "fw_comms_of m = r" and "16 \<le> num_bytes \<Longrightarrow> plain_reg (fc_addr r)"
  shows "\<exists>reply s1. handle_udp_fw_comms ethno src dst src_port dst_port (Some m) num_bytes s =
      Some (if bit (fc_flags r) 0
            then u3_net_stack_send_udp_pkt ethno src dst_port src_port (mem_of (fw_comms_bytes reply)) 16 s1 else s1)
    \<and> (if num_bytes < 16 then reply = r\<lparr>fc_flags := fc_flags r OR BIT 1\<rparr> \<and> s1 = s
       else reply = (if bit (fc_flags r) 3 then r\<lparr>fc_data := dev s (trace s) (fc_addr r)\<rparr> else r)
         \<and> s1 = s\<lparr>trace := (if bit (fc_flags r) 2 then [Wr (fc_addr r) (fc_data r)] else [])
                @ (if bit (fc_flags r) 3 then [Rd (fc_addr r) (dev s (trace s) (fc_addr r))] else []) @ trace s\<rparr>)"
proof (cases "num_bytes < 16")
  case True
  then show ?thesis
    using assms(1)
    by (intro exI [of _ "r\<lparr>fc_flags := fc_flags r OR BIT 1\<rparr>"] exI [of _ s])
      (simp add: handle_udp_fw_comms_def Let_def fc_flag_bits X300_FW_COMMS_FLAGS_ERROR_def)
next
  case False
  then have pl: "plain_reg (fc_addr r)" using assms(2) by simp
  show ?thesis
    using False assms(1)
    by (intro exI [of _ "fst (fw_comms_act r s)"] exI [of _ "snd (fw_comms_act r s)"])
      (auto simp: handle_udp_fw_comms_def fw_comms_plain [OF pl] Let_def fc_flag_bits wb_poke32_def wb_peek32_def)
qed

lemma fw_comms_peek_poke_witness:
  "\<exists>s'. handle_udp_fw_comms 0 0xC0A80A01 0xC0A80A02 5000 49152
      (Some (mem_of (fw_comms_bytes \<lparr>fc_flags = 4, fc_sequence = 1, fc_addr = 0xA004, fc_data = 7\<rparr>))) 16 demo = Some s'
    \<and> trace s' = [Wr 0xA004 7]"
proof -
  let ?r = "\<lparr>fc_flags = 4, fc_sequence = 1, fc_addr = 0xA004, fc_data = 7\<rparr>"
  have "fw_comms_of (mem_of (fw_comms_bytes ?r)) = ?r" by (rule fw_comms_roundtrip) simp
  moreover have "plain_reg (fc_addr ?r)" by (simp add: plain_reg_def SR_ADDR_def x300_regs)
  ultimately show ?thesis
    using fw_comms_peek_poke [of "mem_of (fw_comms_bytes ?r)" ?r 16 0 "0xC0A80A01" "0xC0A80A02" 5000 49152 demo]
    by (auto simp: demo_def bit_numeral_rec)
qed

text \<open>C12. Register access over the network, from frame to frame.  A request that a peer's stack puts on the
  wire for the device's comms port performs exactly its peek and poke on the bus; and the frame
  the device sends back, delivered to the peer, reaches the peer's handler for the port it sent
  from, as a datagram from the device that holds the request with the value read.\<close>

theorem host_register_access:
  fixes a :: "'a netstack_scheme" and b :: "'b x300_scheme" and ethno :: u8 and q :: x300_fw_comms_t
  defines "host \<equiv> u3_net_stack_get_ip_addr ethno a"
    and "reply \<equiv> (if bit (fc_flags q) 3 then q\<lparr>fc_data := dev b (trace b) (fc_addr q)\<rparr> else q)"
  assumes wf: "net_wf a" "net_wf b" and e: "unat ethno < MAX_NETHS" "unat e' < MAX_NETHS"
    and r: "fst (resolve_ip dst a) = Some dmac"
    and d: "delivered e' (last (tx_log (u3_net_stack_send_udp_pkt ethno dst sp X300_FW_COMMS_UDP_PORT
              (mem_of (fw_comms_bytes q)) 16 a))) m"
    and h: "find_index (\<lambda>(port, h). port = X300_FW_COMMS_UDP_PORT) (udp_handlers b) = Some i" "snd (udp_handlers b ! i) = Udp_fw_comms"
    and peer: "arp_foreign b host" "\<not> is_bcast host b"
    and q: "plain_reg (fc_addr q)" "bit (fc_flags q) 0"
  shows "\<exists>b'. handle_eth_packet run_udp (run_icmp run_udp) m len b = Some b'
    \<and> trace b' = (if bit (fc_flags q) 2 then [Wr (fc_addr q) (fc_data q)] else [])
        @ (if bit (fc_flags q) 3 then [Rd (fc_addr q) (dev b (trace b) (fc_addr q))] else []) @ trace b
    \<and> (\<forall>e'' m' len' ru ri j. delivered e'' (last (tx_log b')) m'
         \<longrightarrow> find_index (\<lambda>(port, h). port = sp) (udp_handlers a) = Some j
         \<longrightarrow> (\<exists>p s. handle_eth_packet ru ri m' len' a =
               ru (snd (udp_handlers a ! j)) e'' (u3_net_stack_get_ip_addr e' b) (u3_net_stack_get_ip_addr e'' a)
                 X300_FW_COMMS_UDP_PORT sp (Some p) 16 s \<and> fw_comms_of p = reply))"
proof -
  let ?b = "u3_net_stack_arp_cache_update host (u3_net_stack_get_mac_addr ethno a) e' b"
  have n: "unat (16 :: u32) + 28 < 65536" by simp
  from udp_delivery [OF wf(1) e(1) r n d h(1), of run_udp "run_icmp run_udp" len] obtain p where
    run: "handle_eth_packet run_udp (run_icmp run_udp) m len b =
      handle_udp_fw_comms e' host (u3_net_stack_get_ip_addr e' b) sp X300_FW_COMMS_UDP_PORT (Some p) 16 ?b"
    and p: "\<And>k. k < 16 \<Longrightarrow> p k = mem_of (fw_comms_bytes q) k"
    by (auto simp: h(2) run_udp_def host_def)
  have fw: "fw_comms_of p = q" by (rule fw_comms_roundtrip) (rule p)
  let ?t = "(if bit (fc_flags q) 2 then [Wr (fc_addr q) (fc_data q)] else [])
      @ (if bit (fc_flags q) 3 then [Rd (fc_addr q) (dev b (trace b) (fc_addr q))] else []) @ trace b"
  let ?s = "?b\<lparr>trace := ?t\<rparr>"
  let ?b' = "u3_net_stack_send_udp_pkt e' host X300_FW_COMMS_UDP_PORT sp (mem_of (fw_comms_bytes reply)) 16 ?s"
  have same: "dev ?b = dev b" "trace ?b = trace b" by (simp_all add: u3_net_stack_arp_cache_update_def Let_def split: option.splits)
  have act: "fw_comms_act q ?b = (reply, ?s)"
    unfolding fw_comms_plain [OF q(1)] by (simp add: Let_def reply_def same wb_poke32_def wb_peek32_def)
  have b': "handle_eth_packet run_udp (run_icmp run_udp) m len b = Some ?b'"
    unfolding run using q(2) by (simp add: handle_udp_fw_comms_def fw act Let_def fc_flag_bits)
  have tr: "trace ?b' = ?t" by (simp split del: if_split)
  have wf6: "length (u3_net_stack_get_mac_addr ethno a) = 6" using net_wf_mac [OF wf(1) e(1)] .
  have wfs: "net_wf ?s" using net_wf_update [OF wf(2) wf6] by (simp add: net_wf_def arp_wf_def)
  have aw: "arp_wf b" using wf(2) by (simp add: net_wf_def)
  have "u3_net_stack_arp_cache_lookup host ?b = Some (u3_net_stack_get_mac_addr ethno a)"
    using arp_lookup_update_same [OF aw peer(1)] by simp
  moreover have "u3_net_stack_arp_cache_lookup host ?s = u3_net_stack_arp_cache_lookup host ?b"
    by (simp split del: if_split)
  moreover have "\<not> is_bcast host ?s"
    using peer(2) by (simp add: is_bcast_def frame_simps split del: if_split)
  ultimately have res: "fst (resolve_ip host ?s) = Some (u3_net_stack_get_mac_addr ethno a)"
    by (simp add: resolve_ip_result)
  have ips: "u3_net_stack_get_ip_addr e' ?s = u3_net_stack_get_ip_addr e' b"
    by (simp add: u3_net_stack_get_ip_addr_def frame_simps split del: if_split)
  have reached: "\<exists>p s. handle_eth_packet ru ri m' len' a =
      ru (snd (udp_handlers a ! j)) e'' (u3_net_stack_get_ip_addr e' b) (u3_net_stack_get_ip_addr e'' a)
        X300_FW_COMMS_UDP_PORT sp (Some p) 16 s \<and> fw_comms_of p = reply"
    if "delivered e'' (last (tx_log ?b')) m'" and "find_index (\<lambda>(port, h). port = sp) (udp_handlers a) = Some j"
    for e'' m' len' ru ri j
  proof -
    from udp_delivery [OF wfs e(2) res n that, of ru ri len'] obtain p where
      eq: "handle_eth_packet ru ri m' len' a =
        ru (snd (udp_handlers a ! j)) e'' (u3_net_stack_get_ip_addr e' b) (u3_net_stack_get_ip_addr e'' a)
          X300_FW_COMMS_UDP_PORT sp (Some p) 16
          (u3_net_stack_arp_cache_update (u3_net_stack_get_ip_addr e' b) (u3_net_stack_get_mac_addr e' ?s) e'' a)"
      and p: "\<And>k. k < 16 \<Longrightarrow> p k = mem_of (fw_comms_bytes reply) k"
      unfolding ips by auto
    have "fw_comms_of p = reply" by (rule fw_comms_roundtrip) (rule p)
    with eq show ?thesis by blast
  qed
  show ?thesis
    by (rule exI [of _ ?b'], intro conjI) (rule b', rule tr, use reached in blast)
qed

text \<open>A device with another address, its tables as at start-up.\<close>

definition demo_x300 :: "unit x300_scheme" where
  "demo_x300 = (udpuart.extend demo_uart (x300.fields (replicate 108 0) 0 0 0 0 0 0x7000 0x7100 0x7200 0 0 0 0 (\<lambda>_. 0xAB) False))
     \<lparr>net_conf_ips := [0xC0A80A05, 0xC0A81405, 0, 0]\<rparr>"

lemma demo_x300_net:
  "net_conf_ips demo_x300 = [0xC0A80A05, 0xC0A81405, 0, 0]" "net_conf_macs demo_x300 = net_conf_macs demo"
  "net_conf_subnets demo_x300 = net_conf_subnets demo" "net_conf_bcasts demo_x300 = net_conf_bcasts demo"
  "net_stat_counts demo_x300 = net_stat_counts demo" "junk_pad demo_x300 = junk_pad demo"
  "arp_cache_ips demo_x300 = arp_cache_ips demo" "arp_cache_macs demo_x300 = arp_cache_macs demo"
  "arp_cache_eths demo_x300 = arp_cache_eths demo" "arp_cache_wr_index demo_x300 = arp_cache_wr_index demo"
  "udp_handlers demo_x300 = udp_handlers demo" "dev demo_x300 = (\<lambda>_ _. 0)" "trace demo_x300 = []" "tx_log demo_x300 = []"
  by (simp_all add: demo_x300_def udpuart.defs demo_uart_def netstack.defs) (simp_all add: demo_def)

lemma demo_x300_wf: "net_wf demo_x300"
  using demo_wf unfolding net_wf_def arp_wf_def by (simp add: demo_x300_net) (simp add: MAX_NETHS_def)

lemma host_register_access_witness:
  "\<exists>b' m. handle_eth_packet run_udp (run_icmp run_udp) m 64 demo_x300 = Some b' \<and> trace b' = [Wr 0xA004 7, Rd 0xA004 0]"
proof -
  let ?q = "\<lparr>fc_flags = 13, fc_sequence = 1, fc_addr = 0xA004, fc_data = 7\<rparr>"
  let ?f = "last (tx_log (u3_net_stack_send_udp_pkt 0 0xC0A80A01 5000 X300_FW_COMMS_UDP_PORT (mem_of (fw_comms_bytes ?q)) 16 demo))"
  have d: "delivered 1 ?f ((frame_mem ?f)(0 := 1))" by (simp add: delivered_def)
  have e: "unat (1 :: u8) < MAX_NETHS" by (simp add: MAX_NETHS_def)
  have h: "find_index (\<lambda>(port, h). port = X300_FW_COMMS_UDP_PORT) (udp_handlers demo_x300) = Some 0"
      "snd (udp_handlers demo_x300 ! 0) = Udp_fw_comms"
    by (simp_all add: demo_x300_net demo_conf X300_FW_COMMS_UDP_PORT_def)
  have f: "arp_foreign demo_x300 (u3_net_stack_get_ip_addr 0 demo)" "\<not> is_bcast (u3_net_stack_get_ip_addr 0 demo) demo_x300"
    unfolding demo_conf(1) is_bcast_def MAX_NETHS_def ex_less_4
    by (simp_all add: arp_foreign_def demo_x300_net) (simp add: demo_def)
  have q: "plain_reg (fc_addr ?q)" "bit (fc_flags ?q) 0"
    by (simp_all add: plain_reg_def SR_ADDR_def x300_regs)
  from host_register_access [OF demo_wf demo_x300_wf demo_conf(7) e demo_resolve d h f q, of 64]
  show ?thesis by (auto simp: demo_x300_net bit_numeral_rec)
qed

subsection \<open>Addresses for a transport\<close>

lemma bus_poke_fields [simp]:
  "u3_net_stack_arp_cache_lookup d (wb_poke32 a v s) = u3_net_stack_arp_cache_lookup d s"
  by (simp add: wb_poke32_def)

text \<open>The two register words of an Ethernet address hold its bytes in network order.\<close>

lemma mac_words:
  assumes "length m = 6"
  shows "put16 (ucast (mac_hi m)) @ put32 (mac_lo m) = m" and "mac_hi m < 0x10000"
proof -
  obtain a b c d e f where m: "m = [a, b, c, d, e, f]"
    using assms by (auto simp: length_Suc_conv eval_nat_numeral)
  have high: "8 \<le> k \<Longrightarrow> \<not> bit x k" for k and x :: u8 using bit_imp_le_length [of x k] by auto
  have "hi8 (ucast (mac_hi m)) = a" "lo8 (ucast (mac_hi m)) = b" "hi8 (hi16 (mac_lo m)) = c"
      "lo8 (hi16 (mac_lo m)) = d" "hi8 (lo16 (mac_lo m)) = e" "lo8 (lo16 (mac_lo m)) = f"
    unfolding m mac_hi_def mac_lo_def hi8_def lo8_def hi16_def lo16_def
    by (auto intro!: bit_word_eqI simp: bit_simps not_less high)
  then show "put16 (ucast (mac_hi m)) @ put32 (mac_lo m) = m" by (simp add: m put16_def put32_def)
  have "mac_hi m = take_bit 16 (mac_hi m)"
    unfolding mac_hi_def by (intro bit_word_eqI) (auto simp: bit_simps high)
  then have "mac_hi m = mac_hi m mod 2 ^ 16" by (simp add: take_bit_eq_mod)
  also have "\<dots> < 2 ^ 16" by (intro word_mod_less_divisor) simp
  finally show "mac_hi m < 0x10000" by simp
qed

lemma arp_lookup_length:
  assumes "net_wf s" and "u3_net_stack_arp_cache_lookup d s = Some m"
  shows "length m = 6"
proof -
  have w: "length (net_conf_macs s) = 4" "length (arp_cache_ips s) = length (arp_cache_macs s)"
      "\<forall>m\<in>set (net_conf_macs s) \<union> set (arp_cache_macs s). length m = 6"
    using assms(1) by (auto simp: net_wf_def arp_wf_def MAX_NETHS_def)
  from assms(2) consider e where "e < 4" "m = net_conf_macs s ! e" | i where "i < length (arp_cache_ips s)" "m = arp_cache_macs s ! i"
    by (auto simp: u3_net_stack_arp_cache_lookup_def u3_net_stack_get_mac_addr_def MAX_NETHS_def unat_of_nat
        dest!: find_index_bound split: option.splits)
  then show ?thesis using w by cases auto
qed

text \<open>C14. Programming a transport by IP address.  A poke of an address to the lookup register (8) of the
  transport adapter of port 0 or 1 (settings register 144 or 160, four bytes each) writes the six bytes of the
  Ethernet address the cache has for it, in network order, as the last four bytes to register 3 and then the first two to
  register 4, and then the IP address to register 5 of the same adapter.  Without an entry, nothing is written and the reply
  has the lookup failure flag (bit 8), unless the request carried that flag already: then the IP address is
  written although the lookup failed.\<close>

theorem transport_mac_programmed:
  fixes sfp :: nat
  defines "reg \<equiv> (\<lambda>i. 0xa000 + 4 * ((if sfp = 0 then 144 else 160) + i) :: u32)"
  assumes wf: "net_wf s" and a: "fc_addr r = reg 8"
    and f: "bit (fc_flags r) 2" "\<not> bit (fc_flags r) 3"
  shows "let (reply, s') = fw_comms_act r s in
    case u3_net_stack_arp_cache_lookup (fc_data r) s of
      Some mac \<Rightarrow> reply = r
        \<and> (\<exists>hi lo. hi < 0x10000 \<and> put16 (ucast hi) @ put32 lo = mac
             \<and> trace s' = [Wr (reg 5) (fc_data r), Wr (reg 4) hi, Wr (reg 3) lo] @ trace s)
    | None \<Rightarrow> reply = r\<lparr>fc_flags := fc_flags r OR 0x100\<rparr>
        \<and> trace s' = (if bit (fc_flags r) 8 then [Wr (reg 5) (fc_data r)] else []) @ trace s"
proof -
  have b: "fc_flags r = fc_flags r OR BIT 8 \<longleftrightarrow> bit (fc_flags r) 8"
  proof
    assume "fc_flags r = fc_flags r OR BIT 8"
    then have "bit (fc_flags r) 8 = bit (fc_flags r OR BIT 8) 8" by (rule arg_cong)
    then show "bit (fc_flags r) 8" by (simp add: bit_or_iff bit_BIT)
  next
    assume "bit (fc_flags r) 8"
    then show "fc_flags r = fc_flags r OR BIT 8" by (intro bit_word_eqI) (auto simp: bit_or_iff bit_BIT)
  qed
  have flag: "BIT 8 = (0x100 :: u32)" by (simp add: BIT_def)
  note defs = fw_comms_act_def fw_comms_poke_def program_ta_mac_def fc_flag_bits Let_def case_prod_unfold
    X300_FW_COMMS_FLAGS_ARP_FAIL_def
  have run: "let (reply, s') = fw_comms_act r s in
    case u3_net_stack_arp_cache_lookup (fc_data r) s of
      Some mac \<Rightarrow> reply = r \<and> trace s' = [Wr (reg 5) (fc_data r), Wr (reg 4) (mac_hi mac), Wr (reg 3) (mac_lo mac)] @ trace s
    | None \<Rightarrow> reply = r\<lparr>fc_flags := fc_flags r OR BIT 8\<rparr>
        \<and> trace s' = (if bit (fc_flags r) 8 then [Wr (reg 5) (fc_data r)] else []) @ trace s"
  proof (cases "sfp = 0")
    case True
    then have "fc_addr r = 0xa260" using a by (simp add: reg_def)
    then show ?thesis using f True b
      by (auto simp: defs reg_def SR_ADDR_def x300_regs bit_or_iff bit_BIT split: option.split)
  next
    case False
    then have "fc_addr r = 0xa2a0" using a by (simp add: reg_def)
    then show ?thesis using f False b
      by (auto simp: defs reg_def SR_ADDR_def x300_regs bit_or_iff bit_BIT split: option.split)
  qed
  show ?thesis
  proof (cases "u3_net_stack_arp_cache_lookup (fc_data r) s")
    case None
    with run show ?thesis unfolding flag by (simp add: case_prod_unfold Let_def)
  next
    case (Some mac)
    with run mac_words [OF arp_lookup_length [OF wf Some]] show ?thesis by (auto simp: case_prod_unfold Let_def)
  qed
qed

lemma transport_mac_programmed_witness:
  "trace (snd (fw_comms_act \<lparr>fc_flags = 4, fc_sequence = 0, fc_addr = 0xa260, fc_data = 0xC0A80A01\<rparr> demo))
     = [Wr 0xa254 0xC0A80A01, Wr 0xa250 0x0102, Wr 0xa24c 0x03040506]"
proof -
  let ?r = "\<lparr>fc_flags = 4, fc_sequence = 0, fc_addr = 0xa260, fc_data = 0xC0A80A01\<rparr>"
  have l: "u3_net_stack_arp_cache_lookup 0xC0A80A01 demo = Some [1, 2, 3, 4, 5, 6]"
    by (simp add: u3_net_stack_arp_cache_lookup_def u3_net_stack_get_ip_addr_def MAX_NETHS_def upt_rec demo_def)
  have t0: "trace demo = []" by (simp add: demo_def)
  have p: "fc_addr ?r = 0xa000 + 4 * ((if (0 :: nat) = 0 then 144 else 160) + 8)"
    "bit (fc_flags ?r) 2" "\<not> bit (fc_flags ?r) 3"
    by (simp_all add: bit_numeral_rec)
  obtain hi lo where w: "hi < 0x10000" "put16 (ucast hi) @ put32 lo = [1, 2, 3, 4, 5, 6]"
      and tr: "trace (snd (fw_comms_act ?r demo)) = [Wr 0xa254 0xC0A80A01, Wr 0xa250 hi, Wr 0xa24c lo]"
    using transport_mac_programmed [OF demo_wf p] t0 by (auto simp: l case_prod_unfold Let_def)
  from w(2) have e: "hi8 (ucast hi) = 1" "lo8 (ucast hi) = 2" "hi8 (hi16 lo) = 3" "lo8 (hi16 lo) = 4"
      "hi8 (lo16 lo) = 5" "lo8 (lo16 lo) = 6"
    by (simp_all add: put16_def put32_def)
  have "ucast hi = (word_cat (1 :: u8) (2 :: u8) :: u16)"
      "lo = word_cat (word_cat (3 :: u8) (4 :: u8) :: u16) (word_cat (5 :: u8) (6 :: u8) :: u16)"
    unfolding e [symmetric] cat_hi8_lo8 cat_hi16_lo16 by simp_all
  then have "ucast hi = (0x0102 :: u16)" "lo = 0x03040506" by (simp_all add: word_cat_eq)
  moreover have "hi = 0x0102"
  proof -
    have "unat hi < 65536" using w(1) by (simp add: word_less_nat_alt)
    moreover have "unat hi mod 65536 = unat (ucast hi :: u16)" by (simp add: unsigned_ucast_eq take_bit_eq_mod)
    ultimately have "unat hi = 0x0102" using \<open>ucast hi = (0x0102 :: u16)\<close> by simp
    then show ?thesis by (intro word_unat_eq_iff [THEN iffD2]) simp
  qed
  ultimately show ?thesis using tr by simp
qed

subsection \<open>The claim\<close>

text \<open>
  The claim as a state machine: whether the device is claimed, the time word a client renews it
  with, the time word seen last, and the tick count of the last renewal.
\<close>

record claim =
  claim_status :: u32
  claim_time :: u32
  claim_seen :: u32
  claim_since :: u32

definition claim_of :: "'a x300_scheme \<Rightarrow> claim" where
  "claim_of s = \<lparr>claim_status = cell s (shmem_addr X300_FW_SHMEM_CLAIM_STATUS),
     claim_time = cell s (shmem_addr X300_FW_SHMEM_CLAIM_TIME),
     claim_seen = last_time s, claim_since = ticks_last_claim s\<rparr>"

definition claim_step :: "u32 \<Rightarrow> claim \<Rightarrow> claim" where
  "claim_step now c =
     (if claim_status c \<noteq> 0 \<and> (claim_time c = 0 \<or> now - claim_since c > CLAIM_TIMEOUT)
      then c\<lparr>claim_status := 0, claim_seen := claim_time c\<rparr>
      else if claim_seen c \<noteq> claim_time c
      then c\<lparr>claim_status := 1, claim_seen := claim_time c, claim_since := now\<rparr>
      else c)"

definition claim_ram :: "'a bus_scheme \<Rightarrow> bool" where
  "claim_ram s \<longleftrightarrow> ram (dev s) (shmem_addr X300_FW_SHMEM_CLAIM_STATUS) \<and> ram (dev s) (shmem_addr X300_FW_SHMEM_CLAIM_TIME)"

lemma claim_cells_distinct: "shmem_addr X300_FW_SHMEM_CLAIM_STATUS \<noteq> shmem_addr X300_FW_SHMEM_CLAIM_TIME"
  by (simp add: shmem_addr_def x300_consts)

lemma cell_x300_upd [simp]:
  "cell (s\<lparr>last_time := x\<rparr>) a = cell s a" "cell (s\<lparr>ticks_last_claim := y\<rparr>) a = cell s a"
  by (simp_all add: cell_def)

lemma x300_bus_fields [simp]:
  "last_time (wb_poke32 a v s) = last_time s" "last_time (snd (wb_peek32 a s)) = last_time s"
  "ticks_last_claim (wb_poke32 a v s) = ticks_last_claim s" "ticks_last_claim (snd (wb_peek32 a s)) = ticks_last_claim s"
  by (simp_all add: wb_poke32_def wb_peek32_def Let_def)

lemma fst_peek_cell: "fst (wb_peek32 a s) = cell s a"
  by (simp add: cell_def)

lemma claim_refine:
  assumes "claim_ram s"
  shows "claim_of (handle_claim now s) = claim_step now (claim_of s)"
  using assms claim_cells_distinct
  by (simp add: handle_claim_def claim_ram_def claim_of_def claim_step_def shmem_get_def shmem_set_def
      case_prod_unfold Let_def fst_peek_cell del: fst_peek)

definition claim_only :: "'a x300_scheme \<Rightarrow> 'a x300_scheme \<Rightarrow> bool" where
  "claim_only s s' \<longleftrightarrow> (\<exists>t x y. s' = s\<lparr>trace := t, last_time := x, ticks_last_claim := y\<rparr>)"

lemma claim_only_refl [simp]: "claim_only s s"
  unfolding claim_only_def by (intro exI [of _ "trace s"] exI [of _ "last_time s"] exI [of _ "ticks_last_claim s"]) simp

lemma claim_only_upd:
  assumes "claim_only s s'"
  shows "claim_only s (s'\<lparr>trace := t, last_time := x, ticks_last_claim := y\<rparr>)"
proof -
  from assms obtain t' x' y' where "s' = s\<lparr>trace := t', last_time := x', ticks_last_claim := y'\<rparr>"
    by (auto simp: claim_only_def)
  then show ?thesis
    unfolding claim_only_def by (intro exI [of _ t] exI [of _ x] exI [of _ y]) simp
qed

lemma claim_only_upds [simp]:
  assumes "claim_only s s'"
  shows "claim_only s (wb_poke32 a v s')" "claim_only s (snd (wb_peek32 a s'))" "claim_only s (s'\<lparr>last_time := x\<rparr>)"
    "claim_only s (s'\<lparr>last_time := x, ticks_last_claim := y\<rparr>)"
  using claim_only_upd [OF assms, where t = "Wr a v # trace s'" and x = "last_time s'" and y = "ticks_last_claim s'"]
    claim_only_upd [OF assms, where t = "Rd a (dev s' (trace s') a) # trace s'" and x = "last_time s'" and y = "ticks_last_claim s'"]
    claim_only_upd [OF assms, where t = "trace s'" and x = x and y = "ticks_last_claim s'"]
    claim_only_upd [OF assms, where t = "trace s'" and x = x and y = y]
  by (simp_all add: wb_poke32_def wb_peek32_def Let_def)

lemma handle_claim_frame: "\<exists>t x y. handle_claim now s = s\<lparr>trace := t, last_time := x, ticks_last_claim := y\<rparr>"
proof -
  have "claim_only s (handle_claim now s)"
    by (simp add: handle_claim_def shmem_get_def shmem_set_def Let_def case_prod_unfold)
  then show ?thesis by (simp add: claim_only_def)
qed

text \<open>C13. The claim of the device.  With the two claim words in memory, each turn's check is one step of the
  claim machine and touches nothing else: a released claim and one not renewed for two seconds
  end, a new time word starts or renews it.  So whenever the device counts as claimed, its
  claim was renewed at most two seconds ago.\<close>

theorem handle_claim_refines:
  assumes "claim_ram s"
  shows "claim_of (handle_claim now s) = claim_step now (claim_of s)
    \<and> (claim_status (claim_of (handle_claim now s)) \<noteq> 0 \<longrightarrow>
         now - claim_since (claim_of (handle_claim now s)) \<le> 2 * CPU_CLOCK)
    \<and> (\<exists>t x y. handle_claim now s = s\<lparr>trace := t, last_time := x, ticks_last_claim := y\<rparr>)"
proof -
  have "claim_status (claim_step now c) \<noteq> 0 \<Longrightarrow> now - claim_since (claim_step now c) \<le> 2 * CPU_CLOCK" for c
    by (auto simp: claim_step_def CLAIM_TIMEOUT_def not_less split: if_splits)
  then show ?thesis using claim_refine [OF assms, of now] handle_claim_frame by auto
qed

definition demo_claim :: "u32 \<Rightarrow> u32 \<Rightarrow> u32 \<Rightarrow> unit x300_scheme" where
  "demo_claim status time seen = demo_x300\<lparr>dev := last_written 0, last_time := seen,
     trace := [Wr (shmem_addr X300_FW_SHMEM_CLAIM_STATUS) status, Wr (shmem_addr X300_FW_SHMEM_CLAIM_TIME) time]\<rparr>"

lemma demo_claim_ram: "claim_ram (demo_claim x y z)"
  by (simp add: claim_ram_def demo_claim_def last_written_ram)

lemma demo_claim_of: "claim_of (demo_claim x y z) = \<lparr>claim_status = x, claim_time = y, claim_seen = z, claim_since = 0\<rparr>"
  using claim_cells_distinct
  by (simp add: claim_of_def cell_def demo_claim_def demo_x300_def udpuart.defs x300.defs)

lemma handle_claim_refines_witness:
  "claim_of (handle_claim 200000000 (demo_claim 1 5 5)) = \<lparr>claim_status = 0, claim_time = 5, claim_seen = 5, claim_since = 0\<rparr>"
  using handle_claim_refines [OF demo_claim_ram, of 200000000 1 5 5]
  by (simp add: demo_claim_of claim_step_def CLAIM_TIMEOUT_def CPU_CLOCK_def)

text \<open>A client that releases its claim after it has timed out claims the device again: the released
  time word differs from the one seen last, and counts as a renewal.\<close>

theorem late_release_claims:
  assumes "claim_ram s" and "claim_status (claim_of s) = 0" and "claim_time (claim_of s) = 0" and "claim_seen (claim_of s) \<noteq> 0"
  shows "claim_status (claim_of (handle_claim now s)) = 1
    \<and> claim_status (claim_of (handle_claim now' (handle_claim now s))) = 0"
proof -
  have one: "claim_of (handle_claim now s) = (claim_of s)\<lparr>claim_status := 1, claim_seen := 0, claim_since := now\<rparr>"
    unfolding claim_refine [OF assms(1)] using assms by (simp add: claim_step_def)
  have "claim_ram (handle_claim now s)"
    using assms(1) handle_claim_frame [of now s] by (auto simp: claim_ram_def)
  from claim_refine [OF this, of now'] show ?thesis
    using assms(3) by (simp add: one claim_step_def)
qed

lemma late_release_claims_witness:
  "claim_status (claim_of (handle_claim 7 (demo_claim 0 0 5))) = 1"
  using late_release_claims [OF demo_claim_ram, of 0 0 5 7 8] by (simp add: demo_claim_of)

subsection \<open>Reading the image\<close>

lemma read_buf_loop_facts:
  "length (snd (fst (read_buf_loop n b i s))) \<le> n \<and> bus_only s (snd (read_buf_loop n b i s))"
proof (induction n arbitrary: i s)
  case (Suc n)
  obtain ok w s1 where p: "chinch_peek16 (b + i * 2) (junk_word s) s = ((ok, w), s1)" by (metis prod.exhaust)
  have o: "bus_only s s1" by (rule peek16_step(2) [OF p])
  show ?case
  proof (cases ok)
    case True
    with p o Suc.IH [of "i + 1" s1] show ?thesis
      by (auto simp: case_prod_unfold Let_def intro: bus_only_trans)
  qed (use p o in \<open>simp add: case_prod_unfold Let_def\<close>)
qed simp

definition bridge_ready :: "'a bus_scheme \<Rightarrow> bool" where
  "bridge_ready s \<longleftrightarrow> (\<forall>t. dev s t PCIE_STATUS = 0)"

lemma ready_peek16:
  assumes "bridge_ready s"
  shows "fst (fst (chinch_peek16 a d s)) \<and> bridge_ready (snd (chinch_peek16 a d s))"
proof -
  have "\<And>t. dev s t PCIE_STATUS = 0" using assms by (simp add: bridge_ready_def)
  then show ?thesis
    by (simp add: chinch_peek16_def chinch_peek_def case_prod_unfold Let_def spin_timeout_ready bridge_ready_def)
qed

lemma ready_read_buf: "bridge_ready s \<Longrightarrow> length (snd (fst (read_buf_loop n b i s))) = n"
proof (induction n arbitrary: i s)
  case (Suc n)
  let ?r = "chinch_peek16 (b + i * 2) (junk_word s) s"
  have r: "fst (fst ?r)" "bridge_ready (snd ?r)" using ready_peek16 [OF Suc.prems] by blast+
  from r(1) Suc.IH [OF r(2), of "i + 1"] show ?case by (simp add: case_prod_unfold Let_def)
qed simp

lemma overrun_frames:
  "overrun (u3_net_stack_send_udp_pkt e d sp dp buff n s) = overrun s"
  "bus_only s s' \<Longrightarrow> overrun s' = overrun s"
proof -
  have "net_out s s' \<Longrightarrow> overrun s' = overrun s" for s s' :: "'a x300_scheme" by (auto simp: net_out_def)
  then show "overrun (u3_net_stack_send_udp_pkt e d sp dp buff n s) = overrun s" using net_out_udp by blast
qed (auto simp: bus_only_def)

text \<open>Reading the FPGA image back: a request for at most 128 words stays within the reply; but the size is
  the host's, and on a bridge that answers every request for more stores behind the end of the
  reply on the stack.\<close>

theorem fpga_read_bounds:
  assumes "12 \<le> num_bytes" and "\<not> bit (fp_flags m) 2" "\<not> bit (fp_flags m) 3"
  shows "\<exists>s'. handle_udp_fpga_read ethno src dst src_port dst_port (Some m) num_bytes s = Some s'
    \<and> (fp_size m \<le> 128 \<longrightarrow> overrun s' = overrun s)
    \<and> (128 < fp_size m \<and> bridge_ready s \<longrightarrow> overrun s')"
proof -
  let ?s1 = "snd (chinch_flash_select_sector (fp_sector m) s)"
  let ?r = "chinch_flash_read_buf (fp_index m * 2) (fp_size m) ?s1"
  let ?data = "snd (fst ?r)"
  have b1: "bus_only s ?s1" by (simp add: chinch_flash_select_sector_def chinch_poke32_def)
  have r: "length ?data \<le> unat (fp_size m)" "bus_only ?s1 (snd ?r)"
    using read_buf_loop_facts by (auto simp: chinch_flash_read_buf_def)
  have ov: "overrun (snd ?r) = overrun s" using overrun_frames(2) [OF bus_only_trans [OF b1 r(2)]] .
  have "bridge_ready s \<Longrightarrow> bridge_ready ?s1" using bus_only_dev [OF b1] by (simp add: bridge_ready_def)
  then have full: "bridge_ready s \<Longrightarrow> length ?data = unat (fp_size m)"
    using ready_read_buf by (auto simp: chinch_flash_read_buf_def)
  have run: "\<exists>bytes. handle_udp_fpga_read ethno src dst src_port dst_port (Some m) num_bytes s =
      Some (u3_net_stack_send_udp_pkt ethno src dst_port src_port bytes 272
        ((snd ?r)\<lparr>overrun := overrun (snd ?r) \<or> length ?data > FPGA_DATA_WORDS\<rparr>))"
    using assms
    by (auto simp: handle_udp_fpga_read_def case_prod_unfold Let_def x300_consts and_BIT_eq_0_iff not_less)
  have "fp_size m \<le> 128 \<Longrightarrow> \<not> FPGA_DATA_WORDS < length ?data"
    using r(1) by (simp add: FPGA_DATA_WORDS_def word_le_nat_alt)
  moreover have "128 < fp_size m \<Longrightarrow> bridge_ready s \<Longrightarrow> FPGA_DATA_WORDS < length ?data"
    using full by (simp add: FPGA_DATA_WORDS_def word_less_nat_alt)
  ultimately show ?thesis using run ov by (auto simp: overrun_frames(1))
qed

lemma fpga_read_bounds_witness:
  "\<exists>s'. handle_udp_fpga_read 0 0xC0A80A01 0xC0A80A05 5000 49159 (Some (mem_of (concat (map put32 [0, 0, 0, 129])))) 16 demo_x300
     = Some s' \<and> overrun s'"
proof -
  let ?m = "mem_of (concat (map put32 [0, 0, 0, 129]))"
  have f: "fp_flags ?m = 0"
    using be32_at [of "[]" 0 0 "concat (map put32 [0, 0, 129])"] by (simp add: fp_flags_def)
  have n: "fp_size ?m = 129"
    using be32_at [of "concat (map put32 [0, 0, 0])" 12 129 "[]"] by (simp add: fp_size_def)
  have "bridge_ready demo_x300" by (simp add: bridge_ready_def demo_x300_net)
  with fpga_read_bounds [of 16 ?m 0 "0xC0A80A01" "0xC0A80A05" 5000 49159 demo_x300] show ?thesis
    unfolding f n by auto
qed

end
