(* ===== verification/X300Uart.thy ===== *)
theory X300Uart
  imports X300Props
begin

unbundle bit_operations_syntax

section \<open>The serial port in shared memory\<close>

text \<open>
  The transmit half of \<^verbatim>\<open>handle_uarts\<close>: when it returns, what it sends, and when it
  never returns.
\<close>

definition TX_INDEX :: u32 where "TX_INDEX = shmem_addr X300_FW_SHMEM_UART_TX_INDEX"
definition TXCHAR :: u32 where "TXCHAR = UART0_BASE + SUART_TXCHAR * 4"
definition TXLEVEL :: u32 where "TXLEVEL = UART0_BASE + SUART_TXLEVEL * 4"

definition pool_addr :: "'a x300_scheme \<Rightarrow> nat \<Rightarrow> u32" where
  "pool_addr s k = txpool_addr s + 4 * of_nat (k div 4)"

text \<open>The serial port takes every character; the index and the pool are memory, apart from it.\<close>

definition tx_env :: "'a x300_scheme \<Rightarrow> bool" where
  "tx_env s \<longleftrightarrow> (\<forall>t. dev s t TXLEVEL \<noteq> 0) \<and> ram (dev s) TX_INDEX
     \<and> (\<forall>k<256. ram (dev s) (pool_addr s k) \<and> pool_addr s k \<noteq> TXCHAR)"

definition tx_word :: "'a x300_scheme \<Rightarrow> nat \<Rightarrow> u32" where
  "tx_word s k = drop_bit (8 * (k mod 4)) (cell s (pool_addr s k))"

lemma tx_index_not_char: "TX_INDEX \<noteq> TXCHAR"
  by (simp add: TX_INDEX_def TXCHAR_def shmem_addr_def x300_consts x300_regs SUART_TXCHAR_def)

lemma unat_next_offset:
  fixes w :: u32
  assumes "unat w < 256"
  shows "unat ((w + 1) mod (NUM_POOL_WORDS32 * 4)) = (unat w + 1) mod 256"
proof -
  have "unat (w + 1) = unat w + 1" using assms by (simp add: unat_u32_add_no_wrap)
  moreover have "NUM_POOL_WORDS32 * 4 = 256" by (simp add: NUM_POOL_WORDS32_def)
  ultimately show ?thesis by (simp add: unat_mod)
qed

lemma of_nat_unat_div4: "of_nat (unat (w :: u32) div 4) = w div 4"
proof (rule word_unat_eq_iff [THEN iffD2])
  have "unat w div 4 < 2 ^ 32" using unat_u32_less [of w] by simp
  then show "unat (of_nat (unat w div 4) :: u32) = unat (w div 4)"
    by (simp add: unat_div unat_of_nat take_bit_nat_eq_self)
qed

lemma x300_tx_fields [simp]:
  "txpool_addr (wb_poke32 a v s) = txpool_addr s" "txpool_addr (snd (wb_peek32 a s)) = txpool_addr s"
  "txoffset (wb_poke32 a v s) = txoffset s" "txoffset (snd (wb_peek32 a s)) = txoffset s"
  by (simp_all add: wb_poke32_def wb_peek32_def Let_def)

lemma tx_upd [simp]:
  "cell (s\<lparr>txoffset := x\<rparr>) a = cell s a" "wr_log (s\<lparr>txoffset := x\<rparr>) = wr_log s"
  by (simp_all add: cell_def wr_log_def)

text \<open>One character.\<close>

lemma uart_tx_char_step:
  assumes env: "tx_env s" and off: "unat (txoffset s) < 256"
  shows "\<exists>s'. uart_tx_char s = Some s' \<and> wr_log s' = Wr TXCHAR (tx_word s (unat (txoffset s))) # wr_log s
    \<and> unat (txoffset s') = (unat (txoffset s) + 1) mod 256 \<and> tx_env s' \<and> cell s' TX_INDEX = cell s TX_INDEX
    \<and> (\<forall>k<256. tx_word s' k = tx_word s k)"
proof -
  let ?k = "unat (txoffset s)"
  have pa: "txpool_addr s + 4 * (txoffset s div 4) = pool_addr s ?k"
    by (simp add: pool_addr_def of_nat_unat_div4)
  have sh: "unat ((txoffset s mod 4) * 8) = 8 * (?k mod 4)"
  proof -
    have "unat (txoffset s mod 4) = ?k mod 4" by (simp add: unat_mod)
    then show ?thesis by (subst unat_mult_lem [THEN iffD1]) simp_all
  qed
  let ?s1 = "snd (wb_peek32 (pool_addr s ?k) s)"
  let ?s2 = "wb_poke32 TXCHAR (tx_word s ?k) (snd (wb_peek32 TXLEVEL ?s1))"
  have "spin_while TXLEVEL (\<lambda>v. v = 0) ?s1 = Some (snd (wb_peek32 TXLEVEL ?s1))"
    using env by (subst spin_while.simps) (simp add: tx_env_def case_prod_unfold Let_def)
  then have run: "uart_tx_char s = Some (?s2\<lparr>txoffset := (txoffset s + 1) mod (NUM_POOL_WORDS32 * 4)\<rparr>)"
    unfolding uart_tx_char_def Let_def case_prod_unfold pa sh
    by (simp add: wb_uart_putc_def TXLEVEL_def TXCHAR_def tx_word_def cell_def)
  have cells: "cell ?s2 TX_INDEX = cell s TX_INDEX" "\<forall>k<256. cell ?s2 (pool_addr s k) = cell s (pool_addr s k)"
    using env tx_index_not_char by (auto simp: tx_env_def)
  show ?thesis
    unfolding run using env cells unat_next_offset [OF off]
    by (auto simp: tx_env_def tx_word_def pool_addr_def)
qed

text \<open>A read of the index changes nothing of this.\<close>

lemma tx_env_peek:
  assumes "tx_env s"
  shows "tx_env (snd (wb_peek32 TX_INDEX s))" "cell (snd (wb_peek32 TX_INDEX s)) TX_INDEX = cell s TX_INDEX"
    "k < 256 \<Longrightarrow> tx_word (snd (wb_peek32 TX_INDEX s)) k = tx_word s k"
  using assms by (simp_all add: tx_env_def tx_word_def pool_addr_def)

lemma uart_tx_loop_unfold:
  "uart_tx_loop s = (if txoffset s \<noteq> cell s TX_INDEX
     then uart_tx_char (snd (wb_peek32 TX_INDEX s)) \<bind> uart_tx_loop else Some (snd (wb_peek32 TX_INDEX s)))"
  by (subst uart_tx_loop.simps) (simp add: shmem_get_def case_prod_unfold Let_def cell_def TX_INDEX_def)

lemma uart_tx_loop_step:
  assumes "tx_env s" and "unat (txoffset s) < 256" and "txoffset s \<noteq> cell s TX_INDEX"
  shows "\<exists>s'. uart_tx_char (snd (wb_peek32 TX_INDEX s)) = Some s' \<and> uart_tx_loop s = uart_tx_loop s'
    \<and> wr_log s' = Wr TXCHAR (tx_word s (unat (txoffset s))) # wr_log s
    \<and> unat (txoffset s') = (unat (txoffset s) + 1) mod 256 \<and> tx_env s' \<and> cell s' TX_INDEX = cell s TX_INDEX
    \<and> (\<forall>k<256. tx_word s' k = tx_word s k)"
proof -
  let ?p = "snd (wb_peek32 TX_INDEX s)"
  have off: "unat (txoffset ?p) < 256" using assms(2) by simp
  from uart_tx_char_step [OF tx_env_peek(1) [OF assms(1)] off] obtain s' where
    "uart_tx_char ?p = Some s'" "wr_log s' = Wr TXCHAR (tx_word ?p (unat (txoffset ?p))) # wr_log ?p"
    "unat (txoffset s') = (unat (txoffset ?p) + 1) mod 256" "tx_env s'" "cell s' TX_INDEX = cell ?p TX_INDEX"
    "\<forall>k<256. tx_word s' k = tx_word ?p k" by blast
  then show ?thesis
    using assms by (intro exI [of _ s']) (simp add: uart_tx_loop_unfold [of s] tx_env_peek)
qed

lemma mod_256_moves:
  fixes a :: nat
  assumes "a < 256" and "Suc n < 256"
  shows "(a + Suc n) mod 256 \<noteq> a"
proof (cases "a + Suc n < 256")
  case False
  with assms have "(a + Suc n) mod 256 = a + Suc n - 256" by (simp add: mod_if)
  with assms False show ?thesis by linarith
qed simp

lemma uart_tx_drain:
  assumes "tx_env s" and "unat (txoffset s) < 256" and "n < 256" and "(unat (txoffset s) + n) mod 256 = unat (cell s TX_INDEX)"
  shows "\<exists>s'. uart_tx_loop s = Some s' \<and> txoffset s' = cell s TX_INDEX
    \<and> wr_log s' = rev (map (\<lambda>i. Wr TXCHAR (tx_word s ((unat (txoffset s) + i) mod 256))) [0..<n]) @ wr_log s"
  using assms
proof (induction n arbitrary: s)
  case 0
  then have "txoffset s = cell s TX_INDEX" by (simp add: word_unat_eq_iff)
  then show ?case by (simp add: uart_tx_loop_unfold [of s])
next
  case (Suc n)
  have "txoffset s \<noteq> cell s TX_INDEX"
  proof
    assume "txoffset s = cell s TX_INDEX"
    with Suc.prems have "(unat (txoffset s) + Suc n) mod 256 = unat (txoffset s)" by simp
    with mod_256_moves [OF Suc.prems(2,3)] show False by blast
  qed
  from uart_tx_loop_step [OF Suc.prems(1,2) this] obtain s1 where s1:
    "uart_tx_loop s = uart_tx_loop s1" "wr_log s1 = Wr TXCHAR (tx_word s (unat (txoffset s))) # wr_log s"
    "unat (txoffset s1) = (unat (txoffset s) + 1) mod 256" "tx_env s1" "cell s1 TX_INDEX = cell s TX_INDEX"
    "\<forall>k<256. tx_word s1 k = tx_word s k" by blast
  have "(unat (txoffset s1) + n) mod 256 = unat (cell s1 TX_INDEX)"
    using Suc.prems(4) by (simp add: s1(3,5) mod_simps)
  moreover have "unat (txoffset s1) < 256" by (simp add: s1(3))
  moreover have "n < 256" using Suc.prems(3) by simp
  ultimately obtain s' where s':
    "uart_tx_loop s1 = Some s'" "txoffset s' = cell s1 TX_INDEX"
    "wr_log s' = rev (map (\<lambda>i. Wr TXCHAR (tx_word s1 ((unat (txoffset s1) + i) mod 256))) [0..<n]) @ wr_log s1"
    using Suc.IH [OF s1(4)] by blast
  have "map (\<lambda>i. Wr TXCHAR (tx_word s1 ((unat (txoffset s1) + i) mod 256))) [0..<n]
      = map (\<lambda>i. Wr TXCHAR (tx_word s ((unat (txoffset s) + Suc i) mod 256))) [0..<n]"
    using s1(6) by (simp add: s1(3) mod_simps)
  moreover have "map (\<lambda>i. Wr TXCHAR (tx_word s ((unat (txoffset s) + i) mod 256))) [0..<Suc n]
      = Wr TXCHAR (tx_word s (unat (txoffset s))) # map (\<lambda>i. Wr TXCHAR (tx_word s ((unat (txoffset s) + Suc i) mod 256))) [0..<n]"
    using Suc.prems(2) by (simp add: upt_conv_Cons map_Suc_upt [symmetric] del: upt_Suc)
  ultimately show ?case using s' s1(1,2,5) by simp
qed

lemma uart_tx_hang:
  assumes "tx_env s" and "unat (txoffset s) < 256" and "256 \<le> cell s TX_INDEX"
  shows "uart_tx_loop s = None"
proof (rule ccontr)
  assume "uart_tx_loop s \<noteq> None"
  then obtain r where "uart_tx_loop s = Some r" by blast
  then have "\<not> (tx_env s \<and> unat (txoffset s) < 256 \<and> 256 \<le> cell s TX_INDEX)"
  proof (rule uart_tx_loop.raw_induct [rotated])
    fix f and s r :: "'a x300_scheme"
    assume IH: "\<And>s r. f s = Some r \<Longrightarrow> \<not> (tx_env s \<and> unat (txoffset s) < 256 \<and> 256 \<le> cell s TX_INDEX)"
      and eq: "(let (idx, s') = shmem_get X300_FW_SHMEM_UART_TX_INDEX s in
        if txoffset s' \<noteq> idx then uart_tx_char s' \<bind> f else Some s') = Some r"
    show "\<not> (tx_env s \<and> unat (txoffset s) < 256 \<and> 256 \<le> cell s TX_INDEX)"
    proof
      assume h: "tx_env s \<and> unat (txoffset s) < 256 \<and> 256 \<le> cell s TX_INDEX"
      then have ne: "txoffset s \<noteq> cell s TX_INDEX" by (auto simp: word_le_nat_alt)
      from uart_tx_loop_step [of s] h ne obtain s' where s': "uart_tx_char (snd (wb_peek32 TX_INDEX s)) = Some s'"
        "unat (txoffset s') = (unat (txoffset s) + 1) mod 256" "tx_env s'" "cell s' TX_INDEX = cell s TX_INDEX" by blast
      have "f s' = Some r"
        using eq ne s'(1) by (simp add: shmem_get_def case_prod_unfold Let_def cell_def TX_INDEX_def)
      from IH [OF this] s'(2-4) h show False by simp
    qed
  qed
  with assms show False by blast
qed

text \<open>Serial output.  With a port that takes characters, the transmit loop returns exactly when the index the
  host wrote is below 256; it then has sent, in order and once each, the characters of the
  ring from its own offset up to that index, and its offset is the index.  An index of 256 or
  more stops the firmware for good.\<close>

theorem uart_tx_returns_iff:
  assumes "tx_env s" and "unat (txoffset s) < 256"
  shows "(uart_tx_loop s \<noteq> None \<longleftrightarrow> cell s TX_INDEX < 256)
    \<and> (cell s TX_INDEX < 256 \<longrightarrow> (\<exists>s' n. uart_tx_loop s = Some s' \<and> txoffset s' = cell s TX_INDEX \<and> n < 256
        \<and> (unat (txoffset s) + n) mod 256 = unat (cell s TX_INDEX)
        \<and> wr_log s' = rev (map (\<lambda>i. Wr TXCHAR (tx_word s ((unat (txoffset s) + i) mod 256))) [0..<n]) @ wr_log s))"
proof (cases "cell s TX_INDEX < 256")
  case True
  let ?n = "(unat (cell s TX_INDEX) + 256 - unat (txoffset s)) mod 256"
  have "unat (cell s TX_INDEX) < 256" using True by (simp add: word_less_nat_alt)
  then have n: "?n < 256" "(unat (txoffset s) + ?n) mod 256 = unat (cell s TX_INDEX)"
    using assms(2) by (simp_all add: mod_simps)
  from uart_tx_drain [OF assms n] obtain s' where "uart_tx_loop s = Some s'" "txoffset s' = cell s TX_INDEX"
    "wr_log s' = rev (map (\<lambda>i. Wr TXCHAR (tx_word s ((unat (txoffset s) + i) mod 256))) [0..<?n]) @ wr_log s" by blast
  then show ?thesis using n True by blast
next
  case False
  with uart_tx_hang [OF assms] show ?thesis by (simp add: not_less)
qed

text \<open>A port that is always ready, with the index and the pool in memory.\<close>

definition tx_dev :: "access list \<Rightarrow> u32 \<Rightarrow> u32" where
  "tx_dev t a = (if a = TXLEVEL then 1 else last_written 0 t a)"

definition demo_tx :: "u32 \<Rightarrow> unit x300_scheme" where
  "demo_tx idx = demo_x300\<lparr>dev := tx_dev, trace := [Wr 0x7100 0x00636261, Wr TX_INDEX idx], txpool_addr := 0x7100, txoffset := 0\<rparr>"

lemma ram_tx_dev: "a \<noteq> TXLEVEL \<Longrightarrow> ram tx_dev a"
  unfolding ram_def tx_dev_def by (auto split: access.split)

lemma demo_pool_addr: "k < 256 \<Longrightarrow> unat (pool_addr (demo_tx i) k) = 0x7100 + 4 * (k div 4)"
proof -
  assume "k < 256"
  then have "unat (of_nat (k div 4) :: u32) = k div 4" by (simp add: unat_of_nat take_bit_nat_eq_self)
  moreover then have "unat (4 * of_nat (k div 4) :: u32) = 4 * (k div 4)"
    using \<open>k < 256\<close> by (subst unat_mult_lem [THEN iffD1]) simp_all
  ultimately show ?thesis
    using \<open>k < 256\<close> by (simp add: pool_addr_def demo_tx_def) (subst unat_u32_add_no_wrap, simp_all)
qed

lemma demo_tx_env: "tx_env (demo_tx i)"
proof -
  have c: "unat TXCHAR = 0xfd0c" "unat TXLEVEL = 0xfd04" "TX_INDEX \<noteq> TXLEVEL"
    by (simp_all add: TXCHAR_def TXLEVEL_def TX_INDEX_def shmem_addr_def x300_consts x300_regs suart_regs)
  have "pool_addr (demo_tx i) k \<noteq> TXCHAR \<and> pool_addr (demo_tx i) k \<noteq> TXLEVEL" if "k < 256" for k
    using demo_pool_addr [OF that, of i] c that by (auto simp: word_unat_eq_iff)
  moreover have "dev (demo_tx i) = tx_dev" by (simp add: demo_tx_def)
  ultimately show ?thesis
    using c(3) by (simp add: tx_env_def ram_tx_dev) (simp add: tx_dev_def)
qed

lemma uart_tx_returns_iff_witness:
  "uart_tx_loop (demo_tx 256) = None \<and> (\<exists>s'. uart_tx_loop (demo_tx 3) = Some s' \<and> txoffset s' = 3)"
proof -
  have o: "unat (txoffset (demo_tx i)) < 256" for i by (simp add: demo_tx_def)
  have c: "cell (demo_tx i) TX_INDEX = i" for i
    by (simp add: cell_def demo_tx_def tx_dev_def TXLEVEL_def TX_INDEX_def shmem_addr_def x300_consts x300_regs suart_regs)
  from uart_tx_returns_iff [OF demo_tx_env o, of 256] uart_tx_returns_iff [OF demo_tx_env o, of 3]
  show ?thesis by (auto simp: c)
qed

end
