(* ===== verification/X300Start.thy ===== *)
theory X300Start
  imports X300Uart
begin

unbundle bit_operations_syntax

section \<open>The network at start-up\<close>

lemma pkt_release_bus: "wb_pkt_iface64_rx_release c s = Some (c', s') \<Longrightarrow> bus_only s s'"
  unfolding wb_pkt_iface64_rx_release_def Let_def set_control_def
  by (auto simp: bind_eq_Some_conv dest!: bus_only_spin)

lemma pkt_init_bus: "wb_pkt_iface64_init b c s = Some (c', s') \<Longrightarrow> bus_only s s'"
  unfolding wb_pkt_iface64_init_def Let_def set_control_def
  by (drule pkt_release_bus) (auto simp: bus_only_def wb_poke32_def)

lemma wait_chk_ack_bus: "wait_chk_ack base s = Some (ack, s') \<Longrightarrow> bus_only s s'"
  unfolding wait_chk_ack_def wait_for_xfer_def
  by (auto simp: bind_eq_Some_conv Let_def case_prod_unfold dest!: bus_only_spin)

lemma i2c_write_bytes_bus: "i2c_write_bytes base bs s = Some (ok, s') \<Longrightarrow> bus_only s s'"
proof (induction bs arbitrary: s)
  case (Cons b bs)
  then show ?case
    by (auto simp: bind_eq_Some_conv Let_def split: if_splits dest!: wait_chk_ack_bus intro: bus_only_trans)
qed simp

lemma i2c_read_bytes_bus: "i2c_read_bytes base n s = Some (bs, s') \<Longrightarrow> bus_only s s'"
proof (induction n arbitrary: s bs)
  case (Suc n)
  from Suc.prems show ?case
    by (auto simp: bind_eq_Some_conv Let_def case_prod_unfold wait_for_xfer_def split: if_splits
        dest!: bus_only_spin Suc.IH intro: bus_only_trans)
qed simp

lemma wb_i2c_write_bus: "wb_i2c_write base a bs s = Some (ok, s') \<Longrightarrow> bus_only s s'"
  unfolding wb_i2c_write_def
  by (auto simp: bind_eq_Some_conv Let_def split: if_splits dest!: bus_only_spin wait_chk_ack_bus i2c_write_bytes_bus)
    (blast intro: bus_only_trans)+

lemma wb_i2c_read_bus: "wb_i2c_read base a n s = Some (r, s') \<Longrightarrow> bus_only s s'"
  unfolding wb_i2c_read_def
  by (auto simp: bind_eq_Some_conv Let_def split: if_splits dest!: bus_only_spin wait_chk_ack_bus i2c_read_bytes_bus)
    (blast intro: bus_only_trans)+


lemma register_icmp_trace:
  "u3_net_stack_register_icmp_handler ty c h (s\<lparr>trace := t\<rparr>) = (u3_net_stack_register_icmp_handler ty c h s)\<lparr>trace := t\<rparr>"
  by (simp add: u3_net_stack_register_icmp_handler_def)

lemma ini_trace:
  "link_state_route_proto_init (u3_net_stack_init cfg (s\<lparr>trace := t\<rparr>)) = (link_state_route_proto_init (u3_net_stack_init cfg s))\<lparr>trace := t\<rparr>"
proof -
  have "u3_net_stack_init cfg (s\<lparr>trace := t\<rparr>) = (u3_net_stack_init cfg s)\<lparr>trace := t\<rparr>"
  proof -
    have eq: "s\<lparr>trace := t, pkt_iface_config := cfg\<rparr> = (s\<lparr>pkt_iface_config := cfg\<rparr>)\<lparr>trace := t\<rparr>" by simp
    show ?thesis by (simp only: u3_net_stack_init_def Let_def eq register_icmp_trace)
  qed
  moreover have "link_state_route_proto_init (x\<lparr>trace := t\<rparr>) = (link_state_route_proto_init x)\<lparr>trace := t\<rparr>" for x :: "'a linkstate_scheme"
    by (simp add: link_state_route_proto_init_def Let_def register_icmp_trace)
  ultimately show ?thesis by simp
qed

text \<open>What is done before the addresses are known.\<close>

lemma init_network_prepared:
  assumes "init_network s = Some s'"
  shows "\<exists>cfg t m. s' = init_ports ((link_state_route_proto_init (u3_net_stack_init cfg s))\<lparr>trace := t, eeprom_map := m\<rparr>)"
proof -
  from assms obtain cfg s1 r s3 ok bs s4 where
      s1: "wb_pkt_iface64_init PKT_RAM0_BASE 0x1ffc s = Some (cfg, s1)"
    and s3: "wb_i2c_write I2C1_BASE (ucast MBOARD_EEPROM_ADDR) [0, 0]
               (link_state_route_proto_init (u3_net_stack_init cfg s1)) = Some (r, s3)"
    and s4: "wb_i2c_read I2C1_BASE (ucast MBOARD_EEPROM_ADDR) EEPROM_MAP_SIZE s3 = Some ((ok, bs), s4)"
    and rest: "s' = init_ports (if ok then s4\<lparr>eeprom_map := bs\<rparr> else s4)"
    unfolding init_network_def Let_def by (auto simp: bind_eq_Some_conv simp del: fst_conv)
  let ?ini = "\<lambda>s. link_state_route_proto_init (u3_net_stack_init cfg s)"
  have "bus_only (?ini s1) s4" using wb_i2c_write_bus [OF s3] wb_i2c_read_bus [OF s4] bus_only_trans by blast
  moreover have "bus_only s s1" using pkt_init_bus [OF s1] .
  ultimately obtain t where "s4 = (?ini s)\<lparr>trace := t\<rparr>" by (auto simp: bus_only_def ini_trace)
  then have "(if ok then s4\<lparr>eeprom_map := bs\<rparr> else s4) = (?ini s)\<lparr>trace := t, eeprom_map := (if ok then bs else eeprom_map (?ini s))\<rparr>"
    by simp
  with rest show ?thesis by (simp only:) blast
qed

definition eth_reg_writes :: "u32 \<Rightarrow> mac \<Rightarrow> ip \<Rightarrow> access list" where
  "eth_reg_writes ethint m ipa = [Wr (SR_ADDR SET0_BASE (ethint + 8)) (mac_lo m), Wr (SR_ADDR SET0_BASE (ethint + 9)) (mac_hi m),
     Wr (SR_ADDR SET0_BASE (ethint + 10)) ipa, Wr (SR_ADDR SET0_BASE (ethint + 11)) X300_VITA_UDP_PORT]"

lemma set_eth_regs_trace:
  "set_eth_regs ethint m ipa s = s\<lparr>trace := rev (eth_reg_writes ethint m ipa) @ trace s\<rparr>"
  by (simp add: set_eth_regs_def eth_reg_writes_def wb_poke32_def Let_def add.assoc)

lemma ini_fields:
  "net_conf_macs (link_state_route_proto_init (u3_net_stack_init cfg s)) = net_conf_macs s"
  "net_conf_ips (link_state_route_proto_init (u3_net_stack_init cfg s)) = net_conf_ips s"
  "net_conf_subnets (link_state_route_proto_init (u3_net_stack_init cfg s)) = net_conf_subnets s"
  "dev (link_state_route_proto_init (u3_net_stack_init cfg s)) = dev s"
  "icmp_handlers s = [] \<Longrightarrow> icmp_handlers (link_state_route_proto_init (u3_net_stack_init cfg s)) =
     [((ICMP_ECHO, 0), Icmp_echo), ((ICMP_DUR, ICMP_DUR_PORT), Icmp_dur), ((ICMP_IRQ, 0), Icmp_irq), ((ICMP_IR, 0), Icmp_ir)]"
  by (simp_all add: link_state_route_proto_init_def u3_net_stack_init_def u3_net_stack_register_icmp_handler_def Let_def
      ICMP_NHANDLERS_def)

text \<open>The state the ports are left in, with the two types that were read.\<close>

lemma init_ports_result:
  fixes s :: "'a x300_scheme"
  defines "t0 \<equiv> dev s (trace s) (SR_ADDR RB0_BASE RB_SFP0_TYPE)"
  defines "t1 \<equiv> dev s (Rd (SR_ADDR RB0_BASE RB_SFP0_TYPE) t0 # trace s) (SR_ADDR RB0_BASE RB_SFP1_TYPE)"
  defines "i0 \<equiv> (if t0 \<noteq> 0 then 2 else 0)" and "i1 \<equiv> (if t1 \<noteq> 0 then 3 else 1)" and "m \<equiv> eeprom_map s"
  shows "init_ports s = s\<lparr>
      trace := rev (Rd (SR_ADDR RB0_BASE RB_SFP0_TYPE) t0 # Rd (SR_ADDR RB0_BASE RB_SFP1_TYPE) t1
          # eth_reg_writes SR_ETHINT0 (port_mac 0 m) (port_ip i0 m) @ eth_reg_writes SR_ETHINT1 (port_mac 1 m) (port_ip i1 m)) @ trace s,
      net_conf_macs := (net_conf_macs s)[0 := port_mac 0 m, 1 := port_mac 1 m],
      net_conf_ips := (net_conf_ips s)[0 := port_ip i0 m, 1 := port_ip i1 m],
      net_conf_subnets := (net_conf_subnets s)[0 := port_subnet i0 m, 1 := port_subnet i1 m],
      net_stat_counts := (net_stat_counts s)[0 := 0, 1 := 0]\<rparr>"
  unfolding init_ports_def set_eth_regs_trace u3_net_stack_init_eth_def wb_peek32_def Let_def
  by (simp flip: i0_def i1_def t0_def t1_def m_def)

text \<open>Start-up gives each port the addresses of the EEPROM, or the defaults where a field is blank, for
  the image's speed: the network stack and the four registers of each port's interface hold
  the same Ethernet and IP addresses, written last and in order; and the four ICMP handlers
  are registered.\<close>

theorem init_network_config:
  assumes "init_network s = Some s'"
    and "length (net_conf_macs s) = MAX_NETHS" "length (net_conf_ips s) = MAX_NETHS" "length (net_conf_subnets s) = MAX_NETHS"
  shows "\<exists>t0 t1 i0 i1 old. i0 = (if t0 \<noteq> 0 then 2 else 0) \<and> i1 = (if t1 \<noteq> 0 then 3 else 1)
    \<and> trace s' = rev (Rd (SR_ADDR RB0_BASE RB_SFP0_TYPE) t0 # Rd (SR_ADDR RB0_BASE RB_SFP1_TYPE) t1
        # eth_reg_writes SR_ETHINT0 (u3_net_stack_get_mac_addr 0 s') (u3_net_stack_get_ip_addr 0 s')
        @ eth_reg_writes SR_ETHINT1 (u3_net_stack_get_mac_addr 1 s') (u3_net_stack_get_ip_addr 1 s')) @ old
    \<and> u3_net_stack_get_mac_addr 0 s' = port_mac 0 (eeprom_map s') \<and> u3_net_stack_get_mac_addr 1 s' = port_mac 1 (eeprom_map s')
    \<and> u3_net_stack_get_ip_addr 0 s' = port_ip i0 (eeprom_map s') \<and> u3_net_stack_get_ip_addr 1 s' = port_ip i1 (eeprom_map s')
    \<and> u3_net_stack_get_subnet 0 s' = port_subnet i0 (eeprom_map s') \<and> u3_net_stack_get_subnet 1 s' = port_subnet i1 (eeprom_map s')
    \<and> (icmp_handlers s = [] \<longrightarrow> map fst (icmp_handlers s') = [(ICMP_ECHO, 0), (ICMP_DUR, ICMP_DUR_PORT), (ICMP_IRQ, 0), (ICMP_IR, 0)])"
proof -
  from init_network_prepared [OF assms(1)] obtain cfg t m where
    s': "s' = init_ports ((link_state_route_proto_init (u3_net_stack_init cfg s))\<lparr>trace := t, eeprom_map := m\<rparr>)" by blast
  define t0 where "t0 = dev s t (SR_ADDR RB0_BASE RB_SFP0_TYPE)"
  define t1 where "t1 = dev s (Rd (SR_ADDR RB0_BASE RB_SFP0_TYPE) t0 # t) (SR_ADDR RB0_BASE RB_SFP1_TYPE)"
  define i0 :: nat where "i0 = (if t0 \<noteq> 0 then 2 else 0)"
  define i1 :: nat where "i1 = (if t1 \<noteq> 0 then 3 else 1)"
  have len: "0 < length (net_conf_macs s)" "0 < length (net_conf_ips s)" "0 < length (net_conf_subnets s)"
      "Suc 0 < length (net_conf_macs s)" "Suc 0 < length (net_conf_ips s)" "Suc 0 < length (net_conf_subnets s)"
    using assms(2-4) by (simp_all add: MAX_NETHS_def)
  note r = s' [unfolded init_ports_result, simplified ini_fields, simplified, unfolded ini_fields, folded t0_def, folded t1_def, folded i0_def i1_def]
  have g: "u3_net_stack_get_mac_addr 0 s' = port_mac 0 m" "u3_net_stack_get_mac_addr 1 s' = port_mac 1 m"
      "u3_net_stack_get_ip_addr 0 s' = port_ip i0 m" "u3_net_stack_get_ip_addr 1 s' = port_ip i1 m"
      "u3_net_stack_get_subnet 0 s' = port_subnet i0 m" "u3_net_stack_get_subnet 1 s' = port_subnet i1 m"
    using len by (simp_all add: r ini_fields u3_net_stack_get_mac_addr_def u3_net_stack_get_ip_addr_def u3_net_stack_get_subnet_def)
  have m: "eeprom_map s' = m" by (simp add: r)
  have tr: "trace s' = rev (Rd (SR_ADDR RB0_BASE RB_SFP0_TYPE) t0 # Rd (SR_ADDR RB0_BASE RB_SFP1_TYPE) t1
        # eth_reg_writes SR_ETHINT0 (port_mac 0 m) (port_ip i0 m) @ eth_reg_writes SR_ETHINT1 (port_mac 1 m) (port_ip i1 m)) @ t"
    by (simp add: r)
  have ic: "icmp_handlers s = [] \<Longrightarrow> map fst (icmp_handlers s') = [(ICMP_ECHO, 0), (ICMP_DUR, ICMP_DUR_PORT), (ICMP_IRQ, 0), (ICMP_IR, 0)]"
    by (simp add: r ini_fields)
  show ?thesis
    unfolding g m using tr ic
    by (intro exI [of _ t0] exI [of _ t1] exI [of _ i0] exI [of _ i1] exI [of _ t]) (simp add: i0_def i1_def)
qed

text \<open>On a board that answers zero to everything the network comes up with the defaults.\<close>

lemma zero_i2c:
  assumes "dev s = (\<lambda>_ _. 0)"
  shows "\<exists>s'. wait_chk_ack base s = Some (True, s') \<and> dev s' = (\<lambda>_ _. 0)"
    and "\<exists>r s'. i2c_write_bytes base bs s = Some (r, s') \<and> dev s' = (\<lambda>_ _. 0)"
    and "\<exists>r s'. i2c_read_bytes base n s = Some (r, s') \<and> dev s' = (\<lambda>_ _. 0)"
proof -
  have ack: "\<exists>s'. wait_chk_ack base s = Some (True, s') \<and> dev s' = (\<lambda>_ _. 0)" if "dev s = (\<lambda>_ _. 0)" for s :: "'a bus_scheme"
    using that by (simp add: wait_chk_ack_def wait_for_xfer_def spin_const Let_def case_prod_unfold)
  then show "\<exists>s'. wait_chk_ack base s = Some (True, s') \<and> dev s' = (\<lambda>_ _. 0)" using assms by blast
  show "\<exists>r s'. i2c_write_bytes base bs s = Some (r, s') \<and> dev s' = (\<lambda>_ _. 0)" using assms
  proof (induction bs arbitrary: s)
    case (Cons b bs)
    let ?s = "wb_poke32 (base + cmd_status) (I2C_CMD_WR OR (if bs = [] then I2C_CMD_STOP else 0)) (wb_poke32 (base + i2c_data) (ucast b) s)"
    from ack [of ?s] Cons.prems obtain s1 where s1: "wait_chk_ack base ?s = Some (True, s1)" "dev s1 = (\<lambda>_ _. 0)" by auto
    from Cons.IH [OF s1(2)] s1(1) show ?case by (simp add: Let_def)
  qed auto
  show "\<exists>r s'. i2c_read_bytes base n s = Some (r, s') \<and> dev s' = (\<lambda>_ _. 0)" using assms
  proof (induction n arbitrary: s)
    case (Suc n)
    let ?s = "wb_poke32 (base + cmd_status) (I2C_CMD_RD OR (if Suc n = 1 then I2C_CMD_NACK OR I2C_CMD_STOP else 0)) s"
    let ?s1 = "snd (wb_peek32 (base + i2c_data) (snd (wb_peek32 (base + cmd_status) ?s)))"
    have "wait_for_xfer base ?s = Some (snd (wb_peek32 (base + cmd_status) ?s))"
      using Suc.prems by (simp add: wait_for_xfer_def spin_const)
    moreover have "dev ?s1 = (\<lambda>_ _. 0)" using Suc.prems by simp
    ultimately show ?case using Suc.IH [of ?s1] by (auto simp: Let_def case_prod_unfold)
  qed simp
qed

lemma zero_init_network:
  assumes "dev s = (\<lambda>_ _. 0)"
  shows "\<exists>s'. init_network s = Some s'"
proof -
  obtain cfg s1 where i: "wb_pkt_iface64_init PKT_RAM0_BASE 0x1ffc s = Some (cfg, s1)" "dev s1 = (\<lambda>_ _. 0)"
    using assms by (simp add: wb_pkt_iface64_init_def wb_pkt_iface64_rx_release_def set_control_def spin_const Let_def)
  let ?s2 = "link_state_route_proto_init (u3_net_stack_init cfg s1)"
  have z: "dev ?s2 = (\<lambda>_ _. 0)" by (simp add: ini_fields i)
  obtain r s3 where w: "wb_i2c_write I2C1_BASE (ucast MBOARD_EEPROM_ADDR) [0, 0] ?s2 = Some (r, s3)" "dev s3 = (\<lambda>_ _. 0)"
  proof -
    let ?s = "wb_poke32 (I2C1_BASE + cmd_status) (I2C_CMD_WR OR (I2C_CMD_START OR 0))
      (wb_poke32 (I2C1_BASE + i2c_data) (push_bit 1 (ucast (ucast MBOARD_EEPROM_ADDR :: u8)) OR 0) (snd (wb_peek32 (I2C1_BASE + cmd_status) ?s2)))"
    have "dev ?s = (\<lambda>_ _. 0)" using z by simp
    from zero_i2c(1) [OF this] obtain s' where s': "wait_chk_ack I2C1_BASE ?s = Some (True, s')" "dev s' = (\<lambda>_ _. 0)" by blast
    obtain r s5 where s5: "i2c_write_bytes I2C1_BASE [0, 0] s' = Some (r, s5)" "dev s5 = (\<lambda>_ _. 0)"
      using zero_i2c(2) [OF s'(2)] by blast
    show ?thesis
      by (rule that [of r s5]) (use z s'(1) s5 in \<open>simp_all add: wb_i2c_write_def spin_const Let_def or.assoc del: i2c_write_bytes.simps\<close>)
  qed
  obtain x s4 where "wb_i2c_read I2C1_BASE (ucast MBOARD_EEPROM_ADDR) EEPROM_MAP_SIZE s3 = Some (x, s4)"
  proof -
    let ?s = "wb_poke32 (I2C1_BASE + cmd_status) (I2C_CMD_WR OR I2C_CMD_START)
      (wb_poke32 (I2C1_BASE + i2c_data) (push_bit 1 (ucast (ucast MBOARD_EEPROM_ADDR :: u8)) OR 1) (snd (wb_peek32 (I2C1_BASE + cmd_status) s3)))"
    have "dev ?s = (\<lambda>_ _. 0)" using w(2) by simp
    from zero_i2c(1) [OF this] obtain s' where s': "wait_chk_ack I2C1_BASE ?s = Some (True, s')" "dev s' = (\<lambda>_ _. 0)" by blast
    obtain bs s5 where s5: "i2c_read_bytes I2C1_BASE EEPROM_MAP_SIZE s' = Some (bs, s5)"
      using zero_i2c(3) [OF s'(2)] by blast
    have nz: "EEPROM_MAP_SIZE \<noteq> 0" by (simp add: EEPROM_MAP_SIZE_def)
    show ?thesis
      by (rule that [of "(True, bs)" s5]) (use s'(1) w(2) nz s5 in \<open>simp add: wb_i2c_read_def spin_const Let_def\<close>)
  qed
  then show ?thesis
    using i w by (cases x) (auto simp: init_network_def)
qed

lemma init_network_config_witness:
  "\<exists>s'. init_network demo_x300 = Some s' \<and> u3_net_stack_get_mac_addr 0 s' = port_mac 0 (eeprom_map s')"
proof -
  obtain s' where s': "init_network demo_x300 = Some s'" using zero_init_network [of demo_x300] by (auto simp: demo_x300_net)
  have l: "length (net_conf_macs demo_x300) = MAX_NETHS" "length (net_conf_ips demo_x300) = MAX_NETHS"
    "length (net_conf_subnets demo_x300) = MAX_NETHS"
    using demo_x300_wf by (simp_all add: net_wf_def arp_wf_def)
  from init_network_config [OF s' l] s' show ?thesis by blast
qed

end
