(* ===== verification/LinkStateRuns.thy ===== *)
theory LinkStateRuns
  imports LinkStateProps
begin

unbundle bit_operations_syntax

section \<open>Runs of the link state protocol\<close>

text \<open>
  What holds over sequences of packets and periodic calls: the cached answer of the cycle test for a port is the
  one for the links at the port's last accepted announcement, and an announcement that has been taken is not
  taken again as long as its entry can be found.
\<close>

subsection \<open>The cache of the cycle test\<close>

definition reaches :: "ls_node_mapping_t list \<Rightarrow> ip \<Rightarrow> ip \<Rightarrow> bool" where
  "reaches maps a b \<longleftrightarrow> b \<in> Domain (live_links maps) \<and> (a, b) \<in> (live_links maps)\<^sup>*"

lemma set_causes_cycle_fields [simp]:
  "ls_node_maps (set_causes_cycle i j b s) = ls_node_maps s"
  "u3_net_stack_get_ip_addr x (set_causes_cycle i j b s) = u3_net_stack_get_ip_addr x s"
  by (simp_all add: set_causes_cycle_def u3_net_stack_get_ip_addr_def)

lemma set_causes_cycle_cell:
  assumes "ls_wf s" and "i < LS_NETHS" and "j < LS_NETHS" and "k < LS_NETHS" and "l < LS_NETHS"
  shows "ls_causes_cycle (set_causes_cycle i j b s) ! k ! l = (if k = i \<and> l = j then b else ls_causes_cycle s ! k ! l)"
proof -
  have "length (ls_causes_cycle s) = LS_NETHS" "length (ls_causes_cycle s ! i) = LS_NETHS"
    using assms by (auto simp: ls_wf_def)
  then show ?thesis using assms by (auto simp: set_causes_cycle_def nth_list_update)
qed

lemma update_cycle_cache_cell:
  assumes wf: "ls_wf s" and b: "unat e < LS_NETHS" "k < LS_NETHS" "l < LS_NETHS"
  shows "ls_causes_cycle (link_state_route_proto_update_cycle_cache e s) ! k ! l =
    (if k = unat e \<and> l \<noteq> unat e \<and> l < ethernet_ninterfaces
     then reaches (ls_node_maps s) (u3_net_stack_get_ip_addr e s) (u3_net_stack_get_ip_addr (of_nat l) s)
     else ls_causes_cycle s ! k ! l)"
proof -
  have two: "ethernet_ninterfaces = 2" "(0 :: nat) < LS_NETHS" "(1 :: nat) < LS_NETHS"
    by (simp_all add: ethernet_ninterfaces_def NETHS_def LS_NETHS_def)
  show ?thesis
    unfolding link_state_route_proto_update_cycle_cache_def ninterfaces_list
    using wf b two
    by (auto simp: set_causes_cycle_cell set_causes_cycle_wf causes_cycle_iff reaches_def less_2_cases_iff)
qed

text \<open>A step on a port writes no cell outside of the port's row, and none on the diagonal or for a port that does not exist.\<close>

definition row_only :: "u8 \<Rightarrow> 'a linkstate_scheme \<Rightarrow> 'a linkstate_scheme \<Rightarrow> bool" where
  "row_only p s s' \<longleftrightarrow> (\<forall>i<LS_NETHS. \<forall>j<LS_NETHS. i \<noteq> unat p \<or> i = j \<or> ethernet_ninterfaces \<le> j
     \<longrightarrow> ls_causes_cycle s' ! i ! j = ls_causes_cycle s ! i ! j)"

lemma row_only_refl: "ls_causes_cycle s' = ls_causes_cycle s \<Longrightarrow> row_only p s s'"
  by (simp add: row_only_def)

lemma row_only_trans: "row_only p s s' \<Longrightarrow> row_only p s' s'' \<Longrightarrow> row_only p s s''"
  by (simp add: row_only_def)

lemma update_cycle_cache_row: "ls_wf s \<Longrightarrow> unat p < LS_NETHS \<Longrightarrow> row_only p s (link_state_route_proto_update_cycle_cache p s)"
  by (auto simp: row_only_def update_cycle_cache_cell)

text \<open>The states a taken announcement passes through before the cache is updated.\<close>

lemma send_all_before_cache:
  assumes "fst (ls_node_entries_update (ls_ticker s) e sq (ls_node m) (ls_nodes s))" and wf: "ls_wf s"
  obtains f where "send_link_state_data_to_all_neighbors e sq m s = link_state_route_proto_update_cycle_cache e f"
    and "ls_wf f" and "ls_causes_cycle f = ls_causes_cycle s" and "net_conf_ips f = net_conf_ips s"
    and "ls_node_maps f = ls_node_maps (update_node_mappings m
      (s\<lparr>ls_nodes := snd (ls_node_entries_update (ls_ticker s) e sq (ls_node m) (ls_nodes s))\<rparr>))"
proof -
  let ?n = "snd (ls_node_entries_update (ls_ticker s) e sq (ls_node m) (ls_nodes s))"
  have "ls_nodes s \<noteq> []" using wf by (auto simp: ls_wf_def ls_sizes)
  from entries_update_length [OF this] wf have w1: "ls_wf (s\<lparr>ls_nodes := ?n\<rparr>)" by (simp add: ls_wf_def)
  obtain maps where maps: "update_node_mappings m (s\<lparr>ls_nodes := ?n\<rparr>) = s\<lparr>ls_nodes := ?n, ls_node_maps := maps\<rparr>"
    using update_node_mappings_frame [of m "s\<lparr>ls_nodes := ?n\<rparr>"] by auto
  let ?s2 = "s\<lparr>ls_nodes := ?n, ls_node_maps := maps\<rparr>"
  have "0 < length (ls_node_maps (s\<lparr>ls_nodes := ?n\<rparr>))" using w1 by (simp add: ls_wf_def ls_sizes)
  from update_node_mappings_length [OF this, of m] w1 have w2: "ls_wf ?s2" unfolding maps by (simp add: ls_wf_def)
  have out: "net_out ?s2 (forward_link_state sq m ?s2)" by (rule forward_link_state_out)
  show thesis
  proof (rule that)
    show "send_link_state_data_to_all_neighbors e sq m s = link_state_route_proto_update_cycle_cache e (forward_link_state sq m ?s2)"
      using assms(1) by (simp add: send_link_state_data_to_all_neighbors_def case_prod_unfold Let_def maps)
  qed (use net_out_wf [OF out w2] net_out_ls [OF out] net_out_keeps [OF out] maps in simp_all)
qed

lemma send_all_row:
  assumes wf: "ls_wf s" and p: "unat p < LS_NETHS"
  shows "row_only p s (send_link_state_data_to_all_neighbors p sq m s)"
proof (cases "fst (ls_node_entries_update (ls_ticker s) p sq (ls_node m) (ls_nodes s))")
  case True
  then obtain f where "send_link_state_data_to_all_neighbors p sq m s = link_state_route_proto_update_cycle_cache p f"
      "ls_wf f" "ls_causes_cycle f = ls_causes_cycle s"
    using send_all_before_cache [OF True wf] by metis
  then show ?thesis using update_cycle_cache_row [of f p] p row_only_refl row_only_trans by metis
next
  case False
  then show ?thesis by (simp add: send_all_tables(4) row_only_refl)
qed

lemma flood_row:
  assumes wf: "ls_wf s" and p: "unat p < LS_NETHS"
  shows "row_only p s (link_state_route_proto_flood p s)"
proof -
  let ?f = "\<lambda>k s. (let ls_data = mem_of (flood_data k s); sq = ls_current_seq s; s = s\<lparr>ls_current_seq := sq + 1\<rparr>
        in send_link_state_data_to_all_neighbors p sq ls_data s)"
  have w: "ls_wf (s\<lparr>ls_current_seq := q\<rparr>)" "row_only p s (s\<lparr>ls_current_seq := q\<rparr>)" if "ls_wf s" for q and s :: "'a linkstate_scheme"
    using that by (simp_all add: ls_wf_def row_only_def)
  have step: "row_only p s (?f k s) \<and> ls_wf (?f k s)" if "ls_wf s" for k and s :: "'a linkstate_scheme"
    unfolding Let_def using w [OF that] send_all_row [OF w(1) [OF that] p] send_all_wf_only [OF w(1) [OF that]] row_only_trans by blast
  show ?thesis
    unfolding link_state_route_proto_flood_def ninterfaces_list fold_simps
    using step [OF wf, of 0] step [of "?f 0 s" 1] row_only_trans by blast
qed

lemma ls_step_row:
  assumes "ls_step p s s'" and wf: "ls_wf s"
  shows "row_only p s s'"
  using assms(1)
proof (cases rule: ls_step.cases)
  case step_tick
  then show ?thesis by (simp add: link_state_route_proto_tick_def row_only_refl)
next
  case step_update
  let ?s = "s\<lparr>ls_current_seq := ls_current_seq s + 1\<rparr>"
  have "net_out ?s s'"
    unfolding step_update link_state_route_proto_update_def Let_def case_prod_unfold
    by (rule net_out_trans [OF net_out_bcast net_out_icmp])
  then show ?thesis using net_out_ls(6) by (intro row_only_refl) fastforce
next
  case step_flood
  then show ?thesis using flood_row [OF wf] by blast
next
  case step_cache
  then show ?thesis using update_cycle_cache_row [OF wf] by blast
next
  case (step_ir src dst ident sq buff n)
  let ?n = "snd (ls_node_entries_update (ls_ticker s) p sq src (ls_nbors s))"
  have "ls_nbors s \<noteq> []" using wf by (auto simp: ls_wf_def ls_sizes)
  from entries_update_length [OF this] wf have "ls_wf (s\<lparr>ls_nbors := ?n\<rparr>)" by (simp add: ls_wf_def)
  then have "row_only p (s\<lparr>ls_nbors := ?n\<rparr>) (link_state_route_proto_flood p (s\<lparr>ls_nbors := ?n\<rparr>))"
    using flood_row step_ir(1) by blast
  moreover have "row_only p s (s\<lparr>ls_nbors := ?n\<rparr>)" by (simp add: row_only_refl)
  moreover have "s' = s \<or> s' = link_state_route_proto_flood p (s\<lparr>ls_nbors := ?n\<rparr>)"
    using step_ir by (auto simp: handle_icmp_ir_def Let_def case_prod_unfold split: if_splits)
  ultimately show ?thesis using row_only_trans row_only_refl by metis
next
  case (step_irq src dst ident sq buff n)
  let ?m = "case buff of Some m \<Rightarrow> m | None \<Rightarrow> no_mem"
  have "s' = s \<or> net_out s s' \<or> s' = send_link_state_data_to_all_neighbors p sq ?m s"
    using step_irq net_out_icmp by (auto simp: handle_icmp_irq_def Let_def split: if_splits)
  then show ?thesis using send_all_row [OF wf] step_irq(1) net_out_ls(6) row_only_refl by metis
qed

definition other_port :: "u8 \<Rightarrow> 'a linkstate_scheme \<Rightarrow> 'a linkstate_scheme \<Rightarrow> bool" where
  "other_port e s s' \<longleftrightarrow> (\<exists>p. p \<noteq> e \<and> ls_step p s s')"

lemma other_port_run:
  assumes "(other_port e)\<^sup>*\<^sup>* s s'" and "ls_wf s" and e: "unat e < LS_NETHS"
  shows "ls_wf s' \<and> (\<forall>i<LS_NETHS. \<forall>j<LS_NETHS. i = unat e \<or> i = j \<or> ethernet_ninterfaces \<le> j
     \<longrightarrow> ls_causes_cycle s' ! i ! j = ls_causes_cycle s ! i ! j)"
  using assms(1)
proof (induction rule: rtranclp_induct)
  case (step t u)
  then obtain p where p: "p \<noteq> e" "ls_step p t u" by (auto simp: other_port_def)
  then have "unat p \<noteq> unat e" by (simp add: word_unat_eq_iff)
  with step.IH ls_step_row [OF p(2)] ls_step_wf_only [OF p(2)] show ?case by (auto simp: row_only_def)
qed (use assms(2) in simp)

text \<open>C8. The cached answer of the cycle test.  When an announcement on a port has been taken, the answers cached for the port are
  those of reachability over the links the announcement left in the table: from the port's address a path of links leads to the other port's, which is a
  node with links of its own.  They stay so through whatever arrives on other ports and whatever the periodic
  calls do there, and the cells of the diagonal and of ports that do not exist keep their initial value.\<close>

theorem cycle_cache_of_port:
  assumes wf: "ls_wf s" and e: "unat e < LS_NETHS" and d: "unat d < ethernet_ninterfaces" "d \<noteq> e"
    and fresh: "fst (ls_node_entries_update (ls_ticker s) e sq (ls_node m) (ls_nodes s))"
    and inform: "handle_icmp_irq e src dst LS_ID_INFORM sq (Some m) n s = Some s1"
    and run: "(other_port e)\<^sup>*\<^sup>* s1 s2"
  defines "L \<equiv> live_links (ls_node_maps s1)"
  shows "(link_state_route_proto_causes_cycle_cached e d s2 \<longleftrightarrow>
        u3_net_stack_get_ip_addr d s \<in> Domain L \<and> (u3_net_stack_get_ip_addr e s, u3_net_stack_get_ip_addr d s) \<in> L\<^sup>*)
    \<and> ls_node_maps s1 = ls_node_maps (update_node_mappings m
        (s\<lparr>ls_nodes := snd (ls_node_entries_update (ls_ticker s) e sq (ls_node m) (ls_nodes s))\<rparr>))
    \<and> (\<forall>i<LS_NETHS. \<forall>j<LS_NETHS. i = j \<or> ethernet_ninterfaces \<le> j \<longrightarrow> ls_causes_cycle s2 ! i ! j = ls_causes_cycle s ! i ! j)"
proof -
  have "LS_ID_INFORM \<noteq> LS_ID_DISCOVER" by (simp add: LS_ID_INFORM_def LS_ID_DISCOVER_def LS_PROTO_VERSION_def)
  with inform have s1: "s1 = send_link_state_data_to_all_neighbors e sq m s" by (simp add: handle_icmp_irq_def Let_def)
  obtain f where f: "s1 = link_state_route_proto_update_cycle_cache e f" "ls_wf f" "ls_causes_cycle f = ls_causes_cycle s"
      "net_conf_ips f = net_conf_ips s"
      "ls_node_maps f = ls_node_maps (update_node_mappings m
        (s\<lparr>ls_nodes := snd (ls_node_entries_update (ls_ticker s) e sq (ls_node m) (ls_nodes s))\<rparr>))"
    using send_all_before_cache [OF fresh wf] unfolding s1 by metis
  have ip: "u3_net_stack_get_ip_addr x f = u3_net_stack_get_ip_addr x s" for x by (simp add: u3_net_stack_get_ip_addr_def f(4))
  have maps: "ls_node_maps s1 = ls_node_maps f" using update_cycle_cache_frame [of e f] f(1) by auto
  have b: "unat d < LS_NETHS" "unat d \<noteq> unat e" using d by (simp_all add: ethernet_ninterfaces_def NETHS_def LS_NETHS_def word_unat_eq_iff)
  have "ls_wf s1" using f(1,2) update_cycle_cache_wf by blast
  note r = other_port_run [OF run this e]
  have "link_state_route_proto_causes_cycle_cached e d s2 \<longleftrightarrow> ls_causes_cycle s1 ! unat e ! unat d"
    using r e b(1) by (simp add: link_state_route_proto_causes_cycle_cached_def)
  also have "\<dots> \<longleftrightarrow> reaches (ls_node_maps f) (u3_net_stack_get_ip_addr e s) (u3_net_stack_get_ip_addr d s)"
    unfolding f(1) using update_cycle_cache_cell [OF f(2) e e b(1)] b(2) d(1) by (simp add: ip)
  finally have "link_state_route_proto_causes_cycle_cached e d s2 \<longleftrightarrow> u3_net_stack_get_ip_addr d s \<in> Domain L
      \<and> (u3_net_stack_get_ip_addr e s, u3_net_stack_get_ip_addr d s) \<in> L\<^sup>*"
    by (simp add: reaches_def L_def maps)
  moreover have "row_only e s s1"
    using update_cycle_cache_row [OF f(2) e] f(1,3) row_only_refl row_only_trans by metis
  ultimately show ?thesis using r maps f(5) by (auto simp: row_only_def)
qed

text \<open>A table with the links of both own ports, and no node heard of.\<close>

definition demo_ring :: "unit linkstate_scheme" where
  "demo_ring = demo_ls\<lparr>ls_node_maps := \<lparr>map_node = 0xC0A80A02, map_nbor = 0xC0A80A01\<rparr>
     # \<lparr>map_node = 0xC0A81402, map_nbor = 0xC0A80A02\<rparr> # replicate 126 \<lparr>map_node = 0, map_nbor = 0\<rparr>\<rparr>"

lemma demo_ring_wf: "ls_wf demo_ring"
  using demo_ls_wf by (simp add: ls_wf_def ls_sizes demo_ring_def)

lemma demo_ring_fields:
  "ls_ticker demo_ring = 7" "ls_nodes demo_ring = replicate 64 \<lparr>ne_seq = 0, ne_tick = 0, ne_ethno = 0, ne_ip = 0\<rparr>"
  "u3_net_stack_get_ip_addr 0 demo_ring = 0xC0A80A02" "u3_net_stack_get_ip_addr 1 demo_ring = 0xC0A81402"
  "net_conf_ips demo_ring = [0xC0A80A02, 0xC0A81402, 0, 0]"
  by (simp_all add: demo_ring_def demo_ls_def netstack.defs u3_net_stack_get_ip_addr_def) (simp_all add: demo_def)

lemma first_entry_fresh:
  assumes "es \<noteq> []" and "ne_ip (hd es) = 0"
  shows "ls_node_entries_update t p sq a es = (True, ls_node_entry_update t p sq a # tl es)"
  using assms by (cases es) (simp_all add: ls_node_entries_update_def ls_node_entry_valid_def)

lemma demo_ring_update:
  "ls_node_entries_update 7 p sq a (replicate 64 \<lparr>ne_seq = 0, ne_tick = 0, ne_ethno = 0, ne_ip = 0\<rparr>)
     = (True, ls_node_entry_update 7 p sq a # replicate 63 \<lparr>ne_seq = 0, ne_tick = 0, ne_ethno = 0, ne_ip = 0\<rparr>)"
  by (subst first_entry_fresh) simp_all

lemma links_Cons: "links (m # ms) = (if map_node m = 0 then {} else {(map_node m, map_nbor m)}) \<union> links ms"
  by (auto simp: links_def)

lemma links_free: "map_node m = 0 \<Longrightarrow> links (replicate k m) = {}"
  by (auto simp: links_def)

lemma demo_ring_links:
  "live_links (ls_node_maps (update_node_mappings demo_inform (demo_ring\<lparr>ls_nodes := ls_node_entry_update 7 0 5 0xC0A80A01
      # replicate 63 \<lparr>ne_seq = 0, ne_tick = 0, ne_ethno = 0, ne_ip = 0\<rparr>\<rparr>)))
   = {(0xC0A80A02, 0xC0A80A01), (0xC0A81402, 0xC0A80A02), (0xC0A80A01, 0xC0A81402)}"
proof -
  let ?s = "demo_ring\<lparr>ls_nodes := ls_node_entry_update 7 0 5 0xC0A80A01 # replicate 63 \<lparr>ne_seq = 0, ne_tick = 0, ne_ethno = 0, ne_ip = 0\<rparr>\<rparr>"
  have "fold (\<lambda>e maps. if ne_ip e \<noteq> 0 \<and> is_tick_expired 7 (ne_tick e) then remove_node_matches (ne_ip e) maps else maps)
      (replicate n \<lparr>ne_seq = 0, ne_tick = 0, ne_ethno = 0, ne_ip = 0\<rparr>) ms = ms" for n ms by (induction n) auto
  then have "remove_expired ?s = ls_node_maps demo_ring"
    by (simp add: remove_expired_def demo_ring_fields(1) ls_node_entry_update_def is_tick_expired_def)
  then have room: "unat (ls_num_nbors demo_inform) \<le> free_slots (remove_node_matches (ls_node demo_inform) (remove_expired ?s))"
    by (simp add: demo_inform_fields free_slots_def remove_node_matches_def demo_ring_def)
  have ex: "expired_nodes ?s = {}"
    by (auto simp: expired_nodes_def demo_ring_fields(1) ls_node_entry_update_def is_tick_expired_def)
  have loc: "\<not> is_local_node 0xC0A80A01 ?s"
    by (simp add: is_local_node_def ninterfaces_list u3_net_stack_get_ip_addr_def demo_ring_fields(5))
  have old: "links (ls_node_maps demo_ring) = {(0xC0A80A02, 0xC0A80A01), (0xC0A81402, 0xC0A80A02)}"
    by (auto simp: demo_ring_def links_Cons links_free)
  have "links (ls_node_maps (update_node_mappings demo_inform ?s))
      = {(0xC0A80A02, 0xC0A80A01), (0xC0A81402, 0xC0A80A02), (0xC0A80A01, 0xC0A81402)}"
    unfolding update_node_mappings_replaces [OF _ room, unfolded demo_inform_fields, simplified] ex old
    using loc by (auto simp: demo_inform_fields)
  moreover have "live_links maps = {l \<in> links maps. snd l \<noteq> 0}" for maps by (auto simp: live_links_def links_def)
  ultimately show ?thesis by auto
qed

lemma cycle_cache_of_port_witness:
  "\<exists>s1. handle_icmp_irq 0 0xC0A80A01 0xC0A80A02 LS_ID_INFORM 5 (Some demo_inform) 16 demo_ring = Some s1
    \<and> link_state_route_proto_causes_cycle_cached 0 1 (link_state_route_proto_update_cycle_cache 1 (link_state_route_proto_tick s1))"
proof -
  obtain s1 where s1: "handle_icmp_irq 0 0xC0A80A01 0xC0A80A02 LS_ID_INFORM 5 (Some demo_inform) 16 demo_ring = Some s1"
    by (simp add: handle_icmp_irq_def Let_def)
  have n: "unat (0 :: u8) < LS_NETHS" "unat (1 :: u8) < ethernet_ninterfaces" "(1 :: u8) \<noteq> 0"
    by (simp_all add: LS_NETHS_def ethernet_ninterfaces_def NETHS_def)
  have "ls_step 1 s1 (link_state_route_proto_tick s1)"
    "ls_step 1 (link_state_route_proto_tick s1) (link_state_route_proto_update_cycle_cache 1 (link_state_route_proto_tick s1))"
    by (rule step_tick step_cache, simp add: LS_NETHS_def)+
  then have "other_port 0 s1 (link_state_route_proto_tick s1)"
    "other_port 0 (link_state_route_proto_tick s1) (link_state_route_proto_update_cycle_cache 1 (link_state_route_proto_tick s1))"
    unfolding other_port_def by (metis one_neq_zero)+
  then have run: "(other_port 0)\<^sup>*\<^sup>* s1 (link_state_route_proto_update_cycle_cache 1 (link_state_route_proto_tick s1))"
    by (rule converse_rtranclp_into_rtranclp [OF _ r_into_rtranclp])
  have fresh: "fst (ls_node_entries_update (ls_ticker demo_ring) 0 5 (ls_node demo_inform) (ls_nodes demo_ring))"
    by (simp add: demo_ring_fields demo_ring_update)
  have "(0xC0A80A02, 0xC0A81402) \<in> {(0xC0A80A02, 0xC0A80A01), (0xC0A81402, 0xC0A80A02), (0xC0A80A01, 0xC0A81402 :: ip)}\<^sup>*"
    by (rule rtrancl_trans [of _ "0xC0A80A01"]) auto
  then show ?thesis
    using cycle_cache_of_port [OF demo_ring_wf n fresh s1 run] s1
    by (auto simp: demo_ring_fields demo_ring_update demo_inform_fields demo_ring_links)
qed

subsection \<open>An announcement is taken once\<close>


text \<open>No occupied entry has expired, and some slots are free.\<close>

definition settled :: "nat \<Rightarrow> u16 \<Rightarrow> ls_node_entry_t list \<Rightarrow> bool" where
  "settled k t es \<longleftrightarrow> (\<forall>e\<in>set es. ne_ip e \<noteq> 0 \<longrightarrow> \<not> is_tick_expired t (ne_tick e))
     \<and> k \<le> length (filter (\<lambda>e. ne_ip e = 0) es)"

definition slot :: "u16 \<Rightarrow> u8 \<Rightarrow> ip \<Rightarrow> ls_node_entry_t \<Rightarrow> bool" where
  "slot t p a e \<longleftrightarrow> \<not> ls_node_entry_valid t e \<or> ne_ip e = a \<and> ne_ethno e = p"

lemma port_sint: "unat (p :: u8) < 128 \<Longrightarrow> uint (q :: u8) = sint p \<longleftrightarrow> q = p"
  by (simp add: sint_small word_uint_eq_iff)

lemma entries_update_cases:
  assumes p: "unat p < 128"
  shows "ls_node_entries_update t p sq a es = (case find_index (slot t p a) es of
      Some i \<Rightarrow> if ls_node_entry_valid t (es ! i) \<and> \<not> is_seq_newer sq (ne_seq (es ! i)) then (False, es)
        else (True, es[i := ls_node_entry_update t p sq a])
    | None \<Rightarrow> (True, ls_node_entry_update t p sq a # butlast es))"
proof -
  have "(\<lambda>e. \<not> ls_node_entry_valid t e \<or> ne_ip e = a \<and> uint (ne_ethno e) = sint p) = slot t p a"
    by (simp add: fun_eq_iff slot_def port_sint [OF p])
  then show ?thesis by (auto simp: ls_node_entries_update_def Let_def split: option.splits)
qed

lemma new_entry [simp]:
  "ne_ip (ls_node_entry_update t p sq a) = a" "ne_ethno (ls_node_entry_update t p sq a) = p"
  "ne_seq (ls_node_entry_update t p sq a) = sq" "ne_tick (ls_node_entry_update t p sq a) = t"
  by (simp_all add: ls_node_entry_update_def)




lemma settled_less: "settled k t es \<Longrightarrow> l \<le> k \<Longrightarrow> settled l t es"
  by (simp add: settled_def)








subsection \<open>Slots of expired entries\<close>

text \<open>The first slot that can be written is taken, even if the node's own entry lies behind it: when an earlier entry has
  expired, an announcement that is in the table is taken again, and the node has two entries.\<close>

theorem inform_taken_again:
  assumes p: "unat p < 128" and j: "i < j" "j < length es" "ne_ip (es ! j) = node" "ne_ethno (es ! j) = p" "ne_seq (es ! j) = sq"
    and i: "\<not> ls_node_entry_valid t (es ! i)" "\<forall>k<i. \<not> slot t p node (es ! k)"
  shows "ls_node_entries_update t p sq node es = (True, es[i := ls_node_entry_update t p sq node])"
    and "es[i := ls_node_entry_update t p sq node] ! j = es ! j"
proof -
  have "find_index (slot t p node) es = Some i"
    using i j by (simp add: find_index_Some_iff) (simp add: slot_def)
  then show "ls_node_entries_update t p sq node es = (True, es[i := ls_node_entry_update t p sq node])"
    using i(1) by (simp add: entries_update_cases [OF p])
  show "es[i := ls_node_entry_update t p sq node] ! j = es ! j" using j(1) by simp
qed

text \<open>The links of expired nodes are removed after the table has been updated: a node whose expired entry is the
  slot the announcement takes is no longer in the table then, and its links stay.\<close>

theorem reused_slot_keeps_links:
  fixes s :: "'a linkstate_scheme"
  assumes p: "unat p < 128" and m: "ls_node m \<noteq> 0" and i: "find_index (slot (ls_ticker s) p (ls_node m)) (ls_nodes s) = Some i"
    and x: "ne_ip (ls_nodes s ! i) = x" "x \<noteq> 0" "x \<noteq> ls_node m" "is_tick_expired (ls_ticker s) (ne_tick (ls_nodes s ! i))"
      "\<forall>k<length (ls_nodes s). k \<noteq> i \<longrightarrow> ne_ip (ls_nodes s ! k) \<noteq> x"
    and room: "unat (ls_num_nbors m) \<le> free_slots (remove_node_matches (ls_node m) (remove_expired
        (s\<lparr>ls_nodes := snd (ls_node_entries_update (ls_ticker s) p sq (ls_node m) (ls_nodes s))\<rparr>)))"
    and l: "(x, y) \<in> links (ls_node_maps s)"
  shows "x \<in> expired_nodes s \<and> (x, y) \<in> links (ls_node_maps (send_link_state_data_to_all_neighbors p sq m s))"
proof -
  have b: "i < length (ls_nodes s)" using i by (rule find_index_bound)
  have inv: "\<not> ls_node_entry_valid (ls_ticker s) (ls_nodes s ! i)" using x by (simp add: ls_node_entry_valid_def)
  let ?new = "ls_node_entry_update (ls_ticker s) p sq (ls_node m)"
  have u: "ls_node_entries_update (ls_ticker s) p sq (ls_node m) (ls_nodes s) = (True, (ls_nodes s)[i := ?new])"
    using inv by (simp add: entries_update_cases [OF p] i)
  let ?s = "s\<lparr>ls_nodes := (ls_nodes s)[i := ?new]\<rparr>"
  have "ne_ip e \<noteq> x" if "e \<in> set ((ls_nodes s)[i := ?new])" for e
  proof -
    from that obtain k where "k < length (ls_nodes s)" "e = (ls_nodes s)[i := ?new] ! k" by (auto simp: in_set_conv_nth)
    then show ?thesis using x b by (cases "k = i") auto
  qed
  then have "x \<notin> expired_nodes ?s" by (auto simp: expired_nodes_def)
  then have "(x, y) \<in> links (ls_node_maps (update_node_mappings m ?s))"
    using l x(3) room unfolding u by (subst update_node_mappings_replaces [OF m]) simp_all
  moreover have "x \<in> expired_nodes s" unfolding expired_nodes_def using b x by (auto intro!: exI [of _ "ls_nodes s ! i"])
  ultimately show ?thesis by (simp add: send_all_tables(5) u)
qed

end
