(* ===== verification/ChinchProps.thy ===== *)
theory ChinchProps
  imports Chinch
begin

unbundle bit_operations_syntax

section \<open>Writing the flash and answering the host over PCIe\<close>

text \<open>
  More properties of theory \<open>Chinch\<close>: the command sequence of a buffered flash write, and what
  becomes of a register read the host sends over PCIe.
\<close>

subsection \<open>Buffered writes\<close>

definition write_cmds :: "u32 \<Rightarrow> u16 list \<Rightarrow> u32 \<Rightarrow> (u32 \<times> u32) list" where
  "write_cmds offset buf n =
     [(CHINCH_FLASH_5555_REG, 0x00AA), (CHINCH_FLASH_2AAA_REG, 0x0055), (CHINCH_FLASH_WINDOW_BASE, 0x0025),
      (CHINCH_FLASH_WINDOW_BASE, n - 1)]
     @ map (\<lambda>i. (flash_base_addr offset + of_nat i * 2, ucast (buf ! i))) [0..<unat n]
     @ [(CHINCH_FLASH_WINDOW_BASE, 0x0029)]"

lemma merge_poke_ok:
  assumes "fst (merge (chinch_poke16 a d) st)"
  shows "fst st" "wr_log (snd (merge (chinch_poke16 a d) st)) = rev (poke_xact True (a, d)) @ wr_log (snd st)"
  using assms
  by (cases st; simp add: merge_def case_prod_unfold Let_def chinch_poke16_def chinch_poke_log)+

lemma chain_pokes_ok':
  "fst (chain_pokes cmds st) \<Longrightarrow> fst st \<and> wr_log (snd (chain_pokes cmds st)) = rev (concat (map (poke_xact True) cmds)) @ wr_log (snd st)"
  using chain_pokes_ok [of cmds "fst st" "snd st"] by simp

lemma write_poll_ok:
  "write_poll a w st0 d s = Some (True, s') \<Longrightarrow>
     st0 \<and> (\<exists>k>0. wr_log s' = concat (replicate k (peek_xact True a)) @ wr_log s)"
  using write_poll_log [of a w st0 d s "(True, s')"] by auto

text \<open>C16. Writing a buffer: a request for more than 32 words is refused without touching the bridge; and when
  success is reported, the flash was sent exactly the unlock, set-up and count commands, every
  data word at its address in order, and the commit, followed only by at least one read of the
  last word's address.\<close>

theorem flash_write_sequence:
  assumes "chinch_flash_write_buf offset buf n s = Some (ok, s')"
  shows "(32 < n \<longrightarrow> \<not> ok \<and> s' = s)
    \<and> (ok \<longrightarrow> (\<exists>k>0. wr_log s' = concat (replicate k (peek_xact True (flash_base_addr offset + (n - 1) * 2)))
        @ rev (concat (map (poke_xact True) (write_cmds offset buf n))) @ wr_log s))"
proof (cases "32 < n")
  case True
  with assms show ?thesis by (simp add: chinch_flash_write_buf_def CHINCH_FLASH_MAX_BUF_WRITES_def)
next
  case False
  let ?c1 = "[(CHINCH_FLASH_5555_REG, 0x00AA)]"
  let ?c3 = "[(CHINCH_FLASH_WINDOW_BASE, 0x0025), (CHINCH_FLASH_WINDOW_BASE, n - 1)]"
  let ?c4 = "map (\<lambda>i. (flash_base_addr offset + of_nat i * 2, ucast (buf ! i))) [0..<unat n]"
  let ?c5 = "[(CHINCH_FLASH_WINDOW_BASE, 0x0029)]"
  let ?s1 = "chain_pokes ?c1 (True, s)"
  let ?s2 = "merge (chinch_poke16 CHINCH_FLASH_2AAA_REG 0x0055) ?s1"
  let ?s3 = "chain_pokes ?c3 ?s2"
  let ?s4 = "chain_pokes ?c4 ?s3"
  let ?s5 = "chain_pokes ?c5 ?s4"
  have one: "chain (chinch_poke16 a d) x = chain_pokes [(a, d)] x" for a d and x :: "bool \<times> 'a chinch_scheme"
    by (simp add: chain_pokes_def)
  have poll: "write_poll (flash_base_addr offset + (n - 1) * 2) (buf ! unat (n - 1)) (fst ?s5) (junk_word (snd ?s5)) (snd ?s5) = Some (ok, s')"
    using assms False
    by (simp add: chinch_flash_write_buf_def CHINCH_FLASH_MAX_BUF_WRITES_def one case_prod_unfold Let_def)
  show ?thesis
  proof (cases ok)
    case True
    from write_poll_ok [OF poll [unfolded eqTrueI [OF True]]] obtain k where st: "fst ?s5" "k > 0"
      "wr_log s' = concat (replicate k (peek_xact True (flash_base_addr offset + (n - 1) * 2))) @ wr_log (snd ?s5)" by blast
    note r5 = chain_pokes_ok' [OF st(1)]
    note r4 = chain_pokes_ok' [OF r5 [THEN conjunct1]]
    note r3 = chain_pokes_ok' [OF r4 [THEN conjunct1]]
    note r2 = merge_poke_ok [OF r3 [THEN conjunct1]]
    note r1 = chain_pokes_ok' [OF r2(1)]
    have "wr_log (snd ?s5) = rev (concat (map (poke_xact True) (write_cmds offset buf n))) @ wr_log s"
      unfolding r5 [THEN conjunct2] r4 [THEN conjunct2] r3 [THEN conjunct2] r2(2) r1 [THEN conjunct2]
      by (simp add: write_cmds_def)
    with st(2,3) False show ?thesis by auto
  qed (use False in simp)
qed

lemma flash_write_sequence_witness:
  "\<exists>s'. chinch_flash_write_buf 0 [0xFFFF] 1 demo_chinch = Some (True, s')
     \<and> (\<exists>k. 0 < k \<and> wr_log s' = concat (replicate k (peek_xact True CHINCH_FLASH_WINDOW_BASE))
          @ rev (concat (map (poke_xact True) (write_cmds 0 [0xFFFF] 1))))"
proof -
  have d: "dev demo_chinch = bridge_dev" and l: "wr_log demo_chinch = []"
    by (simp_all add: demo_chinch_def netstack.defs demo_def wr_log_def)
  have c: "fst (chain_pokes cs (True, s)) \<and> dev (snd (chain_pokes cs (True, s))) = bridge_dev"
    if "dev s = bridge_dev" for s :: "unit chinch_scheme" and cs
    using bridge_pokes [OF that] by blast
  have c': "\<exists>s'. chain_pokes cs (True, s) = (True, s') \<and> dev s' = bridge_dev"
    if "dev s = bridge_dev" for s :: "unit chinch_scheme" and cs
    using c [OF that, of cs] by (metis prod.collapse)
  have m: "\<exists>s'. merge (chinch_poke16 a x) (True, s) = (True, s') \<and> dev s' = bridge_dev"
    if "dev s = bridge_dev" for s :: "unit chinch_scheme" and a x
    using that bridge_poke [OF that] by (simp add: merge_def case_prod_unfold Let_def chinch_poke16_def)
  have base: "flash_base_addr 0 = CHINCH_FLASH_WINDOW_BASE" by (simp add: flash_base_addr_def)
  have one: "chain (chinch_poke16 a d) x = chain_pokes [(a, d)] x" for a d and x :: "bool \<times> unit chinch_scheme"
    by (simp add: chain_pokes_def)
  obtain s1 where s1: "chain_pokes [(CHINCH_FLASH_5555_REG, 0x00AA)] (True, demo_chinch) = (True, s1)" "dev s1 = bridge_dev"
    using c' [OF d] by blast
  obtain s2 where s2: "merge (chinch_poke16 CHINCH_FLASH_2AAA_REG 0x0055) (True, s1) = (True, s2)" "dev s2 = bridge_dev"
    using m [OF s1(2)] by blast
  obtain s3 where s3: "chain_pokes [(CHINCH_FLASH_WINDOW_BASE, 0x0025), (CHINCH_FLASH_WINDOW_BASE, 0)] (True, s2) = (True, s3)" "dev s3 = bridge_dev"
    using c' [OF s2(2)] by blast
  obtain s4 where s4: "chain_pokes [(CHINCH_FLASH_WINDOW_BASE, ucast (0xFFFF :: u16))] (True, s3) = (True, s4)" "dev s4 = bridge_dev"
    using c' [OF s3(2)] by blast
  obtain s5 where s5: "chain_pokes [(CHINCH_FLASH_WINDOW_BASE, 0x0029)] (True, s4) = (True, s5)" "dev s5 = bridge_dev"
    using c' [OF s4(2)] by blast
  obtain s' where p: "chinch_peek16 CHINCH_FLASH_WINDOW_BASE (junk_word s5) s5 = ((True, 0xFFFF), s')"
    using bridge_peek16 [OF s5(2)] by blast
  have "write_poll CHINCH_FLASH_WINDOW_BASE 0xFFFF True (junk_word s5) s5 = Some (True, s')"
    by (subst write_poll.simps) (simp add: p)
  then have "chinch_flash_write_buf 0 [0xFFFF] 1 demo_chinch = Some (True, s')"
    using s1 s2 s3 s4 s5
    by (simp add: chinch_flash_write_buf_def CHINCH_FLASH_MAX_BUF_WRITES_def one base Let_def)
  with flash_write_sequence [OF this] show ?thesis by (auto simp: base l)
qed

subsection \<open>Reads over PCIe\<close>

text \<open>C17. A 32-bit register read the host sends over PCIe is performed on the bus once; the value is sent back,
  data before control word, if the bridge is free at that moment.  If it is busy the read
  is dropped after a single poll and the host gets no answer, because the responder waits for a
  timeout nobody sets and not for the one it is given.\<close>

theorem pcie_read_answered_or_dropped:
  fixes s :: "'a chinch_scheme"
  defines "d0 \<equiv> dev s (trace s) PCIE_STATUS"
  defines "t1 \<equiv> Rd PCIE_STATUS d0 # trace s"
  defines "t2 \<equiv> Rd PCIE_DATA (dev s t1 PCIE_DATA) # t1"
  defines "ctrl \<equiv> dev s t2 PCIE_CTRL"
  defines "addr \<equiv> ctrl AND PCIE_CTRL_REG_ADDR_MASK"
  defines "t3 \<equiv> Rd addr (dev s (Rd PCIE_CTRL ctrl # t2) addr) # Rd PCIE_CTRL ctrl # t2"
  defines "v \<equiv> dev s (Rd PCIE_CTRL ctrl # t2) addr"
  defines "busy \<equiv> bit (dev s t3 PCIE_STATUS) 4"
  assumes "bit d0 1" and "\<not> bit ctrl 28" "bit ctrl 29" and "g_pcie_res_timeout s = 0"
  shows "(fst (forward_pcie_user_xact_to_wb s) \<longleftrightarrow> \<not> busy)
    \<and> trace (snd (forward_pcie_user_xact_to_wb s)) =
      (if busy then [] else [Wr PCIE_CTRL (BIT 31), Wr PCIE_DATA v]) @ Rd PCIE_STATUS (dev s t3 PCIE_STATUS) # t3"
proof -
  have st: "d0 AND PCIE_STATUS_REG_REQ_PENDING \<noteq> 0" "ctrl AND PCIE_CTRL_REG_HALF_WORD = 0" "ctrl AND PCIE_CTRL_REG_READ \<noteq> 0"
    using assms(9-11) by (simp_all add: PCIE_STATUS_REG_REQ_PENDING_def PCIE_CTRL_REG_HALF_WORD_def PCIE_CTRL_REG_READ_def and_BIT_eq_0_iff)
  have b: "x AND PCIE_STATUS_REG_BUSY = 0 \<longleftrightarrow> \<not> bit x 4" for x
    by (simp add: PCIE_STATUS_REG_BUSY_def and_BIT_eq_0_iff)
  let ?i = "\<lparr>xact_type = PCIE_XACT_READ, xact_addr = addr, xact_data = dev s t1 PCIE_DATA, xact_size = PCIE_XACT_32_BIT\<rparr>"
  have c: "check_pcie_user_regport s = (True, s\<lparr>trace := Rd PCIE_CTRL ctrl # t2, g_pcie_reg_xact_info := ?i\<rparr>)"
    using st
    by (simp add: check_pcie_user_regport_def wb_peek32_def Let_def flip: d0_def t1_def t2_def ctrl_def addr_def)
  have f: "forward_pcie_user_xact_to_wb s =
      respond_to_pcie_xact_request v CHINCH_DEFAULT_XACT_TIMEOUT (s\<lparr>g_pcie_reg_xact_info := ?i, trace := t3\<rparr>)"
    by (simp add: forward_pcie_user_xact_to_wb_def c wb_peek32_def Let_def flip: v_def) (simp add: t3_def v_def)
  show ?thesis
    unfolding f busy_def
    using assms(12)
    by (simp add: respond_to_pcie_xact_request_def case_prod_unfold Let_def b PCIE_CTRL_REG_READ_RESP_def)
qed

text \<open>A bridge with a read request that is busy after it.\<close>

definition pcie_dev :: "bool \<Rightarrow> access list \<Rightarrow> u32 \<Rightarrow> u32" where
  "pcie_dev busy t a =
     (if a = PCIE_STATUS then (if t = [] then 2 else if busy then 16 else 0)
      else if a = PCIE_CTRL then 0x20000040 else 7)"

lemma pcie_read_answered_or_dropped_witness:
  "\<not> fst (forward_pcie_user_xact_to_wb (demo_chinch\<lparr>dev := pcie_dev True\<rparr>))
   \<and> fst (forward_pcie_user_xact_to_wb (demo_chinch\<lparr>dev := pcie_dev False\<rparr>))"
proof -
  have d: "trace demo_chinch = []" "g_pcie_res_timeout demo_chinch = 0"
    by (simp_all add: demo_chinch_def netstack.defs demo_def)
  have r: "PCIE_STATUS \<noteq> PCIE_CTRL" "PCIE_STATUS \<noteq> PCIE_DATA" "PCIE_CTRL \<noteq> PCIE_DATA"
    by (simp_all add: PCIE_STATUS_def PCIE_DATA_def PCIE_CTRL_def SR_ADDR_def PCIE_MSG_REG_BASE_def PCIE_MSG_STATUS_REG_def
        PCIE_MSG_DATA_REG_def PCIE_MSG_CTRL_REG_def)
  have "fst (forward_pcie_user_xact_to_wb (demo_chinch\<lparr>dev := pcie_dev b\<rparr>)) \<longleftrightarrow> \<not> b" for b
  proof -
    let ?D = "demo_chinch\<lparr>dev := pcie_dev b\<rparr>"
    have 0: "dev ?D = pcie_dev b" "trace ?D = []" by (simp_all add: d)
    have c: "dev ?D t PCIE_CTRL = 0x20000040" for t using r by (simp add: pcie_dev_def)
    have st: "dev ?D (x # t) PCIE_STATUS = (if b then 16 else 0)" for x t by (simp add: pcie_dev_def)
    have p: "bit (dev ?D (trace ?D) PCIE_STATUS) 1" by (simp add: 0 pcie_dev_def)
    have n: "\<not> bit (0x20000040 :: u32) 28" "bit (0x20000040 :: u32) 29" by (simp_all add: bit_numeral_rec)
    have g: "g_pcie_res_timeout ?D = 0" by (simp add: d)
    from pcie_read_answered_or_dropped [of ?D, unfolded c, OF p n g, unfolded st, THEN conjunct1]
    show ?thesis by (simp add: bit_numeral_rec)
  qed
  from this [of True] this [of False] show ?thesis by simp
qed

end
