(* ===== verification/SoftReg.thy ===== *)
theory SoftReg
  imports Bus
begin

unbundle bit_operations_syntax

section \<open>Soft registers\<close>

text \<open>
  \<^verbatim>\<open>firmware/usrp3/include/wb_soft_reg.h\<close>: a copy of a hardware register kept in
  software so that its fields can be changed one by one.
\<close>

record soft_reg_t =
  wr_addr :: u32
  rd_addr :: u32
  soft_copy :: u32

record soft_reg_field_t =
  num_bits :: u8
  fshift :: u8

definition initialize_readwrite_soft_reg :: "u32 \<Rightarrow> u32 \<Rightarrow> soft_reg_t" where
  "initialize_readwrite_soft_reg wr rd = \<lparr>wr_addr = wr, rd_addr = rd, soft_copy = 0\<rparr>"

definition initialize_writeonly_soft_reg :: "u32 \<Rightarrow> soft_reg_t" where
  "initialize_writeonly_soft_reg addr = \<lparr>wr_addr = addr, rd_addr = 0, soft_copy = 0\<rparr>"

text \<open>\<^verbatim>\<open>((1<<field.num_bits)-1)<<field.shift\<close>.\<close>

definition field_mask :: "soft_reg_field_t \<Rightarrow> u32" where
  "field_mask field = push_bit (unat (fshift field)) (push_bit (unat (num_bits field)) 1 - 1)"

definition soft_reg_set :: "soft_reg_t \<Rightarrow> soft_reg_field_t \<Rightarrow> u32 \<Rightarrow> soft_reg_t" where
  "soft_reg_set reg field field_value =
     reg\<lparr>soft_copy := (soft_copy reg AND NOT (field_mask field)) OR (push_bit (unat (fshift field)) field_value AND field_mask field)\<rparr>"

definition soft_reg_flush :: "soft_reg_t \<Rightarrow> 'a bus_scheme \<Rightarrow> 'a bus_scheme" where
  "soft_reg_flush reg s = wb_poke32 (wr_addr reg) (soft_copy reg) s"

definition soft_reg_write :: "soft_reg_t \<Rightarrow> soft_reg_field_t \<Rightarrow> u32 \<Rightarrow> 'a bus_scheme \<Rightarrow> soft_reg_t \<times> 'a bus_scheme" where
  "soft_reg_write reg field field_value s =
     (let reg = soft_reg_set reg field field_value in (reg, soft_reg_flush reg s))"

definition soft_reg_get :: "soft_reg_t \<Rightarrow> soft_reg_field_t \<Rightarrow> u32" where
  "soft_reg_get reg field = drop_bit (unat (fshift field)) (soft_copy reg AND field_mask field)"

definition soft_reg_refresh :: "soft_reg_t \<Rightarrow> 'a bus_scheme \<Rightarrow> soft_reg_t \<times> 'a bus_scheme" where
  "soft_reg_refresh reg s =
     (if rd_addr reg \<noteq> 0
      then (let (v, s) = wb_peek32 (rd_addr reg) s in (reg\<lparr>soft_copy := v\<rparr>, s)) else (reg, s))"

definition soft_reg_read :: "soft_reg_t \<Rightarrow> soft_reg_field_t \<Rightarrow> 'a bus_scheme \<Rightarrow> (u32 \<times> soft_reg_t) \<times> 'a bus_scheme" where
  "soft_reg_read reg field s =
     (let (reg, s) = soft_reg_refresh reg s in ((soft_reg_get reg field, reg), s))"

subsection \<open>Properties\<close>

definition field_ok :: "soft_reg_field_t \<Rightarrow> bool" where
  "field_ok f \<longleftrightarrow> unat (num_bits f) + unat (fshift f) \<le> 32"

definition field_bits :: "soft_reg_field_t \<Rightarrow> nat \<Rightarrow> bool" where
  "field_bits f n \<longleftrightarrow> unat (fshift f) \<le> n \<and> n < unat (fshift f) + unat (num_bits f)"

lemma bit_field_mask: "bit (field_mask f) n \<longleftrightarrow> n < 32 \<and> field_bits f n"
proof -
  have "push_bit k 1 - 1 = (mask k :: u32)" for k by (simp add: mask_eq_exp_minus_1 push_bit_eq_mult)
  then show ?thesis unfolding field_mask_def field_bits_def by (auto simp: bit_simps)
qed

lemma bit_soft_reg_get: "bit (soft_reg_get r f) n \<longleftrightarrow> n < unat (num_bits f) \<and> bit (soft_copy r) (n + unat (fshift f))"
proof -
  have "bit (soft_copy r) k \<Longrightarrow> k < 32" for k using bit_imp_le_length by fastforce
  then show ?thesis
    unfolding soft_reg_get_def bit_drop_bit_eq bit_and_iff comp_def bit_field_mask field_bits_def
    by (auto simp: add.commute)
qed

lemma bit_soft_reg_set:
  "n < 32 \<Longrightarrow> bit (soft_copy (soft_reg_set r f v)) n \<longleftrightarrow>
     (if field_bits f n then bit v (n - unat (fshift f)) else bit (soft_copy r) n)"
  unfolding soft_reg_set_def
  by (auto simp: bit_simps bit_field_mask) (auto simp: field_bits_def)

text \<open>Register fields are independent: a field of the register that has been set reads back as the low bits of
  the value, whatever fits it; every field that does not overlap keeps its value; and writing the
  field puts exactly the new copy on the bus, at the register's write address.\<close>

theorem soft_reg_fields:
  assumes "field_ok f" "field_ok g"
  shows "soft_reg_get (soft_reg_set r f v) f = take_bit (unat (num_bits f)) v
    \<and> ((\<forall>n<32. \<not> (field_bits f n \<and> field_bits g n)) \<longrightarrow> soft_reg_get (soft_reg_set r f v) g = soft_reg_get r g)
    \<and> trace (snd (soft_reg_write r f v s)) = Wr (wr_addr r) (soft_copy (soft_reg_set r f v)) # trace s"
proof (intro conjI impI)
  show "soft_reg_get (soft_reg_set r f v) f = take_bit (unat (num_bits f)) v"
  proof (rule bit_word_eqI)
    fix n assume n: "n < LENGTH(32)"
    show "bit (soft_reg_get (soft_reg_set r f v) f) n = bit (take_bit (unat (num_bits f)) v) n"
    proof (cases "n < unat (num_bits f)")
      case True
      then have "n + unat (fshift f) < 32" using assms(1) by (simp add: field_ok_def)
      with True show ?thesis
        by (simp add: bit_soft_reg_get bit_soft_reg_set bit_take_bit_iff) (simp add: field_bits_def)
    qed (simp add: bit_soft_reg_get bit_take_bit_iff)
  qed
next
  assume dis: "\<forall>n<32. \<not> (field_bits f n \<and> field_bits g n)"
  show "soft_reg_get (soft_reg_set r f v) g = soft_reg_get r g"
  proof (rule bit_word_eqI)
    fix n assume n: "n < LENGTH(32)"
    show "bit (soft_reg_get (soft_reg_set r f v) g) n = bit (soft_reg_get r g) n"
    proof (cases "n < unat (num_bits g)")
      case True
      then have l: "n + unat (fshift g) < 32" using assms(2) by (simp add: field_ok_def)
      moreover have "field_bits g (n + unat (fshift g))" using True by (simp add: field_bits_def)
      ultimately have "\<not> field_bits f (n + unat (fshift g))" using dis by blast
      with l show ?thesis by (simp add: bit_soft_reg_get bit_soft_reg_set)
    qed (simp add: bit_soft_reg_get)
  qed
next
  show "trace (snd (soft_reg_write r f v s)) = Wr (wr_addr r) (soft_copy (soft_reg_set r f v)) # trace s"
    by (simp add: soft_reg_write_def soft_reg_flush_def Let_def) (simp add: soft_reg_set_def)
qed

lemma soft_reg_fields_witness:
  "soft_reg_get (soft_reg_set \<lparr>wr_addr = 4, rd_addr = 8, soft_copy = 0xFF\<rparr> \<lparr>num_bits = 3, fshift = 4\<rparr> 0xA) \<lparr>num_bits = 3, fshift = 4\<rparr> = 2"
proof -
  have "field_ok \<lparr>num_bits = 3, fshift = 4\<rparr>" by (simp add: field_ok_def)
  from soft_reg_fields [where r = "\<lparr>wr_addr = 4, rd_addr = 8, soft_copy = 0xFF\<rparr>" and v = "0xA",
      OF this this, THEN conjunct1]
  show ?thesis by (simp add: take_bit_eq_mod)
qed

end
