(* ===== verification/WbSpi.thy ===== *)
theory WbSpi
  imports Bus
begin

unbundle bit_operations_syntax

section \<open>The SPI peripheral\<close>

text \<open>
  \<^verbatim>\<open>firmware/usrp3/lib/wb_spi.c\<close>: transactions of up to 128 bits through the four data
  registers of the SPI core.  A null buffer is \<open>None\<close>.  A receive buffer is passed and returned as
  the bytes its pointer sees.  Waiting for the core has no bound in the code.
\<close>

datatype wb_spi_rw_mode_t = WRITE | WRITE_READ
datatype wb_spi_edge_t = RISING | FALLING

record wb_spi_slave_t =
  spi_base :: u32
  slave_sel :: u32
  clk_div :: u32
  mosi_edge :: wb_spi_edge_t
  miso_edge :: wb_spi_edge_t
  lsb_first :: bool

text \<open>\<^verbatim>\<open>wb_spi_regs_t\<close>: the four data registers, control and status, clock divider and slave select.\<close>

definition spi_data :: "u32 \<Rightarrow> nat \<Rightarrow> u32" where "spi_data base i = base + 4 * of_nat i"
definition spi_ctrl_status :: "u32 \<Rightarrow> u32" where "spi_ctrl_status base = base + 16"
definition spi_clkdiv :: "u32 \<Rightarrow> u32" where "spi_clkdiv base = base + 20"
definition spi_slavesel :: "u32 \<Rightarrow> u32" where "spi_slavesel base = base + 24"

definition WB_SPI_CTRL_AUTO_SS :: u32 where "WB_SPI_CTRL_AUTO_SS = BIT 13"
definition WB_SPI_CTRL_IE :: u32 where "WB_SPI_CTRL_IE = BIT 12"
definition WB_SPI_CTRL_LSB :: u32 where "WB_SPI_CTRL_LSB = BIT 11"
definition WB_SPI_CTRL_TXNEG :: u32 where "WB_SPI_CTRL_TXNEG = BIT 10"
definition WB_SPI_CTRL_RXNEG :: u32 where "WB_SPI_CTRL_RXNEG = BIT 9"
definition WB_SPI_CTRL_GO_BSY :: u32 where "WB_SPI_CTRL_GO_BSY = BIT 8"
definition WB_SPI_CTRL_LENGTH :: "u32 \<Rightarrow> u32" where "WB_SPI_CTRL_LENGTH x = x AND 0x7F"

definition wb_spi_get_flags :: "wb_spi_slave_t \<Rightarrow> u32" where
  "wb_spi_get_flags slave =
     (let flags = 0;
          flags = (if mosi_edge slave = RISING then flags OR WB_SPI_CTRL_TXNEG else flags);
          flags = (if miso_edge slave = RISING then flags OR WB_SPI_CTRL_RXNEG else flags)
      in if lsb_first slave then flags OR WB_SPI_CTRL_LSB else flags)"

definition spi_wait_for_xfer :: "wb_spi_slave_t \<Rightarrow> 'a bus_scheme \<Rightarrow> 'a bus_scheme option" where
  "spi_wait_for_xfer slave s =
     spin_while (spi_ctrl_status (spi_base slave)) (\<lambda>v. v AND WB_SPI_CTRL_GO_BSY \<noteq> 0) s"

definition wb_spi_init :: "wb_spi_slave_t \<Rightarrow> 'a bus_scheme \<Rightarrow> 'a bus_scheme option" where
  "wb_spi_init slave s =
     (let s = wb_poke32 (spi_clkdiv (spi_base slave)) (clk_div slave) s;
          s = wb_poke32 (spi_slavesel (spi_base slave)) 0 s;
          ctrl = WB_SPI_CTRL_LENGTH 8 OR wb_spi_get_flags slave;
          s = wb_poke32 (spi_ctrl_status (spi_base slave)) (ctrl OR WB_SPI_CTRL_GO_BSY) s
      in spi_wait_for_xfer slave s)"

subsection \<open>Between buffer and data registers\<close>

text \<open>The word of the next bytes, of which \<open>bits_left\<close> bits are still to be sent.\<close>

definition mosi_word :: "mem \<Rightarrow> u8 \<Rightarrow> u32" where
  "mosi_word m bits_left =
     (if bits_left < 32
      then (if bits_left \<le> 8 then ucast (m 0)
            else if bits_left \<le> 16 then push_bit 0 (ucast (m 1)) OR push_bit 8 (ucast (m 0))
            else if bits_left \<le> 24
            then push_bit 0 (ucast (m 2)) OR push_bit 8 (ucast (m 1)) OR push_bit 16 (ucast (m 0))
            else be32 m 0)
      else be32 m 0)"

text \<open>The loop over the data registers from number \<open>i\<close> on; the first argument is how many are left.\<close>

primrec spi_send :: "nat \<Rightarrow> u32 \<Rightarrow> nat \<Rightarrow> mem \<Rightarrow> u8 \<Rightarrow> 'a bus_scheme \<Rightarrow> 'a bus_scheme" where
  "spi_send 0 base i m bits_left s = s"
| "spi_send (Suc n) base i m bits_left s =
     (let word = mosi_word m bits_left;
          (m, bits_left) = (if bits_left < 32 then (m, 0) else (mem_at m 4, bits_left - 32));
          s = wb_poke32 (spi_data base i) word s
      in if bits_left = 0 then s else spi_send n base (i + 1) m bits_left s)"

definition store_bytes :: "nat \<Rightarrow> u8 list \<Rightarrow> mem \<Rightarrow> mem" where
  "store_bytes k bs m = (\<lambda>j. if k \<le> j \<and> j < k + length bs then bs ! (j - k) else m j)"

text \<open>What of a received word is stored.\<close>

definition miso_bytes :: "u32 \<Rightarrow> u8 \<Rightarrow> u8 list" where
  "miso_bytes w bits_left =
     (if bits_left < 32
      then (if bits_left \<le> 8 then [ucast (w AND 0xFF)]
            else if bits_left \<le> 16 then [ucast (drop_bit 8 w AND 0xFF), ucast (w AND 0xFF)]
            else if bits_left \<le> 24
            then [ucast (drop_bit 16 w AND 0xFF), ucast (drop_bit 8 w AND 0xFF), ucast (w AND 0xFF)]
            else put32 w)
      else put32 w)"

primrec spi_recv :: "nat \<Rightarrow> u32 \<Rightarrow> nat \<Rightarrow> nat \<Rightarrow> mem \<Rightarrow> u8 \<Rightarrow> 'a bus_scheme \<Rightarrow> mem \<times> 'a bus_scheme" where
  "spi_recv 0 base i k m bits_left s = (m, s)"
| "spi_recv (Suc n) base i k m bits_left s =
     (let (word, s) = wb_peek32 (spi_data base i) s;
          m = store_bytes k (miso_bytes word bits_left) m;
          (k, bits_left) = (if bits_left < 32 then (k, 0) else (k + 4, bits_left - 32))
      in if bits_left = 0 then (m, s) else spi_recv n base (i + 1) k m bits_left s)"

subsection \<open>Transactions\<close>

definition wb_spi_transact_buf ::
  "wb_spi_slave_t \<Rightarrow> wb_spi_rw_mode_t \<Rightarrow> mem option \<Rightarrow> mem option \<Rightarrow> u32 \<Rightarrow> bool \<Rightarrow> 'a bus_scheme
   \<Rightarrow> (mem option \<times> 'a bus_scheme) option" where
  "wb_spi_transact_buf slave rw_mode mosi_buf miso_buf len auto_slave_sel s =
     (if len = 0 then Some (miso_buf, s)
      else do {
        s \<leftarrow> spi_wait_for_xfer slave s;
        let s = (case mosi_buf of Some m \<Rightarrow> spi_send 4 (spi_base slave) 0 m (ucast len) s | None \<Rightarrow> s);
        let ctrl = WB_SPI_CTRL_LENGTH len OR wb_spi_get_flags slave;
        let ctrl = (if auto_slave_sel then ctrl OR WB_SPI_CTRL_AUTO_SS else ctrl);
        let s = wb_poke32 (spi_ctrl_status (spi_base slave)) ctrl s;
        let s = wb_poke32 (spi_slavesel (spi_base slave)) (slave_sel slave) s;
        let s = wb_poke32 (spi_ctrl_status (spi_base slave)) (ctrl OR WB_SPI_CTRL_GO_BSY) s;
        if rw_mode = WRITE_READ
        then do {
          s \<leftarrow> spi_wait_for_xfer slave s;
          Some (case miso_buf of
              Some m \<Rightarrow> (let (m, s) = spi_recv 4 (spi_base slave) 0 0 m (ucast len) s in (Some m, s))
            | None \<Rightarrow> (None, s)) }
        else Some (miso_buf, s) })"

definition wb_spi_transact ::
  "wb_spi_slave_t \<Rightarrow> wb_spi_rw_mode_t \<Rightarrow> mem option \<Rightarrow> mem option \<Rightarrow> u32 \<Rightarrow> 'a bus_scheme
   \<Rightarrow> (mem option \<times> 'a bus_scheme) option" where
  "wb_spi_transact slave rw_mode mosi_buf miso_buf len s =
     wb_spi_transact_buf slave rw_mode mosi_buf miso_buf len True s"

definition wb_spi_transact_man_ss ::
  "wb_spi_slave_t \<Rightarrow> wb_spi_rw_mode_t \<Rightarrow> mem option \<Rightarrow> mem option \<Rightarrow> u32 \<Rightarrow> 'a bus_scheme
   \<Rightarrow> (mem option \<times> 'a bus_scheme) option" where
  "wb_spi_transact_man_ss slave rw_mode mosi_buf miso_buf len s =
     wb_spi_transact_buf slave rw_mode mosi_buf miso_buf len False s"

definition wb_spi_slave_select :: "wb_spi_slave_t \<Rightarrow> 'a bus_scheme \<Rightarrow> 'a bus_scheme option" where
  "wb_spi_slave_select slave s =
     do { s \<leftarrow> spi_wait_for_xfer slave s;
          let s = wb_poke32 (spi_ctrl_status (spi_base slave)) (wb_spi_get_flags slave) s;
          Some (wb_poke32 (spi_slavesel (spi_base slave)) (slave_sel slave) s) }"

definition wb_spi_slave_deselect :: "wb_spi_slave_t \<Rightarrow> 'a bus_scheme \<Rightarrow> 'a bus_scheme option" where
  "wb_spi_slave_deselect slave s =
     do { s \<leftarrow> spi_wait_for_xfer slave s;
          let s = wb_poke32 (spi_ctrl_status (spi_base slave)) (wb_spi_get_flags slave) s;
          Some (wb_poke32 (spi_slavesel (spi_base slave)) 0 s) }"

subsection \<open>What a slave sees\<close>

text \<open>
  The core shifts out the low \<open>n\<close> bits of its 128-bit data register, highest bit first, when the
  control register is written with the go bit; data register 0 is the low word.  For a number of
  bits that is a multiple of eight these are bytes.  The trace determines what the slaves see:
  changes of the slave select lines and the bytes shifted out, with the automatic select or
  without.
\<close>

datatype spi_event = Select u32 | Shift bool "u8 list"

definition latest :: "u32 \<Rightarrow> access list \<Rightarrow> u32" where
  "latest a t = (case writes_to a t of [] \<Rightarrow> 0 | v # vs \<Rightarrow> v)"

definition shift_bytes :: "u32 \<Rightarrow> access list \<Rightarrow> nat \<Rightarrow> u8 list" where
  "shift_bytes base t n = drop (16 - n)
     (put32 (latest (spi_data base 3) t) @ put32 (latest (spi_data base 2) t)
      @ put32 (latest (spi_data base 1) t) @ put32 (latest (spi_data base 0) t))"

definition ctrl_bytes :: "u32 \<Rightarrow> nat" where
  "ctrl_bytes ctrl = (if ctrl AND 0x7F = 0 then 16 else unat (ctrl AND 0x7F) div 8)"

primrec spi_events :: "u32 \<Rightarrow> access list \<Rightarrow> spi_event list" where
  "spi_events base [] = []"
| "spi_events base (x # t) = spi_events base t @
     (case x of Rd a v \<Rightarrow> []
      | Wr a v \<Rightarrow> if a = spi_slavesel base then [Select v]
                  else if a = spi_ctrl_status base \<and> v AND WB_SPI_CTRL_GO_BSY \<noteq> 0
                  then [Shift (v AND WB_SPI_CTRL_AUTO_SS \<noteq> 0) (shift_bytes base t (ctrl_bytes v))] else [])"

text \<open>The order in which \<open>n\<close> bytes of a buffer go out: the words in reverse, the last one first, each
  word's bytes in the order of the buffer.\<close>

definition spi_order :: "nat \<Rightarrow> mem \<Rightarrow> u8 list" where
  "spi_order n m = concat (map (\<lambda>i. mem_take (mem_at m (4 * i)) (min 4 (n - 4 * i))) (rev [0..<(n + 3) div 4]))"

lemma latest_Nil [simp]: "latest a [] = 0"
  by (simp add: latest_def writes_to_def List.map_filter_simps)

lemma latest_Cons [simp]:
  "latest a (x # t) = (case x of Wr b v \<Rightarrow> if b = a then v else latest a t | Rd _ _ \<Rightarrow> latest a t)"
  by (simp add: latest_def writes_to_def List.map_filter_simps split: access.split)

lemma spi_events_after_reads [simp]: "spi_events base (trace (after_reads a n s)) = spi_events base (trace s)"
  by (induction n arbitrary: s) simp_all

lemma latest_after_reads [simp]: "latest b (trace (after_reads a n s)) = latest b (trace s)"
  by (induction n arbitrary: s) simp_all

lemma u8_bit_high: "8 \<le> n \<Longrightarrow> \<not> bit (w :: u8) n"
  using bit_imp_le_length [of w n] by auto

text \<open>The low bytes of a data word that holds the last \<open>r\<close> bytes of a buffer are these bytes.\<close>

lemma drop_put32: "drop 3 (put32 w) = [lo8 (lo16 w)]" "drop 2 (put32 w) = [hi8 (lo16 w), lo8 (lo16 w)]"
  "drop 1 (put32 w) = [lo8 (hi16 w), hi8 (lo16 w), lo8 (lo16 w)]"
  by (simp_all add: put32_def put16_def numeral_eq_Suc)

lemma mosi_word_bytes:
  "drop 3 (put32 (mosi_word m 8)) = [m 0]"
  "drop 2 (put32 (mosi_word m 16)) = [m 0, m 1]"
  "drop 1 (put32 (mosi_word m 24)) = [m 0, m 1, m 2]"
  "32 \<le> b \<Longrightarrow> put32 (mosi_word m b) = [m 0, m 1, m 2, m 3]"
proof -
  show "drop 3 (put32 (mosi_word m 8)) = [m 0]"
    unfolding drop_put32 by (simp add: mosi_word_def lo8_def lo16_def) (rule bit_word_eqI, simp add: bit_simps u8_bit_high)
  show "drop 2 (put32 (mosi_word m 16)) = [m 0, m 1]"
    unfolding drop_put32 by (simp add: mosi_word_def hi8_def lo8_def lo16_def) (safe; rule bit_word_eqI; simp add: bit_simps u8_bit_high; blast?)
  show "drop 1 (put32 (mosi_word m 24)) = [m 0, m 1, m 2]"
    unfolding drop_put32 by (simp add: mosi_word_def hi8_def lo8_def lo16_def hi16_def) (safe; rule bit_word_eqI; simp add: bit_simps u8_bit_high; blast?)
  show "32 \<le> b \<Longrightarrow> put32 (mosi_word m b) = [m 0, m 1, m 2, m 3]"
    by (simp add: mosi_word_def put32_be32 numeral_2_eq_2 not_less [symmetric])
qed

lemma less_4_cases: "i < (4 :: nat) \<longleftrightarrow> i = 0 \<or> i = 1 \<or> i = 2 \<or> i = 3"
  by presburger

lemma spi_data_eq [simp]: "i < 4 \<Longrightarrow> j < 4 \<Longrightarrow> spi_data base i = spi_data base j \<longleftrightarrow> i = j"
  by (auto simp: spi_data_def less_4_cases)

lemma spi_ctrl_neq [simp]:
  "spi_slavesel base \<noteq> spi_ctrl_status base" "spi_ctrl_status base \<noteq> spi_slavesel base"
  by (simp_all add: spi_ctrl_status_def spi_slavesel_def)

lemma spi_data_neq [simp]:
  "i < 4 \<Longrightarrow> spi_data base i \<noteq> spi_ctrl_status base" "i < 4 \<Longrightarrow> spi_data base i \<noteq> spi_slavesel base"
  "i < 4 \<Longrightarrow> spi_ctrl_status base \<noteq> spi_data base i" "i < 4 \<Longrightarrow> spi_slavesel base \<noteq> spi_data base i"
  by (auto simp: spi_data_def spi_ctrl_status_def spi_slavesel_def less_4_cases)

lemma shift_bytes_skip [simp]:
  "shift_bytes base (Wr (spi_ctrl_status base) v # t) = shift_bytes base t"
  "shift_bytes base (Wr (spi_slavesel base) v # t) = shift_bytes base t"
  by (rule ext, simp add: shift_bytes_def)+

lemma upto_16_cases:
  assumes "1 \<le> n" "n \<le> (16 :: nat)"
  shows "(n = 4 \<or> n = 8 \<or> n = 12 \<or> n = 16) \<or> (n = 3 \<or> n = 7 \<or> n = 11 \<or> n = 15)
    \<or> (n = 2 \<or> n = 6 \<or> n = 10 \<or> n = 14) \<or> (n = 1 \<or> n = 5 \<or> n = 9 \<or> n = 13)"
  using assms by presburger

lemma spi_send_events [simp]: "i + k \<le> 4 \<Longrightarrow> spi_events base (trace (spi_send k base i m b s)) = spi_events base (trace s)"
proof (induction k arbitrary: i m b s)
  case (Suc k)
  then show ?case by (simp add: Let_def)
qed simp

text \<open>The data registers, loaded with \<open>n\<close> bytes, shift them out in the order above.\<close>

lemma shift_bytes_send:
  assumes "1 \<le> n" "n \<le> 16"
  shows "shift_bytes base (trace (spi_send 4 base 0 m (of_nat (8 * n)) s)) n = spi_order n m"
proof -
  have four: "spi_send 4 = spi_send (Suc (Suc (Suc (Suc 0))))" by (simp add: numeral_eq_Suc)
  from upto_16_cases [OF assms] show ?thesis
    by (elim disjE; hypsubst)
      (simp_all add: shift_bytes_def spi_order_def four mosi_word_bytes mosi_word_bytes(3) [unfolded One_nat_def]
        Let_def mem_take_def mem_at_def upt_rec, simp_all add: numeral_2_eq_2 numeral_3_eq_3)
qed

text \<open>The control word of a transaction of \<open>n\<close> bytes.\<close>

definition spi_ctrl :: "wb_spi_slave_t \<Rightarrow> nat \<Rightarrow> bool \<Rightarrow> u32" where
  "spi_ctrl slave n auto =
     (let ctrl = WB_SPI_CTRL_LENGTH (of_nat (8 * n)) OR wb_spi_get_flags slave
      in if auto then ctrl OR WB_SPI_CTRL_AUTO_SS else ctrl)"

lemmas spi_bits = WB_SPI_CTRL_TXNEG_def WB_SPI_CTRL_RXNEG_def WB_SPI_CTRL_LSB_def WB_SPI_CTRL_GO_BSY_def
  WB_SPI_CTRL_AUTO_SS_def WB_SPI_CTRL_LENGTH_def BIT_def push_bit_eq_mult

text \<open>The flags only ever use bits 9 to 11.\<close>

lemma wb_spi_flags_cases:
  "wb_spi_get_flags slave \<in> {0, 0x200, 0x400, 0x600, 0x800, 0xA00, 0xC00, 0xE00}"
  by (cases "mosi_edge slave"; cases "miso_edge slave"; cases "lsb_first slave")
    (simp_all add: wb_spi_get_flags_def spi_bits)

lemma spi_length_cases:
  assumes "1 \<le> n" "n \<le> 16"
  shows "WB_SPI_CTRL_LENGTH (of_nat (8 * n)) = (if n = 16 then 0 else of_nat (8 * n))"
proof -
  from upto_16_cases [OF assms] show ?thesis by (elim disjE; hypsubst) (simp_all add: spi_bits)
qed

lemma and_or_low: "(a OR f) AND m = (a AND m) OR (f AND m)" for a f m :: u32
  by (rule bit_word_eqI) (auto simp: bit_simps)

lemma spi_ctrl_fields:
  assumes "1 \<le> n" "n \<le> 16"
  shows "ctrl_bytes (spi_ctrl slave n auto OR WB_SPI_CTRL_GO_BSY) = n"
    and "(spi_ctrl slave n auto OR WB_SPI_CTRL_GO_BSY) AND WB_SPI_CTRL_GO_BSY \<noteq> 0"
    and "spi_ctrl slave n auto AND WB_SPI_CTRL_GO_BSY = 0"
    and "(spi_ctrl slave n auto OR WB_SPI_CTRL_GO_BSY) AND WB_SPI_CTRL_AUTO_SS \<noteq> 0 \<longleftrightarrow> auto"
proof -
  define f where "f = wb_spi_get_flags slave"
  define l where "l = WB_SPI_CTRL_LENGTH (of_nat (8 * n))"
  have f: "f AND 0x7F = 0" "f AND 0x100 = 0" "f AND 0x2000 = 0"
    using wb_spi_flags_cases [of slave] unfolding f_def by auto
  from upto_16_cases [OF assms] have l: "l AND 0x7F = l" "l AND 0x100 = 0" "l AND 0x2000 = 0" "ctrl_bytes l = n"
    unfolding l_def by - (elim disjE; hypsubst; simp add: spi_bits ctrl_bytes_def)+
  have c: "spi_ctrl slave n auto = (if auto then (l OR f) OR 0x2000 else l OR f)"
    by (simp add: spi_ctrl_def l_def f_def Let_def WB_SPI_CTRL_AUTO_SS_def BIT_def push_bit_eq_mult)
  have go: "WB_SPI_CTRL_GO_BSY = 0x100" "WB_SPI_CTRL_AUTO_SS = 0x2000"
    by (simp_all add: spi_bits)
  show "(spi_ctrl slave n auto OR WB_SPI_CTRL_GO_BSY) AND WB_SPI_CTRL_GO_BSY \<noteq> 0"
    "spi_ctrl slave n auto AND WB_SPI_CTRL_GO_BSY = 0"
    "(spi_ctrl slave n auto OR WB_SPI_CTRL_GO_BSY) AND WB_SPI_CTRL_AUTO_SS \<noteq> 0 \<longleftrightarrow> auto"
    unfolding go c by (simp_all add: and_or_low f l)
  have "(spi_ctrl slave n auto OR WB_SPI_CTRL_GO_BSY) AND 0x7F = l AND 0x7F"
    unfolding go c by (simp add: and_or_low f l)
  then show "ctrl_bytes (spi_ctrl slave n auto OR WB_SPI_CTRL_GO_BSY) = n"
    using l(4) by (simp only: ctrl_bytes_def)
qed

lemma unat_bits:
  assumes "1 \<le> n" "n \<le> (16 :: nat)"
  shows "unat (of_nat (8 * n) :: u32) = 8 * n" "unat (of_nat (8 * n) :: u8) = 8 * n"
  using assms by (simp_all only: unsigned_of_nat) (simp_all add: take_bit_nat_eq_self)

lemma ucast_bits_u8: "1 \<le> n \<Longrightarrow> n \<le> 16 \<Longrightarrow> (ucast (of_nat (8 * n) :: u32) :: u8) = of_nat (8 * n)"
  by (rule word_unat_eq_iff [THEN iffD2]) (simp only: unsigned_ucast_eq unat_bits, simp add: take_bit_nat_eq_self)

lemma bits_not_0: "1 \<le> n \<Longrightarrow> n \<le> 16 \<Longrightarrow> (of_nat (8 * n) :: u32) \<noteq> 0"
  using unat_bits(1) [of n] by (auto simp del: of_nat_mult)

lemma spi_wait_for_xfer_result:
  "spi_wait_for_xfer slave s = Some s' \<Longrightarrow> \<exists>k. s' = after_reads (spi_ctrl_status (spi_base slave)) k s"
  unfolding spi_wait_for_xfer_def by (blast dest: spin_while_result)

text \<open>A core that is never busy.\<close>

definition spi_ready :: "wb_spi_slave_t \<Rightarrow> 'a bus_scheme \<Rightarrow> bool" where
  "spi_ready slave s \<longleftrightarrow> (\<forall>t. dev s t (spi_ctrl_status (spi_base slave)) AND WB_SPI_CTRL_GO_BSY = 0)"

lemma spi_wait_for_xfer_ready:
  "spi_ready slave s \<Longrightarrow> spi_wait_for_xfer slave s = Some (snd (wb_peek32 (spi_ctrl_status (spi_base slave)) s))"
  unfolding spi_wait_for_xfer_def spi_ready_def
  by (subst spin_while.simps) (simp add: case_prod_unfold)

lemma dev_spi_send [simp]: "dev (spi_send k base i m b s) = dev s"
  by (induction k arbitrary: i m b s) (simp_all add: Let_def)

lemma dev_spi_recv [simp]: "dev (snd (spi_recv k base i j m b s)) = dev s"
  by (induction k arbitrary: i j m b s) (simp_all add: Let_def case_prod_unfold)

lemma spi_ready_dev: "dev s' = dev s \<Longrightarrow> spi_ready slave s' = spi_ready slave s"
  by (simp add: spi_ready_def)

lemma spi_events_recv [simp]: "spi_events base (trace (snd (spi_recv k b i j m n s))) = spi_events base (trace s)"
  by (induction k arbitrary: i j m n s) (simp_all add: Let_def case_prod_unfold)

lemma spi_events_go:
  assumes "1 \<le> n" "n \<le> 16"
  shows "spi_events base (Wr (spi_ctrl_status base) (spi_ctrl slave n auto OR WB_SPI_CTRL_GO_BSY)
      # Wr (spi_slavesel base) sel # Wr (spi_ctrl_status base) (spi_ctrl slave n auto) # t)
    = spi_events base t @ [Select sel, Shift auto (shift_bytes base t n)]"
  using spi_ctrl_fields [OF assms, of slave auto] by simp

text \<open>What a transaction does on the bus up to the start of the transfer.\<close>

definition spi_start :: "wb_spi_slave_t \<Rightarrow> mem option \<Rightarrow> nat \<Rightarrow> bool \<Rightarrow> 'a bus_scheme \<Rightarrow> 'a bus_scheme" where
  "spi_start slave mosi n auto s =
     wb_poke32 (spi_ctrl_status (spi_base slave)) (spi_ctrl slave n auto OR WB_SPI_CTRL_GO_BSY)
      (wb_poke32 (spi_slavesel (spi_base slave)) (slave_sel slave)
        (wb_poke32 (spi_ctrl_status (spi_base slave)) (spi_ctrl slave n auto)
          (case mosi of Some m \<Rightarrow> spi_send 4 (spi_base slave) 0 m (of_nat (8 * n)) s | None \<Rightarrow> s)))"

lemma transact_start:
  assumes "1 \<le> n" "n \<le> 16"
  shows "wb_spi_transact_buf slave mode mosi miso (of_nat (8 * n)) auto s =
    do { s \<leftarrow> spi_wait_for_xfer slave s;
         if mode = WRITE then Some (miso, spi_start slave mosi n auto s)
         else do { s \<leftarrow> spi_wait_for_xfer slave (spi_start slave mosi n auto s);
                   Some (case miso of Some m \<Rightarrow>
                       (let (m, s) = spi_recv 4 (spi_base slave) 0 0 m (of_nat (8 * n)) s in (Some m, s))
                     | None \<Rightarrow> (None, s)) } }"
proof -
  show ?thesis
    unfolding wb_spi_transact_buf_def spi_start_def spi_ctrl_def Let_def ucast_bits_u8 [OF assms]
    using bits_not_0 [OF assms] by (cases mode) (simp_all del: of_nat_mult)
qed

lemma spi_start_events:
  assumes "1 \<le> n" "n \<le> 16"
  shows "spi_events (spi_base slave) (trace (spi_start slave (Some m) n auto s))
    = spi_events (spi_base slave) (trace s) @ [Select (slave_sel slave), Shift auto (spi_order n m)]"
  unfolding spi_start_def
  by (simp only: option.case trace_poke spi_events_go [OF assms] shift_bytes_send [OF assms] spi_send_events)

lemma spi_start_events_read:
  assumes "1 \<le> n" "n \<le> 16"
  shows "\<exists>bs. length bs = n \<and> spi_events (spi_base slave) (trace (spi_start slave None n auto s))
    = spi_events (spi_base slave) (trace s) @ [Select (slave_sel slave), Shift auto bs]"
  unfolding spi_start_def
  using assms by (intro exI [of _ "shift_bytes (spi_base slave) (trace s) n"])
    (simp only: option.case trace_poke spi_events_go [OF assms], simp add: shift_bytes_def)

lemma spi_events_wait:
  "spi_wait_for_xfer slave s = Some s' \<Longrightarrow> spi_events base (trace s') = spi_events base (trace s)"
  using spi_wait_for_xfer_result by fastforce

lemma dev_spi_start [simp]: "dev (spi_start slave mosi n auto s) = dev s"
  by (simp add: spi_start_def split: option.split)

lemma dev_wait: "spi_wait_for_xfer slave s = Some s' \<Longrightarrow> dev s' = dev s"
  by (auto dest: spi_wait_for_xfer_result)

text \<open>Whatever a transaction does after its start does not show on the bus to the slaves.\<close>

lemma transact_events_start:
  fixes s s' :: "'a bus_scheme"
  assumes n: "1 \<le> n" "n \<le> 16"
    and "wb_spi_transact_buf slave mode mosi miso (of_nat (8 * n)) auto s = Some (r, s')"
  shows "\<exists>s0 :: 'a bus_scheme. dev s' = dev s \<and> spi_events base (trace s0) = spi_events base (trace s)
    \<and> spi_events base (trace s') = spi_events base (trace (spi_start slave mosi n auto s0))"
proof -
  from assms(3) obtain s0 where s0: "spi_wait_for_xfer slave s = Some s0"
    and rest: "(if mode = WRITE then Some (miso, spi_start slave mosi n auto s0)
         else do { s \<leftarrow> spi_wait_for_xfer slave (spi_start slave mosi n auto s0);
                   Some (case miso of Some m \<Rightarrow>
                       (let (m, s) = spi_recv 4 (spi_base slave) 0 0 m (of_nat (8 * n)) s in (Some m, s))
                     | None \<Rightarrow> (None, s)) }) = Some (r, s')"
    unfolding transact_start [OF n] by (auto simp: bind_eq_Some_conv)
  show ?thesis
  proof (cases "mode = WRITE")
    case True
    with rest spi_events_wait [OF s0] dev_wait [OF s0] show ?thesis by (intro exI [of _ s0]) auto
  next
    case False
    with rest obtain s1 where s1: "spi_wait_for_xfer slave (spi_start slave mosi n auto s0) = Some s1"
      and "s' = s1 \<or> (\<exists>m. s' = snd (spi_recv 4 (spi_base slave) 0 0 m (of_nat (8 * n)) s1))"
      by (auto simp: bind_eq_Some_conv case_prod_unfold Let_def split: option.splits)
    then have "spi_events base (trace s') = spi_events base (trace s1)" "dev s' = dev s1" by auto
    with spi_events_wait [OF s0] spi_events_wait [OF s1] dev_wait [OF s0] dev_wait [OF s1] show ?thesis by (intro exI [of _ s0]) simp
  qed
qed

lemma transact_events:
  assumes "1 \<le> n" "n \<le> 16"
    and "wb_spi_transact_buf slave mode (Some m) miso (of_nat (8 * n)) auto s = Some (r, s')"
  shows "spi_events (spi_base slave) (trace s')
    = spi_events (spi_base slave) (trace s) @ [Select (slave_sel slave), Shift auto (spi_order n m)]"
  using transact_events_start [OF assms, of "spi_base slave"] spi_start_events [OF assms(1,2)] by metis

lemma dev_transact:
  assumes "1 \<le> n" "n \<le> 16"
    and "wb_spi_transact_buf slave mode mosi miso (of_nat (8 * n)) auto s = Some (r, s')"
  shows "dev s' = dev s"
  using transact_events_start [OF assms] by metis

lemma transact_events_read:
  assumes "1 \<le> n" "n \<le> 16"
    and "wb_spi_transact_buf slave mode None miso (of_nat (8 * n)) auto s = Some (r, s')"
  shows "\<exists>bs. length bs = n \<and> spi_events (spi_base slave) (trace s')
    = spi_events (spi_base slave) (trace s) @ [Select (slave_sel slave), Shift auto bs]"
  using transact_events_start [OF assms, of "spi_base slave"] spi_start_events_read [OF assms(1,2)] by metis

lemma transact_returns:
  assumes "1 \<le> n" "n \<le> 16" "spi_ready slave s"
  shows "\<exists>r s'. wb_spi_transact_buf slave mode mosi miso (of_nat (8 * n)) auto s = Some (r, s')"
  unfolding transact_start [OF assms(1,2)]
  by (simp add: spi_wait_for_xfer_ready assms(3) spi_ready_dev [of _ s] case_prod_unfold split: option.split)

text \<open>Up to four bytes are received in the first data register.\<close>

lemma spi_recv_word:
  "b \<le> 32 \<Longrightarrow> fst (spi_recv (Suc k) base i j m b s) = store_bytes j (miso_bytes (fst (wb_peek32 (spi_data base i) s)) b) m"
  by (auto simp: Let_def case_prod_unfold)

lemma transact_read_word:
  assumes "1 \<le> n" "n \<le> 4"
    and "wb_spi_transact_buf slave WRITE_READ mosi (Some m) (of_nat (8 * n)) auto s = Some (r, s')"
  shows "\<exists>t. r = Some (store_bytes 0 (miso_bytes (dev s t (spi_data (spi_base slave) 0)) (of_nat (8 * n))) m)"
proof -
  from assms(1,2) have n: "1 \<le> n" "n \<le> 16" by simp_all
  have b: "(of_nat (8 * n) :: u8) \<le> 32"
    using assms(1,2) unat_bits(2) [OF n] by (simp add: word_le_nat_alt del: of_nat_mult)
  obtain s0 s1 where s0: "spi_wait_for_xfer slave s = Some s0"
    and s1: "spi_wait_for_xfer slave (spi_start slave mosi n auto s0) = Some s1"
    and r: "r = Some (fst (spi_recv 4 (spi_base slave) 0 0 m (of_nat (8 * n)) s1))"
    using assms(3) unfolding transact_start [OF n] by (auto simp: bind_eq_Some_conv case_prod_unfold Let_def)
  have four: "(4 :: nat) = Suc 3" by simp
  from r have "r = Some (store_bytes 0 (miso_bytes (dev s1 (trace s1) (spi_data (spi_base slave) 0)) (of_nat (8 * n))) m)"
    by (simp only: four spi_recv_word [OF b] fst_peek)
  moreover have "dev s1 = dev s" using dev_wait [OF s0] dev_wait [OF s1] by simp
  ultimately show ?thesis by metis
qed

subsection \<open>A core that loops back\<close>

text \<open>A core whose data registers read as last written.\<close>

definition spi_loops :: "wb_spi_slave_t \<Rightarrow> 'a bus_scheme \<Rightarrow> bool" where
  "spi_loops slave s \<longleftrightarrow> (\<forall>t. \<forall>i<4. dev s t (spi_data (spi_base slave) i) = latest (spi_data (spi_base slave) i) t)"

lemma bit_255: "bit (255 :: u32) n \<longleftrightarrow> n < 8" "bit (255 :: u8) n \<longleftrightarrow> n < 8"
  "bit (255 :: int) n \<longleftrightarrow> n < 8" "bit (255 :: nat) n \<longleftrightarrow> n < 8"
proof -
  have "(255 :: u32) = mask 8" "(255 :: u8) = mask 8" "(255 :: int) = mask 8" "(255 :: nat) = mask 8"
    by (simp_all add: mask_eq_exp_minus_1)
  then show "bit (255 :: u32) n \<longleftrightarrow> n < 8" "bit (255 :: u8) n \<longleftrightarrow> n < 8"
      "bit (255 :: int) n \<longleftrightarrow> n < 8" "bit (255 :: nat) n \<longleftrightarrow> n < 8"
    by (simp_all only: bit_mask_iff) auto
qed

lemma miso_mosi:
  "miso_bytes (mosi_word m 8) 8 = mem_take m 1"
  "miso_bytes (mosi_word m 16) 16 = mem_take m 2"
  "miso_bytes (mosi_word m 24) 24 = mem_take m 3"
  "32 \<le> b \<Longrightarrow> miso_bytes (mosi_word m b) b = mem_take m 4"
proof -
  show "miso_bytes (mosi_word m 8) 8 = mem_take m 1"
    by (simp add: miso_bytes_def mosi_word_def mem_take_def) (rule bit_word_eqI, simp add: bit_simps u8_bit_high bit_255)
  show "miso_bytes (mosi_word m 16) 16 = mem_take m 2"
    by (simp add: miso_bytes_def mosi_word_def mem_take_def upt_rec)
      (safe; rule bit_word_eqI; simp add: bit_simps u8_bit_high bit_255; blast?)
  show "miso_bytes (mosi_word m 24) 24 = mem_take m 3"
    by (simp add: miso_bytes_def mosi_word_def mem_take_def upt_rec, simp add: numeral_2_eq_2 [symmetric])
      (safe; rule bit_word_eqI; simp add: bit_simps u8_bit_high bit_255; blast?)
  show "32 \<le> b \<Longrightarrow> miso_bytes (mosi_word m b) b = mem_take m 4"
    using mosi_word_bytes(4) [of b m]
    by (simp add: miso_bytes_def mem_take_def upt_rec not_less [symmetric])
      (simp add: numeral_2_eq_2 numeral_3_eq_3)
qed

text \<open>Stores that extend a copied prefix.\<close>

lemma store_extends:
  assumes "p = (\<lambda>j. if j < k then m j else m0 j)"
  shows "store_bytes k (mem_take (mem_at m k) r) p = (\<lambda>j. if j < k + r then m j else m0 j)"
  by (rule ext) (auto simp: assms store_bytes_def mem_at_def)

lemma store_first: "store_bytes 0 (mem_take m r) m0 = (\<lambda>j. if j < r then m j else m0 j)"
  by (rule ext) (simp add: store_bytes_def)

lemma spi_recv_loop:
  assumes "1 \<le> n" "n \<le> 16"
    and "\<And>t i. i < 4 \<Longrightarrow> dev s t (spi_data base i) = latest (spi_data base i) t"
    and "\<And>i. i < 4 \<Longrightarrow> latest (spi_data base i) (trace s) = latest (spi_data base i) (trace (spi_send 4 base 0 m (of_nat (8 * n)) s0))"
  shows "fst (spi_recv 4 base 0 0 m0 (of_nat (8 * n)) s) = (\<lambda>j. if j < n then m j else m0 j)"
proof -
  have four: "spi_send 4 = spi_send (Suc (Suc (Suc (Suc 0))))" "spi_recv 4 = spi_recv (Suc (Suc (Suc (Suc 0))))"
    by (simp_all add: numeral_eq_Suc)
  from upto_16_cases [OF assms(1,2)] show ?thesis
    by (elim disjE; hypsubst)
      (simp_all add: four Let_def case_prod_unfold assms(3,4) miso_mosi miso_mosi(1) [unfolded One_nat_def] store_first store_extends)
qed

lemma latest_spi_start:
  "i < 4 \<Longrightarrow> latest (spi_data (spi_base slave) i) (trace (spi_start slave (Some m) n auto s))
    = latest (spi_data (spi_base slave) i) (trace (spi_send 4 (spi_base slave) 0 m (of_nat (8 * n)) s))"
  by (simp add: spi_start_def del: of_nat_mult)

lemma spi_order_word: "1 \<le> n \<Longrightarrow> n \<le> 4 \<Longrightarrow> spi_order n m = mem_take m n"
proof -
  assume "1 \<le> n" "n \<le> 4"
  then have "(n + 3) div 4 = 1" "min 4 n = n" by (presburger, simp)
  then show ?thesis by (simp add: spi_order_def)
qed

subsection \<open>Properties\<close>

text \<open>A transaction, as the slave sees it: with a core that is not busy it returns, and all it did to the
  slaves is to select the one it is for and shift out the \<open>n\<close> bytes; up to four bytes leave in the order of the
  buffer, more of them word by word with the last word first.\<close>

theorem spi_transaction_bytes:
  assumes "1 \<le> n" "n \<le> 16" "spi_ready slave s"
  shows "\<exists>r s'. wb_spi_transact slave mode (Some m) miso (of_nat (8 * n)) s = Some (r, s')
    \<and> spi_events (spi_base slave) (trace s')
        = spi_events (spi_base slave) (trace s) @ [Select (slave_sel slave), Shift True (spi_order n m)]
    \<and> (n \<le> 4 \<longrightarrow> spi_order n m = mem_take m n)"
proof -
  obtain r s' where "wb_spi_transact_buf slave mode (Some m) miso (of_nat (8 * n)) True s = Some (r, s')"
    using transact_returns [OF assms] by blast
  with transact_events [OF assms(1,2) this] show ?thesis
    using assms(1) spi_order_word [of n m] unfolding wb_spi_transact_def by blast
qed

definition demo_spi :: wb_spi_slave_t where
  "demo_spi = \<lparr>spi_base = 0x1000, slave_sel = 1, clk_div = 4, mosi_edge = RISING, miso_edge = FALLING, lsb_first = False\<rparr>"

definition demo_spi_bus :: "unit bus_scheme" where
  "demo_spi_bus = \<lparr>dev = \<lambda>t a. if a = 0x1010 then 0 else latest a t, trace = []\<rparr>"

lemma demo_spi_ready: "spi_ready demo_spi demo_spi_bus"
  by (simp add: spi_ready_def demo_spi_def demo_spi_bus_def spi_ctrl_status_def)

lemma spi_transaction_bytes_witness:
  "\<exists>r s'. wb_spi_transact demo_spi WRITE (Some (mem_of [0x9F, 1, 2, 3, 4])) None (of_nat (8 * 5)) demo_spi_bus = Some (r, s')
    \<and> spi_events 0x1000 (trace s') = [Select 1, Shift True [4, 0x9F, 1, 2, 3]]"
proof -
  have "spi_order 5 (mem_of [0x9F, 1, 2, 3, 4]) = [4, 0x9F, 1, 2, 3]"
    by (simp add: spi_order_def mem_take_def mem_at_def mem_of_def upt_rec)
  moreover have "spi_base demo_spi = 0x1000" "slave_sel demo_spi = 1" "trace demo_spi_bus = []"
    by (simp_all add: demo_spi_def demo_spi_bus_def)
  ultimately show ?thesis
    using spi_transaction_bytes [of 5 demo_spi demo_spi_bus WRITE "mem_of [0x9F, 1, 2, 3, 4]" None] demo_spi_ready
    by (simp del: of_nat_mult of_nat_numeral)
qed

text \<open>C18. Sending and receiving agree on the layout of the data registers: on a core whose registers read as
  written, what a transaction of up to 16 bytes receives is the bytes it sent, and the rest of the receive buffer
  stays as it was.\<close>

theorem spi_loopback:
  assumes "1 \<le> n" "n \<le> 16" "spi_ready slave s" "spi_loops slave s"
  shows "\<exists>s'. wb_spi_transact slave WRITE_READ (Some m) (Some m0) (of_nat (8 * n)) s
      = Some (Some (\<lambda>j. if j < n then m j else m0 j), s')"
proof -
  let ?s0 = "snd (wb_peek32 (spi_ctrl_status (spi_base slave)) s)"
  let ?s1 = "snd (wb_peek32 (spi_ctrl_status (spi_base slave)) (spi_start slave (Some m) n True ?s0))"
  have "fst (spi_recv 4 (spi_base slave) 0 0 m0 (of_nat (8 * n)) ?s1) = (\<lambda>j. if j < n then m j else m0 j)"
  proof (rule spi_recv_loop [OF assms(1,2)])
    show "dev ?s1 t (spi_data (spi_base slave) i) = latest (spi_data (spi_base slave) i) t" if "i < 4" for t i
      using assms(4) that by (simp add: spi_loops_def)
    show "latest (spi_data (spi_base slave) i) (trace ?s1)
        = latest (spi_data (spi_base slave) i) (trace (spi_send 4 (spi_base slave) 0 m (of_nat (8 * n)) ?s0))" if "i < 4" for i
      using that by (simp add: latest_spi_start del: of_nat_mult)
  qed
  then show ?thesis
    unfolding wb_spi_transact_def transact_start [OF assms(1,2)]
    by (simp add: spi_wait_for_xfer_ready assms(3) spi_ready_dev [of _ s] case_prod_unfold del: of_nat_mult)
qed

lemma spi_loopback_witness:
  "\<exists>s'. wb_spi_transact demo_spi WRITE_READ (Some (mem_of [1, 2, 3, 4, 5])) (Some (mem_of [])) (of_nat (8 * 5)) demo_spi_bus
    = Some (Some (\<lambda>j. if j < 5 then mem_of [1, 2, 3, 4, 5] j else mem_of [] j), s')"
proof (rule spi_loopback [OF _ _ demo_spi_ready])
  show "spi_loops demo_spi demo_spi_bus"
    by (auto simp: spi_loops_def demo_spi_def demo_spi_bus_def spi_data_def less_4_cases)
qed simp_all

end
