(* ===== verification/SpiFlash.thy ===== *)
theory SpiFlash
  imports WbSpi Cron
begin

unbundle bit_operations_syntax

section \<open>The serial flash memory\<close>

text \<open>
  \<^verbatim>\<open>firmware/usrp3/lib/flash/spi_flash.c\<close> and the driver for Spansion S25FL chips in
  \<^verbatim>\<open>spif_spsn_s25flxx.c\<close>.  The table of operations of a device is a record of functions.
  One store of the driver, \<^verbatim>\<open>*((uint32_t*)(read_cmd + 3)) = (offset << 8)\<close>, is misaligned and
  reaches past its array of five bytes: what it does to the array is the parameter \<open>misaligned_store\<close> of
  the state.  \<open>flash_junk\<close> is what an array on the stack holds before it is written.  Prints are left out.
\<close>

record spi_flash_dev_t =
  page_size :: u32
  sector_size :: u32
  num_sectors :: u32
  flash_bus :: wb_spi_slave_t

record 's spi_flash_ops_t =
  op_read_id :: "spi_flash_dev_t \<Rightarrow> 's \<Rightarrow> (u16 \<times> 's) option"
  op_read :: "spi_flash_dev_t \<Rightarrow> u32 \<Rightarrow> u32 \<Rightarrow> 's \<Rightarrow> (u8 list \<times> 's) option"
  op_erase_sector_dispatch :: "spi_flash_dev_t \<Rightarrow> u32 \<Rightarrow> 's \<Rightarrow> (bool \<times> 's) option"
  op_erase_sector_commit :: "spi_flash_dev_t \<Rightarrow> u32 \<Rightarrow> 's \<Rightarrow> (bool \<times> 's) option"
  op_erase_sector_busy :: "spi_flash_dev_t \<Rightarrow> 's \<Rightarrow> (bool \<times> 's) option"
  op_write_page_dispatch :: "spi_flash_dev_t \<Rightarrow> u32 \<Rightarrow> mem \<Rightarrow> u32 \<Rightarrow> 's \<Rightarrow> (bool \<times> 's) option"
  op_write_page_commit :: "spi_flash_dev_t \<Rightarrow> u32 \<Rightarrow> mem \<Rightarrow> u32 \<Rightarrow> 's \<Rightarrow> (bool \<times> 's) option"
  op_write_page_busy :: "spi_flash_dev_t \<Rightarrow> 's \<Rightarrow> (bool \<times> 's) option"

datatype spi_flash_state_t = IDLE | WRITE_IN_PROGRESS | ERASE_IN_PROGRESS

record 's spi_flash_session_t =
  device :: spi_flash_dev_t
  ops :: "'s spi_flash_ops_t"
  fstate :: spi_flash_state_t
  last_offset :: u32
  flash_id :: u16

subsection \<open>Sessions\<close>

definition spif_init ::
  "'s spi_flash_session_t \<Rightarrow> spi_flash_dev_t \<Rightarrow> 's spi_flash_ops_t \<Rightarrow> 's \<Rightarrow> ('s spi_flash_session_t \<times> 's) option" where
  "spif_init flash dev' ops' s =
     do { (i, s) \<leftarrow> op_read_id ops' dev' s;
          Some (flash\<lparr>device := dev', ops := ops', fstate := IDLE, last_offset := 0, flash_id := i\<rparr>, s) }"

definition spif_read_sync ::
  "'s spi_flash_session_t \<Rightarrow> u32 \<Rightarrow> u32 \<Rightarrow> 's \<Rightarrow> (u8 list \<times> 's) option" where
  "spif_read_sync flash offset num_bytes s = op_read (ops flash) (device flash) offset num_bytes s"

definition spif_erase_sector_sync ::
  "'s spi_flash_session_t \<Rightarrow> u32 \<Rightarrow> 's \<Rightarrow> (bool \<times> 's) option" where
  "spif_erase_sector_sync flash offset s =
     do { (ok, s) \<leftarrow> op_erase_sector_dispatch (ops flash) (device flash) offset s;
          if ok then op_erase_sector_commit (ops flash) (device flash) offset s else Some (False, s) }"

definition spif_write_page_sync ::
  "'s spi_flash_session_t \<Rightarrow> u32 \<Rightarrow> mem \<Rightarrow> u32 \<Rightarrow> 's \<Rightarrow> (bool \<times> 's) option" where
  "spif_write_page_sync flash offset buf num_bytes s =
     do { (ok, s) \<leftarrow> op_write_page_dispatch (ops flash) (device flash) offset buf num_bytes s;
          if ok then op_write_page_commit (ops flash) (device flash) offset buf num_bytes s else Some (False, s) }"

subsection \<open>Commands of the chip\<close>

record spiflash = cron +
  misaligned_store :: "u8 list \<Rightarrow> nat \<Rightarrow> u32 \<Rightarrow> u8 list"
  flash_junk :: mem

definition S25FLXX_CMD_WIDTH :: u32 where "S25FLXX_CMD_WIDTH = 8"
definition S25FLXX_CMD_READID :: u32 where "S25FLXX_CMD_READID = 0x90"
definition S25FLXX_CMD_FAST_READ :: u8 where "S25FLXX_CMD_FAST_READ = 0x0B"
definition S25FLXX_CMD_WREN :: u8 where "S25FLXX_CMD_WREN = 0x06"
definition S25FLXX_CMD_WRDI :: u8 where "S25FLXX_CMD_WRDI = 0x04"
definition S25FLXX_CMD_PP :: u32 where "S25FLXX_CMD_PP = 0x02"
definition S25FLXX_CMD_SE :: u32 where "S25FLXX_CMD_SE = 0xD8"
definition S25FLXX_CMD_RDSR :: u16 where "S25FLXX_CMD_RDSR = 0x05"
definition S25FLXX_STATUS_WIP :: u8 where "S25FLXX_STATUS_WIP = 0x01"
definition S25FLXX_SECTOR_ERASE_TIME_MS :: u32 where "S25FLXX_SECTOR_ERASE_TIME_MS = 750"
definition S25FLXX_PAGE_WRITE_TIME_MS :: u32 where "S25FLXX_PAGE_WRITE_TIME_MS = 1"
definition S25FLXX_SMALL_SECTORS_PER_LOGICAL :: u8 where "S25FLXX_SMALL_SECTORS_PER_LOGICAL = 16"
definition S25FLXX_LARGE_SECTOR_BASE :: u32 where "S25FLXX_LARGE_SECTOR_BASE = 0x20000"

definition spif_read_status :: "spi_flash_dev_t \<Rightarrow> 'a bus_scheme \<Rightarrow> (u8 \<times> 'a bus_scheme) option" where
  "spif_read_status flash s =
     do { (status, s) \<leftarrow> wb_spi_transact (flash_bus flash) WRITE_READ (Some (mem_of (put16 (push_bit 8 S25FLXX_CMD_RDSR))))
            (Some (mem_of (put16 0xFFFF))) (S25FLXX_CMD_WIDTH + 8) s;
          Some (case status of Some m \<Rightarrow> ucast (be16 m 0) | None \<Rightarrow> 0xFF, s) }"

text \<open>The polling loop, which need not end: the elapsed time is what the counter says.\<close>

partial_function (option) wait_ready_loop :: "spi_flash_dev_t \<Rightarrow> u32 \<Rightarrow> u32 \<Rightarrow> 'a cron_scheme \<Rightarrow> (bool \<times> 'a cron_scheme) option" where
  "wait_ready_loop flash start_ticks timeout_ms s =
     do { (status, s) \<leftarrow> spif_read_status flash s;
          if status AND S25FLXX_STATUS_WIP = 0 then Some (True, s)
          else (let (now, s) = cron_get_ticks s
                in if get_elapsed_time start_ticks now MILLISEC s < timeout_ms
                   then wait_ready_loop flash start_ticks timeout_ms s else Some (False, s)) }"

definition spif_wait_ready :: "spi_flash_dev_t \<Rightarrow> u32 \<Rightarrow> 'a cron_scheme \<Rightarrow> (bool \<times> 'a cron_scheme) option" where
  "spif_wait_ready flash timeout_ms s =
     (let (start_ticks, s) = cron_get_ticks s in wait_ready_loop flash start_ticks timeout_ms s)"

definition spi_flash_set_write_enabled :: "spi_flash_dev_t \<Rightarrow> bool \<Rightarrow> 'a bus_scheme \<Rightarrow> 'a bus_scheme option" where
  "spi_flash_set_write_enabled flash enabled s =
     (let cmd = (if enabled then S25FLXX_CMD_WREN else S25FLXX_CMD_WRDI) in
      do { (_, s) \<leftarrow> wb_spi_transact (flash_bus flash) WRITE (Some (mem_of [cmd])) None S25FLXX_CMD_WIDTH s; Some s })"

definition spif_spsn_s25flxx_read_id :: "spi_flash_dev_t \<Rightarrow> 'a bus_scheme \<Rightarrow> (u16 \<times> 'a bus_scheme) option" where
  "spif_spsn_s25flxx_read_id flash s =
     do { s \<leftarrow> wb_spi_slave_select (flash_bus flash) s;
          (_, s) \<leftarrow> wb_spi_transact_man_ss (flash_bus flash) WRITE (Some (mem_of (put32 (push_bit 24 S25FLXX_CMD_READID)))) None 32 s;
          (i, s) \<leftarrow> wb_spi_transact_man_ss (flash_bus flash) WRITE_READ None (Some (mem_of (put16 0))) 16 s;
          s \<leftarrow> wb_spi_slave_deselect (flash_bus flash) s;
          Some (case i of Some m \<Rightarrow> be16 m 0 | None \<Rightarrow> 0, s) }"

text \<open>Sixteen bytes with their four words in reverse order.\<close>

definition swap_words :: "mem \<Rightarrow> mem" where
  "swap_words m = mem_of (concat (map (\<lambda>k. mem_take (mem_at m (4 * (3 - k))) 4) [0..<4]))"

subsection \<open>Reading\<close>

text \<open>The loop over chunks of 16 bytes; \<open>acc\<close> is what has been stored in the buffer.\<close>

partial_function (option) read_chunks ::
  "spi_flash_dev_t \<Rightarrow> u32 \<Rightarrow> u32 \<Rightarrow> u32 \<Rightarrow> mem \<Rightarrow> u8 list \<Rightarrow> 'a bus_scheme \<Rightarrow> (u8 list \<times> 'a bus_scheme) option" where
  "read_chunks flash num_bytes i xact_size data_sw acc s =
     (if i < num_bytes
      then (let xact_size = (if xact_size > num_bytes - i then num_bytes - i else xact_size)
            in do { (r, s) \<leftarrow> wb_spi_transact_man_ss (flash_bus flash) WRITE_READ None (Some data_sw) (xact_size * 8) s;
                    let data_sw = (case r of Some m \<Rightarrow> m | None \<Rightarrow> data_sw);
                    read_chunks flash num_bytes (i + 16) xact_size data_sw
                      (acc @ mem_take (swap_words data_sw) (unat xact_size)) s })
      else Some (acc, s))"

definition spif_spsn_s25flxx_read ::
  "spi_flash_dev_t \<Rightarrow> u32 \<Rightarrow> u32 \<Rightarrow> 'a spiflash_scheme \<Rightarrow> (u8 list \<times> 'a spiflash_scheme) option" where
  "spif_spsn_s25flxx_read flash offset num_bytes s =
     (let read_cmd = (mem_take (flash_junk s) 5)[4 := S25FLXX_CMD_FAST_READ];
          read_cmd = misaligned_store s read_cmd 3 (push_bit 8 offset)
      in do { s \<leftarrow> wb_spi_slave_select (flash_bus flash) s;
              (_, s) \<leftarrow> wb_spi_transact_man_ss (flash_bus flash) WRITE_READ (Some (mem_of read_cmd)) None (5 * 8) s;
              (bytes, s) \<leftarrow> read_chunks flash num_bytes 0 16 (flash_junk s) [] s;
              s \<leftarrow> wb_spi_slave_deselect (flash_bus flash) s;
              Some (bytes, s) })"

subsection \<open>Erasing\<close>

definition spif_spsn_s25flxx_erase_sector_dispatch ::
  "spi_flash_dev_t \<Rightarrow> u32 \<Rightarrow> 'a cron_scheme \<Rightarrow> (bool \<times> 'a cron_scheme) option" where
  "spif_spsn_s25flxx_erase_sector_dispatch flash offset s =
     (if offset mod sector_size flash \<noteq> 0 then Some (False, s)
      else do { (ready, s) \<leftarrow> spif_wait_ready flash S25FLXX_SECTOR_ERASE_TIME_MS s;
                if \<not> ready then Some (False, s)
                else do {
                  s \<leftarrow> spi_flash_set_write_enabled flash True s;
                  let command = push_bit 24 S25FLXX_CMD_SE OR (offset AND 0x00FFFFFF);
                  (_, s) \<leftarrow> wb_spi_transact (flash_bus flash) WRITE_READ (Some (mem_of (put32 command))) None 32 s;
                  Some (True, s) } })"

text \<open>The first argument is the number of physical sectors still to be waited for.\<close>

primrec wait_sectors :: "nat \<Rightarrow> spi_flash_dev_t \<Rightarrow> 'a cron_scheme \<Rightarrow> (bool \<times> 'a cron_scheme) option" where
  "wait_sectors 0 flash s = Some (False, s)"
| "wait_sectors (Suc n) flash s =
     do { (status, s) \<leftarrow> spif_wait_ready flash S25FLXX_SECTOR_ERASE_TIME_MS s;
          if status then Some (True, s) else wait_sectors n flash s }"

definition spif_spsn_s25flxx_erase_sector_commit ::
  "spi_flash_dev_t \<Rightarrow> u32 \<Rightarrow> 'a cron_scheme \<Rightarrow> (bool \<times> 'a cron_scheme) option" where
  "spif_spsn_s25flxx_erase_sector_commit flash offset s =
     (let phy_sector_count = (if offset < S25FLXX_LARGE_SECTOR_BASE then S25FLXX_SMALL_SECTORS_PER_LOGICAL else 1)
      in do { (status, s) \<leftarrow> wait_sectors (unat phy_sector_count) flash s;
              s \<leftarrow> spi_flash_set_write_enabled flash False s;
              Some (status, s) })"

subsection \<open>Writing\<close>

text \<open>The loop over the page, 16 bytes at a time; it always reads 16 bytes of the buffer.\<close>

function write_chunks :: "spi_flash_dev_t \<Rightarrow> mem \<Rightarrow> int \<Rightarrow> 'a bus_scheme \<Rightarrow> 'a bus_scheme option" where
  "write_chunks flash bytes bytes_left s =
     (if bytes_left > 0
      then (let xact_size = (if bytes_left < 16 then bytes_left else 16)
            in do { (_, s) \<leftarrow> wb_spi_transact_man_ss (flash_bus flash) WRITE (Some (swap_words bytes)) None (of_int (xact_size * 8)) s;
                    write_chunks flash (mem_at bytes (nat xact_size)) (bytes_left - 16) s })
      else Some s)"
  by pat_completeness auto

termination by (relation "measure (\<lambda>(_, _, n, _). nat n)") auto

declare write_chunks.simps [simp del]

definition spif_spsn_s25flxx_write_page_dispatch ::
  "spi_flash_dev_t \<Rightarrow> u32 \<Rightarrow> mem \<Rightarrow> u32 \<Rightarrow> 'a cron_scheme \<Rightarrow> (bool \<times> 'a cron_scheme) option" where
  "spif_spsn_s25flxx_write_page_dispatch flash offset buf num_bytes s =
     (if num_bytes = 0 \<or> num_bytes > page_size flash then Some (False, s)
      else if num_bytes > sector_size flash * num_sectors flash then Some (False, s)
      else do { (ready, s) \<leftarrow> spif_wait_ready flash S25FLXX_PAGE_WRITE_TIME_MS s;
                if \<not> ready then Some (False, s)
                else do {
                  s \<leftarrow> spi_flash_set_write_enabled flash True s;
                  let write_cmd = push_bit 24 S25FLXX_CMD_PP OR (offset AND 0x00FFFFFF);
                  s \<leftarrow> wb_spi_slave_select (flash_bus flash) s;
                  (_, s) \<leftarrow> wb_spi_transact_man_ss (flash_bus flash) WRITE (Some (mem_of (put32 write_cmd))) None 32 s;
                  s \<leftarrow> write_chunks flash buf (sint num_bytes) s;
                  s \<leftarrow> wb_spi_slave_deselect (flash_bus flash) s;
                  Some (True, s) } })"

definition spif_spsn_s25flxx_write_page_commit ::
  "spi_flash_dev_t \<Rightarrow> u32 \<Rightarrow> mem \<Rightarrow> u32 \<Rightarrow> 'a cron_scheme \<Rightarrow> (bool \<times> 'a cron_scheme) option" where
  "spif_spsn_s25flxx_write_page_commit flash offset buf num_bytes s =
     do { (ready, s) \<leftarrow> spif_wait_ready flash S25FLXX_PAGE_WRITE_TIME_MS s;
          if \<not> ready then Some (False, s)
          else do { s \<leftarrow> spi_flash_set_write_enabled flash False s; Some (True, s) } }"

definition spif_spsn_s25flxx_device_busy :: "spi_flash_dev_t \<Rightarrow> 'a bus_scheme \<Rightarrow> (bool \<times> 'a bus_scheme) option" where
  "spif_spsn_s25flxx_device_busy flash s =
     do { (status, s) \<leftarrow> spif_read_status flash s; Some (status AND S25FLXX_STATUS_WIP \<noteq> 0, s) }"

definition spif_spsn_s25flxx_ops :: "'a spiflash_scheme spi_flash_ops_t" where
  "spif_spsn_s25flxx_ops =
     \<lparr>op_read_id = spif_spsn_s25flxx_read_id,
      op_read = spif_spsn_s25flxx_read,
      op_erase_sector_dispatch = spif_spsn_s25flxx_erase_sector_dispatch,
      op_erase_sector_commit = spif_spsn_s25flxx_erase_sector_commit,
      op_erase_sector_busy = spif_spsn_s25flxx_device_busy,
      op_write_page_dispatch = spif_spsn_s25flxx_write_page_dispatch,
      op_write_page_commit = spif_spsn_s25flxx_write_page_commit,
      op_write_page_busy = spif_spsn_s25flxx_device_busy\<rparr>"

definition spif_spsn_s25flxx_operations :: "'a spiflash_scheme spi_flash_ops_t" where
  "spif_spsn_s25flxx_operations = spif_spsn_s25flxx_ops"

end
