(* ===== verification/SpiFlashProps.thy ===== *)
theory SpiFlashProps
  imports SpiFlash
begin

unbundle bit_operations_syntax

section \<open>What the flash chip is told\<close>

text \<open>
  The commands the driver of theory \<open>SpiFlash\<close> puts on the SPI bus, as the events of theory
  \<open>WbSpi\<close>, on a chip that is not busy.
\<close>

definition flash_idle :: "spi_flash_dev_t \<Rightarrow> 'a bus_scheme \<Rightarrow> bool" where
  "flash_idle flash s \<longleftrightarrow> spi_ready (flash_bus flash) s
     \<and> (\<forall>t. dev s t (spi_data (spi_base (flash_bus flash)) 0) AND 1 = 0)"

abbreviation flash_events :: "spi_flash_dev_t \<Rightarrow> 'a bus_scheme \<Rightarrow> spi_event list" where
  "flash_events flash s \<equiv> spi_events (spi_base (flash_bus flash)) (trace s)"

lemma flash_idle_dev: "dev s' = dev s \<Longrightarrow> flash_idle flash s' = flash_idle flash s"
  by (simp add: flash_idle_def spi_ready_def)

lemma transact_ok:
  fixes s :: "'a bus_scheme"
  assumes "1 \<le> n" "n \<le> 16" "spi_ready slave s"
  obtains r and s' :: "'a bus_scheme"
  where "wb_spi_transact_buf slave mode (Some m) miso (of_nat (8 * n)) auto s = Some (r, s')" "dev s' = dev s"
    "spi_events (spi_base slave) (trace s')
      = spi_events (spi_base slave) (trace s) @ [Select (slave_sel slave), Shift auto (spi_order n m)]"
proof -
  obtain r s' where t: "wb_spi_transact_buf slave mode (Some m) miso (of_nat (8 * n)) auto s = Some (r, s')"
    using transact_returns [OF assms] by blast
  from that [OF t dev_transact [OF assms(1,2) t] transact_events [OF assms(1,2) t]] show ?thesis .
qed

lemma select_ok:
  fixes s :: "'a bus_scheme"
  assumes "spi_ready slave s"
  obtains s' :: "'a bus_scheme" where "wb_spi_slave_select slave s = Some s'" "dev s' = dev s"
    "spi_events (spi_base slave) (trace s') = spi_events (spi_base slave) (trace s) @ [Select (slave_sel slave)]"
proof (rule that)
  have "wb_spi_get_flags slave AND WB_SPI_CTRL_GO_BSY = 0"
    using wb_spi_flags_cases [of slave] by (auto simp: spi_bits)
  then show "spi_events (spi_base slave) (trace (wb_poke32 (spi_slavesel (spi_base slave)) (slave_sel slave) (wb_poke32 (spi_ctrl_status (spi_base slave)) (wb_spi_get_flags slave)
      (snd (wb_peek32 (spi_ctrl_status (spi_base slave)) s))))) = spi_events (spi_base slave) (trace s) @ [Select (slave_sel slave)]" by simp
qed (simp_all add: wb_spi_slave_select_def spi_wait_for_xfer_ready assms)

lemma deselect_ok:
  fixes s :: "'a bus_scheme"
  assumes "spi_ready slave s"
  obtains s' :: "'a bus_scheme" where "wb_spi_slave_deselect slave s = Some s'" "dev s' = dev s"
    "spi_events (spi_base slave) (trace s') = spi_events (spi_base slave) (trace s) @ [Select 0]"
proof (rule that)
  have "wb_spi_get_flags slave AND WB_SPI_CTRL_GO_BSY = 0"
    using wb_spi_flags_cases [of slave] by (auto simp: spi_bits)
  then show "spi_events (spi_base slave) (trace (wb_poke32 (spi_slavesel (spi_base slave)) 0 (wb_poke32 (spi_ctrl_status (spi_base slave)) (wb_spi_get_flags slave)
      (snd (wb_peek32 (spi_ctrl_status (spi_base slave)) s))))) = spi_events (spi_base slave) (trace s) @ [Select 0]" by simp
qed (simp_all add: wb_spi_slave_deselect_def spi_wait_for_xfer_ready assms)

lemma status_lsb:
  "(ucast (be16 (store_bytes 0 (miso_bytes w 16) m) 0) :: u8) = ucast w"
  by (simp add: be16_def store_bytes_def miso_bytes_def) (rule bit_word_eqI, simp add: bit_simps bit_255)

text \<open>The status of an idle chip is read in one transaction.\<close>

lemma read_status_idle:
  fixes s :: "'a bus_scheme"
  assumes "flash_idle flash s"
  obtains st and s' :: "'a bus_scheme"
  where "spif_read_status flash s = Some (st, s')" "st AND S25FLXX_STATUS_WIP = 0" "dev s' = dev s"
    "flash_events flash s' = flash_events flash s @ [Select (slave_sel (flash_bus flash)), Shift True [5, 0]]"
proof -
  let ?sl = "flash_bus flash" let ?m = "mem_of (put16 (push_bit 8 S25FLXX_CMD_RDSR))"
  have rdy: "spi_ready ?sl s" using assms by (simp add: flash_idle_def)
  obtain r s' where t: "wb_spi_transact_buf ?sl WRITE_READ (Some ?m) (Some (mem_of (put16 0xFFFF))) (of_nat (8 * 2)) True s = Some (r, s')"
    and d: "dev s' = dev s"
    and e: "flash_events flash s' = flash_events flash s @ [Select (slave_sel ?sl), Shift True (spi_order 2 ?m)]"
    using transact_ok [of 2 ?sl s WRITE_READ ?m "Some (mem_of (put16 0xFFFF))" True] rdy by auto
  have o: "spi_order 2 ?m = [5, 0]"
    by (simp add: spi_order_def mem_take_def mem_at_def mem_of_def upt_rec put16_def hi8_def lo8_def S25FLXX_CMD_RDSR_def)
  obtain w where w: "w AND 1 = (0 :: u32)" "r = Some (store_bytes 0 (miso_bytes w 16) (mem_of (put16 0xFFFF)))"
    using transact_read_word [OF _ _ t] assms by (auto simp: flash_idle_def)
  have "(ucast w :: u8) AND 1 = ucast (w AND 1)" by (rule bit_word_eqI) (auto simp: bit_simps)
  with w(1) have "(ucast w :: u8) AND S25FLXX_STATUS_WIP = 0" by (simp add: S25FLXX_STATUS_WIP_def)
  moreover have "spif_read_status flash s = Some (ucast w, s')"
    using t w(2) by (simp add: spif_read_status_def wb_spi_transact_def S25FLXX_CMD_WIDTH_def status_lsb)
  ultimately show ?thesis using that d e o by simp
qed

lemma wait_ready_idle:
  fixes s :: "'a cron_scheme"
  assumes "flash_idle flash s"
  obtains s' :: "'a cron_scheme"
  where "spif_wait_ready flash ms s = Some (True, s')" "dev s' = dev s"
    "flash_events flash s' = flash_events flash s @ [Select (slave_sel (flash_bus flash)), Shift True [5, 0]]"
proof -
  let ?s = "snd (wb_peek32 COUNTER_ADDR s)"
  have "flash_idle flash ?s" using assms by (simp add: flash_idle_dev [of ?s s])
  then obtain st and s' :: "'a cron_scheme" where "spif_read_status flash ?s = Some (st, s')" "st AND S25FLXX_STATUS_WIP = 0"
    and d: "dev s' = dev ?s"
    and e: "flash_events flash s' = flash_events flash ?s @ [Select (slave_sel (flash_bus flash)), Shift True [5, 0]]"
    by (rule read_status_idle)
  then have "spif_wait_ready flash ms s = Some (True, s')"
    by (simp add: spif_wait_ready_def cron_get_ticks_def get_counter_val_def case_prod_unfold)
      (subst wait_ready_loop.simps, simp)
  from that [OF this] show ?thesis using d e by simp
qed

lemma spi_order_swap: "spi_order 16 (swap_words m) = mem_take m 16"
  by (simp add: spi_order_def swap_words_def mem_take_def mem_at_def mem_of_def upt_rec, simp add: eval_nat_numeral)

lemma spi_order_swap_short: "1 \<le> n \<Longrightarrow> n \<le> 4 \<Longrightarrow> spi_order n (swap_words m) = mem_take (mem_at m 12) n"
proof -
  assume "1 \<le> n" "n \<le> 4"
  then have "n = 1 \<or> n = 2 \<or> n = 3 \<or> n = 4" by presburger
  then show ?thesis
    by (elim disjE; hypsubst)
      (simp_all add: spi_order_def swap_words_def mem_take_def mem_at_def mem_of_def upt_rec)
qed

text \<open>A page goes out in chunks of 16 bytes.\<close>

definition chunk_events :: "spi_flash_dev_t \<Rightarrow> mem \<Rightarrow> nat \<Rightarrow> spi_event list" where
  "chunk_events flash m k = concat (map (\<lambda>i.
     [Select (slave_sel (flash_bus flash)), Shift False (mem_take (mem_at m (16 * i)) 16)]) [0..<k])"

lemma chunk_events_Suc:
  "chunk_events flash m (Suc k) =
     [Select (slave_sel (flash_bus flash)), Shift False (mem_take m 16)] @ chunk_events flash (mem_at m 16) k"
  unfolding chunk_events_def upt_conv_Cons [OF zero_less_Suc] map_Suc_upt [symmetric] by (simp add: comp_def)

lemma write_chunks_step:
  fixes s :: "'a bus_scheme"
  assumes "spi_ready (flash_bus flash) s"
  obtains s' :: "'a bus_scheme" where "dev s' = dev s"
    "flash_events flash s' = flash_events flash s @ [Select (slave_sel (flash_bus flash)), Shift False (mem_take m 16)]"
    "\<And>left. 16 \<le> left \<Longrightarrow> write_chunks flash m left s = write_chunks flash (mem_at m 16) (left - 16) s'"
proof -
  obtain r s' where "wb_spi_transact_buf (flash_bus flash) WRITE (Some (swap_words m)) None (of_nat (8 * 16)) False s = Some (r, s')"
    "dev s' = dev s" and e: "flash_events flash s' = flash_events flash s
      @ [Select (slave_sel (flash_bus flash)), Shift False (spi_order 16 (swap_words m))]"
    using transact_ok [of 16 "flash_bus flash" s WRITE "swap_words m" None False] assms by auto
  then show ?thesis
    using that [of s'] by (simp add: wb_spi_transact_man_ss_def spi_order_swap write_chunks.simps [of _ _ _ s])
qed

lemma write_chunks_events:
  fixes s :: "'a bus_scheme"
  assumes "spi_ready (flash_bus flash) s"
  shows "\<exists>s' :: 'a bus_scheme. write_chunks flash m (16 * int k) s = Some s' \<and> dev s' = dev s
    \<and> flash_events flash s' = flash_events flash s @ chunk_events flash m k"
  using assms
proof (induction k arbitrary: m s)
  case 0
  then show ?case by (simp add: chunk_events_def write_chunks.simps)
next
  case (Suc k)
  obtain s1 :: "'a bus_scheme" where d: "dev s1 = dev s"
    and e: "flash_events flash s1 = flash_events flash s @ [Select (slave_sel (flash_bus flash)), Shift False (mem_take m 16)]"
    and w: "write_chunks flash m (16 * int (Suc k)) s = write_chunks flash (mem_at m 16) (16 * int k) s1"
    using write_chunks_step [OF Suc.prems, of m] by (metis (no_types, opaque_lifting) add_diff_cancel_left' distrib_left le_add_same_cancel1 mult.right_neutral of_nat_0_le_iff of_nat_Suc zero_le_mult_iff zero_le_numeral)
  have "spi_ready (flash_bus flash) s1" using Suc.prems d by (simp add: spi_ready_def)
  from Suc.IH [OF this, of "mem_at m 16"] show ?case using d e w by (auto simp: chunk_events_Suc)
qed

lemma write_chunks_short:
  fixes s :: "'a bus_scheme"
  assumes "spi_ready (flash_bus flash) s" "1 \<le> n" "n \<le> 4"
  shows "\<exists>s' :: 'a bus_scheme. write_chunks flash m (int n) s = Some s' \<and> dev s' = dev s
    \<and> flash_events flash s' = flash_events flash s
        @ [Select (slave_sel (flash_bus flash)), Shift False (mem_take (mem_at m 12) n)]"
proof -
  obtain r and s' :: "'a bus_scheme" where
    t: "wb_spi_transact_buf (flash_bus flash) WRITE (Some (swap_words m)) None (of_nat (8 * n)) False s = Some (r, s')"
    and d: "dev s' = dev s" and e: "flash_events flash s' = flash_events flash s
      @ [Select (slave_sel (flash_bus flash)), Shift False (spi_order n (swap_words m))]"
    using transact_ok [of n "flash_bus flash" s WRITE "swap_words m" None False] assms by auto
  have len: "(of_int (int n * 8) :: u32) = of_nat (8 * n)" by (simp add: mult.commute)
  have pos: "0 < int n" "int n < 16" using assms(2,3) by simp_all
  have "\<not> 0 < int n - 16" using pos by simp
  then have last: "write_chunks flash m' (int n - 16) s' = Some s'" for m' by (subst write_chunks.simps) simp
  have "write_chunks flash m (int n) s = Some s'"
    unfolding write_chunks.simps [of flash m "int n" s] Let_def if_P [OF pos(1)] if_P [OF pos(2)] len
      wb_spi_transact_man_ss_def t
    by (simp add: last)
  then show ?thesis using d e spi_order_swap_short [OF assms(2,3)] by auto
qed

text \<open>A command word: the opcode and the three low bytes of the offset.\<close>

lemma command_bytes:
  "mem_take (mem_of (put32 (push_bit 24 (ucast (c :: u8)) OR (offset AND 0x00FFFFFF)))) 4 = c # tl (put32 offset)"
proof -
  have m: "(0x00FFFFFF :: u32) = mask 24" by (simp add: mask_eq_exp_minus_1)
  show ?thesis
    unfolding m
    by (simp add: mem_take_def mem_of_def upt_rec put32_def put16_def hi8_def lo8_def hi16_def lo16_def)
      (intro conjI; rule bit_word_eqI; auto simp: bit_simps u8_bit_high)
qed

lemma page_command: "spi_order 4 (mem_of (put32 (push_bit 24 S25FLXX_CMD_PP OR (offset AND 0x00FFFFFF)))) = 2 # tl (put32 offset)"
proof -
  have "S25FLXX_CMD_PP = ucast (2 :: u8)" by (simp add: S25FLXX_CMD_PP_def)
  then show ?thesis using command_bytes [of 2 offset] by (simp add: spi_order_word)
qed

lemma wren_command: "spi_order 1 (mem_of [S25FLXX_CMD_WREN]) = [6]"
  by (simp add: spi_order_word mem_take_def mem_of_def S25FLXX_CMD_WREN_def)

text \<open>All of a page write but the data.\<close>

lemma write_page_frame:
  fixes s :: "'a cron_scheme"
  assumes idle: "flash_idle flash s"
    and that: "sel = slave_sel (flash_bus flash)"
    and size: "num_bytes \<noteq> 0" "num_bytes \<le> page_size flash" "num_bytes \<le> sector_size flash * num_sectors flash"
    and chunks: "\<And>s :: 'a cron_scheme. spi_ready (flash_bus flash) s \<Longrightarrow> \<exists>s'. write_chunks flash buf (sint num_bytes) s = Some s' \<and> dev s' = dev s
      \<and> flash_events flash s' = flash_events flash s @ evs"
  shows "\<exists>s'. spif_spsn_s25flxx_write_page_dispatch flash offset buf num_bytes s = Some (True, s')
    \<and> flash_events flash s' = flash_events flash s
        @ [Select sel, Shift True [5, 0], Select sel, Shift True [6], Select sel, Select sel, Shift False (2 # tl (put32 offset))]
        @ evs @ [Select 0]"
proof -
  let ?sl = "flash_bus flash"
  let ?cmd = "mem_of (put32 (push_bit 24 S25FLXX_CMD_PP OR (offset AND 0x00FFFFFF)))"
  obtain s1 :: "'a cron_scheme" where w1: "spif_wait_ready flash S25FLXX_PAGE_WRITE_TIME_MS s = Some (True, s1)"
    and d1: "dev s1 = dev s" and e1: "flash_events flash s1 = flash_events flash s @ [Select (slave_sel ?sl), Shift True [5, 0]]"
    using wait_ready_idle [OF idle] .
  have "spi_ready ?sl s1" using idle d1 by (simp add: flash_idle_def spi_ready_def)
  then obtain r and s2 :: "'a cron_scheme" where w2: "wb_spi_transact_buf ?sl WRITE (Some (mem_of [S25FLXX_CMD_WREN])) None (of_nat (8 * 1)) True s1 = Some (r, s2)"
    and d2: "dev s2 = dev s1" and e2: "flash_events flash s2 = flash_events flash s1 @ [Select (slave_sel ?sl), Shift True [6]]"
    using transact_ok [of 1 ?sl s1 WRITE "mem_of [S25FLXX_CMD_WREN]" None True] wren_command by auto
  have "spi_ready ?sl s2" using idle d1 d2 by (simp add: flash_idle_def spi_ready_def)
  then obtain s3 :: "'a cron_scheme" where w3: "wb_spi_slave_select ?sl s2 = Some s3"
    and d3: "dev s3 = dev s2" and e3: "flash_events flash s3 = flash_events flash s2 @ [Select (slave_sel ?sl)]"
    by (rule select_ok)
  have "spi_ready ?sl s3" using idle d1 d2 d3 by (simp add: flash_idle_def spi_ready_def)
  then obtain r' and s4 :: "'a cron_scheme" where w4: "wb_spi_transact_buf ?sl WRITE (Some ?cmd) None (of_nat (8 * 4)) False s3 = Some (r', s4)"
    and d4: "dev s4 = dev s3" and e4: "flash_events flash s4 = flash_events flash s3 @ [Select (slave_sel ?sl), Shift False (2 # tl (put32 offset))]"
    using transact_ok [of 4 ?sl s3 WRITE ?cmd None False] page_command by auto
  have "spi_ready ?sl s4" using idle d1 d2 d3 d4 by (simp add: flash_idle_def spi_ready_def)
  from chunks [OF this] obtain s5 :: "'a cron_scheme" where w5: "write_chunks flash buf (sint num_bytes) s4 = Some s5"
    and d5: "dev s5 = dev s4" and e5: "flash_events flash s5 = flash_events flash s4 @ evs" by blast
  have "spi_ready ?sl s5" using idle d1 d2 d3 d4 d5 by (simp add: flash_idle_def spi_ready_def)
  then obtain s6 :: "'a cron_scheme" where w6: "wb_spi_slave_deselect ?sl s5 = Some s6"
    and e6: "flash_events flash s6 = flash_events flash s5 @ [Select 0]"
    by (rule deselect_ok)
  have "spif_spsn_s25flxx_write_page_dispatch flash offset buf num_bytes s = Some (True, s6)"
    using w1 w2 w3 w4 w5 w6 size
    by (simp add: spif_spsn_s25flxx_write_page_dispatch_def spi_flash_set_write_enabled_def wb_spi_transact_def
        wb_spi_transact_man_ss_def S25FLXX_CMD_WIDTH_def not_less [symmetric])
  then show ?thesis using that e1 e2 e3 e4 e5 e6 by auto
qed

subsection \<open>Properties\<close>

text \<open>C19. A page write, as the chip sees it.  On an idle chip, a size within the page and the device that is a
  multiple of 16 is accepted, and the chip is sent: a status request, the write enable command, and
  then, without its select line being released in between, the page program command with the
  24-bit address and the bytes of the buffer in order; only then is it released.\<close>

theorem page_write_on_wire:
  fixes s :: "'a cron_scheme"
  assumes "flash_idle flash s" "sel = slave_sel (flash_bus flash)"
    and "unat num_bytes = 16 * k" "0 < k" "num_bytes < 2 ^ 31"
    and "num_bytes \<le> page_size flash" "num_bytes \<le> sector_size flash * num_sectors flash"
  shows "\<exists>s'. spif_spsn_s25flxx_write_page_dispatch flash offset buf num_bytes s = Some (True, s')
    \<and> flash_events flash s' = flash_events flash s
        @ [Select sel, Shift True [5, 0], Select sel, Shift True [6], Select sel, Select sel, Shift False (2 # tl (put32 offset))]
        @ concat (map (\<lambda>i. [Select sel, Shift False (mem_take (mem_at buf (16 * i)) 16)]) [0..<k]) @ [Select 0]"
proof -
  have "num_bytes \<noteq> 0" using assms(3,4) by auto
  moreover have "sint num_bytes = 16 * int k" using assms(3,5) by (simp add: sint_u32_small)
  ultimately have nz: "num_bytes \<noteq> 0" and len: "sint num_bytes = 16 * int k" by simp_all
  have "\<exists>t'. write_chunks flash buf (sint num_bytes) t = Some t' \<and> dev t' = dev t
      \<and> flash_events flash t' = flash_events flash t @ chunk_events flash buf k"
    if "spi_ready (flash_bus flash) t" for t :: "'a cron_scheme"
    using write_chunks_events [OF that, of buf k] len by simp
  from write_page_frame [OF assms(1,2) nz assms(6,7) this] show ?thesis
    unfolding chunk_events_def assms(2) .
qed

text \<open>A short page write stores the wrong bytes.  A size of one to four bytes is accepted like any
  other, but the words are swapped as for a whole chunk of 16: the chip is sent what lies 12 bytes
  behind the start of the buffer.\<close>

theorem short_page_write_wrong:
  fixes s :: "'a cron_scheme"
  assumes "flash_idle flash s" "sel = slave_sel (flash_bus flash)"
    and "1 \<le> unat num_bytes" "unat num_bytes \<le> 4"
    and "num_bytes \<le> page_size flash" "num_bytes \<le> sector_size flash * num_sectors flash"
  shows "\<exists>s'. spif_spsn_s25flxx_write_page_dispatch flash offset buf num_bytes s = Some (True, s')
    \<and> flash_events flash s' = flash_events flash s
        @ [Select sel, Shift True [5, 0], Select sel, Shift True [6], Select sel, Select sel, Shift False (2 # tl (put32 offset))]
        @ [Select sel, Shift False (mem_take (mem_at buf 12) (unat num_bytes))] @ [Select 0]"
proof -
  have "num_bytes \<noteq> 0" using assms(3) by auto
  moreover have "sint num_bytes = int (unat num_bytes)"
    using assms(4) by (intro sint_u32_small) (simp add: word_less_nat_alt)
  ultimately have nz: "num_bytes \<noteq> 0" and len: "sint num_bytes = int (unat num_bytes)" by simp_all
  have "\<exists>t'. write_chunks flash buf (sint num_bytes) t = Some t' \<and> dev t' = dev t
      \<and> flash_events flash t' = flash_events flash t @ [Select sel, Shift False (mem_take (mem_at buf 12) (unat num_bytes))]"
    if "spi_ready (flash_bus flash) t" for t :: "'a cron_scheme"
    unfolding len assms(2) by (rule write_chunks_short [OF that assms(3,4)])
  from write_page_frame [OF assms(1,2) nz assms(5,6) this] show ?thesis .
qed

definition demo_flash :: spi_flash_dev_t where
  "demo_flash = \<lparr>page_size = 256, sector_size = 0x10000, num_sectors = 64, flash_bus = demo_spi\<rparr>"

definition demo_flash_state :: "unit cron_scheme" where
  "demo_flash_state = demo_cron\<lparr>dev := \<lambda>_ _. 0\<rparr>"

lemma demo_flash_idle: "flash_idle demo_flash demo_flash_state"
  by (simp add: flash_idle_def spi_ready_def demo_flash_state_def)

lemma page_write_on_wire_witness:
  "\<exists>s'. spif_spsn_s25flxx_write_page_dispatch demo_flash 0x12345 (mem_of [1, 2, 3]) 16 demo_flash_state = Some (True, s')
    \<and> flash_events demo_flash s' = flash_events demo_flash demo_flash_state
        @ [Select 1, Shift True [5, 0], Select 1, Shift True [6], Select 1, Select 1, Shift False (2 # tl (put32 0x12345))]
        @ [Select 1, Shift False [1, 2, 3, 0, 0, 0, 0, 0, 0, 0, 0, 0, 0, 0, 0, 0]] @ [Select 0]"
  using page_write_on_wire [OF demo_flash_idle, of 1 16 1 "0x12345" "mem_of [1, 2, 3]"]
  by (simp add: demo_flash_def demo_spi_def mem_take_def mem_of_def upt_rec)

lemma short_page_write_wrong_witness:
  "\<exists>s'. spif_spsn_s25flxx_write_page_dispatch demo_flash 0x12345 (mem_of [1, 2, 3]) 3 demo_flash_state = Some (True, s')
    \<and> flash_events demo_flash s' = flash_events demo_flash demo_flash_state
        @ [Select 1, Shift True [5, 0], Select 1, Shift True [6], Select 1, Select 1, Shift False (2 # tl (put32 0x12345))]
        @ [Select 1, Shift False [0, 0, 0]] @ [Select 0]"
  using short_page_write_wrong [OF demo_flash_idle, of 1 3 "0x12345" "mem_of [1, 2, 3]"]
  by (simp add: demo_flash_def demo_spi_def mem_take_def mem_at_def mem_of_def upt_rec)

end
