(* ===== verification/Printf.thy ===== *)
theory Printf
  imports Prelude
begin

unbundle bit_operations_syntax

section \<open>Formatted output\<close>

text \<open>
  \<^verbatim>\<open>firmware/usrp3/lib/printf.c\<close> as it is built: with \<^verbatim>\<open>PRINTF_LONG_SUPPORT\<close>, without
  \<^verbatim>\<open>PRINTF_LONG_LONG_SUPPORT\<close>, and with 32-bit \<^verbatim>\<open>int\<close> and \<^verbatim>\<open>long\<close>.  A C string is the list of its
  characters before the terminating zero; reading at its end gives the zero, and no function below
  reads on after it.  What the output function is given is collected in a list.  Taking an argument
  that is not there, or of the wrong kind, is undefined in C and \<open>None\<close> here.
\<close>

definition NUL :: char where "NUL = CHR 0x00"

datatype va_arg = Va_word u32 | Va_str string

definition va_word :: "va_arg list \<Rightarrow> (u32 \<times> va_arg list) option" where
  "va_word va = (case va of Va_word w # va' \<Rightarrow> Some (w, va') | _ \<Rightarrow> None)"

definition va_str :: "va_arg list \<Rightarrow> (string \<times> va_arg list) option" where
  "va_str va = (case va of Va_str s # va' \<Rightarrow> Some (s, va') | _ \<Rightarrow> None)"

text \<open>\<^verbatim>\<open>ch = *(p++)\<close>.\<close>

definition next_char :: "string \<Rightarrow> char \<times> string" where
  "next_char p = (case p of [] \<Rightarrow> (NUL, []) | c # cs \<Rightarrow> (c, cs))"

subsection \<open>Numbers to characters\<close>

text \<open>\<^verbatim>\<open>dgt+(dgt<10 ? '0' : (uc ? 'A' : 'a')-10)\<close>.\<close>

definition digit_char :: "bool \<Rightarrow> nat \<Rightarrow> char" where
  "digit_char uc dgt = char_of (dgt + (if dgt < 10 then 48 else (if uc then 65 else 97) - 10))"

text \<open>The printer's \<^verbatim>\<open>int dgt\<close> is kept unsigned: a digit is below the base, and the bases in use are 10 and 16.\<close>

partial_function (option) ui2a_scale :: "u32 \<Rightarrow> u32 \<Rightarrow> u32 \<Rightarrow> u32 option" where
  "ui2a_scale num base d = (if num div d \<ge> base then ui2a_scale num base (d * base) else Some d)"

partial_function (option) ui2a_digits :: "u32 \<Rightarrow> u32 \<Rightarrow> bool \<Rightarrow> u32 \<Rightarrow> nat \<Rightarrow> string option" where
  "ui2a_digits num base uc d n =
     (if d \<noteq> 0
      then (let dgt = num div d;
                num = num mod d;
                d = d div base
            in if n \<noteq> 0 \<or> dgt > 0 \<or> d = 0
               then do { bf \<leftarrow> ui2a_digits num base uc d (n + 1); Some (digit_char uc (unat dgt) # bf) }
               else ui2a_digits num base uc d n)
      else Some [])"

definition ui2a :: "u32 \<Rightarrow> u32 \<Rightarrow> bool \<Rightarrow> string option" where
  "ui2a num base uc = do { d \<leftarrow> ui2a_scale num base 1; ui2a_digits num base uc d 0 }"

definition uli2a :: "u32 \<Rightarrow> u32 \<Rightarrow> bool \<Rightarrow> string option" where
  "uli2a num base uc = do { d \<leftarrow> ui2a_scale num base 1; ui2a_digits num base uc d 0 }"

text \<open>Negating the least integer wraps.\<close>

definition i2a :: "u32 \<Rightarrow> string option" where
  "i2a num = (if num <s 0 then map_option (Cons (CHR ''-'')) (ui2a (- num) 10 False) else ui2a num 10 False)"

definition li2a :: "u32 \<Rightarrow> string option" where
  "li2a num = (if num <s 0 then map_option (Cons (CHR ''-'')) (uli2a (- num) 10 False) else uli2a num 10 False)"

subsection \<open>Characters to numbers\<close>

text \<open>\<^verbatim>\<open>ch >= lo && ch <= hi\<close>.\<close>

definition in_range :: "char \<Rightarrow> char \<Rightarrow> char \<Rightarrow> bool" where
  "in_range lo hi ch \<longleftrightarrow> (of_char lo :: nat) \<le> of_char ch \<and> (of_char ch :: nat) \<le> of_char hi"

definition a2d :: "char \<Rightarrow> int" where
  "a2d ch =
     (if in_range (CHR ''0'') (CHR ''9'') ch then int (of_char ch) - int (of_char (CHR ''0''))
      else if in_range (CHR ''a'') (CHR ''f'') ch then int (of_char ch) - int (of_char (CHR ''a'')) + 10
      else if in_range (CHR ''A'') (CHR ''F'') ch then int (of_char ch) - int (of_char (CHR ''A'')) + 10
      else - 1)"

text \<open>The loop, with the character at hand and the number so far.\<close>

fun a2i_loop :: "char \<Rightarrow> string \<Rightarrow> int \<Rightarrow> u32 \<Rightarrow> char \<times> string \<times> u32" where
  "a2i_loop ch src base num =
     (if a2d ch \<ge> 0 \<and> \<not> a2d ch > base
      then (let num = num * of_int base + of_int (a2d ch)
            in case src of [] \<Rightarrow> (NUL, [], num) | c # cs \<Rightarrow> a2i_loop c cs base num)
      else (ch, src, num))"

definition a2i :: "char \<Rightarrow> string \<Rightarrow> int \<Rightarrow> char \<times> string \<times> u32" where
  "a2i ch src base = a2i_loop ch src base 0"

subsection \<open>Output\<close>

text \<open>What of the field width is left when the string has been counted off.\<close>

fun width_left :: "int \<Rightarrow> string \<Rightarrow> int" where
  "width_left n [] = n"
| "width_left n (c # cs) = (if n > 0 then width_left (n - 1) cs else n)"

definition putchw :: "int \<Rightarrow> bool \<Rightarrow> string \<Rightarrow> string" where
  "putchw n z bf = replicate (nat (width_left n bf)) (if z then CHR ''0'' else CHR '' '') @ bf"

text \<open>One conversion, for the character after flags and width; the result is what is put out and the remaining
  arguments.\<close>

definition convert :: "char \<Rightarrow> bool \<Rightarrow> bool \<Rightarrow> int \<Rightarrow> va_arg list \<Rightarrow> (string \<times> va_arg list) option" where
  "convert ch lng lz w va =
     (if ch = CHR ''u''
      then do { (v, va) \<leftarrow> va_word va; bf \<leftarrow> (if lng then uli2a v 10 False else ui2a v 10 False); Some (putchw w lz bf, va) }
      else if ch = CHR ''d''
      then do { (v, va) \<leftarrow> va_word va; bf \<leftarrow> (if lng then li2a v else i2a v); Some (putchw w lz bf, va) }
      else if ch = CHR ''x'' \<or> ch = CHR ''X''
      then do { (v, va) \<leftarrow> va_word va;
                bf \<leftarrow> (if lng then uli2a v 16 (ch = CHR ''X'') else ui2a v 16 (ch = CHR ''X''));
                Some (putchw w lz bf, va) }
      else if ch = CHR ''c'' then do { (v, va) \<leftarrow> va_word va; Some ([char_of (unat v)], va) }
      else if ch = CHR ''s'' then do { (str, va) \<leftarrow> va_str va; Some (putchw w False str, va) }
      else if ch = CHR ''%'' then Some ([ch], va)
      else Some ([], va))"

text \<open>The flags, width and length of a directive, and the character that ends it.\<close>

definition directive :: "string \<Rightarrow> (char \<times> bool \<times> bool \<times> int) \<times> string" where
  "directive fmt =
     (let (ch, fmt) = next_char fmt;
          (lz, ch, fmt) = (if ch = CHR ''0'' then (True, next_char fmt) else (False, ch, fmt));
          (ch, fmt, w) = (if in_range (CHR ''0'') (CHR ''9'') ch then a2i ch fmt 10 else (ch, fmt, 0));
          (lng, ch, fmt) = (if ch = CHR ''l'' then (True, next_char fmt) else (False, ch, fmt))
      in ((ch, lz, lng, sint w), fmt))"

lemma a2i_loop_length: "length (fst (snd (a2i_loop ch src base num))) \<le> length src"
  by (induction ch src base num rule: a2i_loop.induct)
    (subst a2i_loop.simps, auto simp: Let_def le_Suc_eq split: list.split simp del: a2i_loop.simps)

lemma next_char_length: "length (snd (next_char p)) \<le> length p"
  by (simp add: next_char_def split: list.split)

lemma next_char_shorter: "p \<noteq> [] \<Longrightarrow> length (snd (next_char p)) < length p"
  by (simp add: next_char_def split: list.split)

lemma directive_length: "length (snd (directive fmt)) \<le> length fmt"
  unfolding directive_def a2i_def Let_def
  by (auto simp: case_prod_unfold simp del: a2i_loop.simps
      intro!: le_trans [OF next_char_length] le_trans [OF a2i_loop_length])

function tfp_format :: "string \<Rightarrow> va_arg list \<Rightarrow> string option" where
  "tfp_format fmt va =
     (let (ch, fmt') = next_char fmt in
      if fmt = [] then Some []
      else if ch \<noteq> CHR ''%'' then map_option (Cons ch) (tfp_format fmt' va)
      else (let (d, fmt'') = directive fmt'; (c, lz, lng, w) = d in
            if c = NUL then Some []
            else do { (out, va) \<leftarrow> convert c lng lz w va; rest \<leftarrow> tfp_format fmt'' va; Some (out @ rest) }))"
  by pat_completeness auto

termination
proof (relation "measure (\<lambda>(fmt, va). length fmt)", goal_cases)
  case (2 fmt va x ch fmt')
  then show ?case using next_char_shorter [of fmt] by (metis in_measure old.prod.case snd_conv)
next
  case (3 fmt va x ch fmt' y d fmt'')
  then have "length fmt' < length fmt" using next_char_shorter [of fmt] by (metis snd_conv)
  moreover have "length fmt'' \<le> length fmt'" using 3 directive_length [of fmt'] by (metis snd_conv)
  ultimately show ?case by simp
qed simp

declare tfp_format.simps [simp del]

end
