(* ===== verification/PrintAddrs.thy ===== *)
theory PrintAddrs
  imports Printf
begin

unbundle bit_operations_syntax

section \<open>Addresses as text\<close>

text \<open>
  \<^verbatim>\<open>firmware/usrp3/lib/print_addrs.c\<close>.  The two functions without a buffer argument return a
  pointer to one of four static buffers, used in turn: the model returns its number.
\<close>

definition hex :: string where "hex = ''0123456789ABCDEF''"

definition mac_addr_to_str_r :: "mem \<Rightarrow> string" where
  "mac_addr_to_str_r p = concat (map (\<lambda>i.
     (if i \<noteq> 0 then '':'' else []) @ [hex ! unat (drop_bit 4 (p i) AND 0xf)] @ [hex ! unat (p i AND 0xf)]) [0..<6])"

definition ip_addr_to_str_r :: "mem \<Rightarrow> string option" where
  "ip_addr_to_str_r p = tfp_format ''%d.%d.%d.%d'' [Va_word (ucast (p 0)), Va_word (ucast (p 1)), Va_word (ucast (p 2)), Va_word (ucast (p 3))]"

record addr_strs =
  mac_index :: nat
  mac_strs :: "string list"
  ip_index :: nat
  ip_strs :: "string list"

definition mac_addr_to_str :: "mem \<Rightarrow> addr_strs \<Rightarrow> nat \<times> addr_strs" where
  "mac_addr_to_str p s =
     (let i = (mac_index s + 1) mod 4
      in (i, s\<lparr>mac_index := i, mac_strs := (mac_strs s)[i := mac_addr_to_str_r p]\<rparr>))"

definition ip_addr_to_str :: "mem \<Rightarrow> addr_strs \<Rightarrow> (nat \<times> addr_strs) option" where
  "ip_addr_to_str p s =
     (let i = (ip_index s + 1) mod 4
      in do { str \<leftarrow> ip_addr_to_str_r p;
              Some (i, s\<lparr>ip_index := i, ip_strs := (ip_strs s)[i := str]\<rparr>) })"

end
