(* ===== verification/PrintfProps.thy ===== *)
theory PrintfProps
  imports PrintAddrs
begin

unbundle bit_operations_syntax

section \<open>What the formatted output says\<close>

text \<open>
  The number printer finds the highest power of the base first and goes down; the reference below
  splits off the last digit.  They agree for every base, and what is printed is read back by
  the number reader of the same file.
\<close>

fun digits :: "nat \<Rightarrow> nat \<Rightarrow> nat list" where
  "digits B n = (if B < 2 \<or> n < B then [n] else digits B (n div B) @ [n mod B])"

declare digits.simps [simp del]

primrec fixed_digits :: "nat \<Rightarrow> nat \<Rightarrow> nat \<Rightarrow> nat list" where
  "fixed_digits B 0 n = [n]"
| "fixed_digits B (Suc k) n = n div B ^ Suc k # fixed_digits B k (n mod B ^ Suc k)"

lemma fixed_digits_snoc: "fixed_digits B (Suc k) n = fixed_digits B k (n div B) @ [n mod B]"
proof (induction k arbitrary: n)
  case (Suc k)
  have "n mod (B * B ^ Suc k) = B * (n div B mod B ^ Suc k) + n mod B" by (rule mod_mult2_eq)
  then have "n mod B ^ Suc (Suc k) div B = n div B mod B ^ Suc k"
    by (cases "B = 0") (simp_all only: power_Suc, simp_all)
  moreover have "n mod B ^ Suc (Suc k) mod B = n mod B"
    by (simp add: mod_mod_cancel)
  moreover have "n div B ^ Suc (Suc k) = n div B div B ^ Suc k"
    by (simp add: div_mult2_eq)
  ultimately have "fixed_digits B (Suc (Suc k)) n
      = n div B div B ^ Suc k # fixed_digits B k (n div B mod B ^ Suc k) @ [n mod B]"
    by (simp only: fixed_digits.simps(2) [of B "Suc k"] Suc.IH [of "n mod B ^ Suc (Suc k)"])
  then show ?case by (simp only: fixed_digits.simps(2) [of B k] append_Cons)
qed simp

lemma fixed_digits_eq:
  assumes "2 \<le> B" "n < B ^ Suc k" "k = 0 \<or> B ^ k \<le> n"
  shows "fixed_digits B k n = digits B n"
  using assms(2,3)
proof (induction k arbitrary: n)
  case 0
  then show ?case by (subst digits.simps) simp
next
  case (Suc k)
  have B: "0 < B" "1 < B" using assms(1) by auto
  from Suc.prems have le: "B ^ Suc k \<le> n" by simp
  have "n div B < B ^ Suc k" using Suc.prems(1) B(1) by (simp add: div_less_iff_less_mult mult.commute)
  moreover have "B ^ k \<le> n div B" using le B(1) by (simp add: less_eq_div_iff_mult_less_eq mult.commute)
  moreover have "B \<le> B ^ Suc k" using B(1) by (simp only: power_Suc) simp
  with le have "\<not> n < B" by linarith
  ultimately show ?case
    using Suc.IH [of "n div B"] assms(1) \<open>\<not> n < B\<close> unfolding fixed_digits_snoc by (subst digits.simps [of B n]) simp
qed

lemma digits_bound: "2 \<le> B \<Longrightarrow> B ^ (length (digits B n) - 1) \<le> n \<or> length (digits B n) = 1"
proof (induction B n rule: digits.induct)
  case (1 B n)
  show ?case
  proof (cases "n < B")
    case False
    with 1 have IH: "B ^ (length (digits B (n div B)) - 1) \<le> n div B \<or> length (digits B (n div B)) = 1" by auto
    have len: "length (digits B n) - 1 = Suc (length (digits B (n div B)) - 1)"
      using False 1(2) by (subst digits.simps, cases "digits B (n div B)") (simp_all add: digits.simps [of B "n div B"] split: if_splits)
    have "B * B ^ (length (digits B (n div B)) - 1) \<le> n"
    proof (cases "length (digits B (n div B)) = 1")
      case True with False show ?thesis by simp
    next
      case l: False
      with IH have "B * B ^ (length (digits B (n div B)) - 1) \<le> B * (n div B)" by simp
      also have "\<dots> \<le> n" by simp
      finally show ?thesis .
    qed
    with len show ?thesis by simp
  qed (simp add: digits.simps)
qed

lemma digits_less: "2 \<le> B \<Longrightarrow> d \<in> set (digits B n) \<Longrightarrow> d < B"
  by (induction B n rule: digits.induct) (subst (asm) (2) digits.simps, auto split: if_splits)

subsection \<open>The number printer\<close>

lemma scale_result:
  assumes "unat base = B" "2 \<le> B" "unat d = B ^ k" "k = 0 \<or> B ^ k \<le> unat num"
  shows "\<exists>d' k'. ui2a_scale num base d = Some d' \<and> unat d' = B ^ k'
    \<and> unat num < B ^ Suc k' \<and> (k' = 0 \<or> B ^ k' \<le> unat num)"
  using assms(3,4)
proof (induction "unat num - B ^ k" arbitrary: d k rule: less_induct)
  case less
  have pos: "0 < B ^ k" using assms(2) by simp
  have cmp: "num div d \<ge> base \<longleftrightarrow> B ^ Suc k \<le> unat num"
    using pos less.prems(1) assms(1) by (simp add: word_le_nat_alt unat_div less_eq_div_iff_mult_less_eq)
  show ?case
  proof (cases "B ^ Suc k \<le> unat num")
    case False
    then show ?thesis using cmp less.prems by (subst ui2a_scale.simps) (intro exI [of _ d] exI [of _ k], simp)
  next
    case True
    then have "B ^ Suc k < 2 ^ 32" using unat_u32_less [of num] by simp
    then have d': "unat (d * base) = B ^ Suc k"
      using less.prems(1) assms(1) by (simp add: unat_mult_lem [THEN iffD1] mult.commute)
    have "B ^ k < B ^ Suc k" using assms(2) by (intro power_strict_increasing) simp_all
    with True have "unat num - B ^ Suc k < unat num - B ^ k" by linarith
    from less.hyps [OF this d'] True show ?thesis using cmp by (subst ui2a_scale.simps) auto
  qed
qed

lemma digits_result:
  assumes "unat base = B" "2 \<le> B"
    and "unat d = B ^ k" "unat num < B ^ Suc k" "n \<noteq> 0 \<or> k = 0 \<or> B ^ k \<le> unat num"
  shows "ui2a_digits num base uc d n = Some (map (digit_char uc) (fixed_digits B k (unat num)))"
  using assms(3-5)
proof (induction k arbitrary: num d n)
  case 0
  then have "d = 1" by (metis power_0 unsigned_1 word_unat_eq_iff)
  moreover have "(1 :: u32) div base = 0"
    using assms(1,2) by (intro word_unat_eq_iff [THEN iffD2]) (auto simp: unat_div div_eq_0_iff)
  ultimately show ?case
    by (subst ui2a_digits.simps) (simp add: ui2a_digits.simps [of _ _ _ 0] Let_def)
next
  case (Suc k)
  have pos: "0 < B ^ Suc k" using assms(2) by simp
  have "d \<noteq> 0" using Suc.prems(1) pos by auto
  moreover have "n \<noteq> 0 \<or> num div d > 0"
    using Suc.prems pos by (auto simp: word_less_nat_alt unat_div div_greater_zero_iff)
  moreover have "ui2a_digits (num mod d) base uc (d div base) (n + 1)
      = Some (map (digit_char uc) (fixed_digits B k (unat (num mod d))))"
  proof (rule Suc.IH)
    show "unat (d div base) = B ^ k" using Suc.prems(1) assms(1,2) by (simp add: unat_div)
    show "unat (num mod d) < B ^ Suc k" using Suc.prems(1) pos by (simp add: unat_mod)
  qed simp
  ultimately show ?case
    using Suc.prems(1) by (subst ui2a_digits.simps) (auto simp: Let_def unat_mod unat_div)
qed

lemma ui2a_result:
  assumes "2 \<le> unat base"
  shows "ui2a num base uc = Some (map (digit_char uc) (digits (unat base) (unat num)))"
proof -
  obtain d k where "ui2a_scale num base 1 = Some d" and d: "unat d = unat base ^ k"
    and k: "unat num < unat base ^ Suc k" "k = 0 \<or> unat base ^ k \<le> unat num"
    using scale_result [OF refl assms, of 1 0 num] by auto
  moreover have "ui2a_digits num base uc d 0 = Some (map (digit_char uc) (fixed_digits (unat base) k (unat num)))"
    using k by (intro digits_result [OF refl assms d]) auto
  ultimately show ?thesis using fixed_digits_eq [OF assms k] by (simp add: ui2a_def)
qed

lemma uli2a_ui2a: "uli2a = ui2a"
  by (intro ext) (simp add: uli2a_def ui2a_def)

text \<open>The signed printer, with the sign in front.\<close>

definition decimal :: "int \<Rightarrow> string" where
  "decimal i = (if i < 0 then CHR ''-'' # map (digit_char False) (digits 10 (nat (- i)))
                else map (digit_char False) (digits 10 (nat i)))"

lemma i2a_result: "i2a w = Some (decimal (sint w))"
proof (cases "w < 2 ^ 31")
  case True
  then show ?thesis using sint_u32_small [OF True] by (simp add: i2a_def word_sless_alt ui2a_result decimal_def)
next
  case False
  then have "0 < unat w" by (simp add: word_less_nat_alt)
  moreover have "uint w = int (unat w)" by simp
  ultimately have "uint w \<noteq> 0" by linarith
  moreover have "uint w < 2 ^ 32" using uint_lt2p [of w] by simp
  moreover have "0 \<le> uint w" by simp
  moreover have "uint (- w) = (if uint w mod 2 ^ 32 = 0 then 0 else 2 ^ 32 - uint w mod 2 ^ 32)"
    unfolding zmod_zminus1_eq_if [symmetric] using uint_word_ariths(4) [of w] by simp
  ultimately have "uint (- w) = 2 ^ 32 - uint w" by (simp only: mod_pos_pos_trivial if_False)
  then have "int (unat (- w)) = 2 ^ 32 - int (unat w)" by simp
  then have "int (unat (- w)) = - sint w" using sint_u32_large [OF False] by simp
  then have "unat (- w) = nat (- sint w)" by (metis nat_int)
  moreover have "sint w < 0" using sint_u32_large [OF False] uint_lt2p [of w] by simp
  ultimately show ?thesis by (simp add: i2a_def word_sless_alt ui2a_result decimal_def)
qed

lemma digits_10_length: "n < 10 ^ 10 \<Longrightarrow> length (digits 10 n) \<le> 10"
proof (rule ccontr)
  assume n: "n < 10 ^ 10" and "\<not> length (digits 10 n) \<le> 10"
  then have l: "10 \<le> length (digits 10 n) - 1" "length (digits 10 n) \<noteq> 1" by simp_all
  then have "(10 :: nat) ^ 10 \<le> 10 ^ (length (digits 10 n) - 1)" by (intro power_increasing) simp_all
  also have "\<dots> \<le> n" using digits_bound [of 10 n] l by simp
  finally show False using n by simp
qed

subsection \<open>Reading back\<close>

lemma a2d_digit_char: "d < 16 \<Longrightarrow> a2d (digit_char uc d) = int d"
proof -
  assume "d < 16"
  then have "d \<in> {0, 1, 2, 3} \<or> d \<in> {4, 5, 6, 7} \<or> d \<in> {8, 9, 10, 11} \<or> d \<in> {12, 13, 14, 15}"
    unfolding insert_iff empty_iff by presburger
  then show ?thesis by (elim disjE insertE emptyE; hypsubst; cases uc) (simp_all add: digit_char_def a2d_def in_range_def)
qed

lemma a2d_NUL: "a2d NUL = - 1"
  by (simp add: a2d_def NUL_def in_range_def)

declare a2i_loop.simps [simp del]

text \<open>The reader takes in the digits and goes on with what follows.\<close>

lemma a2i_loop_digits:
  assumes "\<forall>d\<in>set ds. d < B" "B \<le> 16"
  shows "a2i_loop (fst (next_char (map (digit_char uc) ds @ t))) (snd (next_char (map (digit_char uc) ds @ t))) (int B) num
    = a2i_loop (fst (next_char t)) (snd (next_char t)) (int B) (foldl (\<lambda>n d. n * of_nat B + of_nat d) num ds)"
  using assms(1)
proof (induction ds arbitrary: num)
  case (Cons d ds)
  have d: "d < B" "d < 16" using Cons.prems assms(2) by auto
  let ?num = "num * of_nat B + of_nat d :: u32"
  have "a2i_loop (fst (next_char (map (digit_char uc) (d # ds) @ t))) (snd (next_char (map (digit_char uc) (d # ds) @ t))) (int B) num
      = a2i_loop (fst (next_char (map (digit_char uc) ds @ t))) (snd (next_char (map (digit_char uc) ds @ t))) (int B) ?num"
    using d
    by (cases "map (digit_char uc) ds @ t")
      (simp_all add: next_char_def a2i_loop.simps [of "digit_char uc d"] a2d_digit_char a2d_NUL Let_def a2i_loop.simps [of NUL])
  with Cons show ?case by simp
qed simp

lemma foldl_digits:
  "2 \<le> B \<Longrightarrow> foldl (\<lambda>n d. n * of_nat B + of_nat d) (0 :: u32) (digits B n) = of_nat n"
proof (induction B n rule: digits.induct)
  case (1 B n)
  show ?case
  proof (cases "n < B")
    case False
    with 1 have "foldl (\<lambda>n d. n * of_nat B + of_nat d) (0 :: u32) (digits B n) = of_nat (n div B) * of_nat B + of_nat (n mod B)"
      by (subst digits.simps) simp
    also have "\<dots> = of_nat (n div B * B + n mod B)" by (simp only: of_nat_add of_nat_mult)
    finally show ?thesis by simp
  qed (simp add: digits.simps)
qed

lemma digits_ne: "digits B n \<noteq> []"
  by (subst digits.simps) simp

lemma a2i_number:
  assumes "2 \<le> B" "B \<le> 16" "a2d (fst (next_char t)) < 0 \<or> int B < a2d (fst (next_char t))"
    and "s = map (digit_char uc) (digits B (unat num))"
  shows "a2i (hd s) (tl s @ t) (int B) = (fst (next_char t), snd (next_char t), num)"
proof -
  obtain c cs where "s = c # cs" using digits_ne [of B "unat num"] assms(4) by (metis list.exhaust map_is_Nil_conv)
  then have "a2i (hd s) (tl s @ t) (int B) = a2i_loop (fst (next_char (s @ t))) (snd (next_char (s @ t))) (int B) 0"
    by (simp add: a2i_def next_char_def)
  also have "\<dots> = a2i_loop (fst (next_char t)) (snd (next_char t)) (int B) num"
    unfolding assms(4) using digits_less [OF assms(1)] assms(1,2)
    by (subst a2i_loop_digits) (auto simp: foldl_digits)
  also have "\<dots> = (fst (next_char t), snd (next_char t), num)"
    using assms(3) by (subst a2i_loop.simps) auto
  finally show ?thesis .
qed

subsection \<open>Properties\<close>

text \<open>C30. Numbers are printed right.  For every base from 2 to 16 the printer returns, and what it stores is the digits of
  the number in that base, without leading zeros; every number \<^verbatim>\<open>%d\<close>, \<^verbatim>\<open>%u\<close> and \<^verbatim>\<open>%x\<close> can be given
  fits the 12 bytes of the buffer with its terminating zero, also the least one; and the reader of field
  widths reads the number back from its digits.\<close>

theorem number_printing:
  assumes "2 \<le> unat base" "unat base \<le> 16"
  shows "ui2a num base uc = Some (map (digit_char uc) (digits (unat base) (unat num)))
    \<and> i2a num = Some (decimal (sint num)) \<and> length (decimal (sint num)) < 12
    \<and> (10 \<le> unat base \<longrightarrow> length (the (ui2a num base uc)) < 12)
    \<and> (\<forall>s t. ui2a num base uc = Some s \<and> a2d (fst (next_char t)) < 0
        \<longrightarrow> a2i (hd s) (tl s @ t) (int (unat base)) = (fst (next_char t), snd (next_char t), num))"
proof -
  have l: "length (digits 10 n) \<le> 10" if "n \<le> 2 ^ 32" for n using that by (intro digits_10_length) simp
  have "sint num = uint num \<or> sint num = uint num - 2 ^ 32"
    using sint_u32_small [of num] sint_u32_large [of num] by (cases "num < 2 ^ 31") simp_all
  moreover have "uint num < 2 ^ 32" using uint_lt2p [of num] by simp
  moreover have "- uint num \<le> 2 ^ 32" using unsigned_greater_eq [of num, where ?'a = int] unfolding neg_le_iff_le [symmetric, of 0] by (rule order_trans) simp
  ultimately have "nat (sint num) \<le> 2 ^ 32" "nat (- sint num) \<le> 2 ^ 32" by (auto simp: nat_le_iff)
  then have "length (digits 10 (nat (sint num))) \<le> 10" "length (digits 10 (nat (- sint num))) \<le> 10" by (simp_all only: l)
  then have d: "length (decimal (sint num)) < 12" by (simp add: decimal_def)
  have "length (digits B (unat num)) < 12" if "10 \<le> B" for B
  proof (rule ccontr)
    assume "\<not> ?thesis"
    then have len: "10 \<le> length (digits B (unat num)) - 1" "length (digits B (unat num)) \<noteq> 1" by simp_all
    have "(10 :: nat) ^ 10 \<le> 10 ^ (length (digits B (unat num)) - 1)" using len by (intro power_increasing) simp_all
    also have "\<dots> \<le> B ^ (length (digits B (unat num)) - 1)" using that by (intro power_mono) simp_all
    also have "\<dots> \<le> unat num" using digits_bound [of B "unat num"] that len by simp
    finally show False using unat_u32_less [of num] by simp
  qed
  note len = this
  show ?thesis
  proof (intro conjI impI allI)
    show "length (the (ui2a num base uc)) < 12" if "10 \<le> unat base"
      using len [OF that] by (simp add: ui2a_result [OF assms(1)])
    show "a2i (hd s) (tl s @ t) (int (unat base)) = (fst (next_char t), snd (next_char t), num)"
      if "ui2a num base uc = Some s \<and> a2d (fst (next_char t)) < 0" for s t
      using a2i_number [OF assms, of t s uc num] that ui2a_result [OF assms(1), of num uc] by simp
  qed (simp_all add: ui2a_result [OF assms(1)] i2a_result d)
qed

lemma number_printing_witness: "ui2a 1024 16 True = Some ''400''"
proof -
  have "digits 16 1024 = [4, 0, 0]" by (simp add: digits.simps)
  moreover have "digit_char True 4 = CHR ''4''" "digit_char True 0 = CHR ''0''" by code_simp+
  ultimately show ?thesis using number_printing [of 16 1024 True] by simp
qed

subsection \<open>Addresses\<close>

definition dec8 :: "u8 \<Rightarrow> string" where
  "dec8 b = map (digit_char False) (digits 10 (unat b))"

lemma sint_ucast_u8: "sint (ucast (b :: u8) :: u32) = int (unat b)"
proof -
  have u: "unat (ucast b :: u32) = unat b"
    using unat_u8_less [of b] by (simp add: unsigned_ucast_eq take_bit_nat_eq_self)
  then have "(ucast b :: u32) < 2 ^ 31" using unat_u8_less [of b] by (simp add: word_less_nat_alt)
  from sint_u32_small [OF this] u show ?thesis by simp
qed

lemma width_left_0 [simp]: "width_left 0 bf = 0"
  by (cases bf) simp_all

lemma convert_d: "convert (CHR ''d'') False False 0 (Va_word (ucast b) # va) = Some (dec8 b, va)"
  by (simp add: convert_def va_word_def i2a_result sint_ucast_u8 decimal_def putchw_def dec8_def)

lemma directive_d: "directive (CHR ''d'' # fmt) = ((CHR ''d'', False, False, 0), fmt)"
  by (simp add: directive_def next_char_def in_range_def)

lemma format_d:
  "tfp_format (CHR ''%'' # CHR ''d'' # fmt) (Va_word (ucast b) # va) = map_option (append (dec8 b)) (tfp_format fmt va)"
  by (subst tfp_format.simps)
    (simp add: next_char_def directive_d convert_d NUL_def Let_def bind_eq_Some_conv map_option_case split: option.split)

lemma format_dot: "tfp_format (CHR ''.'' # fmt) va = map_option (Cons (CHR ''.'')) (tfp_format fmt va)"
  by (subst tfp_format.simps) (simp add: next_char_def)

lemma format_end: "tfp_format [] va = Some []"
  by (subst tfp_format.simps) (simp add: next_char_def)

lemma ip_string: "ip_addr_to_str_r p = Some (dec8 (p 0) @ ''.'' @ dec8 (p 1) @ ''.'' @ dec8 (p 2) @ ''.'' @ dec8 (p 3))"
  by (simp add: ip_addr_to_str_r_def format_d format_dot format_end)

lemma length_dec8: "length (dec8 b) \<le> 3"
proof (rule ccontr)
  assume "\<not> ?thesis"
  then have len: "3 \<le> length (digits 10 (unat b)) - 1" "length (digits 10 (unat b)) \<noteq> 1" by (simp_all add: dec8_def)
  have "(10 :: nat) ^ 3 \<le> 10 ^ (length (digits 10 (unat b)) - 1)" using len by (intro power_increasing) simp_all
  also have "\<dots> \<le> unat b" using digits_bound [of 10 "unat b"] len by simp
  finally show False using unat_u8_less [of b] by simp
qed

text \<open>Reading a number with the code's reader, and the character that ends it.\<close>

definition read_number :: "string \<Rightarrow> u32 \<times> string" where
  "read_number s = (let (ch, src) = next_char s; (ch, src, num) = a2i ch src 10 in (num, src))"

lemma a2i_loop_unfold_start: "a2i (fst (next_char s)) (snd (next_char s)) b = a2i_loop (fst (next_char s)) (snd (next_char s)) b 0"
  by (simp add: a2i_def)

lemma read_dec8: "a2d (fst (next_char t)) < 0 \<Longrightarrow> read_number (dec8 b @ t) = (ucast b, snd (next_char t))"
proof -
  assume t: "a2d (fst (next_char t)) < 0"
  have "foldl (\<lambda>n d. n * of_nat 10 + of_nat d) (0 :: u32) (digits 10 (unat b)) = of_nat (unat b)"
    by (rule foldl_digits) simp
  then have "a2i (fst (next_char (dec8 b @ t))) (snd (next_char (dec8 b @ t))) (int 10)
      = a2i_loop (fst (next_char t)) (snd (next_char t)) (int 10) (ucast b)"
    unfolding a2i_loop_unfold_start dec8_def
    using digits_less [of 10 _ "unat b"] by (subst a2i_loop_digits) (auto simp: unsigned_ucast_eq)
  then show ?thesis
    using t by (simp add: read_number_def case_prod_unfold Let_def a2i_loop.simps)
qed

text \<open>An address in dotted decimal always fits its buffer of 16 characters, an Ethernet address its
  buffer of 24; and what is written for an IP address tells it: the number reader
  of \<^verbatim>\<open>printf.c\<close>, run four times over the text, gives back the four bytes.\<close>

theorem ip_string_roundtrip:
  "\<exists>s. ip_addr_to_str_r p = Some s \<and> length s < 16 \<and> length (mac_addr_to_str_r p) < 24
    \<and> (let (a, s1) = read_number s; (b, s2) = read_number s1; (c, s3) = read_number s2; (d, s4) = read_number s3
       in [a, b, c, d] = map (\<lambda>i. ucast (p i)) [0, 1, 2, 3])"
proof (intro exI conjI)
  let ?s = "dec8 (p 0) @ ''.'' @ dec8 (p 1) @ ''.'' @ dec8 (p 2) @ ''.'' @ dec8 (p 3)"
  show "ip_addr_to_str_r p = Some ?s" by (rule ip_string)
  show "length ?s < 16"
    using length_dec8 [of "p 0"] length_dec8 [of "p 1"] length_dec8 [of "p 2"] length_dec8 [of "p 3"] by simp
  show "length (mac_addr_to_str_r p) < 24"
    by (simp add: mac_addr_to_str_r_def upt_rec)
  have dot: "a2d (fst (next_char (CHR ''.'' # t))) < 0" "snd (next_char (CHR ''.'' # t)) = t" for t
    by (simp_all add: next_char_def a2d_def in_range_def)
  have last: "read_number (dec8 b) = (ucast b, [])" for b
    using read_dec8 [of "[]" b] by (simp add: a2d_NUL next_char_def)
  show "let (a, s1) = read_number ?s; (b, s2) = read_number s1; (c, s3) = read_number s2; (d, s4) = read_number s3
       in [a, b, c, d] = map (\<lambda>i. ucast (p i)) [0, 1, 2, 3]"
    by (simp add: read_dec8 dot last)
qed

end
