(* ===== verification/ArpCache.thy ===== *)
theory ArpCache
  imports ArpSpec
begin

section \<open>The ARP cache of the USRP2 and of the OctoClock\<close>

text \<open>
  \<^verbatim>\<open>firmware/usrp2/lib/arp_cache.c\<close> and \<^verbatim>\<open>firmware/octoclock/lib/arp_cache.c\<close>, which are the same
  code.  Its three static variables are a record.  Unlike the cache of the USRP3 stack it knows how many entries
  are in use, and gives up the entries in the order in which they were taken.
\<close>

abbreviation (input) ARP_NENTRIES :: nat where "ARP_NENTRIES \<equiv> 8"

type_synonym arp_cache_t = "ip \<times> mac"

record arp_cache =
  nentries :: nat
  victim :: nat
  cache :: "arp_cache_t list"

definition arp_cache_init :: "'a arp_cache_scheme \<Rightarrow> 'a arp_cache_scheme" where
  "arp_cache_init s = s\<lparr>nentries := 0, victim := 0\<rparr>"

text \<open>The loop of \<^verbatim>\<open>arp_cache_lookup\<close> from index \<open>i\<close>; \<open>None\<close> is \<^verbatim>\<open>-1\<close>.\<close>

function lookup_from :: "nat \<Rightarrow> ip \<Rightarrow> 'a arp_cache_scheme \<Rightarrow> nat option" where
  "lookup_from i ip s =
     (if i < nentries s then if fst (cache s ! i) = ip then Some i else lookup_from (i + 1) ip s else None)"
  by pat_completeness auto
termination by (relation "measure (\<lambda>(i, ip, s). nentries s - i)") auto

declare lookup_from.simps [simp del]

definition arp_cache_lookup :: "ip \<Rightarrow> 'a arp_cache_scheme \<Rightarrow> nat option" where
  "arp_cache_lookup ip s = lookup_from 0 ip s"

definition arp_cache_alloc :: "'a arp_cache_scheme \<Rightarrow> nat \<times> 'a arp_cache_scheme" where
  "arp_cache_alloc s =
     (if nentries s < ARP_NENTRIES then (nentries s, s\<lparr>nentries := nentries s + 1\<rparr>)
      else (victim s, s\<lparr>victim := (victim s + 1) mod ARP_NENTRIES\<rparr>))"

definition arp_cache_update :: "ip \<Rightarrow> mac \<Rightarrow> 'a arp_cache_scheme \<Rightarrow> 'a arp_cache_scheme" where
  "arp_cache_update ip mac s =
     (case arp_cache_lookup ip s of
        None \<Rightarrow> (let (i, s) = arp_cache_alloc s in s\<lparr>cache := (cache s)[i := (ip, mac)]\<rparr>)
      | Some i \<Rightarrow> s\<lparr>cache := (cache s)[i := (fst (cache s ! i), mac)]\<rparr>)"

definition arp_cache_lookup_mac :: "ip \<Rightarrow> 'a arp_cache_scheme \<Rightarrow> mac option" where
  "arp_cache_lookup_mac ip s = map_option (\<lambda>i. snd (cache s ! i)) (arp_cache_lookup ip s)"

subsection \<open>Well-formed caches\<close>

text \<open>The counters are in bounds, entries are only given up when all are in use, and no address has two of them.\<close>

definition arp_cache_ok :: "'a arp_cache_scheme \<Rightarrow> bool" where
  "arp_cache_ok s \<longleftrightarrow> length (cache s) = ARP_NENTRIES \<and> nentries s \<le> ARP_NENTRIES \<and> victim s < ARP_NENTRIES
     \<and> (nentries s < ARP_NENTRIES \<longrightarrow> victim s = 0) \<and> distinct (map fst (take (nentries s) (cache s)))"

lemma lookup_from_Some:
  "lookup_from i ip s = Some k \<Longrightarrow> i \<le> k \<and> k < nentries s \<and> fst (cache s ! k) = ip"
  by (induction i ip s rule: lookup_from.induct) (subst (asm) lookup_from.simps, auto split: if_splits)

lemma lookup_from_None:
  "lookup_from i ip s = None \<Longrightarrow> i \<le> k \<Longrightarrow> k < nentries s \<Longrightarrow> fst (cache s ! k) \<noteq> ip"
proof (induction i ip s rule: lookup_from.induct)
  case (1 i ip s)
  then show ?case by (cases "k = i") (auto simp: lookup_from.simps [of i] split: if_splits)
qed

lemmas lookup_SomeD = lookup_from_Some [of 0, folded arp_cache_lookup_def]
  and lookup_NoneD = lookup_from_None [of 0, folded arp_cache_lookup_def, OF _ le0]

lemma arp_cache_ok_unique:
  "arp_cache_ok s \<Longrightarrow> i < nentries s \<Longrightarrow> j < nentries s \<Longrightarrow> fst (cache s ! i) = fst (cache s ! j) \<Longrightarrow> i = j"
  using nth_eq_iff_index_eq [of "map fst (take (nentries s) (cache s))" i j] by (simp add: arp_cache_ok_def)

lemma lookup_eq_Some_iff:
  "arp_cache_ok s \<Longrightarrow> arp_cache_lookup ip s = Some k \<longleftrightarrow> k < nentries s \<and> fst (cache s ! k) = ip"
  using lookup_SomeD [of ip s] lookup_NoneD [of ip s k]
  by (cases "arp_cache_lookup ip s") (auto intro: arp_cache_ok_unique)

lemma lookup_mac_eq_Some_iff:
  "arp_cache_ok s \<Longrightarrow> arp_cache_lookup_mac ip s = Some m \<longleftrightarrow> (\<exists>k < nentries s. cache s ! k = (ip, m))"
  by (auto simp: arp_cache_lookup_mac_def lookup_eq_Some_iff prod_eq_iff) 

text \<open>The entry an address gets: the one it has, or the one that is given out next.\<close>

definition next_slot :: "'a arp_cache_scheme \<Rightarrow> nat" where
  "next_slot s = (if nentries s < ARP_NENTRIES then nentries s else victim s)"

lemma update_known:
  assumes "arp_cache_ok s" "arp_cache_lookup ip s = Some k"
  shows "arp_cache_update ip m s = s\<lparr>cache := (cache s)[k := (ip, m)]\<rparr>"
  using assms lookup_SomeD [OF assms(2)] by (simp add: arp_cache_update_def)

lemma update_new:
  assumes "arp_cache_lookup ip s = None" "nentries s \<le> ARP_NENTRIES"
  shows "arp_cache_update ip m s = s\<lparr>nentries := min ARP_NENTRIES (nentries s + 1),
    victim := (if nentries s < ARP_NENTRIES then victim s else (victim s + 1) mod ARP_NENTRIES),
    cache := (cache s)[next_slot s := (ip, m)]\<rparr>"
  using assms by (auto simp: arp_cache_update_def arp_cache_alloc_def next_slot_def min_def)

lemma arp_cache_ok_update: "arp_cache_ok s \<Longrightarrow> arp_cache_ok (arp_cache_update ip m s)"
proof (cases "arp_cache_lookup ip s")
  case None
  assume ok: "arp_cache_ok s"
  then have n: "nentries s \<le> 8" by (simp add: arp_cache_ok_def)
  have free: "ip \<notin> set (map fst (take (nentries s) (cache s)))"
    using ok lookup_NoneD [OF None] by (fastforce simp: arp_cache_ok_def in_set_conv_nth)
  show ?thesis
  proof (cases "nentries s < 8")
    case True
    then show ?thesis
      using ok free unfolding update_new [OF None n]
      by (simp add: arp_cache_ok_def next_slot_def take_Suc_conv_app_nth)
  next
    case False
    then show ?thesis
      using ok free n unfolding update_new [OF None n]
      by (auto simp: arp_cache_ok_def next_slot_def map_update intro: distinct_list_update)
  qed
next
  case (Some k)
  assume ok: "arp_cache_ok s"
  then have "k < nentries s" "fst (cache s ! k) = ip" using Some by (simp_all add: lookup_eq_Some_iff)
  then show ?thesis
    using ok unfolding update_known [OF ok Some]
    by (auto simp: arp_cache_ok_def distinct_conv_nth nth_list_update)
qed

lemma lookup_mac_update_same: "arp_cache_ok s \<Longrightarrow> arp_cache_lookup_mac ip (arp_cache_update ip m s) = Some m"
proof (cases "arp_cache_lookup ip s")
  case None
  assume ok: "arp_cache_ok s"
  then have n: "nentries s \<le> 8" by (simp add: arp_cache_ok_def)
  show ?thesis unfolding lookup_mac_eq_Some_iff [OF arp_cache_ok_update [OF ok]]
    using ok unfolding update_new [OF None n]
    by (intro exI [of _ "next_slot s"]) (auto simp: arp_cache_ok_def next_slot_def)
next
  case (Some k)
  assume ok: "arp_cache_ok s"
  have "k < nentries s" "fst (cache s ! k) = ip" using Some ok by (simp_all add: lookup_eq_Some_iff)
  then show ?thesis unfolding lookup_mac_eq_Some_iff [OF arp_cache_ok_update [OF ok]]
    using ok unfolding update_known [OF ok Some] by (intro exI [of _ k]) (auto simp: arp_cache_ok_def)
qed

lemma cache_update_nth:
  assumes "arp_cache_ok s" "k < ARP_NENTRIES"
  shows "cache (arp_cache_update ip m s) ! k
    = (if arp_cache_lookup ip s = Some k \<or> arp_cache_lookup ip s = None \<and> k = next_slot s then (ip, m) else cache s ! k)"
proof -
  have n: "nentries s \<le> 8" using assms by (simp add: arp_cache_ok_def)
  show ?thesis
    using assms update_known [of s ip] update_new [OF _ n, of ip]
    by (cases "arp_cache_lookup ip s") (auto simp: arp_cache_ok_def nth_list_update)
qed

lemma nentries_update:
  "arp_cache_ok s \<Longrightarrow> nentries (arp_cache_update ip m s)
     = (if arp_cache_lookup ip s = None then min ARP_NENTRIES (nentries s + 1) else nentries s)"
  using update_known [of s ip] update_new [of ip s]
  by (cases "arp_cache_lookup ip s") (auto simp: arp_cache_ok_def)

lemma lookup_mac_update_other:
  assumes "arp_cache_ok s" "j \<noteq> i" "arp_cache_lookup_mac j (arp_cache_update i m s) = Some n"
  shows "arp_cache_lookup_mac j s = Some n"
proof -
  obtain k where k: "k < nentries (arp_cache_update i m s)" "cache (arp_cache_update i m s) ! k = (j, n)"
    using assms lookup_mac_eq_Some_iff [OF arp_cache_ok_update] by blast
  then have "k < 8" using arp_cache_ok_update [OF assms(1), of i m] by (auto simp: arp_cache_ok_def)
  note c = cache_update_nth [OF assms(1) this, of i m]
  have "cache s ! k = (j, n)" using k(2) assms(2) unfolding c by (auto split: if_splits)
  moreover have "k < nentries s"
    using k assms(1,2) unfolding c nentries_update [OF assms(1)]
    by (auto simp: next_slot_def arp_cache_ok_def less_Suc_eq split: if_splits)
  ultimately show ?thesis using assms(1) by (auto simp: lookup_mac_eq_Some_iff)
qed

interpretation oc_arp: arp_table arp_cache_update arp_cache_lookup_mac arp_cache_ok "\<lambda>_ _. True"
  by unfold_locales (auto intro: arp_cache_ok_update lookup_mac_update_same lookup_mac_update_other)

subsection \<open>How long an entry lives\<close>

text \<open>The number of entries given out before entry \<open>k\<close> is.\<close>

definition entries_before :: "nat \<Rightarrow> 'a arp_cache_scheme \<Rightarrow> nat" where
  "entries_before k s = (ARP_NENTRIES - nentries s) + (k + ARP_NENTRIES - victim s) mod ARP_NENTRIES"

text \<open>Entry \<open>k\<close> holds this binding, and at least \<open>n\<close> other entries are given out before it is.\<close>

definition safe_for :: "nat \<Rightarrow> nat \<Rightarrow> ip \<Rightarrow> mac \<Rightarrow> 'a arp_cache_scheme \<Rightarrow> bool" where
  "safe_for n k i m s \<longleftrightarrow> arp_cache_ok s \<and> k < nentries s \<and> cache s ! k = (i, m) \<and> n \<le> entries_before k s"

lemma ring_self: "v < 8 \<Longrightarrow> (v + 8 - (v + 1) mod 8) mod 8 = (7 :: nat)"
  by (cases "v = 7") simp_all

lemma ring_step: "v < 8 \<Longrightarrow> k < 8 \<Longrightarrow> v \<noteq> k \<Longrightarrow> (k + 8 - (v + 1) mod 8) mod 8 + 1 = (k + 8 - v) mod (8 :: nat)"
proof -
  assume a: "v < 8" "k < 8" "v \<noteq> k"
  have m: "(v + 1) mod 8 = (if v = 7 then 0 else v + 1)" using a(1) by simp
  have w: "(k + 8 - x) mod 8 = (if x \<le> k then k - x else k + 8 - x)" if "x < 8" for x
  proof (cases "x \<le> k")
    case True
    then have "k + 8 - x = (k - x) + 8" by simp
    then show ?thesis using True a(2) by (metis mod_add_self2 mod_less less_imp_diff_less)
  qed (use that in simp)
  show ?thesis unfolding m using a by (auto simp: w)
qed

lemma safe_for_new:
  assumes "arp_cache_ok s" "arp_cache_lookup i s = None"
  shows "safe_for 7 (next_slot s) i m (arp_cache_update i m s)"
proof -
  have n: "nentries s \<le> 8" "victim s < 8" and z: "nentries s < 8 \<Longrightarrow> victim s = 0"
    using assms by (auto simp: arp_cache_ok_def)
  show ?thesis
    using ring_self n z assms arp_cache_ok_update [OF assms(1), of i m] cache_update_nth [OF assms(1), of "next_slot s" i m]
    by (auto simp: safe_for_def entries_before_def update_new next_slot_def min_def)
qed

lemma safe_for_step:
  assumes "safe_for (Suc n) k i m s" "j \<noteq> i"
  shows "safe_for n k i m (arp_cache_update j m' s)"
proof -
  have ok: "arp_cache_ok s" and k: "k < nentries s" "cache s ! k = (i, m)" "Suc n \<le> entries_before k s"
    using assms by (auto simp: safe_for_def)
  have n: "nentries s \<le> 8" "victim s < 8" "k < 8" and z: "nentries s < 8 \<Longrightarrow> victim s = 0"
    using ok k by (auto simp: arp_cache_ok_def)
  note c = cache_update_nth [OF ok n(3), of j m'] and ok' = arp_cache_ok_update [OF ok, of j m']
  show ?thesis
  proof (cases "arp_cache_lookup j s")
    case (Some l)
    then have "l \<noteq> k" using assms(2) k(2) lookup_SomeD [OF Some] by auto
    then show ?thesis
      using Some k c ok' unfolding safe_for_def entries_before_def update_known [OF ok Some] by simp
  next
    case None
    note v = ring_step [OF n(2,3)]
    have "next_slot s \<noteq> k" using k(1,3) n by (auto simp: next_slot_def entries_before_def split: if_splits)
    then show ?thesis
      using None k v z n ok' c unfolding safe_for_def entries_before_def
      by (cases "nentries s < 8") (auto simp: update_new next_slot_def min_def)
  qed
qed

lemma safe_for_run:
  "safe_for (length us + n) k i m s \<Longrightarrow> i \<notin> fst ` set us \<Longrightarrow> safe_for n k i m (arp_run arp_cache_update us s)"
proof (induction us arbitrary: s)
  case (Cons u us)
  obtain j m' where u: "u = (j, m')" by (cases u)
  with Cons.prems safe_for_step [of "length us + n" k i m s j m'] 
  have "safe_for (length us + n) k i m (arp_cache_update j m' s)" by fastforce
  from Cons.IH [OF this] Cons.prems u show ?case by (simp add: arp_run_def)
qed (simp add: arp_run_def)

text \<open>An address new to the cache is remembered through any seven later updates of other addresses,
  whatever the cache held before; and through any number of updates nothing is answered but the last
  binding an address was given.  (The firmware relies on it: a packet to an address whose reply has just been cached
  finds it there.)\<close>

theorem arp_entry_survives:
  assumes "arp_cache_ok s" "arp_cache_lookup i s = None" "length us < ARP_NENTRIES" "i \<notin> fst ` set us"
  shows "arp_cache_lookup_mac i (arp_run arp_cache_update us (arp_cache_update i m s)) = Some m
    \<and> (\<forall>vs j n. arp_cache_lookup_mac j (arp_run arp_cache_update vs s) = Some n
        \<longrightarrow> last_binding vs j = Some n \<or> last_binding vs j = None \<and> arp_cache_lookup_mac j s = Some n)"
proof
  have "safe_for (length us + (7 - length us)) (next_slot s) i m (arp_cache_update i m s)"
    using safe_for_new [OF assms(1,2), of m] assms(3) by simp
  from safe_for_run [OF this assms(4)]
  show "arp_cache_lookup_mac i (arp_run arp_cache_update us (arp_cache_update i m s)) = Some m"
    by (auto simp: safe_for_def lookup_mac_eq_Some_iff)
qed (use oc_arp.run_lookup_sound [OF assms(1)] in blast)

lemma arp_entry_survives_witness:
  "arp_cache_lookup_mac 9 (arp_run arp_cache_update (map (\<lambda>i. (of_nat i, [])) [1..<8])
     (arp_cache_update 9 [1, 2, 3, 4, 5, 6] (arp_cache_init \<lparr>nentries = 3, victim = 5, cache = replicate 8 (0, [])\<rparr>)))
   = Some [1, 2, 3, 4, 5, 6]"
proof -
  let ?s = "arp_cache_init \<lparr>nentries = 3, victim = 5, cache = replicate 8 (0, [])\<rparr>"
  have "arp_cache_ok ?s" "arp_cache_lookup 9 ?s = None"
    by (simp_all add: arp_cache_init_def arp_cache_ok_def arp_cache_lookup_def lookup_from.simps)
  then show ?thesis using arp_entry_survives [of ?s 9 "map (\<lambda>i. (of_nat i, [])) [1..<8]"] by (simp add: upt_rec)
qed

end
