(* ===== verification/LeBytes.thy ===== *)
theory LeBytes
  imports Prelude
begin

section \<open>Little-endian loads and stores\<close>

text \<open>The loads and stores of \<^verbatim>\<open>u16_t\<close> and \<^verbatim>\<open>u32_t\<close> fields on the AVR of the OctoClock and on the hosts and ARM
  processors that run the EEPROM tools.\<close>

definition le16 :: "mem \<Rightarrow> nat \<Rightarrow> u16" where
  "le16 m i = word_cat (m (i + 1)) (m i)"

definition le32 :: "mem \<Rightarrow> nat \<Rightarrow> u32" where
  "le32 m i = word_cat (le16 m (i + 2)) (le16 m i)"

definition put16_le :: "u16 \<Rightarrow> u8 list" where
  "put16_le w = [lo8 w, hi8 w]"

definition put32_le :: "u32 \<Rightarrow> u8 list" where
  "put32_le w = put16_le (lo16 w) @ put16_le (hi16 w)"

text \<open>\<^verbatim>\<open>htons\<close>, \<^verbatim>\<open>htonl\<close> and their inverses on such a processor.\<close>

definition swab16 :: "u16 \<Rightarrow> u16" where
  "swab16 w = word_cat (lo8 w) (hi8 w)"

definition swab32 :: "u32 \<Rightarrow> u32" where
  "swab32 w = word_cat (swab16 (lo16 w)) (swab16 (hi16 w))"

lemma put_le_swab [simp]: "put16_le (swab16 w) = put16 w" "put32_le (swab32 v) = put32 v"
  by (simp_all add: put16_le_def put32_le_def swab16_def swab32_def put16_def put32_def bytes_simps)

lemma swab_swab [simp]: "swab16 (swab16 w) = w" "swab32 (swab32 v) = v"
  by (simp_all add: swab16_def swab32_def bytes_simps)

lemma length_put_le [simp]: "length (put16_le w) = 2" "length (put32_le v) = 4"
  by (simp_all add: put16_le_def put32_le_def)

lemma le16_at: "length xs = k \<Longrightarrow> le16 (mem_of (xs @ put16_le w @ ys)) k = w"
  by (simp add: le16_def mem_of_def put16_le_def nth_append bytes_simps)

lemma le32_at: "length xs = k \<Longrightarrow> le32 (mem_of (xs @ put32_le w @ ys)) k = w"
  by (simp add: le32_def le16_def mem_of_def put16_le_def put32_le_def nth_append bytes_simps)

lemma put_le_inj: "put16_le v = put16_le w \<longleftrightarrow> v = w" "put32_le x = put32_le y \<longleftrightarrow> x = y"
  by (metis le16_at append_Nil list.size(3)) (metis le32_at append_Nil list.size(3))

end
