(* ===== verification/OctoNet.thy ===== *)
theory OctoNet
  imports ArpCache NetStack LeBytes
begin

unbundle bit_operations_syntax

section \<open>The network stack of the OctoClock\<close>

text \<open>
  \<^verbatim>\<open>firmware/octoclock/lib/network.c\<close> with the macros of \<^verbatim>\<open>include/network.h\<close>.  The processor is an
  AVR: little endian, so a field in network byte order is loaded with its bytes swapped, and \<^verbatim>\<open>int\<close> and
  \<^verbatim>\<open>size_t\<close> have 16 bits, so lengths are \<open>u16\<close> and wrap.  The header structures are those of lwIP
  again and share the records of theory \<open>NetStack\<close>; a field holds the value as it is loaded.  Received and sent
  frames use one static buffer of 512 bytes, \<open>eth_buf\<close>, which the model keeps as the view of the memory
  from its first byte: a pointer into it is an offset, what lies behind offset 512 is whatever the linker put there, and that
  nothing is written there is a theorem of \<open>OctoNetProps\<close>.  A source handed to \<^verbatim>\<open>send_pkt\<close> is an object of its own or a pointer
  into that buffer.  What the driver is told to transmit is collected in \<open>sent\<close>; the driver
  is theory \<open>Enc28j60\<close>.  The remaining fields are parameters: what uninitialised stack space holds, what lies at
  address 0, and what a cell of the EEPROM reads after a byte has been written to it.
\<close>

subsection \<open>Byte order\<close>

definition oc_htons :: "u16 \<Rightarrow> u16" where
  "oc_htons n = push_bit 8 (n AND 0xFF) OR drop_bit 8 (n AND 0xFF00)"

definition oc_htonl :: "u32 \<Rightarrow> u32" where
  "oc_htonl n = push_bit 24 (n AND 0xFF) OR push_bit 8 (n AND 0xFF00)
     OR drop_bit 8 (n AND 0xFF0000) OR drop_bit 24 (n AND 0xFF000000)"

abbreviation (input) oc_ntohs :: "u16 \<Rightarrow> u16" where "oc_ntohs \<equiv> oc_htons"
abbreviation (input) oc_ntohl :: "u32 \<Rightarrow> u32" where "oc_ntohl \<equiv> oc_htonl"

definition oc_IP :: "u32 \<Rightarrow> u32 \<Rightarrow> u32 \<Rightarrow> u32 \<Rightarrow> u32" where
  "oc_IP a b c d = push_bit 24 a OR push_bit 16 b OR push_bit 8 c OR push_bit 0 d"

subsection \<open>Headers\<close>

definition oc_IPH_V :: "ip_hdr \<Rightarrow> u16" where "oc_IPH_V h = drop_bit 12 (oc_ntohs (ih_v_hl_tos h))"
definition oc_IPH_HL :: "ip_hdr \<Rightarrow> u16" where "oc_IPH_HL h = drop_bit 8 (oc_ntohs (ih_v_hl_tos h)) AND 0x0f"
definition oc_IPH_OFFSET :: "ip_hdr \<Rightarrow> u16" where "oc_IPH_OFFSET h = oc_ntohs (ih_offset h)"
definition oc_IPH_TTL :: "ip_hdr \<Rightarrow> u16" where "oc_IPH_TTL h = drop_bit 8 (oc_ntohs (ih_ttl_proto h))"
definition oc_IPH_PROTO :: "ip_hdr \<Rightarrow> u16" where "oc_IPH_PROTO h = oc_ntohs (ih_ttl_proto h) AND 0xff"

definition oc_IPH_VHLTOS_SET :: "u16 \<Rightarrow> u16 \<Rightarrow> u16 \<Rightarrow> ip_hdr \<Rightarrow> ip_hdr" where
  "oc_IPH_VHLTOS_SET v hl tos h = h\<lparr>ih_v_hl_tos := oc_htons (push_bit 12 v OR push_bit 8 hl OR tos)\<rparr>"
definition oc_IPH_LEN_SET :: "u16 \<Rightarrow> ip_hdr \<Rightarrow> ip_hdr" where
  "oc_IPH_LEN_SET len h = h\<lparr>ih_len := oc_htons len\<rparr>"
definition oc_IPH_TTL_SET :: "u16 \<Rightarrow> ip_hdr \<Rightarrow> ip_hdr" where
  "oc_IPH_TTL_SET ttl h = h\<lparr>ih_ttl_proto := oc_htons (oc_IPH_PROTO h OR push_bit 8 ttl)\<rparr>"
definition oc_IPH_PROTO_SET :: "u16 \<Rightarrow> ip_hdr \<Rightarrow> ip_hdr" where
  "oc_IPH_PROTO_SET proto h = h\<lparr>ih_ttl_proto := oc_htons (proto OR push_bit 8 (oc_IPH_TTL h))\<rparr>"

definition oc_ip_hdr_of :: "mem \<Rightarrow> ip_hdr" where
  "oc_ip_hdr_of m = \<lparr>ih_v_hl_tos = le16 m 0, ih_len = le16 m 2, ih_id = le16 m 4, ih_offset = le16 m 6,
     ih_ttl_proto = le16 m 8, ih_chksum = le16 m 10, ih_src = le32 m 12, ih_dest = le32 m 16\<rparr>"

text \<open>\<^verbatim>\<open>(uint16_t * )&ip\<close>, and the same bytes.\<close>

definition oc_ip_hdr_shorts :: "ip_hdr \<Rightarrow> u16 list" where
  "oc_ip_hdr_shorts h = [ih_v_hl_tos h, ih_len h, ih_id h, ih_offset h, ih_ttl_proto h, ih_chksum h,
     lo16 (ih_src h), hi16 (ih_src h), lo16 (ih_dest h), hi16 (ih_dest h)]"

definition oc_bytes :: "u16 list \<Rightarrow> u8 list" where
  "oc_bytes ws = concat (map put16_le ws)"

definition oc_udp_hdr_of :: "mem \<Rightarrow> udp_hdr" where
  "oc_udp_hdr_of m = \<lparr>uh_src = le16 m 0, uh_dest = le16 m 2, uh_len = le16 m 4, uh_chksum = le16 m 6\<rparr>"

definition oc_udp_hdr_shorts :: "udp_hdr \<Rightarrow> u16 list" where
  "oc_udp_hdr_shorts h = [uh_src h, uh_dest h, uh_len h, uh_chksum h]"

definition oc_icmp_hdr_of :: "mem \<Rightarrow> icmp_echo_hdr" where
  "oc_icmp_hdr_of m = \<lparr>ic_type = m 0, ic_code = m 1, ic_chksum = le16 m 2, ic_id = le16 m 4, ic_seqno = le16 m 6\<rparr>"

definition oc_icmp_hdr_shorts :: "icmp_echo_hdr \<Rightarrow> u16 list" where
  "oc_icmp_hdr_shorts h = [word_cat (ic_code h) (ic_type h), ic_chksum h, ic_id h, ic_seqno h]"

definition oc_arp_of :: "mem \<Rightarrow> arp_eth_ipv4" where
  "oc_arp_of m = \<lparr>ar_hrd = le16 m 0, ar_pro = le16 m 2, ar_hln = m 4, ar_pln = m 5, ar_op = le16 m 6,
     ar_sha = mem_take (mem_at m 8) 6, ar_sip = le32 m 14,
     ar_tha = mem_take (mem_at m 18) 6, ar_tip = le32 m 24\<rparr>"

definition oc_arp_bytes :: "arp_eth_ipv4 \<Rightarrow> u8 list" where
  "oc_arp_bytes p = put16_le (ar_hrd p) @ put16_le (ar_pro p) @ [ar_hln p, ar_pln p] @ put16_le (ar_op p)
     @ ar_sha p @ put32_le (ar_sip p) @ ar_tha p @ put32_le (ar_tip p)"

subsection \<open>State\<close>

definition ETH_BUF_SIZE :: u16 where "ETH_BUF_SIZE = 512"
definition MAX_UDP_LISTENERS :: nat where "MAX_UDP_LISTENERS = 10"
definition ETH_HLEN :: u16 where "ETH_HLEN = 14"

text \<open>The functions the application and the boot loader register.\<close>

datatype udp_receiver_t = Udp_ctrl | Udp_gpsdo | Udp_query | Udp_fw | Udp_eeprom

record socket_address =
  sa_port :: u16
  sa_addr :: ip

definition make_socket_address :: "ip \<Rightarrow> u16 \<Rightarrow> socket_address" where
  "make_socket_address a p = \<lparr>sa_port = p, sa_addr = a\<rparr>"

record octo = arp_cache +
  eth_buf :: mem
  local_mac_addr :: mac
  local_ip_addr :: ip
  listeners :: "(u16 \<times> udp_receiver_t option) list"
  send_garp :: bool
  garp_overflows :: u32
  using_network_defaults :: bool
  eeprom :: mem
  enc_mac :: mac
  sent :: "u8 list list"
  stack_junk :: u16
  junk_pkt :: mem
  null_mem :: mem
  ee_cell :: "nat \<Rightarrow> u8 \<Rightarrow> u8"

text \<open>How an operation can end: it returns, or the processor calls through a null pointer, aborts, or waits for its
  watchdog to reset it.\<close>

datatype crash = Null_call | Abort | Watchdog_reset
datatype 's outcome = Run 's | Stop crash 's

fun and_then :: "'s outcome \<Rightarrow> ('s \<Rightarrow> 's outcome) \<Rightarrow> 's outcome" where
  "and_then (Run s) f = f s"
| "and_then (Stop c s) f = Stop c s"

text \<open>A receiver gets source, destination, the payload (the offset of its pointer, or the null pointer) and its length.\<close>

type_synonym 'a receiver =
  "socket_address \<Rightarrow> socket_address \<Rightarrow> nat option \<Rightarrow> u16 \<Rightarrow> 'a octo_scheme \<Rightarrow> 'a octo_scheme outcome"

subsection \<open>16-bit one's complement sum\<close>

definition oc_chksum_buffer :: "u16 list \<Rightarrow> u32 \<Rightarrow> u32" where
  "oc_chksum_buffer buf initial_chksum =
     fold_carries (foldl (\<lambda>chksum w. chksum + ucast w) initial_chksum buf)"

definition oc_shorts_of :: "mem \<Rightarrow> nat \<Rightarrow> u16 list" where
  "oc_shorts_of m n = map (\<lambda>i. le16 m (2 * i)) [0..<n]"

subsection \<open>Listener registry\<close>

definition init_udp_listeners :: "'a octo_scheme \<Rightarrow> 'a octo_scheme" where
  "init_udp_listeners s = s\<lparr>listeners := map (\<lambda>(port, rcvr). (port, None)) (listeners s)\<rparr>"

definition find_listener_by_port :: "u16 \<Rightarrow> 'a octo_scheme \<Rightarrow> nat option" where
  "find_listener_by_port port s = (let port = oc_ntohs port in find_index (\<lambda>e. port = fst e) (listeners s))"

definition find_free_listener :: "'a octo_scheme \<Rightarrow> nat option" where
  "find_free_listener s = find_index (\<lambda>e. snd e = None) (listeners s)"

definition register_udp_listener :: "u16 \<Rightarrow> udp_receiver_t \<Rightarrow> 'a octo_scheme \<Rightarrow> 'a octo_scheme outcome" where
  "register_udp_listener port rcvr s =
     (case find_listener_by_port port s of
        Some i \<Rightarrow> Run (s\<lparr>listeners := (listeners s)[i := (fst (listeners s ! i), Some rcvr)]\<rparr>)
      | None \<Rightarrow>
          (case find_free_listener s of
             Some i \<Rightarrow> Run (s\<lparr>listeners := (listeners s)[i := (port, Some rcvr)]\<rparr>)
           | None \<Rightarrow> Stop Abort s))"

subsection \<open>Sending\<close>

datatype cbuf = Obj mem | In_eth_buf nat

definition cbuf_mem :: "mem \<Rightarrow> cbuf \<Rightarrow> mem" where
  "cbuf_mem buf b = (case b of Obj m \<Rightarrow> m | In_eth_buf k \<Rightarrow> mem_at buf k)"

definition memcpy :: "nat \<Rightarrow> mem \<Rightarrow> nat \<Rightarrow> mem \<Rightarrow> mem" where
  "memcpy p src n m = (\<lambda>i. if p \<le> i \<and> i < p + n then src (i - p) else m i)"

text \<open>The loop of \<^verbatim>\<open>send_pkt\<close>: the offset of \<^verbatim>\<open>p\<close>, and the length that is not clipped.\<close>

fun copy_buffs :: "(cbuf \<times> u16) list \<Rightarrow> nat \<Rightarrow> u16 \<Rightarrow> mem \<Rightarrow> u16 \<times> mem" where
  "copy_buffs [] p total_len buf = (total_len, buf)"
| "copy_buffs ((b, len) # bs) p total_len buf =
     (let total_len = total_len + len;
          bytes_remaining = ETH_BUF_SIZE - of_nat p;
          len = (if len > bytes_remaining then bytes_remaining else len)
      in copy_buffs bs (p + unat len) total_len (memcpy p (cbuf_mem buf b) (unat len) buf))"

definition enc28j60_send_frame :: "u16 \<Rightarrow> 'a octo_scheme \<Rightarrow> 'a octo_scheme" where
  "enc28j60_send_frame len s = s\<lparr>sent := sent s @ [mem_take (eth_buf s) (unat len)]\<rparr>"

definition oc_eth_hdr_bytes :: "mac \<Rightarrow> mac \<Rightarrow> u16 \<Rightarrow> u8 list" where
  "oc_eth_hdr_bytes dst src ethertype = dst @ src @ put16_le ethertype"

definition send_pkt ::
  "mac \<Rightarrow> u16 \<Rightarrow> cbuf \<Rightarrow> u16 \<Rightarrow> cbuf \<Rightarrow> u16 \<Rightarrow> cbuf \<Rightarrow> u16 \<Rightarrow> 'a octo_scheme \<Rightarrow> 'a octo_scheme" where
  "send_pkt dst ethertype buf0 len0 buf1 len1 buf2 len2 s =
     (let ehdr = mem_of (oc_eth_hdr_bytes dst (local_mac_addr s) ethertype);
          (total_len, buf) = copy_buffs [(Obj ehdr, ETH_HLEN), (buf0, len0), (buf1, len1), (buf2, len2)] 0 0 (eth_buf s);
          total_len = (if total_len < 64 then 64 else total_len)
      in enc28j60_send_frame total_len (s\<lparr>eth_buf := buf\<rparr>))"

text \<open>The header is filled in from an uninitialised structure; only the word of time-to-live and protocol is read before
  it is written.\<close>

definition oc_fill_ip_hdr :: "u16 \<Rightarrow> u16 \<Rightarrow> ip \<Rightarrow> ip \<Rightarrow> ip_hdr \<Rightarrow> ip_hdr" where
  "oc_fill_ip_hdr len protocol local dst ip =
     (let ip = oc_IPH_VHLTOS_SET 4 5 0 ip;
          ip = oc_IPH_LEN_SET len ip;
          ip = ip\<lparr>ih_id := 0\<rparr>;
          ip = ip\<lparr>ih_offset := oc_htons IP_DF\<rparr>;
          ip = oc_IPH_TTL_SET 64 ip;
          ip = oc_IPH_PROTO_SET protocol ip;
          ip = ip\<lparr>ih_chksum := 0\<rparr>;
          ip = ip\<lparr>ih_src := oc_htonl local\<rparr>;
          ip = ip\<lparr>ih_dest := dst\<rparr>
      in ip\<lparr>ih_chksum := ucast (NOT (oc_chksum_buffer (oc_ip_hdr_shorts ip) 0))\<rparr>)"

definition send_ip_pkt ::
  "ip \<Rightarrow> u16 \<Rightarrow> cbuf \<Rightarrow> u16 \<Rightarrow> cbuf \<Rightarrow> u16 \<Rightarrow> 'a octo_scheme \<Rightarrow> 'a octo_scheme" where
  "send_ip_pkt dst protocol buf0 len0 buf1 len1 s =
     (let ip = oc_fill_ip_hdr (20 + len0 + len1) protocol (local_ip_addr s) dst (raw_ip_hdr (stack_junk s))
      in case arp_cache_lookup_mac (ih_dest ip) s of
           None \<Rightarrow> s
         | Some dst_mac \<Rightarrow>
             send_pkt dst_mac (oc_htons ETHERTYPE_IPV4) (Obj (mem_of (oc_bytes (oc_ip_hdr_shorts ip)))) 20
               buf0 len0 buf1 len1 s)"

definition oc_send_udp_pkt :: "u16 \<Rightarrow> socket_address \<Rightarrow> cbuf \<Rightarrow> u16 \<Rightarrow> 'a octo_scheme \<Rightarrow> 'a octo_scheme" where
  "oc_send_udp_pkt src_port dst buf len s =
     (let udp = \<lparr>uh_src = oc_htons src_port, uh_dest = oc_htons (sa_port dst), uh_len = oc_htons (8 + len), uh_chksum = 0\<rparr>
      in send_ip_pkt (sa_addr dst) IP_PROTO_UDP (Obj (mem_of (oc_bytes (oc_udp_hdr_shorts udp)))) 8 buf len s)"

subsection \<open>Receiving\<close>

text \<open>The pointers \<^verbatim>\<open>udp\<close>, \<^verbatim>\<open>icmp\<close>, \<^verbatim>\<open>ip\<close> and \<^verbatim>\<open>arp\<close> are offsets into \<open>eth_buf\<close>.\<close>

definition call_listener ::
  "(udp_receiver_t \<Rightarrow> 'a receiver) \<Rightarrow> nat \<Rightarrow> socket_address \<Rightarrow> socket_address \<Rightarrow> nat option \<Rightarrow> u16
    \<Rightarrow> 'a octo_scheme \<Rightarrow> 'a octo_scheme outcome" where
  "call_listener run i src dst payload len s =
     (case snd (listeners s ! i) of None \<Rightarrow> Stop Null_call s | Some rcvr \<Rightarrow> run rcvr src dst payload len s)"

definition oc_handle_udp_packet ::
  "(udp_receiver_t \<Rightarrow> 'a receiver) \<Rightarrow> ip \<Rightarrow> ip \<Rightarrow> nat \<Rightarrow> u16 \<Rightarrow> 'a octo_scheme \<Rightarrow> 'a octo_scheme outcome" where
  "oc_handle_udp_packet run src_ip dst_ip udp len s =
     (let h = oc_udp_hdr_of (mem_at (eth_buf s) udp);
          payload_len = len - 8
      in case find_listener_by_port (uh_dest h) s of
           None \<Rightarrow> Run s
         | Some lx \<Rightarrow>
             call_listener run lx (make_socket_address src_ip (oc_ntohs (uh_src h)))
               (make_socket_address dst_ip (oc_ntohs (uh_dest h))) (Some (udp + 8)) payload_len s)"

definition oc_handle_icmp_packet ::
  "(udp_receiver_t \<Rightarrow> 'a receiver) \<Rightarrow> ip \<Rightarrow> ip \<Rightarrow> nat \<Rightarrow> u16 \<Rightarrow> 'a octo_scheme \<Rightarrow> 'a octo_scheme outcome" where
  "oc_handle_icmp_packet run src dst icmp len s =
     (let h = oc_icmp_hdr_of (mem_at (eth_buf s) icmp) in
      if ic_type h = ICMP_DUR then
        (if ic_code h = ICMP_DUR_PORT
         then (let ip = oc_ip_hdr_of (mem_at (eth_buf s) (icmp + 8));
                   udp = oc_udp_hdr_of (mem_at (eth_buf s) (icmp + 8 + 20));
                   protocol = oc_ntohs (ih_ttl_proto ip) AND 0xff
               in if protocol \<noteq> IP_PROTO_UDP then Run s
                  else (case find_listener_by_port (uh_src udp) s of
                          None \<Rightarrow> Run s
                        | Some lx \<Rightarrow>
                            call_listener run lx (make_socket_address (ih_src ip) (uh_src udp))
                              (make_socket_address (ih_dest ip) (uh_dest udp)) None 0 s))
         else Run s)
      else if ic_type h = ICMP_ECHO then
        (let icmp_data_buff = icmp + 8;
             icmp_data_len = len - 8;
             echo_reply = \<lparr>ic_type = 0, ic_code = 0, ic_chksum = 0, ic_id = ic_id h, ic_seqno = ic_seqno h\<rparr>;
             data = oc_shorts_of (mem_at (eth_buf s) icmp_data_buff) (unat (icmp_data_len div 2));
             echo_reply = echo_reply\<lparr>ic_chksum :=
               ucast (NOT (oc_chksum_buffer data (oc_chksum_buffer (oc_icmp_hdr_shorts echo_reply) 0)))\<rparr>
         in Run (send_ip_pkt src IP_PROTO_ICMP (Obj (mem_of (oc_bytes (oc_icmp_hdr_shorts echo_reply)))) 8
                   (In_eth_buf icmp_data_buff) icmp_data_len s))
      else Run s)"

definition oc_send_arp_reply :: "arp_eth_ipv4 \<Rightarrow> mac \<Rightarrow> 'a octo_scheme \<Rightarrow> 'a octo_scheme" where
  "oc_send_arp_reply req our_mac s =
     (let reply = \<lparr>ar_hrd = ar_hrd req, ar_pro = ar_pro req, ar_hln = ar_hln req, ar_pln = ar_pln req,
                   ar_op = oc_htons ARPOP_REPLY, ar_sha = our_mac, ar_sip = ar_tip req,
                   ar_tha = ar_sha req, ar_tip = ar_sip req\<rparr>;
          t = ar_tha reply
      in send_pkt t (oc_htons ETHERTYPE_ARP) (Obj (mem_of (oc_arp_bytes reply))) 28 (Obj no_mem) 0 (Obj no_mem) 0 s)"

definition oc_handle_arp_packet :: "nat \<Rightarrow> u16 \<Rightarrow> 'a octo_scheme \<Rightarrow> 'a octo_scheme" where
  "oc_handle_arp_packet arp len s =
     (let p = oc_arp_of (mem_at (eth_buf s) arp) in
      if len < 28 then s
      else if oc_ntohs (ar_hrd p) \<noteq> ARPHRD_ETHER \<or> oc_ntohs (ar_pro p) \<noteq> ETHERTYPE_IPV4
        \<or> ar_hln p \<noteq> 6 \<or> ar_pln p \<noteq> 4 then s
      else (let s = (if oc_ntohs (ar_op p) = ARPOP_REPLY then arp_cache_update (ar_sip p) (ar_sha p) s else s)
            in if oc_ntohs (ar_op p) \<noteq> ARPOP_REQUEST then s
               else (let tip = oc_ntohl (ar_tip p)
                     in if tip = local_ip_addr s then oc_send_arp_reply p (local_mac_addr s) s else s)))"

definition oc_handle_eth_packet ::
  "(udp_receiver_t \<Rightarrow> 'a receiver) \<Rightarrow> u16 \<Rightarrow> 'a octo_scheme \<Rightarrow> 'a octo_scheme outcome" where
  "oc_handle_eth_packet run recv_len s =
     (let ethertype = oc_htons (le16 (eth_buf s) 12) in
      if ethertype = ETHERTYPE_ARP then Run (oc_handle_arp_packet 14 (recv_len - ETH_HLEN) s)
      else if ethertype = ETHERTYPE_IPV4 then
        (let ip = oc_ip_hdr_of (mem_at (eth_buf s) 14) in
         if oc_IPH_V ip \<noteq> 4 \<or> oc_IPH_HL ip \<noteq> 5 then Run s
         else if oc_IPH_OFFSET ip AND (IP_MF OR IP_OFFMASK) \<noteq> 0 then Run s
         else (let is_bcast = (mem_take (eth_buf s) 6 = replicate 6 0xff);
                   is_my_ip = (ih_dest ip = oc_htonl (local_ip_addr s))
               in if \<not> is_bcast \<and> \<not> is_my_ip then Run s
                  else (let s = arp_cache_update (ih_src ip) (mem_take (mem_at (eth_buf s) 6) 6) s
                        in if oc_IPH_PROTO ip = IP_PROTO_UDP
                           then oc_handle_udp_packet run (ih_src ip) (ih_dest ip) 34 (recv_len - ETH_HLEN - 20) s
                           else if oc_IPH_PROTO ip = IP_PROTO_ICMP
                           then oc_handle_icmp_packet run (ih_src ip) (ih_dest ip) 34 (recv_len - ETH_HLEN - 20) s
                           else Run s)))
      else Run s)"

subsection \<open>Timer, gratuitous ARP and start-up\<close>

definition timer1_ovf_isr :: "'a octo_scheme \<Rightarrow> 'a octo_scheme" where
  "timer1_ovf_isr s =
     (let s = s\<lparr>garp_overflows := garp_overflows s + 1\<rparr>
      in if garp_overflows s mod 6 = 0 then s\<lparr>send_garp := True\<rparr> else s)"

definition send_gratuitous_arp :: "'a octo_scheme \<Rightarrow> 'a octo_scheme" where
  "send_gratuitous_arp s =
     (let s = s\<lparr>send_garp := False\<rparr>;
          htonl_ip_addr = oc_htonl (local_ip_addr s);
          req = \<lparr>ar_hrd = oc_htons ARPHRD_ETHER, ar_pro = oc_htons ETHERTYPE_IPV4, ar_hln = 6, ar_pln = 4,
                 ar_op = oc_htons ARPOP_REQUEST, ar_sha = local_mac_addr s, ar_sip = htonl_ip_addr,
                 ar_tha = replicate 6 0, ar_tip = htonl_ip_addr\<rparr>
      in send_pkt (replicate 6 0xff) (oc_htons ETHERTYPE_ARP) (Obj (mem_of (oc_arp_bytes req))) 28
           (Obj no_mem) 0 (Obj no_mem) 0 s)"

text \<open>The driver's receive function is an argument: it puts a frame into the buffer and returns its length.\<close>

definition network_check ::
  "(udp_receiver_t \<Rightarrow> 'a receiver) \<Rightarrow> ('a octo_scheme \<Rightarrow> u16 \<times> 'a octo_scheme) \<Rightarrow> 'a octo_scheme \<Rightarrow> 'a octo_scheme outcome" where
  "network_check run recv s =
     (let (recv_len, s) = recv s
      in and_then (if recv_len > 0 then oc_handle_eth_packet run recv_len s else Run s)
           (\<lambda>s. Run (if send_garp s then send_gratuitous_arp s else s)))"

definition network_init :: "'a octo_scheme \<Rightarrow> 'a octo_scheme" where
  "network_init s =
     (let s = (if eeprom s 0 = 0xFF
               then s\<lparr>local_mac_addr := [0x00, 0x80, 0x2F, 0x11, 0x22, 0x33],
                      local_ip_addr := oc_IP 192 168 10 3, using_network_defaults := True\<rparr>
               else s\<lparr>local_mac_addr := mem_take (eeprom s) 6,
                      local_ip_addr := le32 (eeprom s) 6, using_network_defaults := False\<rparr>);
          s = s\<lparr>enc_mac := local_mac_addr s\<rparr>;
          s = init_udp_listeners s
      in s\<lparr>send_garp := True\<rparr>)"

subsection \<open>A state for the examples\<close>

definition octo_demo :: "ip \<Rightarrow> mac \<Rightarrow> octo" where
  "octo_demo i m = \<lparr>nentries = 0, victim = 0, cache = replicate 8 (0, []), eth_buf = (\<lambda>_. 0), local_mac_addr = m,
     local_ip_addr = i, listeners = replicate 10 (0, None), send_garp = False, garp_overflows = 0,
     using_network_defaults = True, eeprom = (\<lambda>_. 0xFF), enc_mac = m, sent = [], stack_junk = 0,
     junk_pkt = (\<lambda>_. 0xA5), null_mem = (\<lambda>_. 0), ee_cell = (\<lambda>_ b. b)\<rparr>"

lemma octo_demo_ok [simp]: "arp_cache_ok (octo_demo i m)"
  by (simp add: octo_demo_def arp_cache_ok_def)

lemma octo_demo_fields [simp]:
  "local_mac_addr (octo_demo i m) = m" "local_ip_addr (octo_demo i m) = i" "sent (octo_demo i m) = []"
  "listeners (octo_demo i m) = replicate 10 (0, None)"
  by (simp_all add: octo_demo_def)

end
