(* ===== verification/OctoClkdist.thy ===== *)
theory OctoClkdist
  imports OctoNet
begin

unbundle bit_operations_syntax

section \<open>The OctoClock's clock distribution chip and its lights\<close>

text \<open>
  \<^verbatim>\<open>firmware/octoclock/lib/clkdist.c\<close>, which drives a CDCE18005 over three pins of port A, bit by bit, \<^verbatim>\<open>lib/state.c\<close>,
  which picks the source of the clock and shows it on the lights of port C, and the port values of \<^verbatim>\<open>lib/init.c\<close>.
  Every value written to port A is logged, newest first; what the pins read is a function of that
  history, given by the chip.  Delays are no-ops.  The variables of the application are all declared here, because its
  record extends that of the network stack once.
\<close>

datatype Levels = Lo | Hi
datatype TI_Input_10_MHz = Primary_GPS | Secondary_Ext
datatype ref_t = NO_REF | INTERNAL | EXTERNAL
datatype switch_pos_t = PREFER_INTERNAL | PREFER_EXTERNAL
datatype led_t = LED_TOP | LED_MIDDLE | LED_BOTTOM

record octo_app = octo +
  PORTA :: u8
  PORTC :: u8
  porta_log :: "u8 list"
  pina :: "u8 list \<Rightarrow> u8"
  g_ext_ref_present :: bool
  g_gps_present :: bool
  g_switch_pos :: switch_pos_t
  g_ref :: ref_t
  gpsdo_buf :: mem
  gpsdo_num_wraps :: u8
  gpsdo_pos :: u8
  usart_out :: "u8 list"
  num_overflows :: u16
  current_num_overflows :: u16
  prev_num_overflows :: u16
  current_ICR3 :: u16
  prev_ICR3 :: u16
  prev_ref :: ref_t
  prev_switch_pos :: switch_pos_t
  TCNT3 :: u16

definition CLK :: nat where "CLK = 0"
definition CE_n :: nat where "CE_n = 1"
definition MOSI :: nat where "MOSI = 2"
definition MISO :: nat where "MISO = 3"
definition PD_n :: nat where "PD_n = 4"
definition SYNC_n :: nat where "SYNC_n = 5"
definition PA6 :: nat where "PA6 = 6"

lemmas pin_defs = CLK_def CE_n_def MOSI_def MISO_def PD_n_def SYNC_n_def PA6_def

definition Read_Command :: u32 where "Read_Command = 0xE"

text \<open>The tables are written with \<^verbatim>\<open>Bits_32\<close>, whose four arguments are bytes in binary.\<close>

definition table_Pri_Ref :: "u32 list" where
  "table_Pri_Ref = [0x01540000, 0x01540000, 0x01540000, 0x01540000, 0x01540000, 0x000009D4, 0x01001000, 0x01400000, 0x00000180]"

definition table_Sec_Ref :: "u32 list" where
  "table_Sec_Ref = [0x01540020, 0x01540020, 0x01540020, 0x01540020, 0x01540020, 0x0000019B, 0x01001000, 0x01400000, 0x00000180]"

definition table_size :: nat where "table_size = 9"

subsection \<open>Pins\<close>

definition put_porta :: "u8 \<Rightarrow> 'a octo_app_scheme \<Rightarrow> 'a octo_app_scheme" where
  "put_porta p s = s\<lparr>PORTA := p, porta_log := p # porta_log s\<rparr>"

definition oc_set_bit :: "nat \<Rightarrow> Levels \<Rightarrow> 'a octo_app_scheme \<Rightarrow> 'a octo_app_scheme" where
  "oc_set_bit bit_number bit_value s =
     (if bit_value = Hi then put_porta (PORTA s OR push_bit bit_number 1) s
      else put_porta (PORTA s AND NOT (push_bit bit_number 1)) s)"

definition oc_get_bit :: "nat \<Rightarrow> 'a octo_app_scheme \<Rightarrow> bool" where
  "oc_get_bit bit_number s = (pina s (porta_log s) AND push_bit bit_number 1 > 0)"

subsection \<open>Transfers\<close>

definition send_SPI_bit :: "u32 \<Rightarrow> nat \<Rightarrow> 'a octo_app_scheme \<Rightarrow> 'a octo_app_scheme" where
  "send_SPI_bit bits i s =
     (let s = oc_set_bit MOSI (if bits AND push_bit i 1 \<noteq> 0 then Hi else Lo) s;
          s = oc_set_bit CLK Hi s
      in oc_set_bit CLK Lo s)"

definition send_SPI :: "u32 \<Rightarrow> 'a octo_app_scheme \<Rightarrow> 'a octo_app_scheme" where
  "send_SPI bits s =
     (let s = oc_set_bit CE_n Lo s;
          s = fold (send_SPI_bit bits) [0..<32] s
      in oc_set_bit CE_n Hi s)"

definition receive_SPI_bit :: "nat \<Rightarrow> u32 \<times> 'a octo_app_scheme \<Rightarrow> u32 \<times> 'a octo_app_scheme" where
  "receive_SPI_bit i bs =
     (let (bits, s) = bs;
          bits = drop_bit 1 bits;
          s = oc_set_bit CLK Hi s;
          bits = (if oc_get_bit MISO s then bits OR 0x80000000 else bits)
      in (bits, oc_set_bit CLK Lo s))"

definition receive_SPI :: "'a octo_app_scheme \<Rightarrow> u32 \<times> 'a octo_app_scheme" where
  "receive_SPI s =
     (let s = oc_set_bit CE_n Hi s;
          s = oc_set_bit CLK Lo s;
          s = oc_set_bit MOSI Lo s;
          s = oc_set_bit CE_n Lo s;
          (bits, s) = fold receive_SPI_bit [0..<32] (0, s);
          s = oc_set_bit CE_n Hi s
      in (drop_bit 4 bits, s))"

definition setup_TI_CDCE18005 :: "TI_Input_10_MHz \<Rightarrow> 'a octo_app_scheme \<Rightarrow> 'a octo_app_scheme" where
  "setup_TI_CDCE18005 which_input s =
     (if which_input = Primary_GPS
      then fold (\<lambda>i. send_SPI (push_bit 4 (table_Pri_Ref ! i) OR of_nat i)) [0..<table_size] s
      else fold (\<lambda>i. send_SPI (push_bit 4 (table_Sec_Ref ! i) OR of_nat i)) [0..<table_size] s)"

definition reset_TI_CDCE18005 :: "'a octo_app_scheme \<Rightarrow> 'a octo_app_scheme" where
  "reset_TI_CDCE18005 s =
     (let s = oc_set_bit CE_n Hi s; s = oc_set_bit PD_n Lo s; s = oc_set_bit PD_n Hi s; s = oc_set_bit SYNC_n Lo s
      in oc_set_bit SYNC_n Hi s)"

definition get_TI_CDCE18005 :: "u32 \<Rightarrow> 'a octo_app_scheme \<Rightarrow> u32 \<times> 'a octo_app_scheme" where
  "get_TI_CDCE18005 which_register s =
     (let get_reg_value = (0xf0 AND push_bit 4 which_register) OR Read_Command
      in receive_SPI (send_SPI get_reg_value s))"

definition set_TI_CDCE18005 :: "u32 \<Rightarrow> u32 \<Rightarrow> 'a octo_app_scheme \<Rightarrow> 'a octo_app_scheme" where
  "set_TI_CDCE18005 which_register bits s = send_SPI (push_bit 4 bits OR which_register) s"

definition check_TI_CDCE18005 :: "TI_Input_10_MHz \<Rightarrow> u32 \<Rightarrow> 'a octo_app_scheme \<Rightarrow> bool \<times> 'a octo_app_scheme" where
  "check_TI_CDCE18005 which_input which_register s =
     (let (read_value, s) = get_TI_CDCE18005 which_register s
      in (read_value = (if which_input = Primary_GPS then table_Pri_Ref ! unat which_register
                        else table_Sec_Ref ! unat which_register), s))"

subsection \<open>Lights and sources\<close>

fun led_index :: "led_t \<Rightarrow> nat" where
  "led_index LED_TOP = 0" | "led_index LED_MIDDLE = 1" | "led_index LED_BOTTOM = 2"

definition led :: "led_t \<Rightarrow> bool \<Rightarrow> 'a octo_app_scheme \<Rightarrow> 'a octo_app_scheme" where
  "led which on s =
     (let LED = push_bit (led_index which) 0x20
      in if on then s\<lparr>PORTC := PORTC s OR LED\<rparr> else s\<lparr>PORTC := PORTC s AND NOT LED\<rparr>)"

definition leds_off :: "'a octo_app_scheme \<Rightarrow> 'a octo_app_scheme" where
  "leds_off s = led LED_BOTTOM False (led LED_MIDDLE False (led LED_TOP False s))"

definition force_internal :: "'a octo_app_scheme \<Rightarrow> 'a octo_app_scheme" where
  "force_internal s =
     (let s = led LED_TOP True s; s = led LED_MIDDLE False s; s = led LED_BOTTOM True s;
          s = setup_TI_CDCE18005 Primary_GPS s
      in put_porta (PORTA s OR push_bit PA6 1) s)"

definition force_external :: "'a octo_app_scheme \<Rightarrow> 'a octo_app_scheme" where
  "force_external s =
     (let s = led LED_TOP False s; s = led LED_MIDDLE True s; s = led LED_BOTTOM True s;
          s = setup_TI_CDCE18005 Secondary_Ext s
      in put_porta (PORTA s AND NOT (push_bit PA6 1)) s)"

definition prefer_internal :: "'a octo_app_scheme \<Rightarrow> 'a octo_app_scheme" where
  "prefer_internal s =
     (if g_gps_present s then force_internal s
      else if g_ext_ref_present s then force_external s
      else leds_off s)"

definition prefer_external :: "'a octo_app_scheme \<Rightarrow> 'a octo_app_scheme" where
  "prefer_external s =
     (if g_ext_ref_present s then force_external s
      else if g_gps_present s then force_internal s
      else leds_off s)"

text \<open>The two ports \<^verbatim>\<open>setup_atmel_io_ports\<close> sets that the application changes later.\<close>

definition setup_atmel_io_ports :: "'a octo_app_scheme \<Rightarrow> 'a octo_app_scheme" where
  "setup_atmel_io_ports s = (put_porta 0x22 s)\<lparr>PORTC := 0\<rparr>"

subsection \<open>A state for the examples\<close>

definition octo_app_demo :: octo_app where
  "octo_app_demo = octo.extend (octo_demo 1 [2, 0, 0, 0, 0, 1])
     (octo_app.fields 0x22 0 [0x22] (\<lambda>_. 0) False False PREFER_INTERNAL NO_REF (\<lambda>_. 0) 0 0 [] 0 0 0 0 0 NO_REF PREFER_EXTERNAL 0)"

lemmas octo_app_demo_defs = octo_app_demo_def octo_demo_def octo.defs octo_app.defs

end
