(* ===== verification/OctoApp.thy ===== *)
theory OctoApp
  imports OctoClkdist
begin

unbundle bit_operations_syntax

section \<open>The OctoClock's application\<close>

text \<open>
  \<^verbatim>\<open>firmware/octoclock/lib/udp_handlers.c\<close>, \<^verbatim>\<open>lib/gpsdo.c\<close> and \<^verbatim>\<open>octoclock_r4/octoclock_r4_main.c\<close>, with the packets
  of \<^verbatim>\<open>host/lib/usrp_clock/octoclock/common.h\<close>.  A reply is put together in uninitialised stack space
  (\<open>junk_pkt\<close>), which shows in the fields a branch does not set.  The payload pointer of a receiver can be
  null, and the receivers read through it all the same.  The interrupt routines are operations of their own; one
  turn of the main loop takes what it reads from the hardware as arguments.  The transmitter of the serial line is
  taken to become free.
\<close>

subsection \<open>Packets\<close>

definition OCTOCLOCK_FW_COMPAT_NUM :: u32 where "OCTOCLOCK_FW_COMPAT_NUM = 4"
definition OCTOCLOCK_UDP_CTRL_PORT :: u16 where "OCTOCLOCK_UDP_CTRL_PORT = 50000"
definition OCTOCLOCK_UDP_GPSDO_PORT :: u16 where "OCTOCLOCK_UDP_GPSDO_PORT = 50001"

definition OCTOCLOCK_QUERY_CMD :: u8 where "OCTOCLOCK_QUERY_CMD = 1"
definition OCTOCLOCK_QUERY_ACK :: u8 where "OCTOCLOCK_QUERY_ACK = 2"
definition SEND_EEPROM_CMD :: u8 where "SEND_EEPROM_CMD = 3"
definition SEND_EEPROM_ACK :: u8 where "SEND_EEPROM_ACK = 4"
definition BURN_EEPROM_CMD :: u8 where "BURN_EEPROM_CMD = 5"
definition BURN_EEPROM_SUCCESS_ACK :: u8 where "BURN_EEPROM_SUCCESS_ACK = 6"
definition BURN_EEPROM_FAILURE_ACK :: u8 where "BURN_EEPROM_FAILURE_ACK = 7"
definition CLEAR_EEPROM_CMD :: u8 where "CLEAR_EEPROM_CMD = 8"
definition CLEAR_EEPROM_ACK :: u8 where "CLEAR_EEPROM_ACK = 9"
definition SEND_STATE_CMD :: u8 where "SEND_STATE_CMD = 10"
definition SEND_STATE_ACK :: u8 where "SEND_STATE_ACK = 11"
definition RESET_CMD :: u8 where "RESET_CMD = 12"
definition RESET_ACK :: u8 where "RESET_ACK = 13"
definition HOST_SEND_TO_GPSDO_CMD :: u8 where "HOST_SEND_TO_GPSDO_CMD = 14"
definition HOST_SEND_TO_GPSDO_ACK :: u8 where "HOST_SEND_TO_GPSDO_ACK = 15"
definition SEND_POOLSIZE_CMD :: u8 where "SEND_POOLSIZE_CMD = 16"
definition SEND_POOLSIZE_ACK :: u8 where "SEND_POOLSIZE_ACK = 17"
definition SEND_CACHE_STATE_CMD :: u8 where "SEND_CACHE_STATE_CMD = 18"
definition SEND_CACHE_STATE_ACK :: u8 where "SEND_CACHE_STATE_ACK = 19"
definition SEND_GPSDO_CACHE_CMD :: u8 where "SEND_GPSDO_CACHE_CMD = 20"
definition SEND_GPSDO_CACHE_ACK :: u8 where "SEND_GPSDO_CACHE_ACK = 21"

lemmas octo_codes = OCTOCLOCK_QUERY_CMD_def OCTOCLOCK_QUERY_ACK_def SEND_EEPROM_CMD_def SEND_EEPROM_ACK_def
  BURN_EEPROM_CMD_def BURN_EEPROM_SUCCESS_ACK_def BURN_EEPROM_FAILURE_ACK_def CLEAR_EEPROM_CMD_def CLEAR_EEPROM_ACK_def
  SEND_STATE_CMD_def SEND_STATE_ACK_def RESET_CMD_def RESET_ACK_def HOST_SEND_TO_GPSDO_CMD_def HOST_SEND_TO_GPSDO_ACK_def
  SEND_POOLSIZE_CMD_def SEND_POOLSIZE_ACK_def SEND_CACHE_STATE_CMD_def SEND_CACHE_STATE_ACK_def
  SEND_GPSDO_CACHE_CMD_def SEND_GPSDO_CACHE_ACK_def

text \<open>The union of \<^verbatim>\<open>crc\<close>, \<^verbatim>\<open>state\<close>, \<^verbatim>\<open>poolsize\<close> and \<^verbatim>\<open>addr\<close> is two bytes.\<close>

record octoclock_packet_t =
  op_proto_ver :: u32
  op_sequence :: u32
  op_code :: u8
  op_union :: u16
  op_data :: "u8 list"
  op_len :: u16

definition op_of :: "mem \<Rightarrow> octoclock_packet_t" where
  "op_of m = \<lparr>op_proto_ver = le32 m 0, op_sequence = le32 m 4, op_code = m 8, op_union = le16 m 9,
     op_data = mem_take (mem_at m 11) 256, op_len = le16 m 267\<rparr>"

definition op_bytes :: "octoclock_packet_t \<Rightarrow> u8 list" where
  "op_bytes p = put32_le (op_proto_ver p) @ put32_le (op_sequence p) @ [op_code p] @ put16_le (op_union p)
     @ op_data p @ put16_le (op_len p)"

definition sizeof_octoclock_packet_t :: u16 where "sizeof_octoclock_packet_t = 269"

definition sizeof_octoclock_fw_eeprom_t :: nat where "sizeof_octoclock_fw_eeprom_t = 39"

text \<open>Writing a struct over the start of \<^verbatim>\<open>data\<close>.\<close>

definition overlay :: "u8 list \<Rightarrow> u8 list \<Rightarrow> u8 list" where
  "overlay bs ds = bs @ drop (length bs) ds"

definition op_send :: "u16 \<Rightarrow> socket_address \<Rightarrow> octoclock_packet_t \<Rightarrow> 'a octo_scheme \<Rightarrow> 'a octo_scheme" where
  "op_send port dst pkt s = oc_send_udp_pkt port dst (Obj (mem_of (op_bytes pkt))) sizeof_octoclock_packet_t s"

definition pkt_in :: "nat option \<Rightarrow> 'a octo_scheme \<Rightarrow> octoclock_packet_t" where
  "pkt_in payload s = op_of (case payload of Some k \<Rightarrow> mem_at (eth_buf s) k | None \<Rightarrow> null_mem s)"

definition eeprom_read_block :: "nat \<Rightarrow> nat \<Rightarrow> 'a octo_scheme \<Rightarrow> u8 list" where
  "eeprom_read_block a n s = mem_take (mem_at (eeprom s) a) n"

definition eeprom_write_block :: "u8 list \<Rightarrow> nat \<Rightarrow> 'a octo_scheme \<Rightarrow> 'a octo_scheme" where
  "eeprom_write_block bs a s = s\<lparr>eeprom := (\<lambda>i. if a \<le> i \<and> i < a + length bs then ee_cell s i (bs ! (i - a)) else eeprom s i)\<rparr>"

subsection \<open>GPSDO\<close>

definition usart_putc :: "u8 \<Rightarrow> 'a octo_app_scheme \<Rightarrow> 'a octo_app_scheme" where
  "usart_putc ch s = s\<lparr>usart_out := usart_out s @ [ch]\<rparr>"

text \<open>The size is a \<^verbatim>\<open>uint8_t\<close>.\<close>

definition send_gpsdo_cmd :: "u8 list \<Rightarrow> u8 \<Rightarrow> 'a octo_app_scheme \<Rightarrow> 'a octo_app_scheme" where
  "send_gpsdo_cmd buf sz s = fold (\<lambda>i. usart_putc (buf ! i)) [0..<unat sz] s"

definition usart1_rx_isr :: "u8 \<Rightarrow> 'a octo_app_scheme \<Rightarrow> 'a octo_app_scheme" where
  "usart1_rx_isr udr1 s =
     (let s = s\<lparr>gpsdo_buf := (gpsdo_buf s)(unat (gpsdo_pos s) := udr1)\<rparr>
      in if gpsdo_pos s = 255 then s\<lparr>gpsdo_num_wraps := gpsdo_num_wraps s + 1, gpsdo_pos := 0\<rparr>
         else s\<lparr>gpsdo_pos := gpsdo_pos s + 1\<rparr>)"

subsection \<open>Receivers\<close>

definition ref_code :: "ref_t \<Rightarrow> u8" where
  "ref_code r = (case r of NO_REF \<Rightarrow> 0 | INTERNAL \<Rightarrow> 1 | EXTERNAL \<Rightarrow> 2)"

definition switch_code :: "switch_pos_t \<Rightarrow> u8" where
  "switch_code p = (case p of PREFER_INTERNAL \<Rightarrow> 0 | PREFER_EXTERNAL \<Rightarrow> 1)"

definition eeprom_info :: "'a octo_scheme \<Rightarrow> u8 list" where
  "eeprom_info s =
     (let bs = eeprom_read_block 0 sizeof_octoclock_fw_eeprom_t s;
          bs = (if using_network_defaults s
                then overlay ([0x00, 0x80, 0x2F, 0x11, 0x22, 0x33] @ put32_le (oc_IP 192 168 10 3)
                       @ put32_le (oc_IP 192 168 10 1) @ put32_le (oc_IP 255 255 255 0)) bs
                else bs)
      in if bs ! 38 = 0xFF then bs[38 := 0] else bs)"

definition handle_udp_ctrl_packet :: "'a octo_app_ext receiver" where
  "handle_udp_ctrl_packet src dst payload payload_len s =
     (let pin = pkt_in payload s;
          pout = op_of (junk_pkt s);
          pout = pout\<lparr>op_proto_ver := OCTOCLOCK_FW_COMPAT_NUM, op_sequence := op_sequence pin\<rparr>
      in if op_code pin = OCTOCLOCK_QUERY_CMD then
           Run (op_send OCTOCLOCK_UDP_CTRL_PORT src (pout\<lparr>op_code := OCTOCLOCK_QUERY_ACK, op_len := 0\<rparr>) s)
         else if op_code pin = RESET_CMD then
           Stop Watchdog_reset (op_send OCTOCLOCK_UDP_CTRL_PORT src (pout\<lparr>op_code := RESET_ACK\<rparr>) s)
         else if op_code pin = SEND_EEPROM_CMD then
           Run (op_send OCTOCLOCK_UDP_CTRL_PORT src
             (pout\<lparr>op_code := SEND_EEPROM_ACK, op_len := of_nat sizeof_octoclock_fw_eeprom_t,
                op_data := overlay (eeprom_info s) (op_data pout)\<rparr>) s)
         else if op_code pin = BURN_EEPROM_CMD then
           (if op_len pin \<noteq> of_nat sizeof_octoclock_fw_eeprom_t
            then Run (op_send OCTOCLOCK_UDP_CTRL_PORT src (pout\<lparr>op_code := BURN_EEPROM_FAILURE_ACK\<rparr>) s)
            else (let eeprom_pkt = take sizeof_octoclock_fw_eeprom_t (op_data pin);
                      s = eeprom_write_block eeprom_pkt 0 s;
                      eeprom_contents = eeprom_read_block 0 sizeof_octoclock_fw_eeprom_t s;
                      pout = pout\<lparr>op_len := 0,
                        op_code := (if eeprom_contents \<noteq> eeprom_pkt then BURN_EEPROM_FAILURE_ACK else BURN_EEPROM_SUCCESS_ACK)\<rparr>
                  in Run (op_send OCTOCLOCK_UDP_CTRL_PORT src pout s)))
         else if op_code pin = SEND_STATE_CMD then
           Run (op_send OCTOCLOCK_UDP_CTRL_PORT src
             (pout\<lparr>op_code := SEND_STATE_ACK, op_len := 4,
                op_data := overlay [if g_ext_ref_present s then 1 else 0, if g_gps_present s then 1 else 0,
                  ref_code (g_ref s), switch_code (g_switch_pos s)] (op_data pout)\<rparr>) s)
         else Run s)"

definition gpsdo_state :: "'a octo_app_scheme \<Rightarrow> u16" where
  "gpsdo_state s = word_cat (gpsdo_pos s) (gpsdo_num_wraps s)"

definition handle_udp_gpsdo_packet :: "'a octo_app_ext receiver" where
  "handle_udp_gpsdo_packet src dst payload payload_len s =
     (let pin = pkt_in payload s;
          pout = op_of (junk_pkt s);
          pout = pout\<lparr>op_proto_ver := OCTOCLOCK_FW_COMPAT_NUM, op_sequence := op_sequence pin\<rparr>
      in if op_code pin = HOST_SEND_TO_GPSDO_CMD then
           (let s = send_gpsdo_cmd (op_data pin) (ucast (op_len pin)) s
            in Run (op_send OCTOCLOCK_UDP_GPSDO_PORT src (pout\<lparr>op_code := HOST_SEND_TO_GPSDO_ACK, op_len := 0\<rparr>) s))
         else if op_code pin = SEND_POOLSIZE_CMD then
           Run (op_send OCTOCLOCK_UDP_GPSDO_PORT src (pout\<lparr>op_code := SEND_POOLSIZE_ACK, op_len := 0, op_union := 256\<rparr>) s)
         else if op_code pin = SEND_CACHE_STATE_CMD then
           Run (op_send OCTOCLOCK_UDP_GPSDO_PORT src (pout\<lparr>op_code := SEND_CACHE_STATE_ACK, op_union := gpsdo_state s\<rparr>) s)
         else if op_code pin = SEND_GPSDO_CACHE_CMD then
           Run (op_send OCTOCLOCK_UDP_GPSDO_PORT src
             (pout\<lparr>op_code := SEND_GPSDO_CACHE_ACK, op_union := gpsdo_state s, op_len := 256,
                op_data := mem_take (gpsdo_buf s) 256\<rparr>) s)
         else Run s)"

definition run_app :: "udp_receiver_t \<Rightarrow> 'a octo_app_ext receiver" where
  "run_app r = (case r of Udp_gpsdo \<Rightarrow> handle_udp_gpsdo_packet | _ \<Rightarrow> handle_udp_ctrl_packet)"

subsection \<open>Main program\<close>

definition EXT_REF_TIMEOUT :: u16 where "EXT_REF_TIMEOUT = 5"

definition timer3_ovf_isr :: "'a octo_app_scheme \<Rightarrow> 'a octo_app_scheme" where
  "timer3_ovf_isr s = s\<lparr>num_overflows := num_overflows s + 1\<rparr>"

definition octo_start :: "u8 \<Rightarrow> u16 \<Rightarrow> 'a octo_app_scheme \<Rightarrow> 'a octo_app_scheme outcome" where
  "octo_start pind icr3 s =
     (let s = s\<lparr>g_ext_ref_present := False, g_gps_present := False, g_switch_pos := PREFER_INTERNAL, g_ref := NO_REF\<rparr>;
          s = setup_atmel_io_ports s;
          s = reset_TI_CDCE18005 s;
          s = network_init s
      in and_then (register_udp_listener OCTOCLOCK_UDP_CTRL_PORT Udp_ctrl s) (\<lambda>s.
         and_then (register_udp_listener OCTOCLOCK_UDP_GPSDO_PORT Udp_gpsdo s) (\<lambda>s.
           let s = s\<lparr>TCNT3 := 0\<rparr>;
               s = leds_off s;
               s = s\<lparr>g_gps_present := bit pind 4\<rparr>
           in Run (s\<lparr>prev_ref := NO_REF, prev_switch_pos := PREFER_EXTERNAL, prev_ICR3 := icr3, prev_num_overflows := 0\<rparr>))))"

definition choose_ref :: "'a octo_app_scheme \<Rightarrow> ref_t" where
  "choose_ref s =
     (if \<not> g_gps_present s \<and> \<not> g_ext_ref_present s then NO_REF
      else if g_gps_present s \<and> \<not> g_ext_ref_present s then INTERNAL
      else if \<not> g_gps_present s \<and> g_ext_ref_present s then EXTERNAL
      else if g_switch_pos s = PREFER_INTERNAL then INTERNAL else EXTERNAL)"

text \<open>The stages of a turn before the network: the switch, the capture register and the overflow count, the source.\<close>

definition check_switch :: "u8 \<Rightarrow> 'a octo_app_scheme \<Rightarrow> 'a octo_app_scheme" where
  "check_switch pinc s = s\<lparr>g_switch_pos := (if bit pinc 1 then PREFER_EXTERNAL else PREFER_INTERNAL)\<rparr>"

definition check_ext_ref :: "u16 \<Rightarrow> 'a octo_app_scheme \<Rightarrow> 'a octo_app_scheme" where
  "check_ext_ref icr3 s =
     (let s = s\<lparr>current_ICR3 := icr3, current_num_overflows := num_overflows s\<rparr>;
          s = (if current_ICR3 s \<noteq> prev_ICR3 s
               then s\<lparr>TCNT3 := 0, num_overflows := 0, g_ext_ref_present := True\<rparr> else s)
      in if current_num_overflows s \<ge> EXT_REF_TIMEOUT then s\<lparr>g_ext_ref_present := False\<rparr> else s)"

definition set_reference :: "'a octo_app_scheme \<Rightarrow> 'a octo_app_scheme" where
  "set_reference s =
     (let s = s\<lparr>g_ref := choose_ref s\<rparr>
      in if g_ref s \<noteq> prev_ref s \<or> g_switch_pos s \<noteq> prev_switch_pos s
         then (if g_switch_pos s = PREFER_INTERNAL then prefer_internal s else prefer_external s) else s)"

definition record_iteration :: "'a octo_app_scheme \<Rightarrow> 'a octo_app_scheme" where
  "record_iteration s = s\<lparr>prev_ref := g_ref s, prev_switch_pos := g_switch_pos s, prev_ICR3 := current_ICR3 s,
     prev_num_overflows := current_num_overflows s\<rparr>"

definition update_reference :: "u8 \<Rightarrow> u16 \<Rightarrow> 'a octo_app_scheme \<Rightarrow> 'a octo_app_scheme" where
  "update_reference pinc icr3 s = record_iteration (set_reference (check_ext_ref icr3 (check_switch pinc s)))"

definition octo_turn ::
  "u8 \<Rightarrow> u16 \<Rightarrow> ('a octo_app_scheme \<Rightarrow> u16 \<times> 'a octo_app_scheme) \<Rightarrow> 'a octo_app_scheme \<Rightarrow> 'a octo_app_scheme outcome" where
  "octo_turn pinc icr3 recv s = network_check run_app recv (update_reference pinc icr3 s)"

end
