(* ===== verification/OctoClkProps.thy ===== *)
theory OctoClkProps
  imports OctoApp
begin

unbundle bit_operations_syntax

section \<open>The clock chip's side\<close>

text \<open>The chip takes a bit at every rising edge of the clock while it is enabled; the log of port A is newest first.\<close>

fun sampled :: "u8 list \<Rightarrow> bool list" where
  "sampled (q # p # l) = sampled (p # l) @ (if \<not> bit q CE_n \<and> \<not> bit p CLK \<and> bit q CLK then [bit q MOSI] else [])"
| "sampled _ = []"

text \<open>Between transfers the clock is low and the log ends with the port's value; nothing but the port and its log changes.\<close>

definition pins_ok :: "'a octo_app_scheme \<Rightarrow> bool" where
  "pins_ok s \<longleftrightarrow> (\<exists>l. porta_log s = PORTA s # l) \<and> \<not> bit (PORTA s) CLK"

definition pins_step :: "bool list \<Rightarrow> nat set \<Rightarrow> 'a octo_app_scheme \<Rightarrow> 'a octo_app_scheme \<Rightarrow> bool" where
  "pins_step bs K s s' \<longleftrightarrow> sampled (porta_log s') = sampled (porta_log s) @ bs
     \<and> (\<forall>k < 8. k \<notin> K \<longrightarrow> bit (PORTA s') k = bit (PORTA s) k) \<and> s' = s\<lparr>PORTA := PORTA s', porta_log := porta_log s'\<rparr>"

lemma pins_step_fields:
  assumes "pins_step bs K s t"
  shows "PORTC t = PORTC s" "pina t = pina s" "g_ref t = g_ref s" "prev_ref t = prev_ref s" "g_switch_pos t = g_switch_pos s"
    "prev_switch_pos t = prev_switch_pos s" "current_ICR3 t = current_ICR3 s" "current_num_overflows t = current_num_overflows s"
    "g_gps_present t = g_gps_present s" "g_ext_ref_present t = g_ext_ref_present s"
proof -
  obtain a b where "t = s\<lparr>PORTA := a, porta_log := b\<rparr>" using assms unfolding pins_step_def by blast
  then show "PORTC t = PORTC s" "pina t = pina s" "g_ref t = g_ref s" "prev_ref t = prev_ref s" "g_switch_pos t = g_switch_pos s"
    "prev_switch_pos t = prev_switch_pos s" "current_ICR3 t = current_ICR3 s" "current_num_overflows t = current_num_overflows s"
    "g_gps_present t = g_gps_present s" "g_ext_ref_present t = g_ext_ref_present s" by simp_all
qed

lemma pins_step_refl: "pins_step [] K s s"
  by (simp add: pins_step_def)

lemma pins_step_trans: "pins_step bs K s t \<Longrightarrow> pins_step cs K t u \<Longrightarrow> pins_step (bs @ cs) K s u"
  unfolding pins_step_def by (elim conjE, intro conjI) (simp, simp, erule ssubst, erule ssubst, simp)

lemma bit_set_porta:
  "bit (PORTA (oc_set_bit n v s)) k \<longleftrightarrow> (if k = n \<and> n < 8 then v = Hi else bit (PORTA s) k)"
  by (cases v) (auto simp: oc_set_bit_def put_porta_def bit_simps dest: bit_imp_le_length)

lemma set_bit_log: "porta_log (oc_set_bit n v s) = PORTA (oc_set_bit n v s) # porta_log s"
  by (simp add: oc_set_bit_def put_porta_def)

lemma set_bit_frame: "oc_set_bit n v s = s\<lparr>PORTA := PORTA (oc_set_bit n v s), porta_log := porta_log (oc_set_bit n v s)\<rparr>"
  by (simp add: oc_set_bit_def put_porta_def)

lemmas set_bit_simps = bit_set_porta set_bit_log pin_defs

lemma pins_step_set_bit:
  assumes "pins_ok s" "n = MOSI \<or> n = CE_n \<or> n = PD_n \<or> n = SYNC_n"
  shows "pins_step [] {n} s (oc_set_bit n v s) \<and> pins_ok (oc_set_bit n v s)"
  using assms set_bit_frame [of n v s]
  by (auto simp: pins_ok_def pins_step_def set_bit_simps)

lemma pins_step_clk_low: "pins_ok s \<Longrightarrow> pins_step [] {} s (oc_set_bit CLK Lo s) \<and> pins_ok (oc_set_bit CLK Lo s)"
  using set_bit_frame [of CLK Lo s] by (auto simp: pins_ok_def pins_step_def set_bit_simps)

text \<open>One pulse of the clock.\<close>

lemma pulse_frame: "\<exists>p l. oc_set_bit CLK Lo (oc_set_bit CLK Hi s) = s\<lparr>PORTA := p, porta_log := l\<rparr>"
  by (simp add: oc_set_bit_def put_porta_def) blast

lemma pins_step_pulse:
  assumes "pins_ok s" "\<not> bit (PORTA s) CE_n"
  shows "pins_step [bit (PORTA s) MOSI] {} s (oc_set_bit CLK Lo (oc_set_bit CLK Hi s))
    \<and> pins_ok (oc_set_bit CLK Lo (oc_set_bit CLK Hi s))"
proof -
  obtain p l where f: "oc_set_bit CLK Lo (oc_set_bit CLK Hi s) = s\<lparr>PORTA := p, porta_log := l\<rparr>"
    using pulse_frame by blast
  then have "oc_set_bit CLK Lo (oc_set_bit CLK Hi s) = s\<lparr>PORTA := PORTA (oc_set_bit CLK Lo (oc_set_bit CLK Hi s)),
    porta_log := porta_log (oc_set_bit CLK Lo (oc_set_bit CLK Hi s))\<rparr>" by simp
  then show ?thesis using assms by (auto simp: pins_ok_def pins_step_def set_bit_simps)
qed

lemma pins_step_mono: "pins_step bs K s t \<Longrightarrow> K \<subseteq> K' \<Longrightarrow> pins_step bs K' s t"
  by (auto simp: pins_step_def)

lemma pins_step_bit: "pins_step bs K s t \<Longrightarrow> k < 8 \<Longrightarrow> k \<notin> K \<Longrightarrow> bit (PORTA t) k = bit (PORTA s) k"
  by (simp add: pins_step_def)

lemma send_SPI_bit_step:
  assumes "pins_ok s" "\<not> bit (PORTA s) CE_n"
  shows "pins_step [bit w i] {MOSI} s (send_SPI_bit w i s) \<and> pins_ok (send_SPI_bit w i s) \<and> \<not> bit (PORTA (send_SPI_bit w i s)) CE_n"
proof -
  let ?v = "if w AND push_bit i 1 \<noteq> 0 then Hi else Lo"
  let ?t = "oc_set_bit MOSI ?v s"
  have t: "pins_step [] {MOSI} s ?t" "pins_ok ?t" using pins_step_set_bit [OF assms(1), of MOSI ?v] by simp_all
  have ce: "\<not> bit (PORTA ?t) CE_n" using assms(2) by (simp add: bit_set_porta pin_defs)
  have m: "bit (PORTA ?t) MOSI = bit w i" by (simp add: bit_set_porta pin_defs and_exp_eq_0_iff_not_bit)
  note p = pins_step_pulse [OF t(2) ce, unfolded m]
  have "send_SPI_bit w i s = oc_set_bit CLK Lo (oc_set_bit CLK Hi ?t)" by (simp add: send_SPI_bit_def Let_def)
  then show ?thesis
    using pins_step_trans [OF t(1) pins_step_mono [of _ "{}"]] p pins_step_bit [of _ "{}" ?t _ CE_n] ce
    by (auto simp: CE_n_def)
qed

lemma send_SPI_bits_step:
  assumes "pins_ok s" "\<not> bit (PORTA s) CE_n"
  shows "pins_step (map (bit w) is) {MOSI} s (fold (send_SPI_bit w) is s) \<and> pins_ok (fold (send_SPI_bit w) is s)
    \<and> \<not> bit (PORTA (fold (send_SPI_bit w) is s)) CE_n"
  using assms
proof (induction "is" arbitrary: s)
  case (Cons i "is")
  note b = send_SPI_bit_step [OF Cons.prems, of w i]
  with Cons.IH [of "send_SPI_bit w i s"] pins_step_trans [of "[bit w i]" "{MOSI}" s "send_SPI_bit w i s" "map (bit w) is"]
  show ?case by simp
qed (simp add: pins_step_refl)

definition word_bits :: "u32 \<Rightarrow> bool list" where
  "word_bits w = map (bit w) [0..<32]"

lemma send_SPI_step:
  assumes "pins_ok s"
  shows "pins_step (word_bits w) {MOSI, CE_n} s (send_SPI w s) \<and> pins_ok (send_SPI w s)"
proof -
  let ?t = "oc_set_bit CE_n Lo s"
  let ?u = "fold (send_SPI_bit w) [0..<32] ?t"
  have t: "pins_step [] {CE_n} s ?t" "pins_ok ?t" using pins_step_set_bit [OF assms, of CE_n Lo] by simp_all
  have ce: "\<not> bit (PORTA ?t) CE_n" by (simp add: bit_set_porta pin_defs)
  have u: "pins_step (word_bits w) {MOSI} ?t ?u" "pins_ok ?u"
    using send_SPI_bits_step [OF t(2) ce, of w "[0..<32]"] by (simp_all add: word_bits_def)
  have f: "pins_step [] {CE_n} ?u (oc_set_bit CE_n Hi ?u)" "pins_ok (oc_set_bit CE_n Hi ?u)"
    using pins_step_set_bit [OF u(2), of CE_n Hi] by simp_all
  have m: "pins_step bs {MOSI, CE_n} a b" if "pins_step bs {CE_n} a b \<or> pins_step bs {MOSI} a b" for bs and a b :: "'a octo_app_scheme"
    using that pins_step_mono [of bs _ a b "{MOSI, CE_n}"] by auto
  have "pins_step ([] @ word_bits w @ []) {MOSI, CE_n} s (oc_set_bit CE_n Hi ?u)"
    using t(1) u(1) f(1) by (blast intro: pins_step_trans m)
  then show ?thesis using f(2) by (simp add: send_SPI_def Let_def)
qed

definition setup_words :: "TI_Input_10_MHz \<Rightarrow> u32 list" where
  "setup_words which_input = map (\<lambda>i. push_bit 4 ((if which_input = Primary_GPS then table_Pri_Ref else table_Sec_Ref) ! i) OR of_nat i) [0..<9]"

definition setup_bits :: "TI_Input_10_MHz \<Rightarrow> bool list" where
  "setup_bits which_input = concat (map word_bits (setup_words which_input))"

lemma send_words_step:
  "pins_ok s \<Longrightarrow> pins_step (concat (map word_bits ws)) {MOSI, CE_n} s (fold send_SPI ws s) \<and> pins_ok (fold send_SPI ws s)"
proof (induction ws arbitrary: s)
  case (Cons w ws)
  note b = send_SPI_step [OF Cons.prems, of w]
  with Cons.IH [of "send_SPI w s"] pins_step_trans [of "word_bits w" "{MOSI, CE_n}" s "send_SPI w s" "concat (map word_bits ws)"]
  show ?case by simp
qed (simp add: pins_step_refl)

lemma setup_step:
  assumes "pins_ok s"
  shows "pins_step (setup_bits w) {MOSI, CE_n} s (setup_TI_CDCE18005 w s) \<and> pins_ok (setup_TI_CDCE18005 w s)"
proof -
  have "setup_TI_CDCE18005 w s = fold send_SPI (setup_words w) s"
    by (simp add: setup_TI_CDCE18005_def setup_words_def table_size_def fold_map o_def)
  then show ?thesis using send_words_step [OF assms, of "setup_words w"] by (simp add: setup_bits_def)
qed

subsection \<open>Reading the chip\<close>

text \<open>The chip puts bit \<open>k\<close> of a word on its output with the edge \<open>k\<close> counted from history \<open>l0\<close>.\<close>

definition chip_shows :: "u32 \<Rightarrow> u8 list \<Rightarrow> (u8 list \<Rightarrow> u8) \<Rightarrow> bool" where
  "chip_shows w l0 pin \<longleftrightarrow> (\<forall>k < 32. \<forall>l. length (sampled l) = length (sampled l0) + k + 1 \<longrightarrow> bit (pin l) MISO = bit w k)"

lemma oc_get_bit_bit: "oc_get_bit n s \<longleftrightarrow> bit (pina s (porta_log s)) n"
  by (simp add: oc_get_bit_def word_gt_0 and_exp_eq_0_iff_not_bit)

text \<open>After \<open>k\<close> bits the accumulator holds the first \<open>k\<close> of them at its top.\<close>

definition top_bits :: "nat \<Rightarrow> u32 \<Rightarrow> u32 \<Rightarrow> bool" where
  "top_bits k w b \<longleftrightarrow> (\<forall>j < 32. bit b j \<longleftrightarrow> 32 - k \<le> j \<and> bit w (j - (32 - k)))"

lemma top_bits_0: "top_bits 0 w 0"
  by (simp add: top_bits_def)

lemma bit_0x80000000: "bit (0x80000000 :: u32) j \<longleftrightarrow> j = 31"
proof -
  have "(0x80000000 :: u32) = 2 ^ 31" by simp
  then have "bit (0x80000000 :: u32) j \<longleftrightarrow> bit (2 ^ 31 :: u32) j" by (rule arg_cong)
  then show ?thesis by (simp only: bit_exp_iff) auto
qed

lemma top_bits_Suc:
  assumes "top_bits k w b" "k < 32" "v \<longleftrightarrow> bit w k"
  shows "top_bits (Suc k) w (if v then drop_bit 1 b OR 0x80000000 else drop_bit 1 b)"
  unfolding top_bits_def
proof (intro allI impI)
  fix j :: nat
  assume j: "j < 32"
  have l: "bit b (Suc j) \<longleftrightarrow> Suc j < 32 \<and> 32 - k \<le> Suc j \<and> bit w (Suc j - (32 - k))"
    using assms(1) bit_imp_le_length [of b "Suc j"] by (auto simp: top_bits_def)
  show "bit (if v then drop_bit 1 b OR 0x80000000 else drop_bit 1 b) j = (32 - Suc k \<le> j \<and> bit w (j - (32 - Suc k)))"
    using assms(2,3) l j bit_0x80000000 [of j] by (cases "j = 31") (auto simp: bit_simps Suc_diff_le)
qed

lemma receive_SPI_bit_step:
  assumes "pins_ok s" "\<not> bit (PORTA s) CE_n" "chip_shows w l0 (pina s)"
    and "length (sampled (porta_log s)) = length (sampled l0) + k" "k < 32" "top_bits k w b"
  shows "let (b', s') = receive_SPI_bit i (b, s)
    in pins_step [bit (PORTA s) MOSI] {} s s' \<and> pins_ok s' \<and> \<not> bit (PORTA s') CE_n \<and> top_bits (Suc k) w b'"
proof -
  let ?t = "oc_set_bit CLK Hi s"
  have pina: "pina ?t = pina s" by (simp add: oc_set_bit_def put_porta_def)
  have "length (sampled (porta_log ?t)) = length (sampled l0) + k + 1"
    using assms(1,2,4) by (auto simp: pins_ok_def set_bit_simps)
  then have v: "oc_get_bit MISO ?t \<longleftrightarrow> bit w k"
    using assms(3,5) by (simp add: oc_get_bit_bit pina chip_shows_def)
  note p = pins_step_pulse [OF assms(1,2)]
  have "\<not> bit (PORTA (oc_set_bit CLK Lo ?t)) CE_n" using assms(2) by (simp add: bit_set_porta pin_defs)
  then show ?thesis
    using p top_bits_Suc [OF assms(6,5) v] by (simp add: receive_SPI_bit_def Let_def del: One_nat_def)
qed

lemma receive_SPI_bits_step:
  assumes "pins_ok s" "\<not> bit (PORTA s) CE_n" "chip_shows w l0 (pina s)" "k \<le> 32"
    and "length (sampled (porta_log s)) = length (sampled l0)"
  shows "let (b', s') = fold receive_SPI_bit [0..<k] (0, s)
    in (\<exists>bs. length bs = k \<and> pins_step bs {} s s') \<and> pins_ok s' \<and> \<not> bit (PORTA s') CE_n \<and> top_bits k w b'"
  using assms(4)
proof (induction k)
  case 0
  then show ?case using assms by (auto simp: top_bits_0 intro: exI [of _ "[]"] pins_step_refl)
next
  case (Suc k)
  obtain b t where f: "fold receive_SPI_bit [0..<k] (0, s) = (b, t)" by force
  with Suc obtain bs where t: "length bs = k" "pins_step bs {} s t" "pins_ok t" "\<not> bit (PORTA t) CE_n" "top_bits k w b"
    by auto
  have "chip_shows w l0 (pina t)" using pins_step_fields(2) [OF t(2)] assms(3) by simp
  moreover have "length (sampled (porta_log t)) = length (sampled l0) + k" using t(1,2) assms(5) by (simp add: pins_step_def)
  ultimately have "let (b', s') = receive_SPI_bit k (b, t)
    in pins_step [bit (PORTA t) MOSI] {} t s' \<and> pins_ok s' \<and> \<not> bit (PORTA s') CE_n \<and> top_bits (Suc k) w b'"
    using receive_SPI_bit_step [OF t(3,4) _ _ _ t(5)] Suc.prems by simp
  then show ?case
    using pins_step_trans [OF t(2)] t(1) by (auto simp: f Let_def intro!: exI [of _ "bs @ [bit (PORTA t) MOSI]"])
qed

lemma receive_SPI_result:
  assumes "pins_ok s" "chip_shows w (porta_log s) (pina s)"
  shows "fst (receive_SPI s) = drop_bit 4 w \<and> pins_ok (snd (receive_SPI s))"
proof -
  define t where "t = oc_set_bit CE_n Lo (oc_set_bit MOSI Lo (oc_set_bit CLK Lo (oc_set_bit CE_n Hi s)))"
  have t: "pins_step [] {CE_n, MOSI} s t" "pins_ok t"
  proof -
    let ?a = "oc_set_bit CE_n Hi s" let ?b = "oc_set_bit CLK Lo ?a" let ?c = "oc_set_bit MOSI Lo ?b"
    have a: "pins_step [] {CE_n} s ?a" "pins_ok ?a" using pins_step_set_bit [OF assms(1), of CE_n] by simp_all
    have b: "pins_step [] {} ?a ?b" "pins_ok ?b" using pins_step_clk_low [OF a(2)] by simp_all
    have c: "pins_step [] {MOSI} ?b ?c" "pins_ok ?c" using pins_step_set_bit [OF b(2), of MOSI] by simp_all
    have d: "pins_step [] {CE_n} ?c t" "pins_ok t" using pins_step_set_bit [OF c(2), of CE_n] by (simp_all add: t_def)
    note m = pins_step_mono [of "[]" _ _ _ "{CE_n, MOSI}"]
    show "pins_step [] {CE_n, MOSI} s t"
      using pins_step_trans [OF m [OF a(1)] pins_step_trans [OF m [OF b(1)] pins_step_trans [OF m [OF c(1)] m [OF d(1)]]]] by simp
    show "pins_ok t" by (rule d)
  qed
  have "\<not> bit (PORTA t) CE_n" "pina t = pina s" "length (sampled (porta_log t)) = length (sampled (porta_log s))"
    using t by (simp_all add: t_def bit_set_porta pin_defs pins_step_def) (simp add: oc_set_bit_def put_porta_def)
  with receive_SPI_bits_step [OF t(2), of w "porta_log s" 32] assms(2)
  obtain b u where u: "fold receive_SPI_bit [0..<32] (0, t) = (b, u)" "pins_ok u" "top_bits 32 w b"
    by (auto split: prod.splits)
  have "b = w" using u(3) by (intro bit_word_eqI) (simp add: top_bits_def)
  moreover have "pins_ok (oc_set_bit CE_n Hi u)" using pins_step_set_bit [OF u(2), of CE_n Hi] by simp
  ultimately show ?thesis using u(1) by (simp add: receive_SPI_def Let_def t_def [symmetric])
qed

text \<open>C29. What the clock chip sees.  Set up for either source, it samples exactly the nine words of that source's table,
  each with its register's number in the low four bits, least significant bit first, and no other pin
  moves; and when it answers a read command by shifting out a word, the value read
  is that word without its four address bits, so that the check of a register compares the register with the table.\<close>

theorem clock_chip_transfers:
  assumes "pins_ok s"
  shows "sampled (porta_log (setup_TI_CDCE18005 src s)) = sampled (porta_log s) @ concat (map word_bits (setup_words src))
    \<and> (\<forall>k < 8. k \<noteq> MOSI \<and> k \<noteq> CE_n \<longrightarrow> bit (PORTA (setup_TI_CDCE18005 src s)) k = bit (PORTA s) k)
    \<and> (\<forall>w r. chip_shows w (porta_log (send_SPI (0xf0 AND push_bit 4 r OR 0xE) s)) (pina s)
        \<longrightarrow> (fst (check_TI_CDCE18005 src r s) \<longleftrightarrow>
              drop_bit 4 w = (if src = Primary_GPS then table_Pri_Ref else table_Sec_Ref) ! unat r))"
proof (intro conjI allI impI)
  show "sampled (porta_log (setup_TI_CDCE18005 src s)) = sampled (porta_log s) @ concat (map word_bits (setup_words src))"
    and "k < 8 \<Longrightarrow> k \<noteq> MOSI \<and> k \<noteq> CE_n \<Longrightarrow> bit (PORTA (setup_TI_CDCE18005 src s)) k = bit (PORTA s) k" for k
    using setup_step [OF assms, of src] by (simp_all add: pins_step_def setup_bits_def)
  fix w r
  let ?s = "send_SPI (0xf0 AND push_bit 4 r OR 0xE) s"
  assume c: "chip_shows w (porta_log ?s) (pina s)"
  have p: "pins_ok ?s" "pina ?s = pina s"
    using send_SPI_step [OF assms] pins_step_fields(2) by blast+
  show "fst (check_TI_CDCE18005 src r s) \<longleftrightarrow> drop_bit 4 w = (if src = Primary_GPS then table_Pri_Ref else table_Sec_Ref) ! unat r"
    using receive_SPI_result [OF p(1), of w] c p(2)
    by (simp add: check_TI_CDCE18005_def get_TI_CDCE18005_def Read_Command_def Let_def case_prod_unfold)
qed

lemma clock_chip_transfers_witness:
  "sampled (porta_log (setup_TI_CDCE18005 Secondary_Ext octo_app_demo)) = concat (map word_bits (setup_words Secondary_Ext))
   \<and> fst (check_TI_CDCE18005 Primary_GPS 5 octo_app_demo) = False"
proof -
  have "pins_ok octo_app_demo" by (simp add: pins_ok_def octo_app_demo_defs CLK_def) 
  moreover have "sampled (porta_log octo_app_demo) = []" "pina octo_app_demo = (\<lambda>_. 0)" by (simp_all add: octo_app_demo_defs)
  moreover have "chip_shows 0 l (\<lambda>_. 0)" for l by (simp add: chip_shows_def)
  ultimately show ?thesis
    using clock_chip_transfers [of octo_app_demo Secondary_Ext]
      clock_chip_transfers [of octo_app_demo Primary_GPS, THEN conjunct2, THEN conjunct2, rule_format, of 0 5]
    by (simp add: table_Pri_Ref_def)
qed

subsection \<open>Lights, source and reported reference\<close>

definition source_is :: "TI_Input_10_MHz \<Rightarrow> 'a octo_app_scheme \<Rightarrow> bool" where
  "source_is src s \<longleftrightarrow> (bit (PORTC s) 5 \<longleftrightarrow> src = Primary_GPS) \<and> (bit (PORTC s) 6 \<longleftrightarrow> src = Secondary_Ext) \<and> bit (PORTC s) 7
     \<and> (bit (PORTA s) PA6 \<longleftrightarrow> src = Primary_GPS) \<and> (\<exists>pre. sampled (porta_log s) = pre @ setup_bits src)"

definition lights_off :: "'a octo_app_scheme \<Rightarrow> bool" where
  "lights_off s \<longleftrightarrow> \<not> bit (PORTC s) 5 \<and> \<not> bit (PORTC s) 6 \<and> \<not> bit (PORTC s) 7"

definition ref_agrees :: "'a octo_app_scheme \<Rightarrow> bool" where
  "ref_agrees s \<longleftrightarrow> pins_ok s \<and> g_ref s = prev_ref s
     \<and> (case g_ref s of NO_REF \<Rightarrow> lights_off s | INTERNAL \<Rightarrow> source_is Primary_GPS s | EXTERNAL \<Rightarrow> source_is Secondary_Ext s)"

lemma bit_led: "bit (PORTC (led which on s)) k \<longleftrightarrow> (if k = led_index which + 5 then on else bit (PORTC s) k)"
proof -
  have LED: "push_bit (led_index which) 0x20 = (2 ^ (led_index which + 5) :: u8)" and l: "led_index which + 5 < 8"
    by (cases which; simp)+
  show ?thesis
    unfolding led_def Let_def LED using l bit_imp_le_length [of "PORTC s" k]
    by (auto simp: bit_or_iff bit_and_iff bit_not_iff bit_exp_iff)
qed

lemma led_fields [simp]:
  "PORTA (led w b s) = PORTA s" "porta_log (led w b s) = porta_log s" "g_ref (led w b s) = g_ref s"
  "prev_ref (led w b s) = prev_ref s" "g_switch_pos (led w b s) = g_switch_pos s" "g_gps_present (led w b s) = g_gps_present s"
  "g_ext_ref_present (led w b s) = g_ext_ref_present s" "pins_ok (led w b s) = pins_ok s"
  by (simp_all add: led_def Let_def pins_ok_def)

lemma force_source:
  assumes "pins_ok s"
  shows "pins_ok (force_internal s) \<and> source_is Primary_GPS (force_internal s)"
    and "pins_ok (force_external s) \<and> source_is Secondary_Ext (force_external s)"
proof -
  have *: "pins_ok (oc_set_bit PA6 v (setup_TI_CDCE18005 src l)) \<and> source_is src (oc_set_bit PA6 v (setup_TI_CDCE18005 src l))"
    if l: "pins_ok l" "bit (PORTC l) 5 \<longleftrightarrow> src = Primary_GPS" "bit (PORTC l) 6 \<longleftrightarrow> src = Secondary_Ext" "bit (PORTC l) 7"
      "v = (if src = Primary_GPS then Hi else Lo)" for v src and l :: "'a octo_app_scheme"
  proof -
    let ?t = "setup_TI_CDCE18005 src l"
    have st: "pins_step (setup_bits src) {MOSI, CE_n} l ?t" "pins_ok ?t" using setup_step [OF l(1)] by simp_all
    have "sampled (porta_log (oc_set_bit PA6 v ?t)) = sampled (porta_log ?t)"
      using st(2) by (auto simp: pins_ok_def set_bit_simps)
    moreover have "PORTC (oc_set_bit PA6 v ?t) = PORTC l"
      using pins_step_fields(1) [OF st(1)] by (simp add: oc_set_bit_def put_porta_def)
    ultimately show ?thesis
      using st l(2-5) by (auto simp: source_is_def pins_ok_def pins_step_def set_bit_simps)
  qed
  have "force_internal s = oc_set_bit PA6 Hi (setup_TI_CDCE18005 Primary_GPS (led LED_BOTTOM True (led LED_MIDDLE False (led LED_TOP True s))))"
    by (simp add: force_internal_def Let_def oc_set_bit_def)
  then show "pins_ok (force_internal s) \<and> source_is Primary_GPS (force_internal s)"
    using * [of "led LED_BOTTOM True (led LED_MIDDLE False (led LED_TOP True s))" Primary_GPS Hi] assms by (simp add: bit_led)
  have "force_external s = oc_set_bit PA6 Lo (setup_TI_CDCE18005 Secondary_Ext (led LED_BOTTOM True (led LED_MIDDLE True (led LED_TOP False s))))"
    by (simp add: force_external_def Let_def oc_set_bit_def)
  then show "pins_ok (force_external s) \<and> source_is Secondary_Ext (force_external s)"
    using * [of "led LED_BOTTOM True (led LED_MIDDLE True (led LED_TOP False s))" Secondary_Ext Lo] assms by (simp add: bit_led)
qed

text \<open>What setting up a source does not touch.\<close>

lemma force_fields:
  assumes "pins_ok s"
  shows "g_ref (force_internal s) = g_ref s" "g_switch_pos (force_internal s) = g_switch_pos s"
    "g_gps_present (force_internal s) = g_gps_present s" "g_ext_ref_present (force_internal s) = g_ext_ref_present s"
    "g_ref (force_external s) = g_ref s" "g_switch_pos (force_external s) = g_switch_pos s"
    "g_gps_present (force_external s) = g_gps_present s" "g_ext_ref_present (force_external s) = g_ext_ref_present s"
  using assms by (simp_all add: pins_step_fields [OF setup_step [THEN conjunct1]] force_internal_def force_external_def Let_def put_porta_def)

lemma leds_off_lights: "lights_off (leds_off s) \<and> (pins_ok (leds_off s) \<longleftrightarrow> pins_ok s)"
  by (simp add: lights_off_def leds_off_def bit_led)

lemma leds_off_fields [simp]:
  "g_ref (leds_off s) = g_ref s" "g_switch_pos (leds_off s) = g_switch_pos s" "g_gps_present (leds_off s) = g_gps_present s"
  "g_ext_ref_present (leds_off s) = g_ext_ref_present s"
  by (simp_all add: leds_off_def)

definition follows :: "ref_t \<Rightarrow> 'a octo_app_scheme \<Rightarrow> bool" where
  "follows r s \<longleftrightarrow> pins_ok s \<and> (case r of NO_REF \<Rightarrow> lights_off s | INTERNAL \<Rightarrow> source_is Primary_GPS s | EXTERNAL \<Rightarrow> source_is Secondary_Ext s)"

lemma prefer_follows:
  assumes "pins_ok s"
  shows "follows (choose_ref s) (if g_switch_pos s = PREFER_INTERNAL then prefer_internal s else prefer_external s)"
  using force_source [OF assms] leds_off_lights [of s] assms
  by (auto simp: follows_def choose_ref_def prefer_internal_def prefer_external_def)

lemma prefer_fields:
  assumes "pins_ok s"
  shows "g_ref (prefer_internal s) = g_ref s" "g_switch_pos (prefer_internal s) = g_switch_pos s"
    "g_gps_present (prefer_internal s) = g_gps_present s" "g_ext_ref_present (prefer_internal s) = g_ext_ref_present s"
    "g_ref (prefer_external s) = g_ref s" "g_switch_pos (prefer_external s) = g_switch_pos s"
    "g_gps_present (prefer_external s) = g_gps_present s" "g_ext_ref_present (prefer_external s) = g_ext_ref_present s"
  using force_fields [OF assms] by (simp_all add: prefer_internal_def prefer_external_def)

lemma follows_cong:
  "PORTA s = PORTA t \<Longrightarrow> PORTC s = PORTC t \<Longrightarrow> porta_log s = porta_log t \<Longrightarrow> follows r s \<longleftrightarrow> follows r t"
  by (cases r) (simp_all add: follows_def pins_ok_def lights_off_def source_is_def)

text \<open>One turn of the main loop, up to the network.\<close>

lemma choose_ref_prefer:
  "pins_ok s \<Longrightarrow> choose_ref (prefer_internal s) = choose_ref s \<and> choose_ref (prefer_external s) = choose_ref s"
  by (simp add: choose_ref_def prefer_fields)

lemma set_reference_agrees:
  assumes "follows (prev_ref s) s"
  shows "follows (g_ref (set_reference s)) (set_reference s) \<and> g_ref (set_reference s) = choose_ref (set_reference s)"
proof -
  define d where "d = s\<lparr>g_ref := choose_ref s\<rparr>"
  have r: "set_reference s = (if g_ref d \<noteq> prev_ref d \<or> g_switch_pos d \<noteq> prev_switch_pos d
     then (if g_switch_pos d = PREFER_INTERNAL then prefer_internal d else prefer_external d) else d)"
    by (simp add: set_reference_def Let_def d_def)
  have d: "follows (prev_ref d) d" "choose_ref d = g_ref d"
    using assms follows_cong [of s d "prev_ref s"] by (simp_all add: d_def choose_ref_def)
  have ok: "pins_ok d" using d(1) by (simp add: follows_def)
  show ?thesis
  proof (cases "g_ref d \<noteq> prev_ref d \<or> g_switch_pos d \<noteq> prev_switch_pos d")
    case True
    then show ?thesis using prefer_follows [OF ok] prefer_fields [OF ok] choose_ref_prefer [OF ok] d(2) by (auto simp: r split: if_splits)
  next
    case False
    then show ?thesis using d by (simp add: r)
  qed
qed

lemma check_ext_ref_fields:
  "PORTA (check_ext_ref i s) = PORTA s" "PORTC (check_ext_ref i s) = PORTC s" "porta_log (check_ext_ref i s) = porta_log s"
  "prev_ref (check_ext_ref i s) = prev_ref s"
  by (simp_all add: check_ext_ref_def Let_def)

lemma check_switch_fields:
  "PORTA (check_switch p s) = PORTA s" "PORTC (check_switch p s) = PORTC s" "porta_log (check_switch p s) = porta_log s"
  "prev_ref (check_switch p s) = prev_ref s"
  by (simp_all add: check_switch_def)

lemma record_iteration_fields:
  "PORTA (record_iteration s) = PORTA s" "PORTC (record_iteration s) = PORTC s" "porta_log (record_iteration s) = porta_log s"
  "prev_ref (record_iteration s) = g_ref s" "g_ref (record_iteration s) = g_ref s" "choose_ref (record_iteration s) = choose_ref s"
  by (simp_all add: record_iteration_def choose_ref_def)

lemma ref_agrees_iff: "ref_agrees s \<longleftrightarrow> follows (g_ref s) s \<and> g_ref s = prev_ref s"
  by (auto simp: ref_agrees_def follows_def)

lemma update_reference_agrees:
  assumes "ref_agrees s"
  shows "ref_agrees (update_reference pinc icr3 s) \<and> g_ref (update_reference pinc icr3 s) = choose_ref (update_reference pinc icr3 s)"
proof -
  let ?c = "check_ext_ref icr3 (check_switch pinc s)"
  have "follows (prev_ref ?c) ?c"
    using assms follows_cong [of s ?c "prev_ref s"] by (auto simp: ref_agrees_iff check_ext_ref_fields check_switch_fields)
  note s = set_reference_agrees [OF this]
  let ?r = "set_reference ?c"
  have "follows (g_ref ?r) (record_iteration ?r) \<longleftrightarrow> follows (g_ref ?r) ?r"
    by (rule follows_cong) (rule record_iteration_fields)+
  with s show ?thesis unfolding update_reference_def ref_agrees_iff record_iteration_fields by blast
qed

end
