(* ===== verification/OctoNetFacts.thy ===== *)
theory OctoNetFacts
  imports OctoNet NetFrames
begin

unbundle bit_operations_syntax

section \<open>Facts on the OctoClock's network stack\<close>

text \<open>
  Byte order first: a little-endian store of a swapped value is a big-endian store, and the one's
  complement sum does not care.  With that the frames can be described with the big-endian headers of theory
  \<open>NetStack\<close>, the format on the wire.  Then the copies into the buffer, and the frame \<^verbatim>\<open>send_pkt\<close> makes.
\<close>

subsection \<open>Byte order\<close>

lemma byte_masks:
  "(0xFF :: 'a :: len word) = mask 8" "(0xFF00 :: 'a word) = push_bit 8 (mask 8)"
  "(0xFF0000 :: 'a word) = push_bit 16 (mask 8)" "(0xFF000000 :: 'a word) = push_bit 24 (mask 8)"
  by (simp_all add: mask_eq_exp_minus_1 push_bit_eq_mult)

lemma oc_htons_bytes: "oc_htons w = word_cat (lo8 w) (hi8 w)"
  unfolding oc_htons_def lo8_def hi8_def byte_masks
  by (rule bit_word_eqI) (auto simp: bit_simps)

lemma bit_oc_htons: "bit (oc_htons w) n \<longleftrightarrow> n < 16 \<and> bit w (if n < 8 then 8 + n else n - 8)"
  unfolding oc_htons_def byte_masks by (auto simp: bit_simps dest: bit_imp_le_length)

lemma bit_oc_htonl:
  "bit (oc_htonl w) n \<longleftrightarrow> n < 32 \<and> bit w (if n < 8 then 24 + n else if n < 16 then 8 + n else if n < 24 then n - 8 else n - 24)"
  unfolding oc_htonl_def byte_masks by (auto simp: bit_simps add.commute dest: bit_imp_le_length)

lemma oc_htonl_halves: "oc_htonl w = word_cat (oc_htons (lo16 w)) (oc_htons (hi16 w))"
  by (rule bit_word_eqI) (auto simp: bit_oc_htonl bit_oc_htons lo16_def hi16_def bit_simps add.commute)

lemma oc_htons_twice [simp]: "oc_htons (oc_htons w) = w"
  by (simp add: oc_htons_bytes bytes_simps)

lemma oc_htonl_twice [simp]: "oc_htonl (oc_htonl w) = w"
  by (simp add: oc_htonl_halves bytes_simps)

lemma oc_htons_eq_iff [simp]: "oc_htons v = oc_htons w \<longleftrightarrow> v = w"
  by (metis oc_htons_twice)

lemma put16_le_eq: "put16_le w = put16 (oc_htons w)"
  by (simp add: put16_le_def put16_def oc_htons_bytes bytes_simps)

lemma put32_le_eq: "put32_le w = put32 (oc_htonl w)"
  by (simp add: put32_le_def put32_def put16_le_eq oc_htonl_halves bytes_simps)

lemma le16_eq: "le16 m i = oc_htons (be16 m i)"
  by (simp add: le16_def be16_def oc_htons_bytes bytes_simps)

lemma le32_eq: "le32 m i = oc_htonl (be32 m i)"
  by (simp add: le32_def be32_def le16_eq oc_htonl_halves bytes_simps)

text \<open>Swapping the bytes of a short multiplies it by 256 modulo 65535.\<close>

lemma unat_bytes: "unat (w :: u16) = 256 * unat (hi8 w) + unat (lo8 w)"
proof -
  have "w = word_cat (hi8 w) (0 :: u8) OR word_cat (0 :: u8) (lo8 w)"
    by (rule bit_word_eqI) (auto simp: bit_simps hi8_def lo8_def)
  also have "\<dots> = word_cat (hi8 w) (0 :: u8) + word_cat (0 :: u8) (lo8 w)"
    by (rule disjunctive_add [symmetric]) (auto simp: bit_simps dest: bit_imp_le_length)
  finally have w: "w = word_cat (hi8 w) (0 :: u8) + word_cat (0 :: u8) (lo8 w)" .
  have l: "unat (word_cat (0 :: u8) (lo8 w) :: u16) = unat (lo8 w)"
  proof -
    have "word_cat (0 :: u8) (lo8 w) = (ucast (lo8 w) :: u16)"
      by (rule bit_word_eqI) (auto simp: bit_simps)
    then show ?thesis using unat_u8_less [of "lo8 w"] by (simp add: unsigned_ucast_eq take_bit_nat_eq_self)
  qed
  have "unat (word_cat (hi8 w) (0 :: u8) :: u16) + unat (word_cat (0 :: u8) (lo8 w) :: u16) < 2 ^ 16"
    unfolding l unat_high_byte using unat_u8_less [of "hi8 w"] unat_u8_less [of "lo8 w"] by simp
  then show ?thesis
    by (subst w) (simp only: unat_word_ariths l unat_high_byte, simp)
qed

lemma unat_oc_htons: "unat (oc_htons w) mod 65535 = (256 * unat w) mod 65535"
proof -
  have "256 * unat w = 65535 * unat (hi8 w) + (256 * unat (lo8 w) + unat (hi8 w))"
    using unat_bytes [of w] by simp
  then have "(256 * unat w) mod 65535 = (256 * unat (lo8 w) + unat (hi8 w)) mod 65535"
    by (metis mod_mult_self4)
  moreover have "unat (oc_htons w) = 256 * unat (lo8 w) + unat (hi8 w)"
    using unat_bytes [of "oc_htons w"] by (simp add: oc_htons_bytes bytes_simps)
  ultimately show ?thesis by simp
qed

lemma sum_oc_htons:
  "sum_list (map (unat \<circ> oc_htons) ws) mod 65535 = (256 * sum_list (map unat ws)) mod 65535"
proof (induction ws)
  case (Cons w ws)
  have "sum_list (map (unat \<circ> oc_htons) (w # ws)) mod 65535
      = (unat (oc_htons w) mod 65535 + sum_list (map (unat \<circ> oc_htons) ws) mod 65535) mod 65535"
    by (simp add: mod_simps)
  also have "\<dots> = (256 * sum_list (map unat (w # ws))) mod 65535"
    unfolding Cons.IH unat_oc_htons by (simp add: mod_simps algebra_simps)
  finally show ?case .
qed simp

lemma oc_htons_0 [simp]: "oc_htons w = 0 \<longleftrightarrow> w = 0"
  using oc_htons_eq_iff [of w 0] by (simp add: oc_htons_def)

lemma oc_htons_zero [simp]: "oc_htons 0 = 0"
  by simp

lemma verifies_iff:
  assumes "65535 * length ws < 2 ^ 32"
  shows "chksum_buffer ws 0 = 0xffff \<longleftrightarrow> sum_list (map unat ws) mod 65535 = 0 \<and> sum_list (map unat ws) \<noteq> 0"
proof -
  have h: "unat (0 :: u32) + 65535 * length ws < 2 ^ 32" using assms by simp
  note p = chksum_buffer_props [OF h]
  have u: "chksum_buffer ws 0 = 0xffff \<longleftrightarrow> unat (chksum_buffer ws 0) = unat (0xffff :: u32)"
    by (simp only: word_unat_eq_iff)
  have z: "sum_list (map unat ws) mod 65535 = unat (chksum_buffer ws 0) mod 65535"
    "sum_list (map unat ws) = 0 \<longleftrightarrow> unat (chksum_buffer ws 0) = 0"
    unfolding p(2,3) by simp_all
  have "unat (chksum_buffer ws 0) = 65535 \<longleftrightarrow> unat (chksum_buffer ws 0) mod 65535 = 0 \<and> unat (chksum_buffer ws 0) \<noteq> 0"
    using all_ones_sum [OF p(1)] by auto
  then show ?thesis unfolding u z by simp
qed

text \<open>A checksum computed with little-endian loads is right for a reader with big-endian loads.\<close>

lemma times_256_mod: "(256 * n) mod 65535 = 0 \<longleftrightarrow> n mod 65535 = (0 :: nat)"
proof -
  have "(256 * (256 * n)) mod 65535 = n mod 65535"
    using mod_mult_self4 [of 65535 n n] by simp
  then show ?thesis by (metis mod_mult_right_eq mult_0_right mod_0)
qed

lemma sum_oc_htons_0: "sum_list (map (unat \<circ> oc_htons) ws) = 0 \<longleftrightarrow> sum_list (map unat ws) = 0"
  by (induction ws) (simp_all add: unsigned_eq_0_iff)

lemma verifies_swapped:
  assumes "65535 * length ws < 2 ^ 32"
  shows "chksum_buffer (map oc_htons ws) 0 = 0xffff \<longleftrightarrow> chksum_buffer ws 0 = 0xffff"
proof -
  have l: "65535 * length (map oc_htons ws) < 2 ^ 32" using assms by simp
  show ?thesis
    unfolding verifies_iff [OF assms] verifies_iff [OF l] map_map sum_oc_htons times_256_mod sum_oc_htons_0 ..
qed

subsection \<open>Headers as they are on the wire\<close>

definition wire_ip :: "ip_hdr \<Rightarrow> ip_hdr" where
  "wire_ip h = \<lparr>ih_v_hl_tos = oc_htons (ih_v_hl_tos h), ih_len = oc_htons (ih_len h), ih_id = oc_htons (ih_id h),
     ih_offset = oc_htons (ih_offset h), ih_ttl_proto = oc_htons (ih_ttl_proto h), ih_chksum = oc_htons (ih_chksum h),
     ih_src = oc_htonl (ih_src h), ih_dest = oc_htonl (ih_dest h)\<rparr>"

lemma halves_oc_htonl: "hi16 (oc_htonl w) = oc_htons (lo16 w)" "lo16 (oc_htonl w) = oc_htons (hi16 w)"
  by (simp_all add: oc_htonl_halves bytes_simps)

lemma wire_ip_shorts: "ip_hdr_shorts (wire_ip h) = map oc_htons (oc_ip_hdr_shorts h)"
  by (simp add: ip_hdr_shorts_def oc_ip_hdr_shorts_def wire_ip_def halves_oc_htonl)

lemma oc_bytes_eq: "oc_bytes ws = concat (map put16 (map oc_htons ws))"
  by (simp add: oc_bytes_def put16_le_eq [abs_def] o_def)

lemma oc_ip_bytes: "oc_bytes (oc_ip_hdr_shorts h) = ip_hdr_bytes (wire_ip h)"
  by (simp only: oc_bytes_eq ip_hdr_bytes_def wire_ip_shorts)

lemma oc_ip_hdr_of_eq: "oc_ip_hdr_of m = wire_ip (ip_hdr_of m)"
  by (simp add: oc_ip_hdr_of_def ip_hdr_of_def wire_ip_def le16_eq le32_eq)

lemma wire_ip_twice [simp]: "wire_ip (wire_ip h) = h"
  by (simp add: wire_ip_def)

lemma oc_ttl_of_junk: "drop_bit 8 ((j AND 0xff) OR push_bit 8 64 :: u16) = 64"
proof -
  have "drop_bit 8 ((j AND 0xff) OR push_bit 8 64 :: u16) = drop_bit 8 (push_bit 8 64)"
    by (rule bit_word_eqI) (auto simp: byte_masks bit_simps)
  then show ?thesis by simp
qed

lemma oc_fill_ip_hdr_wire:
  "\<exists>c. wire_ip (oc_fill_ip_hdr len proto loc dst h) = \<lparr>ih_v_hl_tos = 0x4500, ih_len = len, ih_id = 0,
     ih_offset = IP_DF, ih_ttl_proto = proto OR 0x4000, ih_chksum = c, ih_src = loc, ih_dest = oc_htonl dst\<rparr>"
proof -
  have "oc_htons (oc_IPH_PROTO g OR push_bit 8 64) = oc_htons ((oc_ntohs (ih_ttl_proto g) AND 0xff) OR push_bit 8 64)" for g
    by (simp add: oc_IPH_PROTO_def)
  then show ?thesis
    by (simp add: oc_fill_ip_hdr_def oc_IPH_VHLTOS_SET_def oc_IPH_LEN_SET_def oc_IPH_TTL_SET_def oc_IPH_PROTO_SET_def
        oc_IPH_TTL_def oc_IPH_PROTO_def oc_ttl_of_junk wire_ip_def Let_def vhltos_value)
qed

lemma oc_fill_ip_hdr_verifies:
  "chksum_buffer (ip_hdr_shorts (wire_ip (oc_fill_ip_hdr len proto loc dst h))) 0 = 0xffff"
proof -
  define g where "g = (let ip = oc_IPH_VHLTOS_SET 4 5 0 h; ip = oc_IPH_LEN_SET len ip; ip = ip\<lparr>ih_id := 0\<rparr>;
     ip = ip\<lparr>ih_offset := oc_htons IP_DF\<rparr>; ip = oc_IPH_TTL_SET 64 ip; ip = oc_IPH_PROTO_SET proto ip;
     ip = ip\<lparr>ih_chksum := 0\<rparr>; ip = ip\<lparr>ih_src := oc_htonl loc\<rparr> in ip\<lparr>ih_dest := dst\<rparr>)"
  have f: "oc_fill_ip_hdr len proto loc dst h
      = g\<lparr>ih_chksum := ucast (NOT (chksum_buffer (oc_ip_hdr_shorts g) 0))\<rparr>"
    by (simp add: oc_fill_ip_hdr_def g_def Let_def oc_chksum_buffer_def chksum_buffer_def)
  have z: "ih_chksum g = 0" by (simp add: g_def Let_def)
  let ?xs = "[ih_v_hl_tos g, ih_len g, ih_id g, ih_offset g, ih_ttl_proto g]"
  let ?ys = "[lo16 (ih_src g), hi16 (ih_src g), lo16 (ih_dest g), hi16 (ih_dest g)]"
  have s: "oc_ip_hdr_shorts g = ?xs @ 0 # ?ys" by (simp add: oc_ip_hdr_shorts_def z)
  have s': "oc_ip_hdr_shorts (oc_fill_ip_hdr len proto loc dst h)
      = ?xs @ ucast (NOT (chksum_buffer (?xs @ 0 # ?ys) 0)) # ?ys"
    unfolding f s by (simp add: oc_ip_hdr_shorts_def)
  have "chksum_buffer (oc_ip_hdr_shorts (oc_fill_ip_hdr len proto loc dst h)) 0 = 0xffff"
    unfolding s' by (rule chksum_complement) simp
  then show ?thesis
    unfolding wire_ip_shorts by (subst verifies_swapped) (simp_all add: oc_ip_hdr_shorts_def)
qed

subsection \<open>Copies into the buffer\<close>

lemma mem_take_memcpy: "mem_take (memcpy p src n m) (p + n) = mem_take m p @ mem_take src n"
  by (rule nth_equalityI) (auto simp: memcpy_def nth_append)

lemma mem_take_0 [simp]: "mem_take m 0 = []"
  by (simp add: mem_take_def)

lemma memcpy_below: "i < p \<Longrightarrow> memcpy p src n m i = m i"
  and memcpy_above: "p + n \<le> i \<Longrightarrow> memcpy p src n m i = m i"
  by (simp_all add: memcpy_def)

lemma copy_clip: "p \<le> 512 \<Longrightarrow> p + unat (if len > ETH_BUF_SIZE - of_nat p then ETH_BUF_SIZE - of_nat p else len) \<le> 512"
proof -
  assume p: "p \<le> 512"
  then have "unat (of_nat p :: u16) = p" by (simp add: unsigned_of_nat take_bit_nat_eq_self)
  then have r: "unat (ETH_BUF_SIZE - of_nat p) = 512 - p"
    using p by (subst unat_sub) (simp_all add: ETH_BUF_SIZE_def word_le_nat_alt)
  show ?thesis using p by (auto simp: r word_less_nat_alt)
qed

lemma copy_buffs_bounds: "p \<le> 512 \<Longrightarrow> 512 \<le> i \<Longrightarrow> snd (copy_buffs bs p tln buf) i = buf i"
proof (induction bs p tln buf rule: copy_buffs.induct)
  case (2 b len bs p tln buf)
  let ?len = "if len > ETH_BUF_SIZE - of_nat p then ETH_BUF_SIZE - of_nat p else len"
  note c = copy_clip [OF 2(2), of len]
  show ?case
    using 2(1) [OF refl refl refl] c 2(3) by (simp add: Let_def memcpy_above del: if_splits)
qed simp

lemma copy_step:
  assumes "p + unat len \<le> 512"
  shows "copy_buffs ((b, len) # bs) p tln buf = copy_buffs bs (p + unat len) (tln + len) (memcpy p (cbuf_mem buf b) (unat len) buf)"
proof -
  have "unat (of_nat p :: u16) = p" using assms by (simp add: unsigned_of_nat take_bit_nat_eq_self)
  then have "unat (ETH_BUF_SIZE - of_nat p) = 512 - p"
    using assms by (subst unat_sub) (simp_all add: ETH_BUF_SIZE_def word_le_nat_alt)
  then have "\<not> len > ETH_BUF_SIZE - of_nat p" using assms by (simp add: word_less_nat_alt)
  then show ?thesis by (simp add: Let_def)
qed

lemma unat_u16_add: "unat a + unat b < 65536 \<Longrightarrow> unat (a + b :: u16) = unat a + unat b"
  by (simp add: unat_word_ariths)

text \<open>The frame \<^verbatim>\<open>send_pkt\<close> puts together when it fits the buffer: two sources of their own, and a third that is one too
  or lies in the buffer where no earlier copy reaches it.\<close>

lemma send_pkt_frame:
  fixes m0 m1 :: mem and ethertype :: u16
  assumes "length dst = 6" "length (local_mac_addr s) = 6"
    and fits: "14 + unat len0 + unat len1 + unat len2 \<le> 512"
    and apart: "\<And>k. b2 = In_eth_buf k \<Longrightarrow> 14 + unat len0 + unat len1 \<le> k"
  defines "F \<equiv> oc_eth_hdr_bytes dst (local_mac_addr s) ethertype @ mem_take m0 (unat len0) @ mem_take m1 (unat len1)
    @ mem_take (cbuf_mem (eth_buf s) b2) (unat len2)"
  shows "\<exists>buf pad. send_pkt dst ethertype (Obj m0) len0 (Obj m1) len1 b2 len2 s
      = s\<lparr>eth_buf := buf, sent := sent s @ [F @ pad]\<rparr>
    \<and> length pad = 64 - length F \<and> mem_take buf (length F) = F \<and> (\<forall>i. length F \<le> i \<longrightarrow> buf i = eth_buf s i)"
proof -
  let ?h = "oc_eth_hdr_bytes dst (local_mac_addr s) ethertype"
  have lh: "length ?h = 14" using assms(1,2) by (simp add: oc_eth_hdr_bytes_def put16_le_def)
  define m_1 where "m_1 = memcpy 0 (mem_of ?h) 14 (eth_buf s)"
  define m_2 where "m_2 = memcpy 14 m0 (unat len0) m_1"
  define m_3 where "m_3 = memcpy (14 + unat len0) m1 (unat len1) m_2"
  define m_4 where "m_4 = memcpy (14 + unat len0 + unat len1) (cbuf_mem m_3 b2) (unat len2) m_3"
  have src: "mem_take (cbuf_mem m_3 b2) (unat len2) = mem_take (cbuf_mem (eth_buf s) b2) (unat len2)"
  proof (cases b2)
    case (In_eth_buf k)
    then show ?thesis
      using apart [OF In_eth_buf]
      by (auto simp: cbuf_mem_def mem_take_def mem_at_def m_3_def m_2_def m_1_def memcpy_above)
  qed (simp add: cbuf_mem_def)
  define n where "n = 14 + unat len0 + unat len1 + unat len2"
  have t1: "mem_take m_1 14 = ?h"
    using mem_take_memcpy [of 0 "mem_of ?h" 14 "eth_buf s"] mem_take_mem_of [of ?h] by (simp add: m_1_def lh)
  have F: "mem_take m_4 n = F"
    unfolding n_def m_4_def mem_take_memcpy src unfolding m_3_def mem_take_memcpy unfolding m_2_def mem_take_memcpy t1 F_def by simp
  have lF: "length F = n" using F by (metis length_mem_take)
  have e: "unat ETH_HLEN = 14" by (simp add: ETH_HLEN_def)
  have c: "copy_buffs [(Obj (mem_of ?h), ETH_HLEN), (Obj m0, len0), (Obj m1, len1), (b2, len2)] 0 0 (eth_buf s)
      = (ETH_HLEN + len0 + len1 + len2, m_4)"
    using fits by (subst copy_step | simp add: e cbuf_mem_def m_1_def [symmetric] m_2_def [symmetric] m_3_def [symmetric] m_4_def)+
  have u: "unat (ETH_HLEN + len0 + len1 + len2) = n"
    using fits by (simp add: n_def unat_u16_add e)
  define tln where "tln = (if ETH_HLEN + len0 + len1 + len2 < 64 then 64 else ETH_HLEN + len0 + len1 + len2)"
  have tot: "unat tln = max 64 n" by (auto simp: tln_def u word_less_nat_alt max_def)
  have up: "m_4 i = eth_buf s i" if "n \<le> i" for i
    using that by (simp add: m_4_def m_3_def m_2_def m_1_def memcpy_above n_def)
  have "mem_take m_4 (unat tln) = F @ mem_take (mem_at m_4 n) (unat tln - n)"
    using mem_take_add [of m_4 n "unat tln - n"] by (simp add: F tot)
  then have "send_pkt dst ethertype (Obj m0) len0 (Obj m1) len1 b2 len2 s
      = s\<lparr>eth_buf := m_4, sent := sent s @ [F @ mem_take (mem_at m_4 n) (unat tln - n)]\<rparr>"
    by (simp add: send_pkt_def c Let_def enc28j60_send_frame_def tln_def [symmetric] del: copy_buffs.simps)
  then show ?thesis using F lF up tot by (intro exI conjI) (assumption | simp add: max_def)+
qed

end
