(* ===== verification/OctoNetProps.thy ===== *)
theory OctoNetProps
  imports OctoNetFacts
begin

unbundle bit_operations_syntax

section \<open>What the OctoClock's network stack does\<close>

text \<open>The frames sent, the dispatch of received ones, the listener registry with its flaws, and the bounds of the buffer.\<close>

subsection \<open>UDP\<close>

definition udp_frame :: "mac \<Rightarrow> mac \<Rightarrow> ip_hdr \<Rightarrow> udp_hdr \<Rightarrow> u8 list \<Rightarrow> u8 list" where
  "udp_frame dst src ip udp payload = dst @ src @ put16 ETHERTYPE_IPV4 @ ip_hdr_bytes ip @ udp_hdr_bytes udp @ payload"

lemma oc_udp_bytes:
  "oc_bytes (oc_udp_hdr_shorts u) = udp_hdr_bytes \<lparr>uh_src = oc_htons (uh_src u), uh_dest = oc_htons (uh_dest u),
     uh_len = oc_htons (uh_len u), uh_chksum = oc_htons (uh_chksum u)\<rparr>"
  by (simp add: oc_bytes_eq oc_udp_hdr_shorts_def udp_hdr_bytes_def)

lemma oc_eth_hdr_wire: "oc_eth_hdr_bytes dst src (oc_htons w) = dst @ src @ put16 w"
  by (simp add: oc_eth_hdr_bytes_def put16_le_eq)

lemma fill_ip_dest: "ih_dest (oc_fill_ip_hdr len proto loc dst h) = dst"
  by (simp add: oc_fill_ip_hdr_def Let_def)

text \<open>What \<^verbatim>\<open>send_ip_pkt\<close> transmits behind a header of eight bytes.\<close>

lemma send_ip_frame:
  assumes "length dmac = 6" "length (local_mac_addr s) = 6" "arp_cache_lookup_mac dst s = Some dmac"
    and fits: "42 + unat len \<le> 512" and apart: "\<And>k. buf = In_eth_buf k \<Longrightarrow> 42 \<le> k"
  shows "\<exists>ip c b pad. send_ip_pkt dst proto (Obj m) 8 buf len s
      = s\<lparr>eth_buf := b, sent := sent s @ [dmac @ local_mac_addr s @ put16 ETHERTYPE_IPV4 @ ip_hdr_bytes ip @ mem_take m 8
          @ mem_take (cbuf_mem (eth_buf s) buf) (unat len) @ pad]\<rparr>
    \<and> length pad = 22 - unat len
    \<and> ip = \<lparr>ih_v_hl_tos = 0x4500, ih_len = 28 + len, ih_id = 0, ih_offset = IP_DF, ih_ttl_proto = proto OR 0x4000,
        ih_chksum = c, ih_src = local_ip_addr s, ih_dest = oc_htonl dst\<rparr>
    \<and> chksum_buffer (ip_hdr_shorts ip) 0 = 0xffff"
proof -
  let ?h = "oc_fill_ip_hdr (28 + len) proto (local_ip_addr s) dst (raw_ip_hdr (stack_junk s))"
  let ?hb = "mem_of (oc_bytes (oc_ip_hdr_shorts ?h))"
  have ib: "mem_take ?hb 20 = ip_hdr_bytes (wire_ip ?h)"
    using mem_take_mem_of [of "ip_hdr_bytes (wire_ip ?h)"] by (simp add: oc_ip_bytes)
  have S: "send_ip_pkt dst proto (Obj m) 8 buf len s
      = send_pkt dmac (oc_htons ETHERTYPE_IPV4) (Obj ?hb) 20 (Obj m) 8 buf len s"
    by (simp add: send_ip_pkt_def Let_def fill_ip_dest assms(3))
  obtain b pad where e: "send_ip_pkt dst proto (Obj m) 8 buf len s
      = s\<lparr>eth_buf := b, sent := sent s @ [dmac @ local_mac_addr s @ put16 ETHERTYPE_IPV4 @ ip_hdr_bytes (wire_ip ?h)
          @ mem_take m 8 @ mem_take (cbuf_mem (eth_buf s) buf) (unat len) @ pad]\<rparr>" "length pad = 22 - unat len"
    using send_pkt_frame [OF assms(1,2), of 20 8 len buf "oc_htons ETHERTYPE_IPV4" ?hb m] fits apart assms(1,2)
    unfolding S oc_eth_hdr_wire by (auto simp: ib)
  then show ?thesis
    using oc_fill_ip_hdr_wire [of "28 + len" proto "local_ip_addr s" dst "raw_ip_hdr (stack_junk s)"]
      oc_fill_ip_hdr_verifies [of "28 + len" proto "local_ip_addr s" dst "raw_ip_hdr (stack_junk s)"] by blast
qed

lemma oc_send_udp_frame:
  assumes "length dmac = 6" "length (local_mac_addr s) = 6" "arp_cache_lookup_mac (sa_addr dst) s = Some dmac"
    and fits: "42 + unat len \<le> 512" and apart: "\<And>k. buf = In_eth_buf k \<Longrightarrow> 42 \<le> k"
  shows "\<exists>ip c b pad. oc_send_udp_pkt sp dst buf len s
      = s\<lparr>eth_buf := b, sent := sent s @ [udp_frame dmac (local_mac_addr s) ip
          \<lparr>uh_src = sp, uh_dest = sa_port dst, uh_len = 8 + len, uh_chksum = 0\<rparr>
          (mem_take (cbuf_mem (eth_buf s) buf) (unat len) @ pad)]\<rparr>
    \<and> length pad = 22 - unat len
    \<and> ip = \<lparr>ih_v_hl_tos = 0x4500, ih_len = 28 + len, ih_id = 0, ih_offset = IP_DF, ih_ttl_proto = 0x4011, ih_chksum = c,
        ih_src = local_ip_addr s, ih_dest = oc_htonl (sa_addr dst)\<rparr>
    \<and> chksum_buffer (ip_hdr_shorts ip) 0 = 0xffff"
proof -
  let ?u = "\<lparr>uh_src = oc_htons sp, uh_dest = oc_htons (sa_port dst), uh_len = oc_htons (8 + len), uh_chksum = 0\<rparr>"
  let ?w = "\<lparr>uh_src = sp, uh_dest = sa_port dst, uh_len = 8 + len, uh_chksum = 0\<rparr>"
  have "mem_take (mem_of (oc_bytes (oc_udp_hdr_shorts ?u))) 8 = udp_hdr_bytes ?w"
    using mem_take_mem_of [of "udp_hdr_bytes ?w"] by (simp add: oc_udp_bytes)
  moreover have "IP_PROTO_UDP OR 0x4000 = 0x4011" by (simp add: IP_PROTO_UDP_def)
  ultimately show ?thesis
    using send_ip_frame [OF assms, where proto = IP_PROTO_UDP and m = "mem_of (oc_bytes (oc_udp_hdr_shorts ?u))"]
    by (simp only: oc_send_udp_pkt_def Let_def udp_frame_def append_assoc)
qed

text \<open>A frame in the buffer.\<close>

lemma in_buffer_mem_at:
  assumes "mem_take buf (length F) = F" "F = xs @ ys @ zs" "i < length ys" "k = length xs"
  shows "mem_at buf k i = mem_of (ys @ rest) i"
proof -
  have "F ! (length xs + i) = ys ! i" using assms by (simp add: nth_append)
  moreover have "mem_take buf (length F) ! (length xs + i) = buf (length xs + i)"
    by (rule mem_take_nth) (use assms(3) in \<open>simp add: assms(2)\<close>)
  ultimately show ?thesis unfolding assms(1) using assms(3,4) by (simp add: mem_at_def mem_of_def nth_append)
qed

lemma ip_hdr_of_cong: "(\<And>i. i < 20 \<Longrightarrow> m i = m' i) \<Longrightarrow> ip_hdr_of m = ip_hdr_of m'"
  by (simp add: ip_hdr_of_def be16_def be32_def)

lemma udp_hdr_of_cong: "(\<And>i. i < 8 \<Longrightarrow> m i = m' i) \<Longrightarrow> udp_hdr_of m = udp_hdr_of m'"
  by (simp add: udp_hdr_of_def be16_def)

lemma oc_udp_hdr_of_eq:
  "oc_udp_hdr_of m = (let h = udp_hdr_of m in \<lparr>uh_src = oc_htons (uh_src h), uh_dest = oc_htons (uh_dest h),
     uh_len = oc_htons (uh_len h), uh_chksum = oc_htons (uh_chksum h)\<rparr>)"
  by (simp add: oc_udp_hdr_of_def udp_hdr_of_def le16_eq Let_def)

lemma udp_frame_parse:
  assumes F: "mem_take (eth_buf t) (length F) = F" "F = udp_frame dmac smac ip udp payload"
    and l: "length dmac = 6" "length smac = 6"
  shows "oc_htons (le16 (eth_buf t) 12) = ETHERTYPE_IPV4"
    and "oc_ip_hdr_of (mem_at (eth_buf t) 14) = wire_ip ip"
    and "oc_udp_hdr_of (mem_at (eth_buf t) 34) = \<lparr>uh_src = oc_htons (uh_src udp), uh_dest = oc_htons (uh_dest udp),
     uh_len = oc_htons (uh_len udp), uh_chksum = oc_htons (uh_chksum udp)\<rparr>"
    and "mem_take (eth_buf t) 6 = dmac" "mem_take (mem_at (eth_buf t) 6) 6 = smac"
    and "mem_take (mem_at (eth_buf t) 42) (length payload) = payload"
proof -
  note b = in_buffer_mem_at [OF F(1), unfolded F(2) udp_frame_def]
  have "be16 (eth_buf t) 12 = be16 (mem_at (eth_buf t) 12) 0" by (simp add: be16_def mem_at_def)
  also have "\<dots> = be16 (mem_of (put16 ETHERTYPE_IPV4 @ [])) 0"
    using b [of "dmac @ smac" "put16 ETHERTYPE_IPV4" "ip_hdr_bytes ip @ udp_hdr_bytes udp @ payload" _ 12 "[]"] l
    by (simp add: be16_def)
  finally show "oc_htons (le16 (eth_buf t) 12) = ETHERTYPE_IPV4" by (simp add: le16_eq be16_put16)
  have "ip_hdr_of (mem_at (eth_buf t) 14) = ip_hdr_of (mem_of (ip_hdr_bytes ip @ []))"
    by (rule ip_hdr_of_cong, rule b [of "dmac @ smac @ put16 ETHERTYPE_IPV4" _ "udp_hdr_bytes udp @ payload"]) (simp_all add: l)
  then show "oc_ip_hdr_of (mem_at (eth_buf t) 14) = wire_ip ip" by (simp only: oc_ip_hdr_of_eq ip_hdr_parse)
  have "udp_hdr_of (mem_at (eth_buf t) 34) = udp_hdr_of (mem_of (udp_hdr_bytes udp @ []))"
    by (rule udp_hdr_of_cong, rule b [of "dmac @ smac @ put16 ETHERTYPE_IPV4 @ ip_hdr_bytes ip" _ payload]) (simp_all add: l)
  then show "oc_udp_hdr_of (mem_at (eth_buf t) 34) = \<lparr>uh_src = oc_htons (uh_src udp), uh_dest = oc_htons (uh_dest udp),
     uh_len = oc_htons (uh_len udp), uh_chksum = oc_htons (uh_chksum udp)\<rparr>"
    unfolding oc_udp_hdr_of_eq udp_hdr_parse by (simp add: Let_def)
  have take: "mem_take (mem_at (eth_buf t) k) (length ys) = ys"
    if "udp_frame dmac smac ip udp payload = xs @ ys @ zs" "k = length xs" for k xs ys zs
    using in_buffer_mem_at [OF F(1), of xs ys zs _ k "[]"] that F(2)
    by (intro nth_equalityI) (simp_all add: mem_of_nth)
  show "mem_take (eth_buf t) 6 = dmac"
    using take [of "[]" dmac] l by (simp add: udp_frame_def)
  show "mem_take (mem_at (eth_buf t) 6) 6 = smac"
    using take [of dmac smac] l by (simp add: udp_frame_def)
  show "mem_take (mem_at (eth_buf t) 42) (length payload) = payload"
    using take [of "dmac @ smac @ put16 ETHERTYPE_IPV4 @ ip_hdr_bytes ip @ udp_hdr_bytes udp" payload "[]"] l
    by (simp add: udp_frame_def)
qed

lemma arp_update_fields [simp]:
  fixes s :: "'a octo_scheme"
  shows "eth_buf (arp_cache_update i m s) = eth_buf s" "listeners (arp_cache_update i m s) = listeners s"
    "local_ip_addr (arp_cache_update i m s) = local_ip_addr s" "local_mac_addr (arp_cache_update i m s) = local_mac_addr s"
    "sent (arp_cache_update i m s) = sent s" "stack_junk (arp_cache_update i m s) = stack_junk s"
  by (simp_all add: arp_cache_update_def arp_cache_alloc_def split: option.split)

lemma udp_frame_received:
  fixes t :: "'a octo_scheme"
  assumes F: "mem_take (eth_buf t) (length F) = F" "F = udp_frame dmac smac ip udp payload"
    and l: "length dmac = 6" "length smac = 6"
    and ip: "ih_v_hl_tos ip = 0x4500" "ih_offset ip = IP_DF" "ih_ttl_proto ip = 0x4011" "ih_dest ip = local_ip_addr t"
  shows "oc_handle_eth_packet run n t =
    (let t' = arp_cache_update (oc_htonl (ih_src ip)) smac t
     in case find_index (\<lambda>e. uh_dest udp = fst e) (listeners t) of
          None \<Rightarrow> Run t'
        | Some i \<Rightarrow> call_listener run i (make_socket_address (oc_htonl (ih_src ip)) (uh_src udp))
            (make_socket_address (oc_htonl (ih_dest ip)) (uh_dest udp)) (Some 42) (n - 42) t')"
proof -
  note p = udp_frame_parse [OF F l]
  have "oc_IPH_V (wire_ip ip) = 4" "oc_IPH_HL (wire_ip ip) = 5" "oc_IPH_OFFSET (wire_ip ip) = IP_DF"
    "oc_IPH_PROTO (wire_ip ip) = IP_PROTO_UDP" "ih_dest (wire_ip ip) = oc_htonl (local_ip_addr t)"
    "ih_src (wire_ip ip) = oc_htonl (ih_src ip)"
    using ip by (simp_all add: oc_IPH_V_def oc_IPH_HL_def oc_IPH_OFFSET_def oc_IPH_PROTO_def wire_ip_def IP_PROTO_UDP_def)
  then show ?thesis
    by (simp add: oc_handle_eth_packet_def p Let_def oc_handle_udp_packet_def find_listener_by_port_def ETH_HLEN_def
        ip(4) split: option.split)
qed

text \<open>C26. A UDP datagram sent by one OctoClock stack and received by another runs the receiver registered for its port,
  with the addresses and ports of both ends, the payload in place, and the sender's address in the cache, so that the
  answer finds its way; the IPv4 header has a checksum that is right for any reader, although it was computed with the
  bytes of each word swapped.  (The length the receiver is told is that of the frame, with the padding of a
  short one.)\<close>

theorem octo_udp_end_to_end:
  fixes s :: "'a octo_scheme" and t :: "'b octo_scheme"
  assumes macs: "length (local_mac_addr s) = 6" "length dmac = 6"
    and known: "arp_cache_lookup_mac (oc_htonl (local_ip_addr t)) s = Some dmac" and fits: "42 + unat len \<le> 512"
    and received: "sent (oc_send_udp_pkt sp \<lparr>sa_port = p, sa_addr = oc_htonl (local_ip_addr t)\<rparr> (Obj m) len s) = sent s @ [f]"
      "mem_take (eth_buf t) (length f) = f" "arp_cache_ok t"
    and listener: "find_index (\<lambda>e. p = fst e) (listeners t) = Some i" "listeners t ! i = (p, Some r)"
  defines "src \<equiv> oc_htonl (local_ip_addr s)"
  defines "t' \<equiv> arp_cache_update src (local_mac_addr s) t"
  shows "oc_handle_eth_packet run (of_nat (length f)) t
      = run r \<lparr>sa_port = sp, sa_addr = src\<rparr> \<lparr>sa_port = p, sa_addr = oc_htonl (local_ip_addr t)\<rparr> (Some 42)
          (of_nat (length f) - 42) t'
    \<and> mem_take (mem_at (eth_buf t') 42) (unat len) = mem_take m (unat len) \<and> length f = max 64 (42 + unat len)
    \<and> arp_cache_lookup_mac src t' = Some (local_mac_addr s)
    \<and> chksum_buffer (ip_hdr_shorts (ip_hdr_of (mem_at (eth_buf t') 14))) 0 = 0xffff"
proof -
  obtain ip c b pad where send: "oc_send_udp_pkt sp \<lparr>sa_port = p, sa_addr = oc_htonl (local_ip_addr t)\<rparr> (Obj m) len s
      = s\<lparr>eth_buf := b, sent := sent s @ [udp_frame dmac (local_mac_addr s) ip
          \<lparr>uh_src = sp, uh_dest = p, uh_len = 8 + len, uh_chksum = 0\<rparr> (mem_take m (unat len) @ pad)]\<rparr>"
    and pad: "length pad = 22 - unat len"
    and ip: "ip = \<lparr>ih_v_hl_tos = 0x4500, ih_len = 28 + len, ih_id = 0, ih_offset = IP_DF, ih_ttl_proto = 0x4011, ih_chksum = c,
        ih_src = local_ip_addr s, ih_dest = local_ip_addr t\<rparr>" "chksum_buffer (ip_hdr_shorts ip) 0 = 0xffff"
    using oc_send_udp_frame [of dmac s "\<lparr>sa_port = p, sa_addr = oc_htonl (local_ip_addr t)\<rparr>" len "Obj m" sp] macs known fits
    by (auto simp: cbuf_mem_def)
  have f: "f = udp_frame dmac (local_mac_addr s) ip \<lparr>uh_src = sp, uh_dest = p, uh_len = 8 + len, uh_chksum = 0\<rparr>
      (mem_take m (unat len) @ pad)"
    using received(1) unfolding send by simp
  note parse = udp_frame_parse [OF received(2) f macs(2,1)]
  have lf: "length f = 42 + length (mem_take m (unat len) @ pad)"
    unfolding f using macs by (simp add: udp_frame_def)
  have pay: "mem_take (mem_at (eth_buf t) 42) (unat len) = mem_take m (unat len)"
    using arg_cong [OF parse(6), of "take (unat len)"] by (simp add: mem_take_def take_map)
  have ipw: "ip_hdr_of (mem_at (eth_buf t) 14) = ip"
    using parse(2) unfolding oc_ip_hdr_of_eq by (metis wire_ip_twice)
  show ?thesis
    using listener pay ip(2) lookup_mac_update_same [OF received(3)] pad lf
    unfolding udp_frame_received [OF received(2) f macs(2,1), unfolded ip(1), simplified]
    by (simp add: call_listener_def t'_def src_def make_socket_address_def ipw Let_def max_def)
qed

lemma arp_cache_ok_more [simp]: "arp_cache_ok (s\<lparr>eth_buf := b\<rparr>) = arp_cache_ok s" "arp_cache_ok (s\<lparr>listeners := l\<rparr>) = arp_cache_ok s"
  by (simp_all add: arp_cache_ok_def)

lemma octo_udp_end_to_end_witness:
  "let s = arp_cache_update (oc_htonl 2) [2, 0, 0, 0, 0, 2] (octo_demo 1 [2, 0, 0, 0, 0, 1]);
       f = last (sent (oc_send_udp_pkt 7 \<lparr>sa_port = 50000, sa_addr = oc_htonl 2\<rparr> (Obj no_mem) 5 s));
       t = (octo_demo 2 [2, 0, 0, 0, 0, 2])\<lparr>listeners := [(50000, Some Udp_ctrl)], eth_buf := mem_of f\<rparr>
   in oc_handle_eth_packet (\<lambda>r src dst pl n t. Run t) (of_nat (length f)) t
        = Run (arp_cache_update (oc_htonl 1) [2, 0, 0, 0, 0, 1] t) \<and> length f = 64"
proof -
  let ?s = "arp_cache_update (oc_htonl 2) [2, 0, 0, 0, 0, 2] (octo_demo 1 [2, 0, 0, 0, 0, 1])"
  let ?s' = "oc_send_udp_pkt 7 \<lparr>sa_port = 50000, sa_addr = oc_htonl 2\<rparr> (Obj no_mem) 5 ?s"
  let ?t = "(octo_demo 2 [2, 0, 0, 0, 0, 2])\<lparr>listeners := [(50000, Some Udp_ctrl)], eth_buf := mem_of (last (sent ?s'))\<rparr>"
  have known: "arp_cache_lookup_mac (oc_htonl (local_ip_addr ?t)) ?s = Some [2, 0, 0, 0, 0, 2]"
    using lookup_mac_update_same [of "octo_demo 1 [2, 0, 0, 0, 0, 1]" "oc_htonl 2"] by simp
  have "\<exists>f. sent ?s' = sent ?s @ [f]"
    using oc_send_udp_frame [of "[2, 0, 0, 0, 0, 2]" ?s "\<lparr>sa_port = 50000, sa_addr = oc_htonl 2\<rparr>" 5 "Obj no_mem" 7] known by force
  then obtain f where f: "sent ?s' = sent ?s @ [f]" by blast
  have r: "oc_handle_eth_packet (\<lambda>r src dst pl n t. Run t) (of_nat (length f)) (?t\<lparr>eth_buf := mem_of f\<rparr>)
      = Run (arp_cache_update (oc_htonl 1) [2, 0, 0, 0, 0, 1] (?t\<lparr>eth_buf := mem_of f\<rparr>)) \<and> length f = 64"
    using octo_udp_end_to_end [of ?s "[2, 0, 0, 0, 0, 2]" "?t\<lparr>eth_buf := mem_of f\<rparr>" 5 7 50000 no_mem f 0 Udp_ctrl "\<lambda>r src dst pl n t. Run t"] known
      mem_take_mem_of [of f] f by auto
  then show ?thesis using r [THEN conjunct1] r [THEN conjunct2] f by (simp add: Let_def)
qed

lemma udp_of_8: "length bs = 8 \<Longrightarrow> \<exists>udp. bs = udp_hdr_bytes udp"
proof -
  assume "length bs = 8"
  then obtain a b c d e f g h where "bs = [a, b, c, d, e, f, g, h]"
    by (auto simp: numeral_eq_Suc length_Suc_conv)
  then have "bs = udp_hdr_bytes \<lparr>uh_src = word_cat a b, uh_dest = word_cat c d, uh_len = word_cat e f, uh_chksum = word_cat g h\<rparr>"
    by (simp add: udp_hdr_bytes_def put16_def bytes_simps)
  then show ?thesis ..
qed

subsection \<open>The listener registry\<close>

lemma find_index_replicate_None: "find_index P (replicate n x) = (if P x \<and> n > 0 then Some 0 else None)"
  by (induction n) auto

lemma replicate_10: "replicate 10 x = x # x # replicate 8 x"
  by (simp add: numeral_eq_Suc)

lemma ports_registered:
  assumes "listeners s = replicate 10 (0, None)"
  shows "and_then (register_udp_listener 50000 Udp_ctrl s) (register_udp_listener 50001 Udp_gpsdo)
    = Run (s\<lparr>listeners := [(50000, Some Udp_ctrl), (50001, Some Udp_gpsdo)] @ replicate 8 (0, None)\<rparr>)"
proof -
  have p: "oc_htons 50000 = 0x50C3" "oc_htons 50001 = 0x51C3" by (simp_all add: oc_htons_def)
  show ?thesis
    using assms
    by (simp add: register_udp_listener_def find_listener_by_port_def find_free_listener_def p replicate_10 find_index_replicate_None)
qed

text \<open>C27. The table of listeners starts out with port 0 in every entry and no receiver, and the search for a port does not look
  at the receiver.  So after the application has registered its two ports, a UDP packet for port 0 finds a free entry,
  and the processor calls through its null pointer: one packet stops the device.\<close>

theorem octo_port_zero_calls_null:
  assumes "listeners s = replicate 10 (0, None)"
  shows "\<exists>t. and_then (register_udp_listener 50000 Udp_ctrl (network_init s)) (register_udp_listener 50001 Udp_gpsdo) = Run t
    \<and> (\<forall>F dmac smac ip udp payload n. F = udp_frame dmac smac ip udp payload \<and> length dmac = 6 \<and> length smac = 6
        \<and> ih_v_hl_tos ip = 0x4500 \<and> ih_offset ip = IP_DF \<and> ih_ttl_proto ip = 0x4011 \<and> ih_dest ip = local_ip_addr t
        \<and> uh_dest udp = 0
        \<longrightarrow> (\<exists>t'. oc_handle_eth_packet run n (t\<lparr>eth_buf := mem_of F\<rparr>) = Stop Null_call t'))"
proof -
  let ?l = "[(50000, Some Udp_ctrl), (50001, Some Udp_gpsdo)] @ replicate 8 (0, None)"
  let ?t = "(network_init s)\<lparr>listeners := ?l\<rparr>"
  have i: "listeners (network_init s) = replicate 10 (0, None)"
    using assms by (simp add: network_init_def init_udp_listeners_def Let_def)
  note r = ports_registered [OF i]
  have "\<exists>t'. oc_handle_eth_packet run n (?t\<lparr>eth_buf := mem_of F\<rparr>) = Stop Null_call t'"
    if "F = udp_frame dmac smac ip udp payload" "length dmac = 6" "length smac = 6"
      "ih_v_hl_tos ip = 0x4500" "ih_offset ip = IP_DF" "ih_ttl_proto ip = 0x4011" "ih_dest ip = local_ip_addr ?t" "uh_dest udp = 0"
    for F dmac smac ip udp payload n
    using udp_frame_received [of "?t\<lparr>eth_buf := mem_of F\<rparr>" F, OF _ that(1-6), of run n] that(7,8) mem_take_mem_of [of F]
    by (simp add: call_listener_def find_index_replicate_None Let_def)
  then show ?thesis using r by (intro exI [of _ ?t]) blast
qed

lemma octo_port_zero_calls_null_witness:
  "\<exists>t. and_then (register_udp_listener 50000 Udp_ctrl (network_init (octo_demo 1 []))) (register_udp_listener 50001 Udp_gpsdo) = Run t"
  using octo_port_zero_calls_null [of "octo_demo 1 []", where run = "\<lambda>r src dst pl n u. Run u"] by auto

text \<open>A second registration of a port does not find the first, because the search swaps the bytes of its argument: it takes
  another entry, which no packet ever reaches.\<close>

lemma registered_again:
  assumes "register_udp_listener p r1 s = Run s1" "register_udp_listener p r2 s1 = Run s2"
    and "\<forall>e \<in> set (listeners s). fst e \<noteq> p \<and> fst e \<noteq> oc_htons p" "oc_htons p \<noteq> p"
  shows "\<exists>i. find_index (\<lambda>e. p = fst e) (listeners s2) = Some i \<and> listeners s2 ! i = (p, Some r1)"
proof -
  have fresh: "fst (listeners s ! k) \<noteq> p" if "k < length (listeners s)" for k
    using assms(3) that nth_mem by blast
  have n: "find_index (\<lambda>e. oc_htons p = fst e) (listeners s) = None"
    using assms(3) by (auto simp: find_index_None_iff)
  then obtain i where i: "find_index (\<lambda>e. snd e = None) (listeners s) = Some i" "s1 = s\<lparr>listeners := (listeners s)[i := (p, Some r1)]\<rparr>"
    using assms(1) by (auto simp: register_udp_listener_def find_listener_by_port_def find_free_listener_def split: option.splits)
  have il: "i < length (listeners s)" using i(1) by (rule find_index_bound)
  have n1: "find_index (\<lambda>e. oc_htons p = fst e) (listeners s1) = None"
    using assms(3,4) set_update_subset_insert [of "listeners s" i "(p, Some r1)"]
    by (auto simp: find_index_None_iff i(2) dest!: subsetD)
  then obtain j where j: "find_index (\<lambda>e. snd e = None) (listeners s1) = Some j" "s2 = s1\<lparr>listeners := (listeners s1)[j := (p, Some r2)]\<rparr>"
    using assms(2) by (auto simp: register_udp_listener_def find_listener_by_port_def find_free_listener_def split: option.splits)
  have "i < j"
  proof (rule ccontr)
    assume "\<not> i < j"
    moreover have "snd (listeners s1 ! j) = None" using j(1) by (simp add: find_index_Some_iff)
    ultimately have "j < i" "snd (listeners s ! j) = None" using il by (auto simp: i(2) nth_list_update split: if_splits)
    then show False using i(1) by (auto simp: find_index_Some_iff)
  qed
  then have "find_index (\<lambda>e. p = fst e) (listeners s2) = Some i"
    unfolding find_index_Some_iff using il fresh [symmetric] by (simp add: j(2) i(2))
  then show ?thesis using \<open>i < j\<close> il by (auto simp: j(2) i(2))
qed

subsection \<open>Echo\<close>

definition icmp_frame :: "mac \<Rightarrow> mac \<Rightarrow> ip_hdr \<Rightarrow> icmp_echo_hdr \<Rightarrow> u8 list \<Rightarrow> u8 list" where
  "icmp_frame dst src ip ic data = dst @ src @ put16 ETHERTYPE_IPV4 @ ip_hdr_bytes ip @ icmp_hdr_bytes ic @ data"

lemma icmp_hdr_of_cong: "(\<And>i. i < 8 \<Longrightarrow> m i = m' i) \<Longrightarrow> icmp_hdr_of m = icmp_hdr_of m'"
  by (simp add: icmp_hdr_of_def be16_def)

lemma oc_icmp_hdr_of_eq:
  "oc_icmp_hdr_of m = (icmp_hdr_of m)\<lparr>ic_chksum := oc_htons (ic_chksum (icmp_hdr_of m)),
     ic_id := oc_htons (ic_id (icmp_hdr_of m)), ic_seqno := oc_htons (ic_seqno (icmp_hdr_of m))\<rparr>"
  by (simp add: oc_icmp_hdr_of_def icmp_hdr_of_def le16_eq)

lemma oc_icmp_shorts_wire:
  "map oc_htons (oc_icmp_hdr_shorts h) = icmp_hdr_shorts (h\<lparr>ic_chksum := oc_htons (ic_chksum h),
     ic_id := oc_htons (ic_id h), ic_seqno := oc_htons (ic_seqno h)\<rparr>)"
  by (simp add: oc_icmp_hdr_shorts_def icmp_hdr_shorts_def oc_htons_bytes bytes_simps)

lemma oc_shorts_of_eq: "oc_shorts_of m n = map oc_htons (shorts_of m n)"
  by (simp add: oc_shorts_of_def shorts_of_def le16_eq)

lemma icmp_frame_parse:
  assumes F: "mem_take (eth_buf t) (length F) = F" "F = icmp_frame dmac smac ip ic data"
    and l: "length dmac = 6" "length smac = 6"
  shows "oc_htons (le16 (eth_buf t) 12) = ETHERTYPE_IPV4"
    and "oc_ip_hdr_of (mem_at (eth_buf t) 14) = wire_ip ip"
    and "icmp_hdr_of (mem_at (eth_buf t) 34) = ic"
    and "mem_take (mem_at (eth_buf t) 6) 6 = smac"
    and "mem_take (mem_at (eth_buf t) 42) (length data) = data"
proof -
  obtain udp payload where u: "icmp_hdr_bytes ic @ data = udp_hdr_bytes udp @ payload" "payload = data"
    using udp_of_8 [of "icmp_hdr_bytes ic"] by auto
  have F': "F = udp_frame dmac smac ip udp payload" using F(2) u(1) by (simp add: icmp_frame_def udp_frame_def)
  note p = udp_frame_parse [OF F(1) F' l]
  show "oc_htons (le16 (eth_buf t) 12) = ETHERTYPE_IPV4" "oc_ip_hdr_of (mem_at (eth_buf t) 14) = wire_ip ip"
    "mem_take (mem_at (eth_buf t) 6) 6 = smac" "mem_take (mem_at (eth_buf t) 42) (length data) = data"
    using p u(2) by simp_all
  have "icmp_hdr_of (mem_at (eth_buf t) 34) = icmp_hdr_of (mem_of (icmp_hdr_bytes ic @ []))"
    by (rule icmp_hdr_of_cong, rule in_buffer_mem_at [OF F(1), unfolded F(2) icmp_frame_def, of "dmac @ smac @ put16 ETHERTYPE_IPV4 @ ip_hdr_bytes ip" _ data])
      (simp_all add: l)
  then show "icmp_hdr_of (mem_at (eth_buf t) 34) = ic" by (simp only: icmp_hdr_parse)
qed

lemma shorts_of_take: "mem_take m k = data \<Longrightarrow> 2 * n \<le> k \<Longrightarrow> shorts_of m n = shorts_of (mem_of data) n"
  by (rule shorts_of_cong) (auto simp: mem_of_def)

text \<open>What the reply's checksum closes.\<close>

lemma echo_chksum:
  assumes "length ds < 32768"
    and "h = \<lparr>ic_type = 0, ic_code = 0, ic_chksum = 0, ic_id = i, ic_seqno = q\<rparr>"
    and "c = ucast (NOT (oc_chksum_buffer ds (oc_chksum_buffer (oc_icmp_hdr_shorts h) 0)))"
  shows "chksum_buffer (icmp_hdr_shorts \<lparr>ic_type = 0, ic_code = 0, ic_chksum = oc_htons c, ic_id = oc_htons i, ic_seqno = oc_htons q\<rparr>
    @ map oc_htons ds) 0 = 0xffff"
proof -
  let ?hs = "[0 :: u16, 0, i, q]"
  have hs: "oc_icmp_hdr_shorts h = ?hs" unfolding assms(2) by (simp add: oc_icmp_hdr_shorts_def)
  have len: "65535 * (length ?hs + length ds + 1) < 2 ^ 32" using assms(1) by simp
  have sum: "sum_list (map unat (?hs @ ds)) = sum_list (map unat ([0] @ [i, q] @ ds))" by simp
  note cc = chksum_two_parts [OF len, unfolded sum]
  have c: "c = ucast (NOT (chksum_buffer ds (chksum_buffer ?hs 0)))"
    unfolding assms(3) hs by (simp add: oc_chksum_buffer_def chksum_buffer_def)
  have v: "chksum_buffer ([0] @ c # [i, q] @ ds) 0 = 0xffff"
    unfolding c
  proof (rule chksum_close)
    show "65535 * (length [0 :: u16] + length ([i, q] @ ds) + 1) < 2 ^ 32" using assms(1) by simp
  qed (rule cc)+
  have "icmp_hdr_shorts \<lparr>ic_type = 0, ic_code = 0, ic_chksum = oc_htons c, ic_id = oc_htons i, ic_seqno = oc_htons q\<rparr>
    @ map oc_htons ds = map oc_htons ([0] @ c # [i, q] @ ds)"
    by (simp add: icmp_hdr_shorts_def)
  then show ?thesis using v verifies_swapped [of "[0] @ c # [i, q] @ ds"] assms(1) by simp
qed

lemma icmp_echo_received:
  fixes s :: "'a octo_scheme"
  assumes F: "mem_take (eth_buf s) (length F) = F" "F = icmp_frame dmac smac ip ic data" "length F \<le> 512"
    and l: "length dmac = 6" "length smac = 6"
    and ip: "ih_v_hl_tos ip = 0x4500" "ih_offset ip = IP_DF" "ih_ttl_proto ip = 0x4001" "ih_dest ip = local_ip_addr s"
    and echo: "ic_type ic = ICMP_ECHO"
  shows "\<exists>c. oc_handle_eth_packet run (of_nat (length F)) s
      = Run (send_ip_pkt (oc_htonl (ih_src ip)) IP_PROTO_ICMP (Obj (mem_of (icmp_hdr_bytes
          \<lparr>ic_type = 0, ic_code = 0, ic_chksum = c, ic_id = ic_id ic, ic_seqno = ic_seqno ic\<rparr>))) 8
          (In_eth_buf 42) (of_nat (length data)) (arp_cache_update (oc_htonl (ih_src ip)) smac s))
    \<and> chksum_buffer (icmp_hdr_shorts \<lparr>ic_type = 0, ic_code = 0, ic_chksum = c, ic_id = ic_id ic, ic_seqno = ic_seqno ic\<rparr>
        @ shorts_of (mem_of data) (length data div 2)) 0 = 0xffff"
proof -
  note p = icmp_frame_parse [OF F(1,2) l]
  have lF: "length F = 42 + length data" using F(2) l by (simp add: icmp_frame_def)
  then have n2: "unat ((of_nat (length data) :: u16) div 2) = length data div 2"
    using F(3) by (simp add: unat_div unsigned_of_nat take_bit_nat_eq_self)
  have sub: "of_nat (length F) - ETH_HLEN - 20 - 8 = (of_nat (length data) :: u16)" by (simp add: lF ETH_HLEN_def)
  define t where "t = arp_cache_update (oc_htonl (ih_src ip)) smac s"
  define h where "h = \<lparr>ic_type = 0, ic_code = 0, ic_chksum = 0, ic_id = oc_htons (ic_id ic), ic_seqno = oc_htons (ic_seqno ic)\<rparr>"
  define ds where "ds = oc_shorts_of (mem_at (eth_buf t) 42) (length data div 2)"
  define c where "c = (ucast (NOT (oc_chksum_buffer ds (oc_chksum_buffer (oc_icmp_hdr_shorts h) 0))) :: u16)"
  let ?ic = "\<lparr>ic_type = 0, ic_code = 0, ic_chksum = oc_htons c, ic_id = ic_id ic, ic_seqno = ic_seqno ic\<rparr>"
  have ds: "map oc_htons ds = shorts_of (mem_of data) (length data div 2)"
    using shorts_of_take [OF p(5), of "length data div 2"] by (simp add: ds_def oc_shorts_of_eq o_def t_def)
  have "length ds < 32768" using lF F(3) by (simp add: ds_def oc_shorts_of_def)
  from echo_chksum [OF this h_def c_def]
  have chk: "chksum_buffer (icmp_hdr_shorts ?ic @ shorts_of (mem_of data) (length data div 2)) 0 = 0xffff" by (simp add: ds)
  have icb: "oc_bytes (oc_icmp_hdr_shorts (h\<lparr>ic_chksum := c\<rparr>)) = icmp_hdr_bytes ?ic"
    by (simp add: oc_bytes_eq oc_icmp_shorts_wire icmp_hdr_bytes_shorts h_def icmp_hdr_shorts_def)
  have "oc_IPH_V (wire_ip ip) = 4" "oc_IPH_HL (wire_ip ip) = 5" "oc_IPH_OFFSET (wire_ip ip) = IP_DF"
    "oc_IPH_PROTO (wire_ip ip) = IP_PROTO_ICMP" "ih_dest (wire_ip ip) = oc_htonl (local_ip_addr s)"
    "ih_src (wire_ip ip) = oc_htonl (ih_src ip)"
    using ip by (simp_all add: oc_IPH_V_def oc_IPH_HL_def oc_IPH_OFFSET_def oc_IPH_PROTO_def wire_ip_def IP_PROTO_ICMP_def)
  then have "oc_handle_eth_packet run (of_nat (length F)) s
      = oc_handle_icmp_packet run (oc_htonl (ih_src ip)) (oc_htonl (local_ip_addr s)) 34 (of_nat (length F) - ETH_HLEN - 20) t"
    by (simp add: oc_handle_eth_packet_def p Let_def t_def)
  also have "\<dots> = Run (send_ip_pkt (oc_htonl (ih_src ip)) IP_PROTO_ICMP (Obj (mem_of (icmp_hdr_bytes ?ic))) 8
      (In_eth_buf 42) (of_nat (length data)) t)"
    using echo p(3) unfolding oc_handle_icmp_packet_def oc_icmp_hdr_of_eq sub Let_def icb [symmetric]
    by (simp add: t_def ICMP_DUR_def ICMP_ECHO_def n2 h_def c_def ds_def)
  finally show ?thesis using chk unfolding t_def by blast
qed

text \<open>An echo request for the device's address is answered with an echo reply to its sender, with the identifier, the
  sequence number and the data of the request; the data is copied from the very buffer the reply is put
  together in, without being overwritten first.  The reply's IPv4 header and its ICMP checksum are right, the
  latter over the data's whole 16-bit words: the last byte of an odd number is not summed.\<close>

theorem octo_icmp_echo:
  fixes s :: "'a octo_scheme"
  assumes F: "mem_take (eth_buf s) (length F) = F" "F = icmp_frame dmac smac ip ic data" "length F \<le> 512"
    and l: "length dmac = 6" "length smac = 6" "length (local_mac_addr s) = 6"
    and ip: "ih_v_hl_tos ip = 0x4500" "ih_offset ip = IP_DF" "ih_ttl_proto ip = 0x4001" "ih_dest ip = local_ip_addr s"
    and echo: "ic_type ic = ICMP_ECHO" and ok: "arp_cache_ok s"
  shows "\<exists>s' ip' c pad. oc_handle_eth_packet run (of_nat (length F)) s = Run s'
    \<and> (let ic' = \<lparr>ic_type = 0, ic_code = 0, ic_chksum = c, ic_id = ic_id ic, ic_seqno = ic_seqno ic\<rparr>
       in sent s' = sent s @ [icmp_frame smac (local_mac_addr s) ip' ic' (data @ pad)]
        \<and> chksum_buffer (icmp_hdr_shorts ic' @ shorts_of (mem_of data) (length data div 2)) 0 = 0xffff)
    \<and> length pad = 22 - length data \<and> ih_src ip' = local_ip_addr s \<and> ih_dest ip' = ih_src ip
    \<and> ih_len ip' = of_nat (28 + length data) \<and> chksum_buffer (ip_hdr_shorts ip') 0 = 0xffff"
proof -
  let ?src = "oc_htonl (ih_src ip)" and ?n = "of_nat (length data) :: u16"
  let ?t = "arp_cache_update ?src smac s"
  obtain c where c: "oc_handle_eth_packet run (of_nat (length F)) s
      = Run (send_ip_pkt ?src IP_PROTO_ICMP (Obj (mem_of (icmp_hdr_bytes
          \<lparr>ic_type = 0, ic_code = 0, ic_chksum = c, ic_id = ic_id ic, ic_seqno = ic_seqno ic\<rparr>))) 8 (In_eth_buf 42) ?n ?t)"
    "chksum_buffer (icmp_hdr_shorts \<lparr>ic_type = 0, ic_code = 0, ic_chksum = c, ic_id = ic_id ic, ic_seqno = ic_seqno ic\<rparr>
        @ shorts_of (mem_of data) (length data div 2)) 0 = 0xffff"
    using icmp_echo_received [OF F l(1,2) ip echo] by blast
  let ?ic = "\<lparr>ic_type = 0, ic_code = 0, ic_chksum = c, ic_id = ic_id ic, ic_seqno = ic_seqno ic\<rparr>"
  have n: "unat ?n = length data" and fits: "42 + unat ?n \<le> 512"
    using F(2,3) l by (simp_all add: icmp_frame_def unsigned_of_nat take_bit_nat_eq_self)
  have icb: "mem_take (mem_of (icmp_hdr_bytes ?ic)) 8 = icmp_hdr_bytes ?ic"
    using mem_take_mem_of [of "icmp_hdr_bytes ?ic"] by simp
  have data: "mem_take (cbuf_mem (eth_buf ?t) (In_eth_buf 42)) (length data) = data"
    using icmp_frame_parse(5) [OF F(1,2) l(1,2)] by (simp add: cbuf_mem_def)
  have "length (local_mac_addr ?t) = 6" using l by simp
  note sent = send_ip_frame [OF l(2) this lookup_mac_update_same [OF ok] fits, where buf = "In_eth_buf 42"
      and proto = IP_PROTO_ICMP and m = "mem_of (icmp_hdr_bytes ?ic)", unfolded icb n data cbuf.inject]
  obtain ip' b pad c' where e: "send_ip_pkt ?src IP_PROTO_ICMP (Obj (mem_of (icmp_hdr_bytes ?ic))) 8 (In_eth_buf 42) ?n ?t
      = ?t\<lparr>eth_buf := b, sent := sent ?t @ [icmp_frame smac (local_mac_addr ?t) ip' ?ic (data @ pad)]\<rparr>"
    "length pad = 22 - length data" "ih_src ip' = local_ip_addr ?t" "ih_dest ip' = oc_htonl ?src" "ih_len ip' = 28 + ?n"
    "chksum_buffer (ip_hdr_shorts ip') 0 = 0xffff"
    using sent unfolding icmp_frame_def by (elim exE conjE meta_impE) simp_all
  show ?thesis
    by (intro exI [of _ "?t\<lparr>eth_buf := b, sent := sent ?t @ [icmp_frame smac (local_mac_addr ?t) ip' ?ic (data @ pad)]\<rparr>"]
        exI [of _ ip'] exI [of _ c] exI [of _ pad]) (simp add: c e Let_def)
qed

lemma octo_icmp_echo_witness:
  "\<exists>s' reply. oc_handle_eth_packet (\<lambda>r src dst pl n u. Run u) 45 ((octo_demo 1 [2, 0, 0, 0, 0, 1])\<lparr>eth_buf :=
      mem_of (icmp_frame [2, 0, 0, 0, 0, 1] [2, 0, 0, 0, 0, 9]
        \<lparr>ih_v_hl_tos = 0x4500, ih_len = 31, ih_id = 0, ih_offset = IP_DF, ih_ttl_proto = 0x4001, ih_chksum = 0, ih_src = 9, ih_dest = 1\<rparr>
        \<lparr>ic_type = ICMP_ECHO, ic_code = 0, ic_chksum = 0, ic_id = 7, ic_seqno = 3\<rparr> [10, 20, 30])\<rparr>) = Run s'
     \<and> sent s' = [reply] \<and> take 6 reply = [2, 0, 0, 0, 0, 9]"
proof -
  let ?ip = "\<lparr>ih_v_hl_tos = 0x4500, ih_len = 31, ih_id = 0, ih_offset = IP_DF, ih_ttl_proto = 0x4001, ih_chksum = 0, ih_src = 9, ih_dest = 1\<rparr>"
  let ?ic = "\<lparr>ic_type = ICMP_ECHO, ic_code = 0, ic_chksum = 0, ic_id = 7, ic_seqno = 3\<rparr>"
  let ?F = "icmp_frame [2, 0, 0, 0, 0, 1] [2, 0, 0, 0, 0, 9] ?ip ?ic [10, 20, 30]"
  let ?s = "(octo_demo 1 [2, 0, 0, 0, 0, 1])\<lparr>eth_buf := mem_of ?F\<rparr>"
  have "length ?F = 45" by (simp add: icmp_frame_def)
  moreover have "mem_take (eth_buf ?s) (length ?F) = ?F" using mem_take_mem_of [of ?F] by simp
  ultimately show ?thesis
    using octo_icmp_echo [of ?s ?F "[2, 0, 0, 0, 0, 1]" "[2, 0, 0, 0, 0, 9]" ?ip ?ic "[10, 20, 30]" "\<lambda>r src dst pl n u. Run u"]
    by (auto simp: icmp_frame_def Let_def)
qed

subsection \<open>Bounds\<close>

fun final :: "'s outcome \<Rightarrow> 's" where
  "final (Run s) = s"
| "final (Stop c s) = s"

lemma send_pkt_bounds: "512 \<le> i \<Longrightarrow> eth_buf (send_pkt dst et b0 l0 b1 l1 b2 l2 s) i = eth_buf s i"
  using copy_buffs_bounds [of 0 i "[(Obj (mem_of (oc_eth_hdr_bytes dst (local_mac_addr s) et)), ETH_HLEN), (b0, l0), (b1, l1), (b2, l2)]" 0 "eth_buf s"]
  by (simp add: send_pkt_def enc28j60_send_frame_def Let_def case_prod_unfold del: copy_buffs.simps)

lemma send_ip_pkt_bounds: "512 \<le> i \<Longrightarrow> eth_buf (send_ip_pkt dst pr b0 l0 b1 l1 s) i = eth_buf s i"
  by (simp add: send_ip_pkt_def Let_def send_pkt_bounds split: option.split)

text \<open>C28. Nothing is ever written behind the 512 bytes of the Ethernet buffer: whatever the length and the content of
  a received frame, and whatever lengths and pointers a sender passes, also when their sum wraps around
  in 16 bits, as it does for an echo request shorter than its own header.\<close>

theorem octo_buffer_bounds:
  assumes "512 \<le> i" "\<And>r src dst pl n u. eth_buf (final (run r src dst pl n u)) i = eth_buf u i"
  shows "eth_buf (final (oc_handle_eth_packet run recv_len s)) i = eth_buf s i
    \<and> eth_buf (oc_send_udp_pkt sp dst b len s) i = eth_buf s i
    \<and> eth_buf (send_gratuitous_arp s) i = eth_buf s i"
proof (intro conjI)
  have c: "eth_buf (final (call_listener run j src dst pl n u)) i = eth_buf u i" for j src dst pl n u
    by (simp add: call_listener_def assms(2) split: option.split)
  have u: "eth_buf (final (oc_handle_udp_packet run a d k n u)) i = eth_buf u i" for a d k n u
    by (simp add: oc_handle_udp_packet_def Let_def c split: option.split)
  have ic: "eth_buf (final (oc_handle_icmp_packet run a d k n u)) i = eth_buf u i" for a d k n u
    by (simp add: oc_handle_icmp_packet_def Let_def c send_ip_pkt_bounds [OF assms(1)] split: option.split)
  have arp: "eth_buf (oc_handle_arp_packet k n u) i = eth_buf u i" for k n u
    by (simp add: oc_handle_arp_packet_def Let_def oc_send_arp_reply_def send_pkt_bounds [OF assms(1)])
  show "eth_buf (final (oc_handle_eth_packet run recv_len s)) i = eth_buf s i"
    unfolding oc_handle_eth_packet_def Let_def by (simp add: u ic arp)
qed (simp_all add: oc_send_udp_pkt_def send_ip_pkt_bounds [OF assms(1)] send_gratuitous_arp_def send_pkt_bounds [OF assms(1)] Let_def)

lemma octo_buffer_bounds_witness:
  "eth_buf (final (oc_handle_eth_packet (\<lambda>r src dst pl n u. Run u) 35 (octo_demo 1 []))) 600 = 0"
  using octo_buffer_bounds [of 600 "\<lambda>r src dst pl n u. Run u" 35 "octo_demo 1 []" 0 "\<lparr>sa_port = 0, sa_addr = 0\<rparr>" "Obj no_mem" 0]
  by (simp add: octo_demo_def)

end
