(* ===== verification/OctoAppProps.thy ===== *)
theory OctoAppProps
  imports OctoClkProps OctoNetProps
begin

unbundle bit_operations_syntax

section \<open>What the OctoClock's application does\<close>

text \<open>The agreement of lights, clock source and reported state through every run of the main loop, the EEPROM commands,
  and the cache of the GPSDO's output.\<close>

subsection \<open>The network does not touch the clock\<close>

lemma app_fields_more:
  "octo.more s = octo.more t \<Longrightarrow> PORTA s = PORTA t \<and> PORTC s = PORTC t \<and> porta_log s = porta_log t \<and> g_ref s = g_ref t
     \<and> prev_ref s = prev_ref t"
  by (cases s; cases t) simp

lemma arp_update_more: "octo.more (arp_cache_update i m s) = octo.more (s :: 'a octo_scheme)"
  by (cases s) (simp add: arp_cache_update_def arp_cache_alloc_def split: option.split)

lemma send_pkt_more: "octo.more (send_pkt d e b0 l0 b1 l1 b2 l2 s) = octo.more s"
  by (cases s) (simp add: send_pkt_def enc28j60_send_frame_def Let_def case_prod_unfold)

lemma send_ip_pkt_more: "octo.more (send_ip_pkt d p b0 l0 b1 l1 s) = octo.more s"
  by (simp add: send_ip_pkt_def Let_def send_pkt_more split: option.split)

lemma op_send_more: "octo.more (op_send p d pkt s) = octo.more s"
  by (simp add: op_send_def oc_send_udp_pkt_def Let_def send_ip_pkt_more)

definition clock_part :: "'a octo_app_scheme \<Rightarrow> u8 \<times> u8 \<times> u8 list \<times> ref_t \<times> ref_t" where
  "clock_part s = (PORTA s, PORTC s, porta_log s, g_ref s, prev_ref s)"

lemma clock_part_more: "octo.more s = octo.more t \<Longrightarrow> clock_part s = clock_part t"
  using app_fields_more by (simp add: clock_part_def)

lemma clock_part_agrees: "clock_part s = clock_part t \<Longrightarrow> ref_agrees s \<longleftrightarrow> ref_agrees t"
  using follows_cong [of s t] by (auto simp: ref_agrees_iff clock_part_def)

lemma send_gpsdo_cmd_clock: "clock_part (send_gpsdo_cmd buf sz s) = clock_part s"
proof -
  have "clock_part (fold (\<lambda>i. usart_putc (buf ! i)) is s) = clock_part s" for "is"
    by (induction "is" arbitrary: s) (simp_all add: usart_putc_def clock_part_def)
  then show ?thesis by (simp add: send_gpsdo_cmd_def)
qed

lemma and_then_RunE:
  assumes "and_then x f = Run t" obtains s where "x = Run s" "f s = Run t"
  using assms by (cases x) auto

lemma eeprom_write_more: "octo.more (eeprom_write_block bs a s) = octo.more s"
  by (cases s) (simp add: eeprom_write_block_def)

lemma op_send_clock: "clock_part (op_send p d pkt s) = clock_part s" "clock_part (eeprom_write_block bs a s) = clock_part s"
  by (rule clock_part_more, rule op_send_more, rule clock_part_more, rule eeprom_write_more)

lemma ctrl_clock: "clock_part (final (handle_udp_ctrl_packet src dst pl n s)) = clock_part s"
  unfolding handle_udp_ctrl_packet_def Let_def by (simp add: op_send_clock)

lemma gpsdo_clock: "clock_part (final (handle_udp_gpsdo_packet src dst pl n s)) = clock_part s"
  unfolding handle_udp_gpsdo_packet_def Let_def by (simp add: op_send_clock send_gpsdo_cmd_clock)

lemma run_app_clock: "clock_part (final (run_app r src dst pl n s)) = clock_part s"
  by (cases r) (simp_all add: run_app_def ctrl_clock gpsdo_clock)

lemma send_clock: "clock_part (send_ip_pkt d p b0 l0 b1 l1 s) = clock_part s" "clock_part (send_pkt dm e b0 l0 b1 l1 b2 l2 s) = clock_part s"
  "clock_part (arp_cache_update i m s) = clock_part s"
  by (rule clock_part_more, rule send_ip_pkt_more, rule clock_part_more, rule send_pkt_more, rule clock_part_more, rule arp_update_more)

lemma call_listener_clock: "clock_part (final (call_listener run_app i src dst pl n s)) = clock_part s"
  by (simp add: call_listener_def run_app_clock split: option.split)

lemma handle_eth_clock: "clock_part (final (oc_handle_eth_packet run_app n s)) = clock_part s"
proof -
  have u: "clock_part (final (oc_handle_udp_packet run_app a d k n u)) = clock_part u" for a d k n and u :: "'a octo_app_scheme"
    by (simp add: oc_handle_udp_packet_def Let_def call_listener_clock split: option.split)
  have i: "clock_part (final (oc_handle_icmp_packet run_app a d k n u)) = clock_part u" for a d k n and u :: "'a octo_app_scheme"
    by (simp add: oc_handle_icmp_packet_def Let_def call_listener_clock send_clock split: option.split)
  have a: "clock_part (oc_handle_arp_packet k n u) = clock_part u" for k n and u :: "'a octo_app_scheme"
    by (simp add: oc_handle_arp_packet_def Let_def oc_send_arp_reply_def send_clock)
  show ?thesis unfolding oc_handle_eth_packet_def Let_def by (simp add: u i a send_clock)
qed

lemma send_gratuitous_arp_clock: "clock_part (send_gratuitous_arp s) = clock_part s"
  by (rule clock_part_more) (cases s, simp add: send_gratuitous_arp_def Let_def send_pkt_more)

lemma network_check_clock:
  assumes "network_check run_app recv s = Run t" "\<And>u. clock_part (snd (recv u)) = clock_part u"
  shows "clock_part t = clock_part s"
proof -
  obtain n u where r: "recv s = (n, u)" by force
  let ?h = "if n > 0 then oc_handle_eth_packet run_app n u else Run u"
  have h: "clock_part (final ?h) = clock_part u" by (simp add: handle_eth_clock)
  obtain v where v: "?h = Run v" "t = (if send_garp v then send_gratuitous_arp v else v)"
    using assms(1) by (cases ?h) (auto simp: network_check_def r split: if_splits)
  have "clock_part t = clock_part v" by (simp add: v(2) send_gratuitous_arp_clock)
  then show ?thesis using h assms(2) [of s] by (simp add: v(1) r)
qed

subsection \<open>Every run of the application\<close>

text \<open>The states the application reaches between the steps of its main loop and of its interrupt routines.\<close>

inductive octo_reach :: "'a octo_app_scheme \<Rightarrow> bool" where
  start: "octo_start pind icr3 s = Run t \<Longrightarrow> octo_reach t"
| turn: "octo_reach s \<Longrightarrow> octo_turn pinc icr3 recv s = Run t \<Longrightarrow> (\<And>u. clock_part (snd (recv u)) = clock_part u) \<Longrightarrow> octo_reach t"
| timer1: "octo_reach s \<Longrightarrow> octo_reach (timer1_ovf_isr s)"
| timer3: "octo_reach s \<Longrightarrow> octo_reach (timer3_ovf_isr s)"
| usart: "octo_reach s \<Longrightarrow> octo_reach (usart1_rx_isr b s)"

lemma isr_clock:
  "clock_part (timer1_ovf_isr s) = clock_part s" "clock_part (timer3_ovf_isr s) = clock_part s"
  "clock_part (usart1_rx_isr b s) = clock_part s"
proof -
  show "clock_part (timer1_ovf_isr s) = clock_part s"
    by (rule clock_part_more) (cases s, simp add: timer1_ovf_isr_def Let_def)
qed (simp_all add: clock_part_def timer3_ovf_isr_def usart1_rx_isr_def Let_def)

lemma register_more: "register_udp_listener p r s = Run t \<Longrightarrow> octo.more t = octo.more s"
  by (cases s) (auto simp: register_udp_listener_def split: option.splits)

lemma network_init_more: "octo.more (network_init s) = octo.more s"
  by (cases s) (simp add: network_init_def init_udp_listeners_def Let_def)

lemma reset_pins_ok: "pins_ok s \<Longrightarrow> pins_ok (reset_TI_CDCE18005 s) \<and> g_ref (reset_TI_CDCE18005 s) = g_ref s"
  unfolding reset_TI_CDCE18005_def Let_def
  by (simp add: pins_step_set_bit [THEN conjunct2]) (simp add: oc_set_bit_def put_porta_def)

lemma octo_start_agrees:
  assumes "octo_start pind icr3 s = Run t"
  shows "ref_agrees t"
proof -
  define a where "a = setup_atmel_io_ports (s\<lparr>g_ext_ref_present := False, g_gps_present := False, g_switch_pos := PREFER_INTERNAL, g_ref := NO_REF\<rparr>)"
  define b where "b = network_init (reset_TI_CDCE18005 a)"
  have "pins_ok a" "g_ref a = NO_REF"
    by (simp_all add: a_def setup_atmel_io_ports_def put_porta_def pins_ok_def CLK_def)
  then have r: "pins_ok (reset_TI_CDCE18005 a)" "g_ref (reset_TI_CDCE18005 a) = NO_REF" by (simp_all add: reset_pins_ok)
  obtain c d where c: "register_udp_listener OCTOCLOCK_UDP_CTRL_PORT Udp_ctrl b = Run c"
      "register_udp_listener OCTOCLOCK_UDP_GPSDO_PORT Udp_gpsdo c = Run d"
    and t: "t = (leds_off (d\<lparr>TCNT3 := 0\<rparr>))\<lparr>g_gps_present := bit pind 4, prev_ref := NO_REF, prev_switch_pos := PREFER_EXTERNAL,
        prev_ICR3 := icr3, prev_num_overflows := 0\<rparr>"
    using assms unfolding octo_start_def Let_def a_def [symmetric] b_def [symmetric]
    by (elim and_then_RunE) (auto elim: and_then_RunE)
  have "octo.more d = octo.more (reset_TI_CDCE18005 a)"
    using register_more [OF c(1)] register_more [OF c(2)] by (simp add: b_def network_init_more)
  then have d: "PORTA d = PORTA (reset_TI_CDCE18005 a)" "porta_log d = porta_log (reset_TI_CDCE18005 a)" "g_ref d = NO_REF"
    using app_fields_more r(2) by metis+
  have "lights_off (leds_off (d\<lparr>TCNT3 := 0\<rparr>))" "pins_ok (leds_off (d\<lparr>TCNT3 := 0\<rparr>))"
    using leds_off_lights [of "d\<lparr>TCNT3 := 0\<rparr>"] r(1) d(1,2) by (simp_all add: pins_ok_def)
  then show ?thesis by (simp add: t ref_agrees_def d(3) pins_ok_def lights_off_def)
qed

text \<open>C23. Through every run of the application, of any turns with any readings of the switch, of the capture register and
  any network traffic, and any interrupts between them, what the device reports agrees with what it does: when the
  reported reference is the internal one, the last words the clock chip took are the table of the GPS input, the pulse
  selector is on GPS, and the top and the bottom light are on; for the external one the other
  table, selector and lights; and without a reference the lights are off.\<close>

theorem octo_reference_agrees:
  "octo_reach s \<Longrightarrow> ref_agrees s"
proof (induction rule: octo_reach.induct)
  case (start pind icr3 s t)
  then show ?case by (rule octo_start_agrees)
next
  case (turn s pinc icr3 recv t)
  have "clock_part t = clock_part (update_reference pinc icr3 s)"
    using turn.hyps(2,3) unfolding octo_turn_def by (rule network_check_clock)
  then show ?case using clock_part_agrees update_reference_agrees [OF turn.IH] by blast
qed (use clock_part_agrees isr_clock in blast)+

lemma octo_start_runs:
  assumes "listeners s = replicate 10 (0, None)"
  shows "\<exists>t. octo_start pind icr3 s = Run t"
proof -
  let ?b = "network_init (reset_TI_CDCE18005 (setup_atmel_io_ports
    (s\<lparr>g_ext_ref_present := False, g_gps_present := False, g_switch_pos := PREFER_INTERNAL, g_ref := NO_REF\<rparr>)))"
  have "listeners ?b = replicate 10 (0, None)"
    using assms
    by (simp add: network_init_def init_udp_listeners_def Let_def reset_TI_CDCE18005_def oc_set_bit_def put_porta_def setup_atmel_io_ports_def)
  from ports_registered [OF this] obtain c d where
    "register_udp_listener 50000 Udp_ctrl ?b = Run c" "register_udp_listener 50001 Udp_gpsdo c = Run d"
    by (elim and_then_RunE) auto
  then show ?thesis
    by (simp add: octo_start_def Let_def OCTOCLOCK_UDP_CTRL_PORT_def OCTOCLOCK_UDP_GPSDO_PORT_def)
qed

lemma octo_reference_agrees_witness: "\<exists>t. octo_start 0x10 0 octo_app_demo = Run t \<and> ref_agrees t"
proof -
  have "listeners octo_app_demo = replicate 10 (0, None)" by (simp add: octo_app_demo_defs)
  from octo_start_runs [OF this] obtain t where "octo_start 0x10 0 octo_app_demo = Run t" by blast
  then show ?thesis using octo_reference_agrees [OF octo_reach.start] by blast
qed

subsection \<open>EEPROM\<close>

lemma op_of_data_length [simp]: "length (op_data (op_of m)) = 256"
  by (simp add: op_of_def)

lemma pkt_in_data_length [simp]: "length (op_data (pkt_in pl s)) = 256"
  by (simp add: pkt_in_def)

lemma written_block:
  "i < length bs \<Longrightarrow> eeprom (eeprom_write_block bs 0 s) i = ee_cell s i (bs ! i)"
  "length bs \<le> i \<Longrightarrow> eeprom (eeprom_write_block bs 0 s) i = eeprom s i"
  by (simp_all add: eeprom_write_block_def)

lemma read_written_block:
  "eeprom_read_block 0 (length bs) (eeprom_write_block bs 0 s) = bs \<longleftrightarrow> (\<forall>i < length bs. ee_cell s i (bs ! i) = bs ! i)"
  by (auto simp: eeprom_read_block_def list_eq_iff_nth_eq written_block)

lemma le32_take: "i + 4 \<le> n \<Longrightarrow> le32 m i = le32 (mem_of (mem_take m n)) i"
  by (simp add: le32_def le16_def mem_of_def)

text \<open>C24. A host that burns the EEPROM is told whether it worked: the block of 39 bytes is written and nothing behind it, and
  success is reported exactly if every cell reads back what was written.  Then the EEPROM command
  reads the same block back (an unset revision as 0), and the next start takes the Ethernet and the IP address from
  it, unless its first byte is \<^verbatim>\<open>0xFF\<close>.\<close>

theorem octo_eeprom_burn:
  fixes s :: "'a octo_app_scheme"
  assumes "op_code (pkt_in payload s) = BURN_EEPROM_CMD" "op_len (pkt_in payload s) = 39"
  defines "block \<equiv> take 39 (op_data (pkt_in payload s))"
  defines "t \<equiv> eeprom_write_block block 0 s"
  defines "holds \<equiv> (\<forall>i < 39. ee_cell s i (block ! i) = block ! i)"
  shows "(\<exists>reply. handle_udp_ctrl_packet src dst payload n s = Run (op_send OCTOCLOCK_UDP_CTRL_PORT src reply t)
      \<and> op_sequence reply = op_sequence (pkt_in payload s)
      \<and> op_code reply = (if holds then BURN_EEPROM_SUCCESS_ACK else BURN_EEPROM_FAILURE_ACK))
    \<and> (\<forall>i \<ge> 39. eeprom t i = eeprom s i)
    \<and> (holds \<and> \<not> using_network_defaults s \<longrightarrow> eeprom_info t = (if block ! 38 = 0xFF then block[38 := 0] else block))
    \<and> (holds \<and> block ! 0 \<noteq> 0xFF \<longrightarrow>
        local_mac_addr (network_init t) = take 6 block \<and> local_ip_addr (network_init t) = le32 (mem_of block) 6)"
proof -
  have l: "length block = 39" by (simp add: block_def)
  note rd = read_written_block [of block s, unfolded l, folded t_def holds_def]
  have codes: "BURN_EEPROM_CMD \<noteq> OCTOCLOCK_QUERY_CMD" "BURN_EEPROM_CMD \<noteq> RESET_CMD" "BURN_EEPROM_CMD \<noteq> SEND_EEPROM_CMD"
    by (simp_all add: octo_codes)
  define reply where "reply = (op_of (junk_pkt s))\<lparr>op_proto_ver := OCTOCLOCK_FW_COMPAT_NUM,
    op_sequence := op_sequence (pkt_in payload s), op_len := 0,
    op_code := (if eeprom_read_block 0 39 t \<noteq> block then BURN_EEPROM_FAILURE_ACK else BURN_EEPROM_SUCCESS_ACK)\<rparr>"
  have "handle_udp_ctrl_packet src dst payload n s = Run (op_send OCTOCLOCK_UDP_CTRL_PORT src reply t)"
    using assms(1,2) codes
    by (simp add: handle_udp_ctrl_packet_def Let_def sizeof_octoclock_fw_eeprom_t_def block_def [symmetric] t_def [symmetric] reply_def)
  moreover have "\<forall>i \<ge> 39. eeprom t i = eeprom s i" by (simp add: t_def written_block(2) l)
  moreover have "eeprom_info t = (if block ! 38 = 0xFF then block[38 := 0] else block)" if holds "\<not> using_network_defaults s"
  proof -
    have "using_network_defaults t = using_network_defaults s" by (simp add: t_def eeprom_write_block_def)
    then show ?thesis using that rd by (simp add: eeprom_info_def Let_def sizeof_octoclock_fw_eeprom_t_def)
  qed
  moreover have "local_mac_addr (network_init t) = take 6 block \<and> local_ip_addr (network_init t) = le32 (mem_of block) 6"
    if holds "block ! 0 \<noteq> 0xFF"
  proof -
    have b: "mem_take (eeprom t) 39 = block" using rd that(1) by (simp add: eeprom_read_block_def)
    have "eeprom t 0 = block ! 0" using arg_cong [OF b, of "\<lambda>l. l ! 0"] by simp
    moreover have "mem_take (eeprom t) 6 = take 6 block" using arg_cong [OF b, of "take 6"] by (simp add: mem_take_def take_map)
    ultimately show ?thesis
      using that(2) le32_take [of 6 39 "eeprom t"] b by (simp add: network_init_def init_udp_listeners_def Let_def)
  qed
  ultimately show ?thesis using rd by (auto simp: reply_def)
qed

lemma octo_eeprom_burn_witness:
  "\<exists>reply. handle_udp_ctrl_packet \<lparr>sa_port = 0, sa_addr = 0\<rparr> \<lparr>sa_port = 0, sa_addr = 0\<rparr> (Some 42) 269
      (octo_app_demo\<lparr>eth_buf := (\<lambda>i. if i = 50 then 5 else if i = 309 then 39 else 0)\<rparr>)
    = Run (op_send OCTOCLOCK_UDP_CTRL_PORT \<lparr>sa_port = 0, sa_addr = 0\<rparr> reply
        (octo_app_demo\<lparr>eth_buf := (\<lambda>i. if i = 50 then 5 else if i = 309 then 39 else 0),
           eeprom := (\<lambda>i. if i < 39 then 0 else 0xFF)\<rparr>)) \<and> op_code reply = BURN_EEPROM_SUCCESS_ACK"
proof -
  let ?s = "octo_app_demo\<lparr>eth_buf := (\<lambda>i. if i = 50 then 5 else if i = 309 then 39 else 0)\<rparr>"
  have p: "op_code (pkt_in (Some 42) ?s) = BURN_EEPROM_CMD" "op_len (pkt_in (Some 42) ?s) = 39"
    by (simp_all add: pkt_in_def op_of_def mem_at_def BURN_EEPROM_CMD_def le16_def)
  have d: "take 39 (op_data (pkt_in (Some 42) ?s)) = replicate 39 0"
    by (rule nth_equalityI) (simp_all add: pkt_in_def op_of_def mem_at_def mem_take_def)
  have c: "ee_cell ?s = (\<lambda>_ b. b)" "eeprom ?s = (\<lambda>_. 0xFF)" by (simp_all add: octo_app_demo_defs)
  have w: "eeprom_write_block (replicate 39 0) 0 ?s = ?s\<lparr>eeprom := (\<lambda>i. if i < 39 then 0 else 0xFF)\<rparr>"
    by (simp add: eeprom_write_block_def c cong: if_cong)
  show ?thesis
    using octo_eeprom_burn [OF p, of "\<lparr>sa_port = 0, sa_addr = 0\<rparr>" "\<lparr>sa_port = 0, sa_addr = 0\<rparr>" 269, unfolded d w] by (auto simp: c)
qed

subsection \<open>The cache of the GPSDO's output\<close>

definition no_gpsdo_output :: "'a octo_app_scheme \<Rightarrow> bool" where
  "no_gpsdo_output s \<longleftrightarrow> gpsdo_num_wraps s = 0 \<and> gpsdo_pos s = 0"

text \<open>C25. The cache is the last 256 characters of what the GPSDO has written, wherever its output began: after any number of
  receive interrupts position and wrap count together are the number of characters modulo 65536, and each of the last
  256 lies at its number modulo 256.  A host that reads both can put the stream together again.\<close>

theorem gpsdo_cache_refines:
  assumes "no_gpsdo_output s"
  defines "t bs \<equiv> fold usart1_rx_isr bs s"
  shows "unat (gpsdo_pos (t bs)) = length bs mod 256 \<and> unat (gpsdo_num_wraps (t bs)) = (length bs div 256) mod 256
    \<and> (\<forall>j < length bs. length bs \<le> j + 256 \<longrightarrow> gpsdo_buf (t bs) (j mod 256) = bs ! j)"
proof (induction bs rule: rev_induct)
  case Nil
  then show ?case using assms(1) by (simp add: t_def no_gpsdo_output_def)
next
  case (snoc b bs)
  let ?n = "length bs" and ?t = "t bs"
  have t: "t (bs @ [b]) = usart1_rx_isr b ?t" by (simp add: t_def)
  have pos: "unat (gpsdo_pos ?t) = ?n mod 256" and wr: "unat (gpsdo_num_wraps ?t) = (?n div 256) mod 256" using snoc by simp_all
  have buf: "gpsdo_buf (usart1_rx_isr b ?t) = (gpsdo_buf ?t)(?n mod 256 := b)"
    by (simp add: usart1_rx_isr_def Let_def pos)
  have "gpsdo_buf (t (bs @ [b])) (j mod 256) = (bs @ [b]) ! j" if "j < length (bs @ [b])" "length (bs @ [b]) \<le> j + 256" for j
  proof (cases "j = ?n")
    case False
    with that have j: "j < ?n" "?n < j + 256" by simp_all
    then have "(?n - j) mod 256 \<noteq> 0" by simp
    then have "j mod 256 \<noteq> ?n mod 256" using j mod_eq_dvd_iff_nat [of j ?n 256] by (auto simp: dvd_eq_mod_eq_0)
    then show ?thesis using snoc j by (simp add: t buf nth_append)
  qed (simp add: t buf)
  moreover have "unat (gpsdo_pos (t (bs @ [b]))) = length (bs @ [b]) mod 256
    \<and> unat (gpsdo_num_wraps (t (bs @ [b]))) = (length (bs @ [b]) div 256) mod 256"
  proof (cases "?n mod 256 = 255")
    case True
    then have "gpsdo_pos ?t = 255" using pos by (simp add: word_unat_eq_iff)
    moreover have "Suc ?n mod 256 = 0" "Suc ?n div 256 = Suc (?n div 256)" using True by (simp_all add: mod_Suc div_Suc)
    moreover have "unat (gpsdo_num_wraps ?t + 1) = Suc (?n div 256) mod 256" by (simp add: unat_word_ariths wr mod_Suc_eq)
    ultimately show ?thesis by (simp add: t usart1_rx_isr_def Let_def)
  next
    case False
    then have "gpsdo_pos ?t \<noteq> 255" using pos by (auto simp: word_unat_eq_iff)
    moreover have "Suc ?n mod 256 = Suc (?n mod 256)" "Suc ?n div 256 = ?n div 256" using False by (simp_all add: mod_Suc div_Suc)
    moreover have "unat (gpsdo_pos ?t + 1) = Suc (?n mod 256)"
      using False pos mod_less_divisor [of 256 ?n] by (simp add: unat_word_ariths mod_Suc)
    ultimately show ?thesis by (simp add: t usart1_rx_isr_def Let_def wr)
  qed
  ultimately show ?case by blast
qed

lemma gpsdo_cache_refines_witness: "gpsdo_buf (fold usart1_rx_isr (map of_nat [0..<300]) octo_app_demo) 3 = of_nat 259"
proof -
  have "no_gpsdo_output octo_app_demo" by (simp add: no_gpsdo_output_def octo_app_demo_defs)
  from gpsdo_cache_refines [OF this, of "map of_nat [0..<300]", THEN conjunct2, THEN conjunct2, rule_format, of 259]
  show ?thesis by simp
qed

end
