(* ===== verification/OctoTypes.thy ===== *)
theory OctoTypes
  imports OctoAppProps
begin

unbundle bit_operations_syntax

section \<open>The types the OctoClock's state keeps\<close>

text \<open>The arrays of the C program are lists, and the indices into them numbers: that the lists keep their sizes, and the
  numbers their bounds, through everything the application does is what the type system of a safe language would
  guarantee, and what the C code has to do on its own.\<close>

definition octo_types :: "'a octo_scheme \<Rightarrow> bool" where
  "octo_types s \<longleftrightarrow> arp_cache_ok s \<and> (\<forall>i < nentries s. length (snd (cache s ! i)) = 6)
     \<and> length (listeners s) = MAX_UDP_LISTENERS \<and> length (local_mac_addr s) = 6 \<and> (\<forall>f \<in> set (sent s). 64 \<le> length f)"

named_theorems octo_types_keep

lemma octo_types_simps [octo_types_keep]:
  "octo_types (s\<lparr>eth_buf := b\<rparr>) = octo_types s" "octo_types (s\<lparr>send_garp := g\<rparr>) = octo_types s"
  "octo_types (s\<lparr>garp_overflows := v\<rparr>) = octo_types s" "octo_types (s\<lparr>eeprom := e\<rparr>) = octo_types s"
  "octo_types (s\<lparr>enc_mac := m\<rparr>) = octo_types s" "octo_types (s\<lparr>local_ip_addr := i\<rparr>) = octo_types s"
  "octo_types (s\<lparr>using_network_defaults := d\<rparr>) = octo_types s"
  by (simp_all add: octo_types_def arp_cache_ok_def)

lemma octo_types_app [octo_types_keep]:
  "octo_types (s\<lparr>PORTA := p\<rparr>) = octo_types s" "octo_types (s\<lparr>PORTC := p\<rparr>) = octo_types s"
  "octo_types (s\<lparr>porta_log := l\<rparr>) = octo_types s" "octo_types (s\<lparr>g_ref := r\<rparr>) = octo_types s"
  "octo_types (s\<lparr>g_gps_present := x\<rparr>) = octo_types s" "octo_types (s\<lparr>g_ext_ref_present := x\<rparr>) = octo_types s"
  "octo_types (s\<lparr>g_switch_pos := w\<rparr>) = octo_types s" "octo_types (s\<lparr>prev_ref := r\<rparr>) = octo_types s"
  "octo_types (s\<lparr>prev_switch_pos := w\<rparr>) = octo_types s" "octo_types (s\<lparr>TCNT3 := t\<rparr>) = octo_types s"
  "octo_types (s\<lparr>prev_ICR3 := t\<rparr>) = octo_types s" "octo_types (s\<lparr>current_ICR3 := t\<rparr>) = octo_types s"
  "octo_types (s\<lparr>num_overflows := t\<rparr>) = octo_types s" "octo_types (s\<lparr>prev_num_overflows := t\<rparr>) = octo_types s"
  "octo_types (s\<lparr>current_num_overflows := t\<rparr>) = octo_types s" "octo_types (s\<lparr>usart_out := o'\<rparr>) = octo_types s"
  "octo_types (s\<lparr>gpsdo_buf := gb\<rparr>) = octo_types s" "octo_types (s\<lparr>gpsdo_pos := gp\<rparr>) = octo_types s"
  "octo_types (s\<lparr>gpsdo_num_wraps := gw\<rparr>) = octo_types s"
  by (simp_all add: octo_types_def arp_cache_ok_def)

lemma types_and_then:
  "octo_types (final x) \<Longrightarrow> (\<And>s. octo_types s \<Longrightarrow> octo_types (final (f s))) \<Longrightarrow> octo_types (final (and_then x f))"
  by (cases x) simp_all

lemma fold_keeps:
  assumes "\<And>x s. P (f x s) = P s" shows "P (fold f xs s) = P s"
  by (induction xs arbitrary: s) (simp_all add: assms)

subsection \<open>Network\<close>

lemma arp_update_types: "octo_types s \<Longrightarrow> length m = 6 \<Longrightarrow> octo_types (arp_cache_update i m s)"
proof -
  assume t: "octo_types s" and m: "length m = 6"
  then have ok: "arp_cache_ok s" and n: "nentries s \<le> 8" by (simp_all add: octo_types_def arp_cache_ok_def)
  have "\<forall>k < nentries (arp_cache_update i m s). length (snd (cache (arp_cache_update i m s) ! k)) = 6"
  proof (cases "arp_cache_lookup i s")
    case None
    then show ?thesis
      using t m n unfolding update_new [OF None n]
      by (auto simp: octo_types_def arp_cache_ok_def next_slot_def nth_list_update less_Suc_eq)
  next
    case (Some k)
    then show ?thesis
      using t m lookup_SomeD [OF Some] unfolding update_known [OF ok Some]
      by (auto simp: octo_types_def arp_cache_ok_def nth_list_update)
  qed
  then show ?thesis using t arp_cache_ok_update [OF ok] by (simp add: octo_types_def)
qed

lemma send_pkt_types [octo_types_keep]: "octo_types (send_pkt d e b0 l0 b1 l1 b2 l2 s) = octo_types s"
  unfolding send_pkt_def enc28j60_send_frame_def
  by (simp add: octo_types_def arp_cache_ok_def Let_def case_prod_unfold word_less_nat_alt)

lemma send_ip_pkt_types [octo_types_keep]: "octo_types (send_ip_pkt d p b0 l0 b1 l1 s) = octo_types s"
  by (simp add: send_ip_pkt_def Let_def octo_types_keep split: option.split)

lemma op_send_types [octo_types_keep]: "octo_types (op_send p d pkt s) = octo_types s"
  by (simp add: op_send_def oc_send_udp_pkt_def Let_def octo_types_keep)

lemma run_app_types: "octo_types (final (run_app r src dst pl n s)) = octo_types s"
proof -
  have "octo_types (send_gpsdo_cmd buf sz s) = octo_types s" for buf sz and s :: "'a octo_app_scheme"
    unfolding send_gpsdo_cmd_def by (rule fold_keeps) (simp add: usart_putc_def octo_types_keep)
  then have "octo_types (final (handle_udp_gpsdo_packet src dst pl n s)) = octo_types s"
    unfolding handle_udp_gpsdo_packet_def Let_def by (simp add: octo_types_keep)
  moreover have "octo_types (final (handle_udp_ctrl_packet src dst pl n s)) = octo_types s"
    unfolding handle_udp_ctrl_packet_def Let_def by (simp add: octo_types_keep eeprom_write_block_def)
  ultimately show ?thesis by (cases r) (simp_all add: run_app_def)
qed

lemma call_listener_types: "octo_types (final (call_listener run_app i src dst pl n s)) = octo_types s"
  by (simp add: call_listener_def run_app_types split: option.split)

lemma handle_eth_types: "octo_types s \<Longrightarrow> octo_types (final (oc_handle_eth_packet run_app n s))"
proof -
  assume t: "octo_types s"
  have u: "octo_types (final (oc_handle_udp_packet run_app a d k n u)) = octo_types u" for a d k n and u :: "'a octo_app_scheme"
    by (simp add: oc_handle_udp_packet_def Let_def call_listener_types split: option.split)
  have i: "octo_types (final (oc_handle_icmp_packet run_app a d k n u)) = octo_types u" for a d k n and u :: "'a octo_app_scheme"
    by (simp add: oc_handle_icmp_packet_def Let_def call_listener_types octo_types_keep split: option.split)
  have sha: "length (ar_sha (oc_arp_of m)) = 6" for m by (simp add: oc_arp_of_def)
  have a: "octo_types (oc_handle_arp_packet k n s)" for k n
    using t arp_update_types [OF t sha]
    by (simp add: oc_handle_arp_packet_def Let_def oc_send_arp_reply_def octo_types_keep)
  show ?thesis
    unfolding oc_handle_eth_packet_def Let_def using t arp_update_types [OF t, of "mem_take (mem_at (eth_buf s) 6) 6"]
    by (simp add: u i a)
qed

lemma network_check_types:
  assumes "octo_types s" "\<And>u. octo_types u \<Longrightarrow> octo_types (snd (recv u))"
  shows "octo_types (final (network_check run_app recv s))"
proof -
  have "octo_types (snd (recv s))" using assms by simp
  then show ?thesis
    unfolding network_check_def case_prod_unfold Let_def
    by (intro types_and_then) (simp_all add: handle_eth_types send_gratuitous_arp_def Let_def octo_types_keep)
qed

lemma register_types: "octo_types s \<Longrightarrow> octo_types (final (register_udp_listener p r s))"
  by (simp add: octo_types_def arp_cache_ok_def register_udp_listener_def split: option.splits)

lemma network_init_types: "octo_types s \<Longrightarrow> octo_types (network_init s)"
  by (simp add: octo_types_def arp_cache_ok_def network_init_def init_udp_listeners_def Let_def)

subsection \<open>Clock and lights\<close>

lemma set_bit_types [octo_types_keep]: "octo_types (oc_set_bit b v s) = octo_types s"
  by (simp add: oc_set_bit_def put_porta_def octo_types_keep)

lemma send_SPI_types [octo_types_keep]: "octo_types (send_SPI w s) = octo_types s"
proof -
  have "octo_types (fold (send_SPI_bit w) is s) = octo_types s" for "is" and s :: "'a octo_app_scheme"
    by (rule fold_keeps) (simp add: send_SPI_bit_def Let_def octo_types_keep)
  then show ?thesis by (simp add: send_SPI_def Let_def octo_types_keep)
qed

lemma setup_types [octo_types_keep]: "octo_types (setup_TI_CDCE18005 w s) = octo_types s"
  by (simp add: setup_TI_CDCE18005_def fold_keeps octo_types_keep)

lemma lights_types [octo_types_keep]:
  "octo_types (led l b s) = octo_types s" "octo_types (leds_off s) = octo_types s"
  by (simp_all add: leds_off_def led_def Let_def octo_types_keep)

lemma prefer_types [octo_types_keep]:
  "octo_types (prefer_internal s) = octo_types s" "octo_types (prefer_external s) = octo_types s"
  by (simp_all add: prefer_internal_def prefer_external_def force_internal_def force_external_def Let_def put_porta_def octo_types_keep)

lemma update_reference_types [octo_types_keep]: "octo_types (update_reference pinc icr3 s) = octo_types s"
proof -
  have "octo_types (check_ext_ref icr3 s) = octo_types s" for s :: "'a octo_app_scheme"
    by (simp add: check_ext_ref_def Let_def octo_types_keep)
  then show ?thesis
    by (simp add: update_reference_def record_iteration_def check_switch_def set_reference_def Let_def octo_types_keep)
qed

text \<open>C31. The application keeps its state well typed from start-up on, through every turn of its loop and every interrupt:
  the ARP cache has its eight entries, its counters in bounds, no address twice and only whole Ethernet addresses, the table
  of listeners its ten entries, the device an Ethernet address of six bytes, and no frame below the 64 bytes of the
  shortest one Ethernet allows has been given to the driver, also when the turn ends in a crash or in a reset.\<close>

theorem octo_state_types:
  assumes "octo_types s" "\<And>u. octo_types u \<Longrightarrow> octo_types (snd (recv u))"
  shows "octo_types (final (octo_start pind icr3 s)) \<and> octo_types (final (octo_turn pinc icr3 recv s))
    \<and> octo_types (timer1_ovf_isr s) \<and> octo_types (timer3_ovf_isr s) \<and> octo_types (usart1_rx_isr b s)"
proof (intro conjI)
  have "octo_types (network_init (reset_TI_CDCE18005 (setup_atmel_io_ports
      (s\<lparr>g_ext_ref_present := False, g_gps_present := False, g_switch_pos := PREFER_INTERNAL, g_ref := NO_REF\<rparr>))))"
    by (rule network_init_types)
      (simp add: reset_TI_CDCE18005_def setup_atmel_io_ports_def put_porta_def Let_def octo_types_keep assms(1))
  then show "octo_types (final (octo_start pind icr3 s))"
    unfolding octo_start_def Let_def
    by (intro types_and_then register_types) (simp_all add: octo_types_keep)
  show "octo_types (final (octo_turn pinc icr3 recv s))"
    unfolding octo_turn_def by (rule network_check_types) (simp_all add: octo_types_keep assms)
qed (simp_all add: timer1_ovf_isr_def timer3_ovf_isr_def usart1_rx_isr_def Let_def octo_types_keep assms(1))

lemma octo_state_types_witness:
  "octo_types (final (octo_turn 0 7 (\<lambda>s. (60, s\<lparr>eth_buf := (\<lambda>_. 8)\<rparr>)) (octo_app_demo\<lparr>local_mac_addr := [2, 0, 0, 0, 0, 1]\<rparr>)))"
proof -
  have "octo_types (octo_app_demo\<lparr>local_mac_addr := [2, 0, 0, 0, 0, 1]\<rparr>)"
    by (simp add: octo_types_def octo_app_demo_defs arp_cache_ok_def MAX_UDP_LISTENERS_def)
  then show ?thesis
    by (rule octo_state_types [THEN conjunct2, THEN conjunct1]) (simp add: octo_types_keep)
qed

end
