(* ===== verification/OctoBoot.thy ===== *)
theory OctoBoot
  imports OctoApp
begin

unbundle bit_operations_syntax

section \<open>The OctoClock's boot loader\<close>

text \<open>
  \<^verbatim>\<open>firmware/octoclock/bootloader/main.c\<close>, which runs the network stack of the application with receivers of its own,
  takes a new application over the network page by page, and starts what is in flash if its
  checksum is the one in the EEPROM.  The first 64 kB of flash, all that its 16-bit addresses reach, are a
  field.  Writing a page is the processor's: the page is the one its address lies in, a word's place in
  it is the low byte of its address without the lowest bit.  The variables shared with the stack are those of theory
  \<open>OctoNet\<close>; a run never mixes this record with that of the application.
\<close>

definition OCTOCLOCK_BOOTLOADER_PROTO_VER :: u32 where "OCTOCLOCK_BOOTLOADER_PROTO_VER = 1234"
definition OCTOCLOCK_UDP_FW_PORT :: u16 where "OCTOCLOCK_UDP_FW_PORT = 50002"
definition OCTOCLOCK_UDP_EEPROM_PORT :: u16 where "OCTOCLOCK_UDP_EEPROM_PORT = 50003"
definition PREPARE_FW_BURN_CMD :: u8 where "PREPARE_FW_BURN_CMD = 22"
definition FW_BURN_READY_ACK :: u8 where "FW_BURN_READY_ACK = 23"
definition FILE_TRANSFER_CMD :: u8 where "FILE_TRANSFER_CMD = 24"
definition FILE_TRANSFER_ACK :: u8 where "FILE_TRANSFER_ACK = 25"
definition READ_FW_CMD :: u8 where "READ_FW_CMD = 26"
definition READ_FW_ACK :: u8 where "READ_FW_ACK = 27"
definition FINALIZE_BURNING_CMD :: u8 where "FINALIZE_BURNING_CMD = 28"
definition FINALIZE_BURNING_ACK :: u8 where "FINALIZE_BURNING_ACK = 29"

lemmas fw_codes = PREPARE_FW_BURN_CMD_def FW_BURN_READY_ACK_def FILE_TRANSFER_CMD_def FILE_TRANSFER_ACK_def READ_FW_CMD_def
  READ_FW_ACK_def FINALIZE_BURNING_CMD_def FINALIZE_BURNING_ACK_def

definition SPM_PAGESIZE :: nat where "SPM_PAGESIZE = 256"
definition TIMER1_ONE_SECOND :: u16 where "TIMER1_ONE_SECOND = 12207"
definition OCTOCLOCK_EEPROM_APP_LEN :: nat where "OCTOCLOCK_EEPROM_APP_LEN = 100"

record octo_boot = octo +
  received_cmd :: bool
  done_burning :: bool
  app_checked :: bool
  fw_len :: u16
  fw_crc :: u16
  flash :: mem
  boot_PORTC :: u8

subsection \<open>Flash\<close>

definition boot_program_page :: "mem \<Rightarrow> u16 \<Rightarrow> 'a octo_boot_scheme \<Rightarrow> 'a octo_boot_scheme" where
  "boot_program_page buf page s =
     (let start = unat page - unat page mod 2
      in s\<lparr>flash := (\<lambda>a. if a div SPM_PAGESIZE = unat page div SPM_PAGESIZE
                       then buf ((a + SPM_PAGESIZE - start mod SPM_PAGESIZE) mod SPM_PAGESIZE) else flash s a)\<rparr>)"

definition read_firmware :: "u16 \<Rightarrow> 'a octo_boot_scheme \<Rightarrow> u8 list" where
  "read_firmware addr s = map (\<lambda>i. flash s (unat (addr + of_nat i))) [0..<SPM_PAGESIZE]"

definition crc_step :: "u16 \<Rightarrow> u16" where
  "crc_step crc = (if crc AND 1 \<noteq> 0 then drop_bit 1 crc XOR 0xA001 else drop_bit 1 crc)"

definition crc_byte :: "u16 \<Rightarrow> u8 \<Rightarrow> u16" where
  "crc_byte crc b = (crc_step ^^ 8) (crc XOR ucast b)"

definition calculate_crc :: "u16 \<Rightarrow> 'a octo_boot_scheme \<Rightarrow> u16" where
  "calculate_crc len s = foldl (\<lambda>crc i. crc_byte crc (flash s i)) 0xFFFF [0..<unat len]"

definition valid_app :: "'a octo_boot_scheme \<Rightarrow> bool \<times> 'a octo_boot_scheme" where
  "valid_app s =
     (let eeprom_fw_len = le16 (eeprom s) OCTOCLOCK_EEPROM_APP_LEN;
          eeprom_fw_crc = le16 (eeprom s) (OCTOCLOCK_EEPROM_APP_LEN + 2);
          s = s\<lparr>fw_crc := calculate_crc eeprom_fw_len s\<rparr>
      in (fw_crc s = eeprom_fw_crc, s))"

subsection \<open>Receivers\<close>

definition handle_udp_query_packet :: "'a octo_boot_ext receiver" where
  "handle_udp_query_packet src dst payload payload_len s =
     (let pin = pkt_in payload s
      in if op_code pin = OCTOCLOCK_QUERY_CMD
         then Run (op_send OCTOCLOCK_UDP_CTRL_PORT src
                ((op_of (junk_pkt s))\<lparr>op_proto_ver := OCTOCLOCK_BOOTLOADER_PROTO_VER, op_sequence := op_sequence pin,
                   op_code := OCTOCLOCK_QUERY_ACK, op_len := 0\<rparr>) s)
         else Run s)"

definition handle_udp_fw_packet :: "'a octo_boot_ext receiver" where
  "handle_udp_fw_packet src dst payload payload_len s =
     (let pin = pkt_in payload s;
          pout = (op_of (junk_pkt s))\<lparr>op_proto_ver := OCTOCLOCK_BOOTLOADER_PROTO_VER, op_sequence := op_sequence pin, op_len := 0\<rparr>;
          (pout, s) =
            (if op_code pin = PREPARE_FW_BURN_CMD then
               (pout\<lparr>op_code := FW_BURN_READY_ACK\<rparr>,
                s\<lparr>received_cmd := True, done_burning := False, fw_crc := op_union pin, fw_len := op_len pin\<rparr>)
             else if op_code pin = FILE_TRANSFER_CMD then
               (pout\<lparr>op_code := FILE_TRANSFER_ACK, op_union := op_union pin\<rparr>,
                boot_program_page (mem_of (op_data pin)) (op_union pin) s)
             else if op_code pin = READ_FW_CMD then
               (pout\<lparr>op_code := READ_FW_ACK, op_data := read_firmware (op_union pin) s\<rparr>, s)
             else if op_code pin = FINALIZE_BURNING_CMD then
               (pout\<lparr>op_code := FINALIZE_BURNING_ACK\<rparr>,
                eeprom_write_block (put16_le (fw_len s) @ put16_le (fw_crc s)) OCTOCLOCK_EEPROM_APP_LEN (s\<lparr>done_burning := True\<rparr>))
             else (pout, s))
      in Run (op_send OCTOCLOCK_UDP_FW_PORT src pout s))"

definition handle_udp_eeprom_packet :: "'a octo_boot_ext receiver" where
  "handle_udp_eeprom_packet src dst payload payload_len s =
     (let pin = pkt_in payload s;
          pout = (op_of (junk_pkt s))\<lparr>op_proto_ver := OCTOCLOCK_BOOTLOADER_PROTO_VER, op_sequence := op_sequence pin, op_len := 0\<rparr>
      in if op_proto_ver pin = OCTOCLOCK_FW_COMPAT_NUM \<and> op_code pin = CLEAR_EEPROM_CMD
         then (let s = s\<lparr>received_cmd := True\<rparr>;
                   s = eeprom_write_block (replicate 103 0xFF) 0 s
               in Run (op_send OCTOCLOCK_UDP_EEPROM_PORT src (pout\<lparr>op_code := CLEAR_EEPROM_ACK\<rparr>) s))
         else Run s)"

definition run_boot :: "udp_receiver_t \<Rightarrow> 'a octo_boot_ext receiver" where
  "run_boot r = (case r of Udp_fw \<Rightarrow> handle_udp_fw_packet | Udp_eeprom \<Rightarrow> handle_udp_eeprom_packet | _ \<Rightarrow> handle_udp_query_packet)"

subsection \<open>Main program\<close>

definition boot_start :: "'a octo_boot_scheme \<Rightarrow> 'a octo_boot_scheme outcome" where
  "boot_start s =
     (let s = s\<lparr>received_cmd := False, done_burning := False, app_checked := False, boot_PORTC := 0\<rparr>;
          s = network_init s
      in and_then (register_udp_listener OCTOCLOCK_UDP_CTRL_PORT Udp_query s) (\<lambda>s.
         and_then (register_udp_listener OCTOCLOCK_UDP_FW_PORT Udp_fw s) (\<lambda>s.
         and_then (register_udp_listener OCTOCLOCK_UDP_EEPROM_PORT Udp_eeprom s) (\<lambda>s.
           Run (s\<lparr>boot_PORTC := boot_PORTC s OR 0x20 OR 0x40 OR 0x80\<rparr>)))))"

text \<open>One turn of the loop ends it and starts the application, or goes on.\<close>

datatype 's boot_result = Jump 's | Loop 's

definition after_burning :: "'a octo_boot_scheme \<Rightarrow> 'a octo_boot_scheme boot_result" where
  "after_burning s =
     (if done_burning s
      then (let (ok, s) = valid_app s in if ok then Jump s else Loop (s\<lparr>done_burning := False\<rparr>))
      else Loop s)"

definition after_timeout :: "u16 \<Rightarrow> 'a octo_boot_scheme \<Rightarrow> 'a octo_boot_scheme boot_result" where
  "after_timeout tcnt1 s =
     (if \<not> app_checked s \<and> \<not> received_cmd s \<and> tcnt1 > TIMER1_ONE_SECOND
      then (let (ok, s) = valid_app (s\<lparr>app_checked := True\<rparr>) in if ok then Jump s else Loop s)
      else Loop s)"

definition start_app :: "'a octo_boot_scheme \<Rightarrow> 'a octo_boot_scheme" where
  "start_app s = s\<lparr>boot_PORTC := boot_PORTC s AND NOT 0x20 AND NOT 0x40 AND NOT 0x80\<rparr>"

definition boot_turn ::
  "u16 \<Rightarrow> ('a octo_boot_scheme \<Rightarrow> u16 \<times> 'a octo_boot_scheme) \<Rightarrow> 'a octo_boot_scheme \<Rightarrow> 'a octo_boot_scheme outcome boot_result" where
  "boot_turn tcnt1 recv s =
     (case after_burning s of
        Jump s \<Rightarrow> Jump (Run (start_app s))
      | Loop s \<Rightarrow>
          (case after_timeout tcnt1 s of
             Jump s \<Rightarrow> Jump (Run (start_app s))
           | Loop s \<Rightarrow> Loop (network_check run_boot recv s)))"

end
