(* ===== verification/OctoBootProps.thy ===== *)
theory OctoBootProps
  imports OctoBoot OctoNetProps
begin

unbundle bit_operations_syntax

section \<open>What the boot loader does\<close>

text \<open>The checksum, the packets, the protocol of burning an application, and what clearing the EEPROM does to it.\<close>

subsection \<open>The checksum\<close>

text \<open>A step of the checksum can be undone: the top bit of its result is the bit it shifted out.\<close>

lemma bit_A001: "bit (0xA001 :: u16) n \<longleftrightarrow> n = 0 \<or> n = 13 \<or> n = 15"
proof -
  have "(0xA001 :: u16) = 2 ^ 15 OR 2 ^ 13 OR 2 ^ 0" by simp
  then have "bit (0xA001 :: u16) n \<longleftrightarrow> bit (2 ^ 15 OR 2 ^ 13 OR 2 ^ 0 :: u16) n" by (rule arg_cong)
  then show ?thesis unfolding bit_or_iff bit_exp_iff by auto
qed

lemma crc_step_inj: "crc_step a = crc_step b \<Longrightarrow> a = b"
proof -
  assume e: "crc_step a = crc_step b"
  have s: "bit (crc_step c) n \<longleftrightarrow> n < 16 \<and> (bit c (Suc n) \<noteq> (bit c 0 \<and> (n = 0 \<or> n = 13 \<or> n = 15)))" for c n
    using bit_imp_le_length [of c "Suc n"] bit_A001 [of n]
    by (auto simp: crc_step_def bit_simps and_exp_eq_0_iff_not_bit [of _ 0, simplified])
  have "\<not> bit c 16" for c :: u16 using bit_imp_le_length [of c 16] by auto
  then have z: "bit a 0 \<longleftrightarrow> bit b 0" using s [of a 15] s [of b 15] e by simp
  show "a = b"
  proof (rule bit_word_eqI)
    fix n assume "n < LENGTH(16)"
    then show "bit a n \<longleftrightarrow> bit b n" using z s [of a "n - 1"] s [of b "n - 1"] e by (cases n) auto
  qed
qed

lemma crc_steps_inj: "(crc_step ^^ k) a = (crc_step ^^ k) b \<Longrightarrow> a = b"
  by (induction k arbitrary: a b) (auto simp: funpow_swap1 dest: crc_step_inj)

lemma ucast_u8_inj: "(ucast (x :: u8) :: u16) = ucast y \<Longrightarrow> x = y"
proof -
  assume "(ucast x :: u16) = ucast y"
  then have "unat (ucast x :: u16) = unat (ucast y :: u16)" by simp
  then show "x = y"
    using unat_u8_less [of x] unat_u8_less [of y]
    by (intro unsigned_word_eqI) (simp add: unsigned_ucast_eq take_bit_nat_eq_self)
qed

lemma crc_byte_inj: "crc_byte a x = crc_byte a y \<longleftrightarrow> x = y" "crc_byte a x = crc_byte b x \<longleftrightarrow> a = b"
proof -
  have "a XOR ucast x = a XOR ucast y \<Longrightarrow> x = y"
    by (rule ucast_u8_inj) (metis bit.xor_left_self)
  then show "crc_byte a x = crc_byte a y \<longleftrightarrow> x = y"
    unfolding crc_byte_def using crc_steps_inj [of 8 "a XOR ucast x" "a XOR ucast y"] by blast
  have "a XOR ucast x = b XOR ucast x \<Longrightarrow> a = b" by (metis bit.xor_left_self xor.commute)
  then show "crc_byte a x = crc_byte b x \<longleftrightarrow> a = b"
    unfolding crc_byte_def using crc_steps_inj [of 8 "a XOR ucast x" "b XOR ucast x"] by blast
qed

definition crc16 :: "u8 list \<Rightarrow> u16" where
  "crc16 bs = foldl crc_byte 0xFFFF bs"

lemma foldl_crc_inj: "foldl crc_byte a bs = foldl crc_byte b bs \<longleftrightarrow> a = b"
  by (induction bs arbitrary: a b) (simp_all add: crc_byte_inj)

lemma calculate_crc_eq: "calculate_crc len s = crc16 (map (flash s) [0..<unat len])"
  by (simp add: calculate_crc_def crc16_def foldl_map)

lemma crc16_one_byte: "crc16 (xs @ b # ys) = crc16 (xs @ c # ys) \<longleftrightarrow> b = c"
  by (simp add: crc16_def foldl_crc_inj crc_byte_inj)

subsection \<open>Packets\<close>

lemma op_roundtrip:
  assumes "length (op_data p) = 256"
  shows "op_of (mem_of (op_bytes p)) = p"
proof -
  let ?m = "mem_of (op_bytes p)"
  let ?h = "put32_le (op_proto_ver p) @ put32_le (op_sequence p)"
  have "le32 ?m 0 = op_proto_ver p" using le32_at [of "[]" 0] by (simp add: op_bytes_def)
  moreover have "le32 ?m 4 = op_sequence p" using le32_at [of "put32_le (op_proto_ver p)" 4] by (simp add: op_bytes_def)
  moreover have "?m 8 = op_code p" by (simp add: op_bytes_def mem_of_def nth_append)
  moreover have "le16 ?m 9 = op_union p" using le16_at [of "?h @ [op_code p]" 9] by (simp add: op_bytes_def)
  moreover have "mem_take (mem_at ?m 11) 256 = op_data p"
  proof -
    have "mem_at ?m 11 = mem_of (op_data p @ put16_le (op_len p))"
      using mem_at_append [of "?h @ [op_code p] @ put16_le (op_union p)" 11 "op_data p @ put16_le (op_len p)"] by (simp add: op_bytes_def)
    then show ?thesis using mem_take_append [OF assms] by simp
  qed
  moreover have "le16 ?m 267 = op_len p"
    using le16_at [of "?h @ [op_code p] @ put16_le (op_union p) @ op_data p" 267 "op_len p" "[]"] assms by (simp add: op_bytes_def)
  ultimately show ?thesis by (simp add: op_of_def)
qed

text \<open>The packet lies in the buffer behind the headers; the receiver of the firmware port gets it.\<close>

definition boot_receives :: "socket_address \<Rightarrow> octoclock_packet_t \<Rightarrow> 'a octo_boot_scheme \<Rightarrow> 'a octo_boot_scheme" where
  "boot_receives src p s = final (handle_udp_fw_packet src \<lparr>sa_port = OCTOCLOCK_UDP_FW_PORT, sa_addr = 0\<rparr> (Some 42) 269
     (s\<lparr>eth_buf := (\<lambda>i. mem_of (op_bytes p) (i - 42))\<rparr>))"

lemma pkt_in_received: "length (op_data p) = 256 \<Longrightarrow> pkt_in (Some 42) (s\<lparr>eth_buf := (\<lambda>i. mem_of (op_bytes p) (i - 42))\<rparr>) = p"
  by (simp add: pkt_in_def mem_at_def op_roundtrip)

lemma boot_fields_more:
  "octo.more s = octo.more t \<Longrightarrow> flash s = flash t \<and> fw_len s = fw_len t \<and> fw_crc s = fw_crc t \<and> done_burning s = done_burning t
     \<and> received_cmd s = received_cmd t \<and> app_checked s = app_checked t"
  by (cases s; cases t) simp

lemma send_pkt_octo:
  "octo.more (send_pkt d e b0 l0 b1 l1 b2 l2 s) = octo.more s \<and> eeprom (send_pkt d e b0 l0 b1 l1 b2 l2 s) = eeprom s
    \<and> ee_cell (send_pkt d e b0 l0 b1 l1 b2 l2 s) = ee_cell s"
  by (cases s) (simp add: send_pkt_def enc28j60_send_frame_def Let_def case_prod_unfold)

lemma op_send_octo:
  "octo.more (op_send p d pkt s) = octo.more s \<and> eeprom (op_send p d pkt s) = eeprom s \<and> ee_cell (op_send p d pkt s) = ee_cell s"
  by (simp add: op_send_def oc_send_udp_pkt_def Let_def send_ip_pkt_def send_pkt_octo split: option.split)

lemma op_send_fields [simp]:
  fixes s :: "'a octo_boot_scheme"
  shows "flash (op_send p d pkt s) = flash s" "fw_len (op_send p d pkt s) = fw_len s" "fw_crc (op_send p d pkt s) = fw_crc s"
    "done_burning (op_send p d pkt s) = done_burning s" "eeprom (op_send p d pkt s) = eeprom s"
    "ee_cell (op_send p d pkt s) = ee_cell s" "received_cmd (op_send p d pkt s) = received_cmd s"
    "app_checked (op_send p d pkt s) = app_checked s"
  using boot_fields_more op_send_octo by blast+


subsection \<open>Burning an application\<close>

definition cmd_pkt :: "u8 \<Rightarrow> u16 \<Rightarrow> u8 list \<Rightarrow> u16 \<Rightarrow> octoclock_packet_t" where
  "cmd_pkt code u ds n = \<lparr>op_proto_ver = 4, op_sequence = 0, op_code = code, op_union = u, op_data = ds, op_len = n\<rparr>"

definition page_pkt :: "mem \<Rightarrow> nat \<Rightarrow> octoclock_packet_t" where
  "page_pkt img k = cmd_pkt FILE_TRANSFER_CMD (of_nat (256 * k)) (map img [256 * k..<256 * k + 256]) 256"

lemma cmd_pkt_sel [simp]:
  "op_code (cmd_pkt c u ds n) = c" "op_union (cmd_pkt c u ds n) = u" "op_data (cmd_pkt c u ds n) = ds" "op_len (cmd_pkt c u ds n) = n"
  by (simp_all add: cmd_pkt_def)

lemma page_pkt_sel:
  "op_code (page_pkt img k) = FILE_TRANSFER_CMD" "op_union (page_pkt img k) = of_nat (256 * k)"
  "op_data (page_pkt img k) = map img [256 * k..<256 * k + 256]"
  by (simp_all add: page_pkt_def)

lemma prepare_effect:
  fixes s :: "'a octo_boot_scheme" and src :: socket_address and crc len u n :: u16 and img :: mem
  assumes "length ds = 256"
  defines "t \<equiv> boot_receives src (cmd_pkt PREPARE_FW_BURN_CMD crc ds len) s"
  shows "fw_crc t = crc" "fw_len t = len" "flash t = flash s" "ee_cell t = ee_cell s" "received_cmd t"
  using assms pkt_in_received [of "cmd_pkt PREPARE_FW_BURN_CMD crc ds len" s]
  by (simp_all add: t_def boot_receives_def handle_udp_fw_packet_def Let_def)

lemma page_effect:
  fixes s :: "'a octo_boot_scheme" and src :: socket_address and crc len u n :: u16 and img :: mem
  assumes "k < 256"
  defines "t \<equiv> boot_receives src (page_pkt img k) s"
  shows "flash t = (\<lambda>a. if a div 256 = k then img a else flash s a)" "fw_len t = fw_len s" "fw_crc t = fw_crc s"
    "ee_cell t = ee_cell s" "received_cmd t = received_cmd s"
proof -
  have u: "unat (of_nat (256 * k) :: u16) = 256 * k"
    using assms(1) by (simp add: unsigned_of_nat take_bit_nat_eq_self del: of_nat_mult)
  have d: "mem_of (map img [256 * k..<256 * k + 256]) (a mod 256) = img a" if "a div 256 = k" for a
    using that mult_div_mod_eq [of 256 a] by (simp add: mem_of_def)
  have p: "pkt_in (Some 42) (s\<lparr>eth_buf := (\<lambda>i. mem_of (op_bytes (page_pkt img k)) (i - 42))\<rparr>) = page_pkt img k"
    by (rule pkt_in_received) (simp add: page_pkt_sel)
  have neq: "FILE_TRANSFER_CMD \<noteq> PREPARE_FW_BURN_CMD" by (simp add: fw_codes)
  show "flash t = (\<lambda>a. if a div 256 = k then img a else flash s a)" "fw_len t = fw_len s" "fw_crc t = fw_crc s"
    "ee_cell t = ee_cell s" "received_cmd t = received_cmd s"
    using neq u d
    by (auto simp: t_def boot_receives_def handle_udp_fw_packet_def Let_def p page_pkt_sel boot_program_page_def
        SPM_PAGESIZE_def fun_eq_iff simp del: of_nat_mult)
qed

lemma pages_effect:
  fixes s :: "'a octo_boot_scheme" and src :: socket_address and img :: mem
  assumes "\<forall>k \<in> set ps. k < 256"
  defines "t \<equiv> fold (\<lambda>k. boot_receives src (page_pkt img k)) ps s"
  shows "(\<forall>a. flash t a = (if a div 256 \<in> set ps then img a else flash s a)) \<and> fw_len t = fw_len s \<and> fw_crc t = fw_crc s
    \<and> ee_cell t = ee_cell s \<and> received_cmd t = received_cmd s"
  using assms(1) unfolding t_def
proof (induction ps arbitrary: s)
  case (Cons k ps)
  then show ?case using page_effect [of k src img s] by auto
qed simp

lemma finalize_effect:
  fixes s :: "'a octo_boot_scheme" and src :: socket_address and crc len u n :: u16 and img :: mem
  assumes "length ds = 256" "ee_cell s = (\<lambda>_ b. b)"
  defines "t \<equiv> boot_receives src (cmd_pkt FINALIZE_BURNING_CMD u ds n) s"
  shows "done_burning t" "flash t = flash s" "le16 (eeprom t) 100 = fw_len s" "le16 (eeprom t) 102 = fw_crc s"
    "received_cmd t = received_cmd s"
proof -
  have p: "pkt_in (Some 42) (s\<lparr>eth_buf := (\<lambda>i. mem_of (op_bytes (cmd_pkt FINALIZE_BURNING_CMD u ds n)) (i - 42))\<rparr>)
      = cmd_pkt FINALIZE_BURNING_CMD u ds n"
    by (rule pkt_in_received) (simp add: assms(1))
  have neq: "FINALIZE_BURNING_CMD \<noteq> PREPARE_FW_BURN_CMD" "FINALIZE_BURNING_CMD \<noteq> FILE_TRANSFER_CMD"
    "FINALIZE_BURNING_CMD \<noteq> READ_FW_CMD" by (simp_all add: fw_codes)
  let ?bs = "put16_le (fw_len s) @ put16_le (fw_crc s)"
  have e: "eeprom t = (\<lambda>i. if 100 \<le> i \<and> i < 104 then ?bs ! (i - 100) else eeprom s i)"
    using neq by (simp add: t_def boot_receives_def handle_udp_fw_packet_def Let_def p eeprom_write_block_def
        OCTOCLOCK_EEPROM_APP_LEN_def assms(2) cong: if_cong)
  show "le16 (eeprom t) 100 = fw_len s" "le16 (eeprom t) 102 = fw_crc s"
    by (simp_all add: le16_def e put16_le_def nth_append bytes_simps)
  show "done_burning t" "flash t = flash s" "received_cmd t = received_cmd s"
    using neq by (simp_all add: t_def boot_receives_def handle_udp_fw_packet_def Let_def p eeprom_write_block_def)
qed

text \<open>C20. The protocol of burning an application.  After the announcement of length and checksum, the pages in any order
  and any number of times each, as a network may deliver them, and the final command, flash holds the image; and the next turn of the
  loop starts it exactly if the checksum of the image is the announced one.\<close>

theorem boot_burn_protocol:
  fixes s :: "'a octo_boot_scheme" and src :: socket_address and crc len u n :: u16 and img :: mem
  assumes cells: "ee_cell s = (\<lambda>_ b. b)" and ds: "length ds = 256"
    and pages: "\<forall>k \<in> set ps. k < 256" "\<forall>k. 256 * k < unat len \<longrightarrow> k \<in> set ps"
  defines "t \<equiv> boot_receives src (cmd_pkt FINALIZE_BURNING_CMD u ds n)
    (fold (\<lambda>k. boot_receives src (page_pkt img k)) ps (boot_receives src (cmd_pkt PREPARE_FW_BURN_CMD crc ds len) s))"
  shows "(\<forall>a < unat len. flash t a = img a)
    \<and> (if crc16 (map img [0..<unat len]) = crc
       then \<exists>t'. boot_turn tcnt1 recv t = Jump (Run t') \<and> flash t' = flash t
       else \<exists>t'. boot_turn tcnt1 recv t = Loop (network_check run_boot recv t') \<and> flash t' = flash t)"
proof -
  define s1 where "s1 = boot_receives src (cmd_pkt PREPARE_FW_BURN_CMD crc ds len) s"
  define s2 where "s2 = fold (\<lambda>k. boot_receives src (page_pkt img k)) ps s1"
  have t: "t = boot_receives src (cmd_pkt FINALIZE_BURNING_CMD u ds n) s2" by (simp add: t_def s2_def s1_def)
  note e1 = prepare_effect [OF ds, of src crc len s, folded s1_def] and e2 = pages_effect [OF pages(1), of src img s1, folded s2_def]
  have "ee_cell s2 = (\<lambda>_ b. b)" using e1 e2 cells by simp
  note e3 = finalize_effect [OF ds this, of src u n, folded t]
  have img: "flash t a = img a" if "a < unat len" for a
  proof -
    have "256 * (a div 256) < unat len" using that by (meson div_times_less_eq_dividend le_less_trans times_div_less_eq_dividend)
    then show ?thesis using pages(2) e2 e3(2) by simp
  qed
  have l: "le16 (eeprom t) OCTOCLOCK_EEPROM_APP_LEN = len" "le16 (eeprom t) (OCTOCLOCK_EEPROM_APP_LEN + 2) = crc"
    using e1 e2 e3 by (simp_all add: OCTOCLOCK_EEPROM_APP_LEN_def)
  have "map (flash t) [0..<unat len] = map img [0..<unat len]" using img by simp
  then have c: "calculate_crc len t = crc16 (map img [0..<unat len])" unfolding calculate_crc_eq by (rule arg_cong)
  have v: "valid_app t = (crc16 (map img [0..<unat len]) = crc, t\<lparr>fw_crc := crc16 (map img [0..<unat len])\<rparr>)"
    by (simp add: valid_app_def Let_def l c del: add_2_eq_Suc')
  have "received_cmd t" using e1 e2 e3 by simp
  then show ?thesis
    using img e3(1)
    by (auto simp: boot_turn_def after_burning_def after_timeout_def v start_app_def
        intro!: exI [of _ "t\<lparr>fw_crc := crc16 (map img [0..<unat len]), done_burning := False\<rparr>"])
qed

definition octo_boot_demo :: octo_boot where
  "octo_boot_demo = octo.extend (octo_demo 1 [2, 0, 0, 0, 0, 1]) (octo_boot.fields False False False 0 0 (\<lambda>_. 0xFF) 0)"

lemmas octo_boot_demo_defs = octo_boot_demo_def octo_demo_def octo.defs octo_boot.defs

lemma boot_burn_protocol_witness:
  "let img = (\<lambda>a. of_nat a); crc = crc16 (map img [0..<300]); src = \<lparr>sa_port = 1, sa_addr = 2\<rparr>; ds = replicate 256 0;
       t = boot_receives src (cmd_pkt FINALIZE_BURNING_CMD 0 ds 0) (fold (\<lambda>k. boot_receives src (page_pkt img k)) [1, 0, 1]
         (boot_receives src (cmd_pkt PREPARE_FW_BURN_CMD crc ds 300) octo_boot_demo))
   in flash t 299 = of_nat 299 \<and> (\<exists>t'. boot_turn 0 (\<lambda>u. (0, u)) t = Jump (Run t'))"
proof -
  let ?img = "\<lambda>a. of_nat a :: u8"
  have a: "ee_cell octo_boot_demo = (\<lambda>_ b. b)" by (simp add: octo_boot_demo_defs)
  have b: "length (replicate 256 (0 :: u8)) = 256" "\<forall>k \<in> set [1, 0, 1 :: nat]. k < 256"
    "\<forall>k. 256 * k < unat (300 :: u16) \<longrightarrow> k \<in> set [1, 0, 1 :: nat]" by auto
  note p = boot_burn_protocol [OF a b, where img = ?img and crc = "crc16 (map ?img [0..<300])" and src = "\<lparr>sa_port = 1, sa_addr = 2\<rparr>"
      and u = 0 and n = 0 and ?tcnt1.0 = 0 and recv = "\<lambda>u. (0, u)"]
  have n: "unat (300 :: u16) = 300" by simp
  have "(299 :: nat) < 300" by simp
  then show ?thesis using p unfolding Let_def n by (simp only: simp_thms if_True) blast
qed

subsection \<open>When an application is started\<close>

text \<open>What the check does: it compares the checksum over as much of flash as the EEPROM says with the one in the EEPROM, and leaves
  the checksum of flash in the variable that the next final command writes to the EEPROM.\<close>

lemma valid_app_eq:
  "valid_app s = (crc16 (map (flash s) [0..<unat (le16 (eeprom s) 100)]) = le16 (eeprom s) 102,
     s\<lparr>fw_crc := crc16 (map (flash s) [0..<unat (le16 (eeprom s) 100)])\<rparr>)"
  by (simp add: valid_app_def Let_def calculate_crc_eq OCTOCLOCK_EEPROM_APP_LEN_def)

lemma boot_turn_rejects:
  assumes "crc16 (map (flash s) [0..<unat (le16 (eeprom s) 100)]) \<noteq> le16 (eeprom s) 102"
  shows "\<exists>t. boot_turn tcnt1 recv s = Loop (network_check run_boot recv t) \<and> flash t = flash s \<and> eeprom t = eeprom s
    \<and> ee_cell t = ee_cell s \<and> fw_len t = fw_len s \<and> \<not> done_burning t
    \<and> (done_burning s \<longrightarrow> fw_crc t = crc16 (map (flash s) [0..<unat (le16 (eeprom s) 100)]))"
  using assms by (auto simp: boot_turn_def after_burning_def after_timeout_def valid_app_eq)

lemma boot_turn_accepts:
  assumes "crc16 (map (flash s) [0..<unat (le16 (eeprom s) 100)]) = le16 (eeprom s) 102"
    and "done_burning s \<or> \<not> app_checked s \<and> \<not> received_cmd s \<and> tcnt1 > TIMER1_ONE_SECOND"
  shows "\<exists>t. boot_turn tcnt1 recv s = Jump (Run t) \<and> flash t = flash s"
  using assms by (cases "done_burning s") (auto simp: boot_turn_def after_burning_def after_timeout_def valid_app_eq start_app_def)

definition one_byte_off :: "u8 list \<Rightarrow> mem \<Rightarrow> bool" where
  "one_byte_off img m \<longleftrightarrow> (\<exists>i < length img. m i \<noteq> img ! i \<and> (\<forall>j < length img. j \<noteq> i \<longrightarrow> m j = img ! j))"

lemma one_byte_off_crc:
  assumes "one_byte_off img m"
  shows "crc16 (map m [0..<length img]) \<noteq> crc16 img"
proof -
  from assms obtain i where i: "i < length img" "m i \<noteq> img ! i" "\<forall>j < length img. j \<noteq> i \<longrightarrow> m j = img ! j"
    unfolding one_byte_off_def by blast
  have "map m [0..<length img] = take i img @ m i # drop (Suc i) img"
    using i by (intro nth_equalityI) (auto simp: nth_append nth_Cons')
  moreover have "img = take i img @ img ! i # drop (Suc i) img" using i(1) by (rule id_take_nth_drop)
  ultimately show ?thesis using crc16_one_byte [of "take i img" "m i" "drop (Suc i) img" "img ! i"] i(2) by metis
qed

text \<open>C21. When the boot loader starts what is in flash.  In a turn that begins with the length and the checksum of an image in the
  EEPROM it starts the intact image, once burning is finished or the timer has run out without a command; an application that differs
  from the image in a single byte it does not start in that turn, and keeps.  But the check has put the checksum of
  flash where the announced one was: so when burning is finished and the check has failed, one more final command, as a host
  whose acknowledgement was lost sends it, makes the next turn start the wrong application.\<close>

theorem boot_start_decision:
  fixes s :: "'a octo_boot_scheme"
  assumes len: "length img < 65536" "le16 (eeprom s) 100 = of_nat (length img)" and crc: "le16 (eeprom s) 102 = crc16 img"
  shows "((\<forall>j < length img. flash s j = img ! j)
          \<and> (done_burning s \<or> \<not> app_checked s \<and> \<not> received_cmd s \<and> tcnt1 > TIMER1_ONE_SECOND)
        \<longrightarrow> (\<exists>t. boot_turn tcnt1 recv s = Jump (Run t) \<and> flash t = flash s))
    \<and> (one_byte_off img (flash s) \<longrightarrow> (\<exists>t. boot_turn tcnt1 recv s = Loop (network_check run_boot recv t)
          \<and> flash t = flash s \<and> eeprom t = eeprom s \<and> \<not> done_burning t
          \<and> (done_burning s \<and> fw_len s = of_nat (length img) \<and> ee_cell s = (\<lambda>_ b. b)
             \<longrightarrow> (\<forall>src u ds n tcnt1' recv'. length ds = 256 \<longrightarrow>
                   (\<exists>t'. boot_turn tcnt1' recv' (boot_receives src (cmd_pkt FINALIZE_BURNING_CMD u ds n) t) = Jump (Run t')
                     \<and> flash t' = flash s)))))"
proof -
  have n: "unat (of_nat (length img) :: u16) = length img"
    using len(1) by (simp add: unsigned_of_nat take_bit_nat_eq_self)
  have intact: "crc16 (map (flash s) [0..<unat (le16 (eeprom s) 100)]) = le16 (eeprom s) 102"
    if "\<forall>j < length img. flash s j = img ! j"
    unfolding len(2) n crc by (rule arg_cong [of _ _ crc16], intro nth_equalityI) (use that in simp_all)
  have off: "crc16 (map (flash s) [0..<unat (le16 (eeprom s) 100)]) \<noteq> le16 (eeprom s) 102" if "one_byte_off img (flash s)"
    unfolding len(2) n crc using that by (rule one_byte_off_crc)
  have again: "\<exists>t'. boot_turn tcnt1' recv' (boot_receives src (cmd_pkt FINALIZE_BURNING_CMD u ds m) t) = Jump (Run t') \<and> flash t' = flash s"
    if t: "fw_len t = of_nat (length img)" "ee_cell t = (\<lambda>_ b. b)" "flash t = flash s"
        "fw_crc t = crc16 (map (flash s) [0..<unat (le16 (eeprom s) 100)])" and ds: "length ds = 256"
    for src u ds m tcnt1' recv' and t :: "'a octo_boot_scheme"
  proof -
    note e = finalize_effect [OF ds t(2), of src u m]
    have "\<exists>t'. boot_turn tcnt1' recv' (boot_receives src (cmd_pkt FINALIZE_BURNING_CMD u ds m) t) = Jump (Run t')
      \<and> flash t' = flash (boot_receives src (cmd_pkt FINALIZE_BURNING_CMD u ds m) t)"
      by (rule boot_turn_accepts) (use e t len(2) in simp_all)
    with e(2) t(3) show ?thesis by simp
  qed
  show ?thesis using boot_turn_accepts [OF intact] boot_turn_rejects [OF off, of tcnt1 recv] again by metis
qed

lemma boot_start_decision_witness:
  "\<exists>t. boot_turn 0 (\<lambda>u. (0, u)) (octo_boot_demo\<lparr>eeprom := (\<lambda>i. (put16_le 3 @ put16_le (crc16 [1, 2, 3])) ! (i - 100)),
       flash := mem_of [1, 9, 3], done_burning := True, fw_len := 3\<rparr>) = Loop (network_check run_boot (\<lambda>u. (0, u)) t)
     \<and> (\<exists>t'. boot_turn 0 (\<lambda>u. (0, u)) (boot_receives \<lparr>sa_port = 1, sa_addr = 2\<rparr>
               (cmd_pkt FINALIZE_BURNING_CMD 0 (replicate 256 0) 0) t) = Jump (Run t') \<and> flash t' 1 = 9)"
proof -
  let ?s = "octo_boot_demo\<lparr>eeprom := (\<lambda>i. (put16_le 3 @ put16_le (crc16 [1, 2, 3])) ! (i - 100)),
       flash := mem_of [1, 9, 3], done_burning := True, fw_len := 3\<rparr>"
  have e: "length [1, 2, 3 :: u8] < 65536" "le16 (eeprom ?s) 100 = of_nat (length [1, 2, 3 :: u8])" "le16 (eeprom ?s) 102 = crc16 [1, 2, 3]"
    by (simp_all add: le16_def put16_le_def nth_append bytes_simps)
  have "one_byte_off [1, 2, 3] (flash ?s)"
    unfolding one_byte_off_def by (rule exI [of _ 1]) (auto simp: mem_of_def numeral_3_eq_3 less_Suc_eq)
  moreover have "done_burning ?s" "fw_len ?s = of_nat (length [1, 2, 3 :: u8])" "ee_cell ?s = (\<lambda>_ b. b)"
    by (simp_all add: octo_boot_demo_defs)
  moreover have "length (replicate 256 (0 :: u8)) = 256" "flash ?s 1 = 9" by (simp_all add: mem_of_def)
  ultimately show ?thesis
    using boot_start_decision [OF e, of 0 "\<lambda>u. (0, u)"] by metis
qed

text \<open>C22. Clearing the EEPROM writes 103 bytes, and the information on the installed application begins not at 103 but at 100:
  its length becomes 65535 and the low byte of its checksum 255, whatever they were.  So after its EEPROM has been
  cleared the device no longer starts the application it had.\<close>

theorem clear_eeprom_loses_app:
  assumes "ee_cell s = (\<lambda>_ b. b)" "op_proto_ver (pkt_in payload s) = OCTOCLOCK_FW_COMPAT_NUM" "op_code (pkt_in payload s) = CLEAR_EEPROM_CMD"
  shows "\<exists>t. handle_udp_eeprom_packet src dst payload n s = Run t \<and> le16 (eeprom t) 100 = 0xFFFF
    \<and> le16 (eeprom t) 102 = word_cat (eeprom s 103) (0xFF :: u8) \<and> flash t = flash s
    \<and> (fst (valid_app t) \<longrightarrow> calculate_crc 0xFFFF t = word_cat (eeprom s 103) (0xFF :: u8))"
proof -
  let ?u = "s\<lparr>received_cmd := True, eeprom := (\<lambda>i. if i < 103 then 0xFF else eeprom s i)\<rparr>"
  have w: "eeprom_write_block (replicate 103 0xFF) 0 (s\<lparr>received_cmd := True\<rparr>) = ?u"
    using assms(1) by (simp add: eeprom_write_block_def cong: if_cong)
  have ff: "word_cat (0xFF :: u8) (0xFF :: u8) = (0xFFFF :: u16)" by (simp add: word_cat_eq)
  obtain r where r: "handle_udp_eeprom_packet src dst payload n s = Run (op_send OCTOCLOCK_UDP_EEPROM_PORT src r ?u)"
    using assms(2,3) by (simp add: handle_udp_eeprom_packet_def Let_def w)
  then show ?thesis by (auto simp: le16_def ff valid_app_def Let_def OCTOCLOCK_EEPROM_APP_LEN_def calculate_crc_def)
qed

lemma clear_eeprom_loses_app_witness:
  "\<exists>t. handle_udp_eeprom_packet \<lparr>sa_port = 1, sa_addr = 2\<rparr> \<lparr>sa_port = 1, sa_addr = 2\<rparr> (Some 42) 269
     (octo_boot_demo\<lparr>eth_buf := (\<lambda>i. if i = 42 then 4 else if i = 50 then 8 else 0)\<rparr>) = Run t \<and> le16 (eeprom t) 100 = 0xFFFF"
proof -
  let ?s = "octo_boot_demo\<lparr>eth_buf := (\<lambda>i. if i = 42 then 4 else if i = 50 then 8 else 0)\<rparr>"
  have "ee_cell ?s = (\<lambda>_ b. b)" by (simp add: octo_boot_demo_defs)
  moreover have "op_proto_ver (pkt_in (Some 42) ?s) = OCTOCLOCK_FW_COMPAT_NUM" "op_code (pkt_in (Some 42) ?s) = CLEAR_EEPROM_CMD"
    by (simp_all add: pkt_in_def op_of_def mem_at_def le32_def le16_def OCTOCLOCK_FW_COMPAT_NUM_def CLEAR_EEPROM_CMD_def word_cat_eq)
  ultimately show ?thesis
    using clear_eeprom_loses_app [of ?s "Some 42" "\<lparr>sa_port = 1, sa_addr = 2\<rparr>" "\<lparr>sa_port = 1, sa_addr = 2\<rparr>" 269] by blast
qed

end
