(* ===== verification/Crc32.thy ===== *)
theory Crc32
  imports Prelude
begin

unbundle bit_operations_syntax

section \<open>CRC-32\<close>

text \<open>
  The checksum of the EEPROM tools, \<^verbatim>\<open>mpm/tools/tlv_eeprom/crc.c\<close> and \<^verbatim>\<open>mpm/tools/eeprom.c\<close>, which have
  the same table: one byte at a time by table.  The reference definition divides bit by bit by the polynomial;
  the two agree on every input, and from the reference it follows which errors the checksum finds.
\<close>

definition crc32_tab :: "u32 list" where
  "crc32_tab =
    [0x00000000, 0x77073096, 0xee0e612c, 0x990951ba, 0x076dc419, 0x706af48f, 0xe963a535, 0x9e6495a3,
     0x0edb8832, 0x79dcb8a4, 0xe0d5e91e, 0x97d2d988, 0x09b64c2b, 0x7eb17cbd, 0xe7b82d07, 0x90bf1d91,
     0x1db71064, 0x6ab020f2, 0xf3b97148, 0x84be41de, 0x1adad47d, 0x6ddde4eb, 0xf4d4b551, 0x83d385c7,
     0x136c9856, 0x646ba8c0, 0xfd62f97a, 0x8a65c9ec, 0x14015c4f, 0x63066cd9, 0xfa0f3d63, 0x8d080df5,
     0x3b6e20c8, 0x4c69105e, 0xd56041e4, 0xa2677172, 0x3c03e4d1, 0x4b04d447, 0xd20d85fd, 0xa50ab56b,
     0x35b5a8fa, 0x42b2986c, 0xdbbbc9d6, 0xacbcf940, 0x32d86ce3, 0x45df5c75, 0xdcd60dcf, 0xabd13d59,
     0x26d930ac, 0x51de003a, 0xc8d75180, 0xbfd06116, 0x21b4f4b5, 0x56b3c423, 0xcfba9599, 0xb8bda50f,
     0x2802b89e, 0x5f058808, 0xc60cd9b2, 0xb10be924, 0x2f6f7c87, 0x58684c11, 0xc1611dab, 0xb6662d3d,
     0x76dc4190, 0x01db7106, 0x98d220bc, 0xefd5102a, 0x71b18589, 0x06b6b51f, 0x9fbfe4a5, 0xe8b8d433,
     0x7807c9a2, 0x0f00f934, 0x9609a88e, 0xe10e9818, 0x7f6a0dbb, 0x086d3d2d, 0x91646c97, 0xe6635c01,
     0x6b6b51f4, 0x1c6c6162, 0x856530d8, 0xf262004e, 0x6c0695ed, 0x1b01a57b, 0x8208f4c1, 0xf50fc457,
     0x65b0d9c6, 0x12b7e950, 0x8bbeb8ea, 0xfcb9887c, 0x62dd1ddf, 0x15da2d49, 0x8cd37cf3, 0xfbd44c65,
     0x4db26158, 0x3ab551ce, 0xa3bc0074, 0xd4bb30e2, 0x4adfa541, 0x3dd895d7, 0xa4d1c46d, 0xd3d6f4fb,
     0x4369e96a, 0x346ed9fc, 0xad678846, 0xda60b8d0, 0x44042d73, 0x33031de5, 0xaa0a4c5f, 0xdd0d7cc9,
     0x5005713c, 0x270241aa, 0xbe0b1010, 0xc90c2086, 0x5768b525, 0x206f85b3, 0xb966d409, 0xce61e49f,
     0x5edef90e, 0x29d9c998, 0xb0d09822, 0xc7d7a8b4, 0x59b33d17, 0x2eb40d81, 0xb7bd5c3b, 0xc0ba6cad,
     0xedb88320, 0x9abfb3b6, 0x03b6e20c, 0x74b1d29a, 0xead54739, 0x9dd277af, 0x04db2615, 0x73dc1683,
     0xe3630b12, 0x94643b84, 0x0d6d6a3e, 0x7a6a5aa8, 0xe40ecf0b, 0x9309ff9d, 0x0a00ae27, 0x7d079eb1,
     0xf00f9344, 0x8708a3d2, 0x1e01f268, 0x6906c2fe, 0xf762575d, 0x806567cb, 0x196c3671, 0x6e6b06e7,
     0xfed41b76, 0x89d32be0, 0x10da7a5a, 0x67dd4acc, 0xf9b9df6f, 0x8ebeeff9, 0x17b7be43, 0x60b08ed5,
     0xd6d6a3e8, 0xa1d1937e, 0x38d8c2c4, 0x4fdff252, 0xd1bb67f1, 0xa6bc5767, 0x3fb506dd, 0x48b2364b,
     0xd80d2bda, 0xaf0a1b4c, 0x36034af6, 0x41047a60, 0xdf60efc3, 0xa867df55, 0x316e8eef, 0x4669be79,
     0xcb61b38c, 0xbc66831a, 0x256fd2a0, 0x5268e236, 0xcc0c7795, 0xbb0b4703, 0x220216b9, 0x5505262f,
     0xc5ba3bbe, 0xb2bd0b28, 0x2bb45a92, 0x5cb36a04, 0xc2d7ffa7, 0xb5d0cf31, 0x2cd99e8b, 0x5bdeae1d,
     0x9b64c2b0, 0xec63f226, 0x756aa39c, 0x026d930a, 0x9c0906a9, 0xeb0e363f, 0x72076785, 0x05005713,
     0x95bf4a82, 0xe2b87a14, 0x7bb12bae, 0x0cb61b38, 0x92d28e9b, 0xe5d5be0d, 0x7cdcefb7, 0x0bdbdf21,
     0x86d3d2d4, 0xf1d4e242, 0x68ddb3f8, 0x1fda836e, 0x81be16cd, 0xf6b9265b, 0x6fb077e1, 0x18b74777,
     0x88085ae6, 0xff0f6a70, 0x66063bca, 0x11010b5c, 0x8f659eff, 0xf862ae69, 0x616bffd3, 0x166ccf45,
     0xa00ae278, 0xd70dd2ee, 0x4e048354, 0x3903b3c2, 0xa7672661, 0xd06016f7, 0x4969474d, 0x3e6e77db,
     0xaed16a4a, 0xd9d65adc, 0x40df0b66, 0x37d83bf0, 0xa9bcae53, 0xdebb9ec5, 0x47b2cf7f, 0x30b5ffe9,
     0xbdbdf21c, 0xcabac28a, 0x53b39330, 0x24b4a3a6, 0xbad03605, 0xcdd70693, 0x54de5729, 0x23d967bf,
     0xb3667a2e, 0xc4614ab8, 0x5d681b02, 0x2a6f2b94, 0xb40bbe37, 0xc30c8ea1, 0x5a05df1b, 0x2d02ef8d]"

definition crc32_update :: "u32 \<Rightarrow> u8 \<Rightarrow> u32" where
  "crc32_update crc b = crc32_tab ! unat ((crc XOR ucast b) AND 0xFF) XOR drop_bit 8 crc"

text \<open>\<^verbatim>\<open>crc32\<close> of \<^verbatim>\<open>tlv_eeprom/crc.c\<close>, and that of \<^verbatim>\<open>eeprom.c\<close>, which complements the checksum before and after.\<close>

definition tlv_crc32 :: "u32 \<Rightarrow> u8 list \<Rightarrow> u32" where
  "tlv_crc32 crc buf = foldl crc32_update crc buf"

definition sulfur_crc32 :: "u32 \<Rightarrow> u8 list \<Rightarrow> u32" where
  "sulfur_crc32 crc buf = foldl crc32_update (crc XOR NOT 0) buf XOR NOT 0"

subsection \<open>Bit by bit\<close>

definition crc32_bit :: "u32 \<Rightarrow> u32" where
  "crc32_bit c = (if c AND 1 \<noteq> 0 then drop_bit 1 c XOR 0xEDB88320 else drop_bit 1 c)"

definition crc32_byte :: "u32 \<Rightarrow> u8 \<Rightarrow> u32" where
  "crc32_byte c b = (crc32_bit ^^ 8) (c XOR ucast b)"

text \<open>Dividing is linear.\<close>

lemma crc32_bit_xor: "crc32_bit (a XOR b) = crc32_bit a XOR crc32_bit b"
proof -
  have "(a XOR b) AND 1 \<noteq> 0 \<longleftrightarrow> (a AND 1 \<noteq> 0) \<noteq> (b AND 1 \<noteq> 0)"
    by (simp add: and_one_eq odd_iff_mod_2_eq_one [symmetric] even_xor_iff)
  then show ?thesis by (auto simp: crc32_bit_def drop_bit_xor ac_simps)
qed

lemma crc32_bits_xor: "(crc32_bit ^^ n) (a XOR b) = (crc32_bit ^^ n) a XOR (crc32_bit ^^ n) b"
  by (induction n arbitrary: a b) (simp_all add: crc32_bit_xor)

subsection \<open>The table\<close>

text \<open>A table for twice as many values is the table and its sum with one value; so the entries at powers of two give all.\<close>

definition twice :: "u32 list \<Rightarrow> u32 \<Rightarrow> u32 list" where
  "twice xs b = xs @ map (\<lambda>x. x XOR b) xs"

definition byte_table :: "nat \<Rightarrow> u32 list \<Rightarrow> bool" where
  "byte_table k xs \<longleftrightarrow> length xs = 2 ^ k \<and> (\<forall>i < 2 ^ k. xs ! i = (crc32_bit ^^ 8) (of_nat i))"

lemma of_nat_upper_half:
  assumes "2 ^ k \<le> i" "i < 2 ^ Suc k" shows "of_nat i = of_nat (i - 2 ^ k) XOR (2 ^ k :: u32)"
proof -
  have "i - 2 ^ k < 2 ^ k" using assms by simp
  then have "\<not> bit (i - 2 ^ k) k" by (simp add: bit_nat_def)
  then have "(of_nat (i - 2 ^ k) :: u32) AND 2 ^ k = 0"
    by (intro bit_word_eqI) (auto simp: bit_simps)
  then have "of_nat (i - 2 ^ k) XOR (2 ^ k :: u32) = of_nat (i - 2 ^ k) + 2 ^ k" by (simp add: disjunctive_add_eq_xor)
  also have "\<dots> = of_nat (i - 2 ^ k + 2 ^ k)" by simp
  finally show ?thesis using assms by (simp del: of_nat_add)
qed

lemma byte_table_twice:
  assumes "byte_table k xs" "b = (crc32_bit ^^ 8) (2 ^ k)"
  shows "byte_table (Suc k) (twice xs b)"
proof -
  have l: "length xs = 2 ^ k" and e: "\<And>i. i < 2 ^ k \<Longrightarrow> xs ! i = (crc32_bit ^^ 8) (of_nat i)"
    using assms(1) by (simp_all add: byte_table_def)
  have "twice xs b ! i = (crc32_bit ^^ 8) (of_nat i)" if i: "i < 2 ^ Suc k" for i
  proof (cases "i < 2 ^ k")
    case False
    then have "twice xs b ! i = xs ! (i - 2 ^ k) XOR b" using i by (simp add: twice_def nth_append l)
    also have "\<dots> = (crc32_bit ^^ 8) (of_nat (i - 2 ^ k) XOR 2 ^ k)" using i by (simp add: e assms(2) crc32_bits_xor)
    finally show ?thesis using False of_nat_upper_half [of k i] i by simp
  qed (simp add: twice_def nth_append l e)
  then show ?thesis by (simp add: byte_table_def twice_def l)
qed

lemma crc32_tab_twice:
  "crc32_tab = twice (twice (twice (twice (twice (twice (twice (twice [0] 0x77073096) 0xee0e612c) 0x076dc419)
     0x0edb8832) 0x1db71064) 0x3b6e20c8) 0x76dc4190) 0xedb88320"
  unfolding crc32_tab_def twice_def by simp

lemma funpow_8: "(f ^^ 8) x = f (f (f (f (f (f (f (f x)))))))"
  by (simp add: eval_nat_numeral)

lemma crc32_powers:
  "(crc32_bit ^^ 8) 1 = 0x77073096" "(crc32_bit ^^ 8) 2 = 0xee0e612c" "(crc32_bit ^^ 8) 4 = 0x076dc419"
  "(crc32_bit ^^ 8) 8 = 0x0edb8832" "(crc32_bit ^^ 8) 16 = 0x1db71064" "(crc32_bit ^^ 8) 32 = 0x3b6e20c8"
  "(crc32_bit ^^ 8) 64 = 0x76dc4190" "(crc32_bit ^^ 8) 128 = 0xedb88320"
  by (simp_all add: funpow_8 crc32_bit_def)

lemma crc32_tab_entries: "byte_table 8 crc32_tab"
proof -
  have "byte_table 0 [0]" by (simp add: byte_table_def funpow_8 crc32_bit_def)
  then have "byte_table (Suc (Suc (Suc (Suc (Suc (Suc (Suc (Suc 0)))))))) crc32_tab"
    unfolding crc32_tab_twice by (intro byte_table_twice) (simp_all add: crc32_powers)
  then show ?thesis by (simp add: eval_nat_numeral)
qed

subsection \<open>Bytes\<close>

lemma crc32_bits_drop:
  "(\<And>k. k < n \<Longrightarrow> \<not> bit w k) \<Longrightarrow> (crc32_bit ^^ n) w = drop_bit n w"
proof (induction n)
  case (Suc n)
  then have "(crc32_bit ^^ Suc n) w = crc32_bit (drop_bit n w)" by simp
  also have "\<dots> = drop_bit 1 (drop_bit n w)"
    using Suc.prems [of n] by (simp add: crc32_bit_def and_one_eq bit_iff_odd_drop_bit odd_iff_mod_2_eq_one)
  finally show ?case by simp
qed simp

lemma low_byte_split: "x = (x AND 0xFF) XOR (x AND NOT (0xFF :: u32))"
  by (intro bit_word_eqI) (auto simp: bit_simps)

lemma FF_mask: "(0xFF :: u32) = mask 8"
  by (simp add: mask_eq_exp_minus_1)

lemma crc32_update_byte: "crc32_update c b = crc32_byte c b"
proof -
  define x where "x = c XOR ucast b"
  have "x AND 0xFF = take_bit 8 x" unfolding FF_mask by (simp add: take_bit_eq_mask)
  then have m: "unat (x AND 0xFF) < 2 ^ 8" by (simp add: unsigned_take_bit_eq take_bit_nat_less_exp del: power_numeral)
  have "(crc32_bit ^^ 8) x = (crc32_bit ^^ 8) (x AND 0xFF) XOR (crc32_bit ^^ 8) (x AND NOT 0xFF)"
    by (subst low_byte_split) (rule crc32_bits_xor)
  also have "(crc32_bit ^^ 8) (x AND 0xFF) = crc32_tab ! unat (x AND 0xFF)"
    using crc32_tab_entries m by (simp add: byte_table_def)
  also have "(crc32_bit ^^ 8) (x AND NOT 0xFF) = drop_bit 8 (x AND NOT 0xFF)"
    unfolding FF_mask by (rule crc32_bits_drop) (simp add: bit_simps)
  also have "drop_bit 8 (x AND NOT 0xFF) = drop_bit 8 c"
    unfolding FF_mask by (intro bit_word_eqI) (auto simp: x_def bit_simps dest: bit_imp_le_length)
  finally show ?thesis by (simp add: crc32_update_def crc32_byte_def x_def)
qed

theorem crc32_bitwise: "foldl crc32_update c bs = foldl crc32_byte c bs"
  by (induction bs arbitrary: c) (simp_all add: crc32_update_byte)

subsection \<open>Errors the checksum finds\<close>

lemma word_xor_cancel: "a XOR c = b XOR c \<longleftrightarrow> a = b" "c XOR a = c XOR b \<longleftrightarrow> a = b" for a b c :: u32
proof -
  have i: "(x XOR c) XOR c = x" for x :: u32 by (simp add: xor.assoc)
  show 1: "a XOR c = b XOR c \<longleftrightarrow> a = b"
  proof
    assume "a XOR c = b XOR c"
    then have "(a XOR c) XOR c = (b XOR c) XOR c" by simp
    then show "a = b" by (simp only: i)
  qed simp
  then show "c XOR a = c XOR b \<longleftrightarrow> a = b" by (simp add: xor.commute)
qed

lemma crc32_bit_inj: "crc32_bit a = crc32_bit b \<Longrightarrow> a = b"
proof -
  assume e: "crc32_bit a = crc32_bit b"
  have top: "bit (crc32_bit w) 31 \<longleftrightarrow> odd w" for w
    by (auto simp: crc32_bit_def and_one_eq odd_iff_mod_2_eq_one bit_simps dest: bit_imp_le_length)
  have o: "odd a \<longleftrightarrow> odd b" using e top by metis
  then have "drop_bit 1 a = drop_bit 1 b"
    using e by (auto simp: crc32_bit_def and_one_eq odd_iff_mod_2_eq_one word_xor_cancel split: if_splits)
  then have "bit a (Suc n) = bit b (Suc n)" for n by (metis bit_drop_bit_eq comp_apply plus_1_eq_Suc)
  moreover have "bit a 0 = bit b 0" using o by (simp add: bit_0)
  ultimately show "a = b" by (intro bit_word_eqI) (metis not0_implies_Suc)
qed

lemma crc32_bits_inj: "(crc32_bit ^^ n) a = (crc32_bit ^^ n) b \<longleftrightarrow> a = b"
  by (induction n) (auto dest: crc32_bit_inj)

text \<open>Up to four bytes as one word.\<close>

fun le_word :: "u8 list \<Rightarrow> u32" where
  "le_word [] = 0"
| "le_word (b # bs) = ucast b XOR push_bit 8 (le_word bs)"

lemma bit_le_word: "bit (le_word bs) k \<longleftrightarrow> k < 32 \<and> k < 8 * length bs \<and> bit (bs ! (k div 8)) (k mod 8)"
proof (induction bs arbitrary: k)
  case (Cons b bs)
  show ?case
  proof (cases "k < 8")
    case False
    then obtain j where j: "k = 8 + j" by (metis le_add_diff_inverse not_less)
    have "(8 + j) div 8 = Suc (j div 8)" "(8 + j) mod 8 = j mod 8" by simp_all
    moreover have "\<not> bit b (8 + j)" using bit_imp_le_length [of b "8 + j"] by auto
    ultimately show ?thesis unfolding j by (auto simp: bit_simps Cons.IH)
  qed (auto simp: bit_simps)
qed simp

lemma le_word_inj: "le_word xs = le_word ys \<Longrightarrow> length xs = length ys \<Longrightarrow> length xs \<le> 4 \<Longrightarrow> xs = ys"
proof (intro nth_equalityI)
  fix i assume a: "le_word xs = le_word ys" "length xs = length ys" "length xs \<le> 4" "i < length xs"
  have "bit (xs ! i) n = bit (ys ! i) n" if "n < 8" for n
  proof -
    have "bit (le_word xs) (8 * i + n) = bit (le_word ys) (8 * i + n)" using a(1) by simp
    then show ?thesis using a(2-4) that by (simp add: bit_le_word)
  qed
  then show "xs ! i = ys ! i" by (intro bit_word_eqI) simp
qed

lemma foldl_crc32_word:
  "length bs \<le> 4 \<Longrightarrow> foldl crc32_byte c bs = (crc32_bit ^^ (8 * length bs)) (c XOR le_word bs)"
proof (induction bs arbitrary: c)
  case (Cons b bs)
  have "(crc32_bit ^^ 8) (push_bit 8 (le_word bs)) = drop_bit 8 (push_bit 8 (le_word bs))"
    by (rule crc32_bits_drop) (simp add: bit_simps)
  also have "\<dots> = le_word bs"
    using Cons.prems by (intro bit_word_eqI) (auto simp: bit_simps bit_le_word)
  finally have p: "(crc32_bit ^^ 8) (push_bit 8 (le_word bs)) = le_word bs" .
  have "foldl crc32_byte c (b # bs) = (crc32_bit ^^ (8 * length bs)) ((crc32_bit ^^ 8) (c XOR ucast b) XOR le_word bs)"
    using Cons.prems Cons.IH [of "crc32_byte c b"] by (simp add: crc32_byte_def [of c b])
  also have "\<dots> = (crc32_bit ^^ (8 * length bs)) ((crc32_bit ^^ 8) (c XOR le_word (b # bs)))"
    by (subst p [symmetric]) (simp add: crc32_bits_xor [symmetric] xor.assoc)
  also have "\<dots> = (crc32_bit ^^ (8 * length bs + 8)) (c XOR le_word (b # bs))"
    by (simp only: funpow_add comp_apply)
  finally show ?case by (simp add: add.commute)
qed simp

lemma foldl_crc32_inj: "foldl crc32_byte c xs = foldl crc32_byte d xs \<longleftrightarrow> c = d"
proof (induction xs arbitrary: c d)
  case (Cons x xs)
  have "crc32_byte c x = crc32_byte d x \<longleftrightarrow> c = d"
    by (simp add: crc32_byte_def crc32_bits_inj word_xor_cancel)
  then show ?case using Cons by simp
qed simp

text \<open>A burst of errors within four bytes changes the checksum.\<close>

theorem crc32_burst:
  assumes "length ys = length ys'" "length ys \<le> 4"
  shows "foldl crc32_update c (xs @ ys @ zs) = foldl crc32_update c (xs @ ys' @ zs) \<longleftrightarrow> ys = ys'"
proof
  assume "foldl crc32_update c (xs @ ys @ zs) = foldl crc32_update c (xs @ ys' @ zs)"
  then have "foldl crc32_byte (foldl crc32_byte c xs) ys = foldl crc32_byte (foldl crc32_byte c xs) ys'"
    by (simp add: crc32_bitwise foldl_crc32_inj)
  then have "foldl crc32_byte c xs XOR le_word ys = foldl crc32_byte c xs XOR le_word ys'"
    using assms by (simp add: foldl_crc32_word crc32_bits_inj)
  then have "le_word ys = le_word ys'" by (simp add: word_xor_cancel)
  then show "ys = ys'" using le_word_inj assms by blast
qed simp

end
