(* ===== verification/TlvEeprom.thy ===== *)
theory TlvEeprom
  imports Crc32 LeBytes
begin

section \<open>EEPROMs of tagged values\<close>

text \<open>
  \<^verbatim>\<open>mpm/tools/tlv_eeprom/tlv_eeprom.c\<close>, \<^verbatim>\<open>crc.c\<close> and \<^verbatim>\<open>tlv_eeprom_io.c\<close>: the layout of the EEPROMs of the
  X4x0 and of its daughterboards.  A header of magic number, checksum and size is followed by values with a byte
  of tag and a byte of length each.  The array \<^verbatim>\<open>tlv\<close> of 244 bytes is the memory from its first byte on: what lies behind it in
  the process is visible to code that reads too far, and an \<open>offset\<close> is the difference of a pointer to that byte.
  Checksums of the size field see its bytes in the order of a little-endian host.
\<close>

abbreviation (input) TLV_EEPROM_SIZE :: nat where "TLV_EEPROM_SIZE \<equiv> 256"

text \<open>The size of the array, \<^verbatim>\<open>TLV_EEPROM_SIZE - 3 * sizeof(uint32_t)\<close>.\<close>

definition tlv_room :: nat where "tlv_room = TLV_EEPROM_SIZE - 3 * 4"

record tlv_eeprom =
  te_magic :: u32
  te_crc :: u32
  te_size :: u32
  te_tlv :: mem

definition te_bytes :: "tlv_eeprom \<Rightarrow> u8 list" where
  "te_bytes e = put32_le (te_magic e) @ put32_le (te_crc e) @ put32_le (te_size e) @ mem_take (te_tlv e) tlv_room"

definition te_of :: "mem \<Rightarrow> tlv_eeprom" where
  "te_of m = \<lparr>te_magic = le32 m 0, te_crc = le32 m 4, te_size = le32 m 8, te_tlv = mem_at m 12\<rparr>"

subsection \<open>Seal\<close>

definition tlv_eeprom_crc :: "tlv_eeprom \<Rightarrow> u32" where
  "tlv_eeprom_crc e = tlv_crc32 0 (put32_le (te_size e) @ mem_take (te_tlv e) (unat (te_size e)))"

definition tlv_eeprom_seal :: "u32 \<Rightarrow> nat \<Rightarrow> tlv_eeprom \<Rightarrow> tlv_eeprom" where
  "tlv_eeprom_seal magic len e =
     (let e = e\<lparr>te_magic := magic\<rparr>;
          e = e\<lparr>te_size := of_nat len\<rparr>
      in e\<lparr>te_crc := tlv_eeprom_crc e\<rparr>)"

definition tlv_eeprom_validate :: "tlv_eeprom \<Rightarrow> u32 \<Rightarrow> int" where
  "tlv_eeprom_validate e magic =
     (if te_magic e \<noteq> magic then -1
      else if unat (te_size e) > TLV_EEPROM_SIZE then -2
      else if te_crc e \<noteq> tlv_eeprom_crc e then -3
      else 0)"

subsection \<open>Values\<close>

text \<open>The structure \<^verbatim>\<open>tlv\<close> at an offset: its tag, its length, and where its value begins.\<close>

definition tlv_tag :: "mem \<Rightarrow> nat \<Rightarrow> u8" where "tlv_tag buf p = buf p"
definition tlv_len :: "mem \<Rightarrow> nat \<Rightarrow> u8" where "tlv_len buf p = buf (p + 1)"
definition tlv_val :: "nat \<Rightarrow> nat" where "tlv_val p = p + 2"

text \<open>\<open>None\<close> is the null pointer.\<close>

definition tlv_next :: "mem \<Rightarrow> nat \<Rightarrow> nat \<Rightarrow> nat option" where
  "tlv_next buf tlv fin =
     (let p = tlv_val tlv + unat (tlv_len buf tlv)
      in if p \<ge> fin then None else Some p)"

lemma tlv_next_Some: "tlv_next buf tlv fin = Some p \<Longrightarrow> tlv < p \<and> p < fin"
  by (auto simp: tlv_next_def tlv_val_def Let_def split: if_splits)

function tlv_find :: "mem \<Rightarrow> nat \<Rightarrow> nat \<Rightarrow> u8 \<Rightarrow> nat option" where
  "tlv_find buf tlv fin tag =
     (if tlv_tag buf tlv = tag then Some tlv
      else case tlv_next buf tlv fin of None \<Rightarrow> None | Some p \<Rightarrow> tlv_find buf p fin tag)"
  by pat_completeness auto
termination by (relation "measure (\<lambda>(buf, tlv, fin, tag). fin - tlv)") (auto dest: tlv_next_Some)

declare tlv_find.simps [simp del]

definition tlv_lookup :: "mem \<Rightarrow> nat \<Rightarrow> u8 \<Rightarrow> nat option" where
  "tlv_lookup buf bufsz tag = map_option tlv_val (tlv_find buf 0 bufsz tag)"

text \<open>What a function called for each value can do: return, or end the process with a status, with the state it has then.
  A failed assertion, a store outside the object and an access through a null pointer are ends of their own.\<close>

datatype exit_status = Status int | Assertion_failed | Out_of_bounds | Null_pointer
datatype 's process = Cont 's | End exit_status 's

fun proc_then :: "'s process \<Rightarrow> ('s \<Rightarrow> 's process) \<Rightarrow> 's process" where
  "proc_then (Cont s) f = f s"
| "proc_then (End x s) f = End x s"

text \<open>\<open>fn\<close> gets tag, length and the offset of the value.\<close>

function tlv_each :: "(u8 \<Rightarrow> u8 \<Rightarrow> nat \<Rightarrow> 's \<Rightarrow> 's process) \<Rightarrow> mem \<Rightarrow> nat \<Rightarrow> nat \<Rightarrow> 's \<Rightarrow> 's process" where
  "tlv_each fn buf tlv fin s =
     (case fn (tlv_tag buf tlv) (tlv_len buf tlv) (tlv_val tlv) s of
        End x s \<Rightarrow> End x s
      | Cont s \<Rightarrow> (case tlv_next buf tlv fin of None \<Rightarrow> Cont s | Some p \<Rightarrow> tlv_each fn buf p fin s))"
  by pat_completeness auto
termination by (relation "measure (\<lambda>(fn, buf, tlv, fin, s). fin - tlv)") (auto dest: tlv_next_Some)

declare tlv_each.simps [simp del]

definition tlv_for_each :: "mem \<Rightarrow> nat \<Rightarrow> (u8 \<Rightarrow> u8 \<Rightarrow> nat \<Rightarrow> 's \<Rightarrow> 's process) \<Rightarrow> 's \<Rightarrow> 's process" where
  "tlv_for_each buf bufsz fn s = tlv_each fn buf 0 bufsz s"

definition put_bytes :: "nat \<Rightarrow> u8 list \<Rightarrow> mem \<Rightarrow> mem" where
  "put_bytes p bs m = (\<lambda>i. if p \<le> i \<and> i < p + length bs then bs ! (i - p) else m i)"

text \<open>The bytes to copy, and the buffer at which \<open>p\<close> points; the result is the number of bytes written.\<close>

definition tlv_write :: "nat \<Rightarrow> u8 \<Rightarrow> u8 \<Rightarrow> mem \<Rightarrow> mem \<Rightarrow> nat \<times> mem" where
  "tlv_write p tag len val buf =
     (let buf = put_bytes p [tag] buf;
          buf = put_bytes (p + 1) [len] buf;
          buf = put_bytes (p + 2) (mem_take val (unat len)) buf
      in (2 + unat len, buf))"

subsection \<open>Files\<close>

text \<open>The result of the \<open>k\<close>-th read or write of a file descriptor: \<open>None\<close> is a negative result, and what a read
  returns is at most what was asked for.\<close>

type_synonym reads = "nat \<Rightarrow> u8 list option"
type_synonym writes = "nat \<Rightarrow> nat option"

function read_loop :: "reads \<Rightarrow> nat \<Rightarrow> nat \<Rightarrow> u8 list \<Rightarrow> u8 list option" where
  "read_loop rd k len got =
     (if len = 0 then Some got
      else case rd k of
             None \<Rightarrow> None
           | Some bs \<Rightarrow>
               (let bs = take len bs
                in if bs = [] then Some got else read_loop rd (k + 1) (len - length bs) (got @ bs)))"
  by pat_completeness auto
termination by (relation "measure (\<lambda>(rd, k, len, got). len)") auto

declare read_loop.simps [simp del]

text \<open>Opening a file may fail, and \<^verbatim>\<open>malloc\<close> leaves what it finds, \<open>heap\<close>, in the structure.\<close>

definition tlv_eeprom_read_from_file :: "mem \<Rightarrow> reads option \<Rightarrow> tlv_eeprom option" where
  "tlv_eeprom_read_from_file heap fd =
     (case fd of
        None \<Rightarrow> None
      | Some rd \<Rightarrow> map_option (\<lambda>bs. te_of (put_bytes 0 bs heap)) (read_loop rd 0 TLV_EEPROM_SIZE []))"

text \<open>\<open>Some n\<close>: the loop ends, after \<open>n\<close> bytes.  A write that goes on returning 0 keeps it going.\<close>

partial_function (option) write_loop :: "writes \<Rightarrow> nat \<Rightarrow> nat \<Rightarrow> nat \<Rightarrow> nat option" where
  "write_loop wr k len n =
     (if len = 0 then Some n
      else case wr k of
             None \<Rightarrow> Some n
           | Some w \<Rightarrow> write_loop wr (k + 1) (len - min w len) (n + min w len))"

text \<open>The status returned and the bytes written.\<close>

definition tlv_eeprom_write_to_file :: "tlv_eeprom \<Rightarrow> writes option \<Rightarrow> (int \<times> u8 list) option" where
  "tlv_eeprom_write_to_file e fd =
     (case fd of
        None \<Rightarrow> Some (-1, [])
      | Some wr \<Rightarrow> map_option (\<lambda>n. (0, take n (te_bytes e))) (write_loop wr 0 TLV_EEPROM_SIZE 0))"

end
