(* ===== verification/CStdlib.thy ===== *)
theory CStdlib
  imports LeBytes "HOL-Library.Char_ord"
begin

section \<open>Strings and numbers of the C library\<close>

text \<open>What the EEPROM tools use of \<^verbatim>\<open>string.h\<close>, \<^verbatim>\<open>stdlib.h\<close> and \<^verbatim>\<open>stdio.h\<close>, as the C standard and the library of the
  devices (glibc; \<^verbatim>\<open>long\<close> has 64 bits on the X4x0 and 32 bits on the N3x0 and E320) define it.  A C string is the list of its characters before the
  terminating null.\<close>

type_synonym u64 = "64 word"

definition char_byte :: "char \<Rightarrow> u8" where "char_byte c = of_char c"

definition isspace :: "char \<Rightarrow> bool" where
  "isspace c \<longleftrightarrow> c = CHR '' '' \<or> (9 \<le> (of_char c :: nat) \<and> (of_char c :: nat) \<le> 13)"

text \<open>The value of a digit; 36 if the character is none in any base.\<close>

definition digit_of :: "char \<Rightarrow> nat" where
  "digit_of c =
     (let n = of_char c in
      if 48 \<le> n \<and> n \<le> 57 then n - 48
      else if 97 \<le> n \<and> n \<le> 122 then n - 87
      else if 65 \<le> n \<and> n \<le> 90 then n - 55
      else 36)"

fun sign_of :: "string \<Rightarrow> bool \<times> string" where
  "sign_of (c # cs) = (if c = CHR ''-'' then (True, cs) else if c = CHR ''+'' then (False, cs) else (False, c # cs))"
| "sign_of [] = (False, [])"

definition hex_prefix :: "string \<Rightarrow> bool" where
  "hex_prefix cs \<longleftrightarrow> length cs \<ge> 3 \<and> cs ! 0 = CHR ''0'' \<and> (cs ! 1 = CHR ''x'' \<or> cs ! 1 = CHR ''X'') \<and> digit_of (cs ! 2) < 16"

text \<open>The base, if it is 0 on entry, and the string from its first digit on.\<close>

definition number_start :: "nat \<Rightarrow> string \<Rightarrow> nat \<times> string" where
  "number_start base cs =
     (if (base = 0 \<or> base = 16) \<and> hex_prefix cs then (16, drop 2 cs)
      else if base = 0 then (if cs \<noteq> [] \<and> hd cs = CHR ''0'' then 8 else 10, cs)
      else (base, cs))"

definition digits_value :: "nat \<Rightarrow> string \<Rightarrow> int" where
  "digits_value base cs = foldl (\<lambda>n c. int base * n + int (digit_of c)) 0 (takeWhile (\<lambda>c. digit_of c < base) cs)"

definition strtoul :: "string \<Rightarrow> nat \<Rightarrow> u64" where
  "strtoul str base =
     (let (neg, cs) = sign_of (dropWhile isspace str);
          (base, cs) = number_start base cs;
          n = digits_value base cs
      in if n \<ge> 2 ^ 64 then 2 ^ 64 - 1 else if neg then - of_int n else of_int n)"

text \<open>The same where \<^verbatim>\<open>long\<close> has 32 bits; \<^verbatim>\<open>strtol\<close> with whether it sets \<^verbatim>\<open>errno\<close>.\<close>

definition strtoul32 :: "string \<Rightarrow> nat \<Rightarrow> u32" where
  "strtoul32 str base =
     (let (neg, cs) = sign_of (dropWhile isspace str);
          (base, cs) = number_start base cs;
          n = digits_value base cs
      in if n \<ge> 2 ^ 32 then 2 ^ 32 - 1 else if neg then - of_int n else of_int n)"

definition strtol32 :: "string \<Rightarrow> nat \<Rightarrow> int \<times> bool" where
  "strtol32 str base =
     (let (neg, cs) = sign_of (dropWhile isspace str);
          (base, cs) = number_start base cs;
          n = digits_value base cs
      in if neg then (max (- (2 ^ 31)) (- n), n > 2 ^ 31) else (min (2 ^ 31 - 1) n, n \<ge> 2 ^ 31))"

definition atoi32 :: "string \<Rightarrow> int" where
  "atoi32 str = fst (strtol32 str 10)"

text \<open>The \<open>n\<close> bytes \<^verbatim>\<open>strncpy\<close> stores.\<close>

definition strncpy :: "string \<Rightarrow> nat \<Rightarrow> u8 list" where
  "strncpy src n = take n (map char_byte src @ replicate n 0)"

text \<open>What \<^verbatim>\<open>%s\<close> prints of these bytes.\<close>

definition c_string :: "u8 list \<Rightarrow> u8 list" where
  "c_string bs = takeWhile (\<lambda>b. b \<noteq> 0) bs"

lemma length_strncpy [simp]: "length (strncpy src n) = n"
  by (simp add: strncpy_def)

text \<open>The conversion \<^verbatim>\<open>%02hhx\<close> of \<^verbatim>\<open>sscanf\<close>: space is skipped, then at most two characters make a number with an optional
  sign; the value and the rest of the input, or \<open>None\<close> if there is no digit.\<close>

fun scan_hhx :: "string \<Rightarrow> (u8 \<times> string) option" where
  "scan_hhx str =
     (case dropWhile isspace str of
        [] \<Rightarrow> None
      | [a] \<Rightarrow> if digit_of a < 16 then Some (of_nat (digit_of a), []) else None
      | a # b # cs \<Rightarrow>
          if a = CHR ''-'' \<or> a = CHR ''+'' then
            (if digit_of b < 16 then Some (if a = CHR ''-'' then - of_nat (digit_of b) else of_nat (digit_of b), cs) else None)
          else if digit_of a < 16 then
            (if digit_of b < 16 then Some (of_nat (16 * digit_of a + digit_of b), cs)
             else if a = CHR ''0'' \<and> (b = CHR ''x'' \<or> b = CHR ''X'') then None
             else Some (of_nat (digit_of a), b # cs))
          else None)"

text \<open>\<^verbatim>\<open>strtok\<close> until it returns the null pointer: the pieces between delimiters, without empty ones.\<close>

fun strtok_all :: "char \<Rightarrow> string \<Rightarrow> string \<Rightarrow> string list" where
  "strtok_all d acc [] = (if acc = [] then [] else [acc])"
| "strtok_all d acc (c # cs) =
     (if c = d then (if acc = [] then strtok_all d [] cs else acc # strtok_all d [] cs) else strtok_all d (acc @ [c]) cs)"

end
