(* ===== verification/TlvTool.thy ===== *)
theory TlvTool
  imports TlvEeprom CStdlib
begin

unbundle bit_operations_syntax

section \<open>The tools that write and identify EEPROMs of tagged values\<close>

text \<open>
  \<^verbatim>\<open>mpm/tools/tlv_eeprom/eeprom-init.c\<close> (built as \<^verbatim>\<open>eeprom-init\<close> and, with \<^verbatim>\<open>TLV_EEPROM_UPDATE\<close>, as
  \<^verbatim>\<open>eeprom-update\<close>), \<^verbatim>\<open>eeprom-id.c\<close> and \<^verbatim>\<open>eeprom-pids.c\<close> with the structures of \<^verbatim>\<open>usrp_eeprom.h\<close>.
  The static objects the values are kept in are lists of bytes, the structures of the header laid out as a
  little-endian processor does; the function pointers of the table of parsers are constructors.
\<close>

subsection \<open>Tags and structures\<close>

definition USRP_EEPROM_MAGIC :: u32 where "USRP_EEPROM_MAGIC = 0x55535250"
definition USRP_EEPROM_BOARD_INFO_TAG :: u8 where "USRP_EEPROM_BOARD_INFO_TAG = 0x10"
definition USRP_EEPROM_MODULE_INFO_TAG :: u8 where "USRP_EEPROM_MODULE_INFO_TAG = 0x11"
definition USRP_EEPROM_MAX_MAC_ADDRS :: u8 where "USRP_EEPROM_MAX_MAC_ADDRS = 0xF"
definition USRP_EEPROM_MAC_ADDR_TAG :: "u8 \<Rightarrow> u8" where
  "USRP_EEPROM_MAC_ADDR_TAG x = 0xA0 + (x AND USRP_EEPROM_MAX_MAC_ADDRS)"
definition USRP_EEPROM_DB_PWR_SEQ_TAG :: u8 where "USRP_EEPROM_DB_PWR_SEQ_TAG = 0x12"
definition USRP_EEPROM_MCU_FLAGS :: u8 where "USRP_EEPROM_MCU_FLAGS = 0x20"
definition USRP_EEPROM_FAN_LIMITS :: u8 where "USRP_EEPROM_FAN_LIMITS = 0x21"
definition USRP_EEPROM_FAN_FIXED_CAPACITY :: u8 where "USRP_EEPROM_FAN_FIXED_CAPACITY = 0x22"
definition USRP_EEPROM_CLKAUX_TUNING_WORD :: u8 where "USRP_EEPROM_CLKAUX_TUNING_WORD = 0x23"

lemmas tlv_tag_defs = USRP_EEPROM_BOARD_INFO_TAG_def USRP_EEPROM_MODULE_INFO_TAG_def USRP_EEPROM_MAX_MAC_ADDRS_def
  USRP_EEPROM_MAC_ADDR_TAG_def USRP_EEPROM_DB_PWR_SEQ_TAG_def USRP_EEPROM_MCU_FLAGS_def USRP_EEPROM_FAN_LIMITS_def
  USRP_EEPROM_FAN_FIXED_CAPACITY_def USRP_EEPROM_CLKAUX_TUNING_WORD_def

text \<open>Sizes; \<^verbatim>\<open>struct usrp_eeprom_db_pwr_seq\<close> is not packed, so a step is aligned to two bytes.\<close>

definition sizeof_board_info :: nat where "sizeof_board_info = 2 + 2 + 2 + 8"
definition sizeof_module_info :: nat where "sizeof_module_info = 2 + 2 + 8"
definition sizeof_mac_addr :: nat where "sizeof_mac_addr = 6"
definition sizeof_db_pwr_seq :: nat where "sizeof_db_pwr_seq = 2 + 8 * 4"
definition sizeof_mcu_flags :: nat where "sizeof_mcu_flags = 6"
definition sizeof_fan_limits :: nat where "sizeof_fan_limits = 2 + 2 + 2"
definition sizeof_fan_fixed_capacity :: nat where "sizeof_fan_fixed_capacity = 1 + 1"
definition sizeof_clkaux_tuning_word :: nat where "sizeof_clkaux_tuning_word = 2"

lemmas tlv_sizeof_defs = sizeof_board_info_def sizeof_module_info_def sizeof_mac_addr_def sizeof_db_pwr_seq_def
  sizeof_mcu_flags_def sizeof_fan_limits_def sizeof_fan_fixed_capacity_def sizeof_clkaux_tuning_word_def

text \<open>Storing into an object at an offset; a store behind its end leaves the object.\<close>

definition obj_put :: "nat \<Rightarrow> u8 list \<Rightarrow> u8 list \<Rightarrow> u8 list process" where
  "obj_put k bs ob =
     (if k + length bs \<le> length ob then Cont (take k ob @ bs @ drop (k + length bs) ob) else End Out_of_bounds ob)"

definition obj_put_string :: "string \<Rightarrow> u8 list \<Rightarrow> u8 list process" where
  "obj_put_string str ob = obj_put 0 (map char_byte str @ [0]) ob"

subsection \<open>Parsers of arguments\<close>

text \<open>A parser gets the arguments that are left and its object; it returns how many it has used.\<close>

definition returns :: "nat \<Rightarrow> u8 list process \<Rightarrow> (nat \<times> u8 list) process" where
  "returns n p = (case p of Cont ob \<Rightarrow> Cont (n, ob) | End x ob \<Rightarrow> End x (0, ob))"

definition parse_board_info :: "string list \<Rightarrow> u8 list \<Rightarrow> (nat \<times> u8 list) process" where
  "parse_board_info argv info =
     (if argv = [] then returns 0 (obj_put_string ''<pid> <rev> <compat_rev> <serial>'' info)
      else if \<not> length argv \<ge> 4 then End Assertion_failed (0, info)
      else returns 4 (obj_put 0 (put16_le (ucast (strtoul (argv ! 0) 0)) @ put16_le (ucast (strtoul (argv ! 1) 0))
             @ put16_le (ucast (strtoul (argv ! 2) 0)) @ (strncpy (argv ! 3) 8)[7 := 0]) info))"

definition parse_module_info :: "string list \<Rightarrow> u8 list \<Rightarrow> (nat \<times> u8 list) process" where
  "parse_module_info argv info =
     (if argv = [] then returns 0 (obj_put_string ''<pid> <rev> <serial>'' info)
      else if \<not> length argv \<ge> 3 then End Assertion_failed (0, info)
      else returns 3 (obj_put 0 (put16_le (ucast (strtoul (argv ! 0) 0)) @ put16_le (ucast (strtoul (argv ! 1) 0))
             @ (strncpy (argv ! 2) 8)[7 := 0]) info))"

text \<open>\<^verbatim>\<open>sscanf\<close> with six conversions and colons between them; the bytes scanned until it stops.\<close>

fun scan_mac :: "nat \<Rightarrow> string \<Rightarrow> u8 list" where
  "scan_mac 0 str = []"
| "scan_mac (Suc n) str =
     (case scan_hhx str of
        None \<Rightarrow> []
      | Some (b, rest) \<Rightarrow>
          b # (if n > 0 \<and> rest \<noteq> [] \<and> hd rest = CHR '':'' then scan_mac n (tl rest) else []))"

definition parse_mac :: "string list \<Rightarrow> u8 list \<Rightarrow> (nat \<times> u8 list) process" where
  "parse_mac argv mac =
     (if argv = [] then returns 0 (obj_put_string ''<mac_addr>'' mac)
      else if \<not> length argv \<ge> 1 then End Assertion_failed (0, mac)
      else (let bs = scan_mac 6 (argv ! 0)
            in if length bs \<noteq> 6 then End Assertion_failed (0, mac) else returns 1 (obj_put 0 bs mac)))"

text \<open>The loop over the steps, of which the object has room for eight.\<close>

fun parse_steps :: "nat \<Rightarrow> nat \<Rightarrow> string list \<Rightarrow> u8 list \<Rightarrow> u8 list process" where
  "parse_steps i 0 argv sq = Cont sq"
| "parse_steps i (Suc n) argv sq =
     (case obj_put (2 + 4 * i) (put16_le (ucast (strtoul (argv ! 0) 0))) sq of
        End x sq \<Rightarrow> End x sq
      | Cont sq \<Rightarrow>
          (case obj_put (2 + 4 * i + 2) [ucast (strtoul (argv ! 1) 0)] sq of
             End x sq \<Rightarrow> End x sq
           | Cont sq \<Rightarrow> parse_steps (i + 1) n (drop 2 argv) sq))"

definition parse_db_pwr_seq :: "string list \<Rightarrow> u8 list \<Rightarrow> (nat \<times> u8 list) process" where
  "parse_db_pwr_seq argv sq =
     (if argv = [] then returns 0 (obj_put_string ''<nsteps> [delay supply_mask]...'' sq)
      else if \<not> length argv \<ge> 1 then End Assertion_failed (0, sq)
      else (let nsteps = ucast (strtoul (argv ! 0) 0) :: u8
            in if \<not> length argv \<ge> 1 + 2 * unat nsteps then End Assertion_failed (0, sq)
               else returns (1 + 2 * unat nsteps)
                      (proc_then (obj_put 0 [nsteps] sq) (parse_steps 0 (unat nsteps) (drop 1 argv)))))"

definition parse_mcu_flags :: "string list \<Rightarrow> u8 list \<Rightarrow> (nat \<times> u8 list) process" where
  "parse_mcu_flags argv flags =
     (if argv = [] then
        returns 0 (obj_put_string ''<flags[0]> <flags[1]> <flags[2]> <flags[3]> <flags[4]> <flags[5]>'' flags)
      else if \<not> length argv \<ge> sizeof_mcu_flags then End Assertion_failed (0, flags)
      else (let tmps = map (\<lambda>i. strtoul (argv ! i) 0) [0..<sizeof_mcu_flags]
            in if \<exists>tmp \<in> set tmps. \<not> tmp \<le> 0xFF then End Assertion_failed (0, flags)
               else returns sizeof_mcu_flags (obj_put 0 (map ucast tmps) flags)))"

definition parse_fan_limits :: "string list \<Rightarrow> u8 list \<Rightarrow> (nat \<times> u8 list) process" where
  "parse_fan_limits argv fan_limits =
     (if argv = [] then returns 0 (obj_put_string ''<fan min rpm> <fan start rpm> <fan max rpm>'' fan_limits)
      else if \<not> length argv \<ge> 3 then End Assertion_failed (0, fan_limits)
      else returns 3 (obj_put 0 (put16_le (ucast (strtoul (argv ! 0) 0)) @ put16_le (ucast (strtoul (argv ! 1) 0))
             @ put16_le (ucast (strtoul (argv ! 2) 0))) fan_limits))"

definition parse_fan_fixed_capacity :: "string list \<Rightarrow> u8 list \<Rightarrow> (nat \<times> u8 list) process" where
  "parse_fan_fixed_capacity argv fan =
     (if argv = [] then returns 0 (obj_put_string ''<fan fixed capacity>'' fan)
      else returns 1 (obj_put 0 [ucast (strtoul (argv ! 0) 0)] fan))"

definition parse_clkaux_tuning_word :: "string list \<Rightarrow> u8 list \<Rightarrow> (nat \<times> u8 list) process" where
  "parse_clkaux_tuning_word argv word =
     (if argv = [] then returns 0 (obj_put_string ''<dac tuning word>'' word)
      else returns 1 (obj_put 0 (put16_le (ucast (strtoul (argv ! 0) 0))) word))"

datatype parse_fn = Board_info | Module_info | Mac | Db_pwr_seq | Mcu_flags | Fan_limits | Fan_fixed_capacity | Clkaux_tuning_word

fun run_parse :: "parse_fn \<Rightarrow> string list \<Rightarrow> u8 list \<Rightarrow> (nat \<times> u8 list) process" where
  "run_parse Board_info = parse_board_info"
| "run_parse Module_info = parse_module_info"
| "run_parse Mac = parse_mac"
| "run_parse Db_pwr_seq = parse_db_pwr_seq"
| "run_parse Mcu_flags = parse_mcu_flags"
| "run_parse Fan_limits = parse_fan_limits"
| "run_parse Fan_fixed_capacity = parse_fan_fixed_capacity"
| "run_parse Clkaux_tuning_word = parse_clkaux_tuning_word"

subsection \<open>The table of parsers\<close>

text \<open>Objects and dirty marks have the index of their parser in the state of the process.\<close>

record arg_parser =
  ap_arg :: string
  ap_alias :: "string option"
  ap_size :: nat
  ap_tag :: u8
  ap_parse :: parse_fn

definition mac_parser :: "string \<Rightarrow> u8 \<Rightarrow> string option \<Rightarrow> arg_parser" where
  "mac_parser idx_name idx al =
     \<lparr>ap_arg = ''mac_addr_'' @ idx_name, ap_alias = al, ap_size = sizeof_mac_addr,
      ap_tag = USRP_EEPROM_MAC_ADDR_TAG idx, ap_parse = Mac\<rparr>"

definition parsers :: "arg_parser list" where
  "parsers =
     [\<lparr>ap_arg = ''board_info'', ap_alias = None, ap_size = sizeof_board_info, ap_tag = USRP_EEPROM_BOARD_INFO_TAG, ap_parse = Board_info\<rparr>,
      \<lparr>ap_arg = ''module_info'', ap_alias = None, ap_size = sizeof_module_info, ap_tag = USRP_EEPROM_MODULE_INFO_TAG, ap_parse = Module_info\<rparr>,
      mac_parser ''0'' 0 (Some ''eth0_mac''), mac_parser ''1'' 1 (Some ''qsfp0_mac''), mac_parser ''2'' 2 (Some ''qsfp1_mac''),
      mac_parser ''3'' 3 None, mac_parser ''4'' 4 None, mac_parser ''5'' 5 None, mac_parser ''6'' 6 None, mac_parser ''7'' 7 None,
      mac_parser ''8'' 8 None, mac_parser ''9'' 9 None, mac_parser ''10'' 10 None, mac_parser ''11'' 11 None, mac_parser ''12'' 12 None,
      \<lparr>ap_arg = ''db_pwr_seq'', ap_alias = None, ap_size = sizeof_db_pwr_seq, ap_tag = USRP_EEPROM_DB_PWR_SEQ_TAG, ap_parse = Db_pwr_seq\<rparr>,
      \<lparr>ap_arg = ''mcu_flags'', ap_alias = None, ap_size = sizeof_mcu_flags, ap_tag = USRP_EEPROM_MCU_FLAGS, ap_parse = Mcu_flags\<rparr>,
      \<lparr>ap_arg = ''fan_limits'', ap_alias = None, ap_size = sizeof_fan_limits, ap_tag = USRP_EEPROM_FAN_LIMITS, ap_parse = Fan_limits\<rparr>,
      \<lparr>ap_arg = ''fan_fixed_capacity'', ap_alias = None, ap_size = sizeof_fan_fixed_capacity, ap_tag = USRP_EEPROM_FAN_FIXED_CAPACITY, ap_parse = Fan_fixed_capacity\<rparr>,
      \<lparr>ap_arg = ''clkaux_tuning_word'', ap_alias = None, ap_size = sizeof_clkaux_tuning_word, ap_tag = USRP_EEPROM_CLKAUX_TUNING_WORD, ap_parse = Clkaux_tuning_word\<rparr>]"

definition parser_lookup :: "string \<Rightarrow> nat option" where
  "parser_lookup arg = find_index (\<lambda>p. ap_arg p = arg \<or> ap_alias p = Some arg) parsers"

record tool =
  stores :: "u8 list list"
  dirty :: "bool list"
  out_bytes :: "u8 list"

text \<open>Static objects start out zero.\<close>

definition tool_start :: tool where
  "tool_start = \<lparr>stores = map (\<lambda>p. replicate (ap_size p) 0) parsers, dirty = replicate (length parsers) False, out_bytes = []\<rparr>"

subsection \<open>Updating\<close>

text \<open>The last parser with the tag.\<close>

definition parser_of_tag :: "u8 \<Rightarrow> nat option" where
  "parser_of_tag tag = fold (\<lambda>i found. if ap_tag (parsers ! i) = tag then Some i else found) [0..<length parsers] None"

definition tlv_update :: "mem \<Rightarrow> u8 \<Rightarrow> u8 \<Rightarrow> nat \<Rightarrow> tool \<Rightarrow> tool process" where
  "tlv_update buf tag len val s =
     (case parser_of_tag tag of
        None \<Rightarrow> End (Status 1) s
      | Some i \<Rightarrow>
          if unat len \<noteq> ap_size (parsers ! i) then End Assertion_failed s
          else Cont (s\<lparr>stores := (stores s)[i := mem_take (mem_at buf val) (unat len)], dirty := (dirty s)[i := True]\<rparr>))"

definition handle_update :: "bool \<Rightarrow> mem \<Rightarrow> reads option \<Rightarrow> tool \<Rightarrow> tool process" where
  "handle_update update heap fd s =
     (if \<not> update then Cont s
      else case tlv_eeprom_read_from_file heap fd of
             None \<Rightarrow> End (Status 1) s
           | Some e \<Rightarrow>
               if tlv_eeprom_validate e USRP_EEPROM_MAGIC \<noteq> 0 then End (Status 1) s
               else tlv_for_each (te_tlv e) (unat (te_size e)) (tlv_update (te_tlv e)) s)"

subsection \<open>Main program\<close>

function parse_args :: "string list \<Rightarrow> tool \<Rightarrow> tool process" where
  "parse_args [] s = Cont s"
| "parse_args (a # args) s =
     (if take 2 a \<noteq> ''--'' then End (Status 1) s
      else case parser_lookup (drop 2 a) of
             None \<Rightarrow> End (Status 1) s
           | Some i \<Rightarrow>
               (case run_parse (ap_parse (parsers ! i)) args (stores s ! i) of
                  End x _ \<Rightarrow> End x s
                | Cont (ret, ob) \<Rightarrow>
                    parse_args (drop ret args) (s\<lparr>stores := (stores s)[i := ob], dirty := (dirty s)[i := True]\<rparr>)))"
  by pat_completeness auto
termination by (relation "measure (\<lambda>(args, s). length args)") auto

text \<open>The loop that writes the dirty values behind one another: where \<^verbatim>\<open>ptr\<close> stands, and the array.\<close>

definition write_value :: "tool \<Rightarrow> nat \<Rightarrow> nat \<times> mem \<Rightarrow> nat \<times> mem" where
  "write_value s i pm =
     (if \<not> dirty s ! i then pm
      else (let (n, m) = tlv_write (fst pm) (ap_tag (parsers ! i)) (of_nat (ap_size (parsers ! i))) (mem_of (stores s ! i)) (snd pm)
            in (fst pm + n, m)))"

definition sealed_eeprom :: "tool \<Rightarrow> tlv_eeprom" where
  "sealed_eeprom s =
     (let (ptr, m) = fold (write_value s) [0..<length parsers] (0, \<lambda>_. 0)
      in tlv_eeprom_seal USRP_EEPROM_MAGIC ptr \<lparr>te_magic = 0, te_crc = 0, te_size = 0, te_tlv = m\<rparr>)"

definition validate_file_matches :: "mem \<Rightarrow> tlv_eeprom \<Rightarrow> reads option \<Rightarrow> tool \<Rightarrow> tool process" where
  "validate_file_matches heap e fd s =
     (case tlv_eeprom_read_from_file heap fd of
        None \<Rightarrow> End (Status 1) s
      | Some f \<Rightarrow> if te_bytes f \<noteq> te_bytes e then End (Status 1) s else Cont s)"

text \<open>The file is opened for reading before (by the update), for writing, and for reading again; the status of the write is not
  looked at.\<close>

definition eeprom_init_main ::
  "bool \<Rightarrow> mem \<Rightarrow> string list \<Rightarrow> reads option \<Rightarrow> writes option \<Rightarrow> reads option \<Rightarrow> tool process option" where
  "eeprom_init_main update heap argv before wr after =
     (if length argv < 2 then Some (End (Status 1) tool_start)
      else case proc_then (handle_update update heap before tool_start) (parse_args (drop 2 argv)) of
             End x s \<Rightarrow> Some (End x s)
           | Cont s \<Rightarrow>
               map_option (\<lambda>(_, out).
                   case validate_file_matches heap (sealed_eeprom s) after (s\<lparr>out_bytes := out\<rparr>) of
                     End x s \<Rightarrow> End x s
                   | Cont s \<Rightarrow> End (Status 0) s)
                 (tlv_eeprom_write_to_file (sealed_eeprom s) wr))"

subsection \<open>Product identifiers\<close>

record pid_info =
  pi_pid :: u16
  pi_name :: "string option"
  pi_description :: "string option"
  pi_rev_offset :: u16
  pi_addtl_info :: "string option"

definition pid_list :: "pid_info list" where
  "pid_list = map (\<lambda>(p, n, d, a). \<lparr>pi_pid = p, pi_name = n, pi_description = Some d, pi_rev_offset = 0, pi_addtl_info = a\<rparr>)
     [(0xa410, Some ''x410'', ''X410 Module'', None), (0xa420, Some ''x420'', ''X420 Module'', None),
      (0xa440, Some ''x440'', ''X440 Module'', None), (0x0410, Some ''x410'', ''X410 Motherboard'', None),
      (0x0420, Some ''x420'', ''X420 Motherboard'', None), (0x0440, Some ''x440'', ''X440 Motherboard'', None),
      (0x4000, None, ''Power Aux Board'', None), (0x4001, None, ''Debug RF DB'', None), (0x4002, Some ''zbx'', ''ZBX RF DB'', None),
      (0x4003, None, ''HDMI SE DIO Aux Board'', None), (0x4004, None, ''Clocking Aux Board with GPSDO'', None),
      (0x4005, None, ''Clocking Aux Board (no GPSDO)'', None), (0x4006, None, ''IF Test Manufacturing CCA'', None),
      (0x4007, Some ''fbx'', ''FBX RF DB'', None), (0x4008, Some ''hbx'', ''HBX RF DB'', None),
      (0x7410, Some ''x410'', ''X410 (locked FPGA)'', Some ''locked_fpga=True''),
      (0x7420, Some ''x420'', ''X420 (locked FPGA)'', Some ''locked_fpga=True''),
      (0x7440, Some ''x440'', ''X440 (locked FPGA)'', Some ''locked_fpga=True'')]"

definition get_info_from_pid :: "u16 \<Rightarrow> pid_info option" where
  "get_info_from_pid pid = map_option (\<lambda>i. pid_list ! i) (find_index (\<lambda>p. pi_pid p = pid) pid_list)"

definition get_name_from_pid :: "u16 \<Rightarrow> string option" where
  "get_name_from_pid pid = (case get_info_from_pid pid of None \<Rightarrow> None | Some i \<Rightarrow> pi_name i)"

definition get_description_from_pid :: "u16 \<Rightarrow> string option" where
  "get_description_from_pid pid = (case get_info_from_pid pid of None \<Rightarrow> None | Some i \<Rightarrow> pi_description i)"

definition get_rev_offset_from_pid :: "u16 \<Rightarrow> u16" where
  "get_rev_offset_from_pid pid = (case get_info_from_pid pid of None \<Rightarrow> -1 | Some i \<Rightarrow> pi_rev_offset i)"

text \<open>What \<^verbatim>\<open>eeprom-id\<close> finds: the product identifier, the revision, and the offset of the serial number; the
  module information comes before that of the board.\<close>

definition eeprom_id_fields :: "tlv_eeprom \<Rightarrow> (u16 \<times> u16 \<times> nat) option" where
  "eeprom_id_fields e =
     (let module_info = tlv_lookup (te_tlv e) (unat (te_size e)) USRP_EEPROM_MODULE_INFO_TAG;
          board_info = tlv_lookup (te_tlv e) (unat (te_size e)) USRP_EEPROM_BOARD_INFO_TAG
      in case module_info of
           Some q \<Rightarrow> Some (le16 (te_tlv e) q, le16 (te_tlv e) (q + 2), q + 4)
         | None \<Rightarrow>
             (case board_info of
                Some q \<Rightarrow> Some (le16 (te_tlv e) q, le16 (te_tlv e) (q + 2), q + 6)
              | None \<Rightarrow> None))"

text \<open>The status and what is printed about.  A file that cannot be read is not checked for before it is validated.\<close>

definition eeprom_id_main :: "mem \<Rightarrow> string list \<Rightarrow> reads option \<Rightarrow> (pid_info option \<times> u16 \<times> u32 \<times> mem) option process" where
  "eeprom_id_main heap argv fd =
     (if length argv \<noteq> 2 then End (Status 1) None
      else case tlv_eeprom_read_from_file heap fd of
             None \<Rightarrow> End Null_pointer None
           | Some e \<Rightarrow>
               if tlv_eeprom_validate e USRP_EEPROM_MAGIC \<noteq> 0 then End (Status 1) None
               else case eeprom_id_fields e of
                      None \<Rightarrow> End (Status 1) None
                    | Some (pid, rv, serial) \<Rightarrow>
                        (let i = get_info_from_pid pid
                         in End (Status 0) (Some (i, pid,
                              (case i of None \<Rightarrow> ucast rv | Some p \<Rightarrow> ucast rv + ucast (pi_rev_offset p)), mem_at (te_tlv e) serial))))"

end
