(* ===== verification/TlvFacts.thy ===== *)
theory TlvFacts
  imports TlvTool
begin

section \<open>Lists of tagged values\<close>

text \<open>The abstraction of the array: the list of its tags and values in order.  What the library does at offsets is what one
  would do to the list.\<close>

type_synonym tagged = "(u8 \<times> u8 list) list"

fun tlv_encode :: "tagged \<Rightarrow> u8 list" where
  "tlv_encode [] = []"
| "tlv_encode ((t, v) # kvs) = t # of_nat (length v) # v @ tlv_encode kvs"

definition short_values :: "tagged \<Rightarrow> bool" where
  "short_values kvs \<longleftrightarrow> (\<forall>(t, v) \<in> set kvs. length v < 256)"

definition holds_at :: "mem \<Rightarrow> nat \<Rightarrow> u8 list \<Rightarrow> bool" where
  "holds_at m p bs \<longleftrightarrow> (\<forall>i < length bs. m (p + i) = bs ! i)"

lemma holds_at_Nil [simp]: "holds_at m p []"
  by (simp add: holds_at_def)

lemma holds_at_Cons: "holds_at m p (b # bs) \<longleftrightarrow> m p = b \<and> holds_at m (Suc p) bs"
  by (auto simp: holds_at_def nth_Cons split: nat.splits)

lemma holds_at_append: "holds_at m p (xs @ ys) \<longleftrightarrow> holds_at m p xs \<and> holds_at m (p + length xs) ys"
  by (induction xs arbitrary: p) (simp_all add: holds_at_Cons)

lemma holds_at_take: "holds_at m p bs \<longleftrightarrow> mem_take (mem_at m p) (length bs) = bs"
  by (auto simp: holds_at_def mem_at_def list_eq_iff_nth_eq)

lemma tlv_encode_append: "tlv_encode (xs @ ys) = tlv_encode xs @ tlv_encode ys"
  by (induction xs rule: tlv_encode.induct) simp_all

lemma unat_short: "n < 256 \<Longrightarrow> unat (of_nat n :: u8) = n"
  by (simp add: unat_of_nat take_bit_nat_eq_self)

subsection \<open>Finding\<close>

text \<open>Where the first value with a tag is.\<close>

fun tlv_pos :: "nat \<Rightarrow> tagged \<Rightarrow> u8 \<Rightarrow> nat option" where
  "tlv_pos p [] tag = None"
| "tlv_pos p ((t, v) # kvs) tag = (if t = tag then Some p else tlv_pos (p + 2 + length v) kvs tag)"

lemma tlv_step:
  assumes "short_values ((t, v) # kvs)" "holds_at m p (tlv_encode ((t, v) # kvs))"
  shows "tlv_tag m p = t" "unat (tlv_len m p) = length v" "holds_at m (p + 2) v" "holds_at m (p + 2 + length v) (tlv_encode kvs)"
    "tlv_next m p (p + length (tlv_encode ((t, v) # kvs))) = (if tlv_encode kvs = [] then None else Some (p + 2 + length v))"
  using assms
  by (auto simp: tlv_tag_def tlv_len_def tlv_next_def tlv_val_def short_values_def holds_at_Cons holds_at_append unat_short)

lemma tlv_encode_Nil_iff: "tlv_encode kvs = [] \<longleftrightarrow> kvs = []"
  by (cases kvs) auto

lemma tlv_find_pos:
  "kvs \<noteq> [] \<Longrightarrow> short_values kvs \<Longrightarrow> holds_at m p (tlv_encode kvs)
    \<Longrightarrow> tlv_find m p (p + length (tlv_encode kvs)) tag = tlv_pos p kvs tag"
proof (induction kvs arbitrary: p)
  case (Cons kv kvs)
  obtain t v where kv: "kv = (t, v)" by force
  note s = tlv_step [OF Cons.prems(2,3) [unfolded kv]]
  have "tlv_find m (p + 2 + length v) (p + length (tlv_encode (kv # kvs))) tag = tlv_pos (p + 2 + length v) kvs tag" if "kvs \<noteq> []"
    using Cons.IH [OF that, of "p + 2 + length v"] Cons.prems(2) s(4) by (simp add: kv short_values_def add.assoc)
  then show ?case
    using s(1,5) by (subst tlv_find.simps) (auto simp: kv tlv_encode_Nil_iff)
qed simp

lemma tlv_pos_value:
  "short_values kvs \<Longrightarrow> holds_at m p (tlv_encode kvs) \<Longrightarrow>
    (case tlv_pos p kvs tag of
       None \<Rightarrow> map_of kvs tag = None
     | Some q \<Rightarrow> \<exists>v. map_of kvs tag = Some v \<and> holds_at m (q + 2) v)"
proof (induction kvs arbitrary: p)
  case (Cons kv kvs)
  obtain t v where kv: "kv = (t, v)" by force
  note s = tlv_step [OF Cons.prems(1,2) [unfolded kv]]
  show ?case
    using Cons.IH [of "p + 2 + length v"] Cons.prems(1) s(3,4) by (auto simp: kv short_values_def split: option.splits)
qed simp

text \<open>The lookup of the library is that of the list; an array without values has its tag read all the same.\<close>

lemma tlv_lookup_spec:
  assumes "kvs \<noteq> []" "short_values kvs" "holds_at m 0 (tlv_encode kvs)"
  shows "case tlv_lookup m (length (tlv_encode kvs)) tag of
      None \<Rightarrow> map_of kvs tag = None
    | Some q \<Rightarrow> \<exists>v. map_of kvs tag = Some v \<and> mem_take (mem_at m q) (length v) = v"
  using tlv_pos_value [OF assms(2,3), of tag] tlv_find_pos [OF assms, of tag]
  by (auto simp: tlv_lookup_def tlv_val_def holds_at_take split: option.splits)

subsection \<open>Visiting\<close>

fun each_value :: "(u8 \<Rightarrow> u8 list \<Rightarrow> 's \<Rightarrow> 's process) \<Rightarrow> tagged \<Rightarrow> 's \<Rightarrow> 's process" where
  "each_value f [] s = Cont s"
| "each_value f ((t, v) # kvs) s = (case f t v s of End x s \<Rightarrow> End x s | Cont s \<Rightarrow> each_value f kvs s)"

lemma tlv_each_values:
  assumes fn: "\<And>t l q s. fn t l q s = f t (mem_take (mem_at m q) (unat l)) s"
  shows "kvs \<noteq> [] \<Longrightarrow> short_values kvs \<Longrightarrow> holds_at m p (tlv_encode kvs)
    \<Longrightarrow> tlv_each fn m p (p + length (tlv_encode kvs)) s = each_value f kvs s"
proof (induction kvs arbitrary: p s)
  case (Cons kv kvs)
  obtain t v where kv: "kv = (t, v)" by force
  note st = tlv_step [OF Cons.prems(2,3) [unfolded kv]]
  have "tlv_each fn m (p + 2 + length v) (p + length (tlv_encode (kv # kvs))) s' = each_value f kvs s'" if "kvs \<noteq> []" for s'
    using Cons.IH [OF that, of "p + 2 + length v" s'] Cons.prems(2) st(4) by (simp add: kv short_values_def add.assoc)
  moreover have "fn (tlv_tag m p) (tlv_len m p) (tlv_val p) s = f t v s"
    using st(1-3) by (simp add: fn tlv_val_def holds_at_take)
  ultimately show ?case
    using st(5) by (subst tlv_each.simps) (auto simp: kv tlv_encode_Nil_iff split: process.split)
qed simp

subsection \<open>Writing\<close>

lemma put_bytes_before: "i < p \<Longrightarrow> put_bytes p bs m i = m i"
  by (simp add: put_bytes_def)

lemma holds_at_put: "holds_at (put_bytes p bs m) p bs"
  by (simp add: holds_at_def put_bytes_def)

lemma tlv_write_appends:
  assumes "holds_at m 0 bs" "length v < 256"
  shows "fst (tlv_write (length bs) t (of_nat (length v)) (mem_of v) m) = 2 + length v"
    "holds_at (snd (tlv_write (length bs) t (of_nat (length v)) (mem_of v) m)) 0 (bs @ tlv_encode [(t, v)])"
proof -
  have v: "mem_take (mem_of v) (length v) = v" by (rule mem_take_mem_of)
  show "fst (tlv_write (length bs) t (of_nat (length v)) (mem_of v) m) = 2 + length v"
    using assms(2) by (simp add: tlv_write_def unat_short)
  have keeps: "holds_at (put_bytes p xs m') q ys" if "holds_at m' q ys" "q + length ys \<le> p" for p q xs ys m'
    using that by (auto simp: holds_at_def put_bytes_def)
  show "holds_at (snd (tlv_write (length bs) t (of_nat (length v)) (mem_of v) m)) 0 (bs @ tlv_encode [(t, v)])"
    using assms
    by (simp add: tlv_write_def Let_def unat_short v holds_at_append holds_at_Cons keeps holds_at_put)
      (simp add: put_bytes_def)
qed

end
