(* ===== verification/TlvImage.thy ===== *)
theory TlvImage
  imports TlvFacts
begin

unbundle bit_operations_syntax

section \<open>The images the EEPROM tool writes\<close>

text \<open>The objects of the tool keep their sizes through every parser; the image is the encoding of the dirty ones and
  validates; and it fits its array.\<close>

subsection \<open>The objects keep their sizes\<close>

lemma obj_put_length: "obj_put k bs ob = Cont ob' \<Longrightarrow> length ob' = length ob"
  by (auto simp: obj_put_def split: if_splits)

lemma returns_Cont: "returns n p = Cont (r, ob) \<longleftrightarrow> r = n \<and> p = Cont ob"
  by (auto simp: returns_def split: process.split)

lemma parse_steps_length: "parse_steps i n argv sq = Cont sq' \<Longrightarrow> length sq' = length sq"
  by (induction i n argv sq rule: parse_steps.induct) (auto dest!: obj_put_length split: process.splits)

lemma proc_then_Cont: "proc_then p f = Cont t \<longleftrightarrow> (\<exists>s. p = Cont s \<and> f s = Cont t)"
  by (cases p) auto

lemmas parser_defs = parse_board_info_def parse_module_info_def parse_mac_def parse_db_pwr_seq_def parse_mcu_flags_def
  parse_fan_limits_def parse_fan_fixed_capacity_def parse_clkaux_tuning_word_def

lemma run_parse_length: "run_parse f args ob = Cont (r, ob') \<Longrightarrow> length ob' = length ob"
  by (cases f)
    (auto simp: parser_defs obj_put_string_def returns_Cont proc_then_Cont Let_def
      dest!: obj_put_length parse_steps_length split: if_splits)

definition tool_ok :: "tool \<Rightarrow> bool" where
  "tool_ok s \<longleftrightarrow> map length (stores s) = map ap_size parsers \<and> length (dirty s) = length parsers"

lemma tool_ok_store:
  assumes "tool_ok s" "i < length parsers" "length ob = ap_size (parsers ! i)"
  shows "tool_ok (s\<lparr>stores := (stores s)[i := ob], dirty := (dirty s)[i := b]\<rparr>)"
proof -
  have "map length ((stores s)[i := ob]) = (map length (stores s))[i := length ob]" by (simp add: map_update)
  also have "\<dots> = map ap_size parsers"
    using assms by (simp add: tool_ok_def list_update_same_conv)
  finally show ?thesis using assms(1) by (simp add: tool_ok_def)
qed

lemma tool_okD: "tool_ok s \<Longrightarrow> i < length parsers \<Longrightarrow> length (stores s ! i) = ap_size (parsers ! i)"
  "tool_ok s \<Longrightarrow> length (stores s) = length parsers"
  by (auto simp: tool_ok_def dest: arg_cong [where f = length]) (metis length_map nth_map)

lemma tool_start_ok: "tool_ok tool_start"
  by (simp add: tool_ok_def tool_start_def comp_def)

lemma parse_args_ok: "parse_args args s = Cont t \<Longrightarrow> tool_ok s \<Longrightarrow> tool_ok t"
proof (induction args s rule: parse_args.induct)
  case (2 a args s)
  from "2.prems"(1) obtain i r ob where i: "take 2 a = ''--''" "parser_lookup (drop 2 a) = Some i"
      "run_parse (ap_parse (parsers ! i)) args (stores s ! i) = Cont (r, ob)"
    and t: "parse_args (drop r args) (s\<lparr>stores := (stores s)[i := ob], dirty := (dirty s)[i := True]\<rparr>) = Cont t"
    by (auto split: if_splits option.splits process.splits)
  have n: "i < length parsers" using i(2) find_index_bound by (auto simp: parser_lookup_def)
  have "tool_ok (s\<lparr>stores := (stores s)[i := ob], dirty := (dirty s)[i := True]\<rparr>)"
    using "2.prems"(2) n run_parse_length [OF i(3)] tool_okD(1) by (intro tool_ok_store) auto
  then show ?case using "2.IH" i t by simp
qed simp

subsection \<open>The image\<close>

text \<open>The values the main program writes: those that are dirty, in the order of the table.\<close>

definition tool_values_upto :: "tool \<Rightarrow> nat \<Rightarrow> tagged" where
  "tool_values_upto s n = map (\<lambda>i. (ap_tag (parsers ! i), stores s ! i)) (filter (\<lambda>i. dirty s ! i) [0..<n])"

abbreviation tool_values :: "tool \<Rightarrow> tagged" where
  "tool_values s \<equiv> tool_values_upto s (length parsers)"

lemma parser_sizes: "i < length parsers \<Longrightarrow> ap_size (parsers ! i) \<le> 34"
proof -
  have "\<forall>p \<in> set parsers. ap_size p \<le> 34" by (simp add: parsers_def mac_parser_def tlv_sizeof_defs)
  then show "i < length parsers \<Longrightarrow> ap_size (parsers ! i) \<le> 34" by simp
qed

lemma tool_values_Suc:
  "tool_values_upto s (Suc n) = tool_values_upto s n @ (if dirty s ! n then [(ap_tag (parsers ! n), stores s ! n)] else [])"
  by (simp add: tool_values_upto_def)

lemma tool_values_short: "tool_ok s \<Longrightarrow> n \<le> length parsers \<Longrightarrow> short_values (tool_values_upto s n)"
proof -
  assume "tool_ok s" "n \<le> length parsers"
  then have "length (stores s ! i) < 256" if "i < n" for i
    using tool_okD(1) [of s i] parser_sizes [of i] that by simp
  then show ?thesis by (auto simp: short_values_def tool_values_upto_def)
qed

lemma write_values:
  assumes "tool_ok s" "n \<le> length parsers"
  shows "fst (fold (write_value s) [0..<n] (0, m0)) = length (tlv_encode (tool_values_upto s n))
    \<and> holds_at (snd (fold (write_value s) [0..<n] (0, m0))) 0 (tlv_encode (tool_values_upto s n))"
  using assms(2)
proof (induction n)
  case 0
  then show ?case by (simp add: tool_values_upto_def)
next
  case (Suc n)
  let ?pm = "fold (write_value s) [0..<n] (0, m0)" and ?bs = "tlv_encode (tool_values_upto s n)"
  have IH: "fst ?pm = length ?bs" "holds_at (snd ?pm) 0 ?bs" using Suc by simp_all
  have l: "length (stores s ! n) = ap_size (parsers ! n)" "length (stores s ! n) < 256"
    using tool_okD(1) [OF assms(1), of n] parser_sizes [of n] Suc.prems by simp_all
  note w = tlv_write_appends [OF IH(2) l(2), of "ap_tag (parsers ! n)", unfolded l(1)]
  show ?case
    using IH w l by (auto simp: write_value_def [of s n] tool_values_Suc tlv_encode_append case_prod_unfold Let_def)
qed

lemma tlv_encode_length: "length (tlv_encode kvs) = sum_list (map (\<lambda>(t, v). 2 + length v) kvs)"
  by (induction kvs rule: tlv_encode.induct) simp_all

lemma sum_list_filter_le: "sum_list (map f (filter P xs)) \<le> (sum_list (map f xs) :: nat)"
  by (induction xs) auto

text \<open>The largest image.\<close>

lemma image_room: "tool_ok s \<Longrightarrow> length (tlv_encode (tool_values s)) \<le> 194"
proof -
  assume ok: "tool_ok s"
  let ?f = "\<lambda>i. 2 + length (stores s ! i)"
  have "length (tlv_encode (tool_values s)) = sum_list (map ?f (filter (\<lambda>i. dirty s ! i) [0..<length parsers]))"
    by (simp add: tlv_encode_length tool_values_upto_def comp_def)
  also have "\<dots> \<le> sum_list (map ?f [0..<length parsers])" by (rule sum_list_filter_le)
  also have "map ?f [0..<length parsers] = map (\<lambda>p. 2 + ap_size p) parsers"
    using tool_okD(1) [OF ok] by (intro nth_equalityI) simp_all
  also have "sum_list (map (\<lambda>p. 2 + ap_size p) parsers) = 194"
    by (simp add: parsers_def mac_parser_def tlv_sizeof_defs)
  finally show ?thesis .
qed

subsection \<open>Images that read the same\<close>

lemma te_bytes_eq:
  assumes "te_bytes f = te_bytes e"
  shows "te_magic f = te_magic e" "te_crc f = te_crc e" "te_size f = te_size e"
    "mem_take (te_tlv f) tlv_room = mem_take (te_tlv e) tlv_room"
  using assms by (simp_all add: te_bytes_def append_eq_append_conv put_le_inj)

lemma tlv_agrees:
  assumes "te_bytes f = te_bytes e" "i < tlv_room" shows "te_tlv f i = te_tlv e i"
  using te_bytes_eq(4) [OF assms(1)] assms(2) by (metis mem_take_nth)

lemma te_bytes_of_put: "te_bytes (te_of (put_bytes 0 (te_bytes e) heap)) = te_bytes e"
proof -
  have l: "length (te_bytes e) = 256" by (simp add: te_bytes_def tlv_room_def)
  have p: "put_bytes 0 (te_bytes e) heap i = te_bytes e ! i" if "i < 256" for i using that l by (simp add: put_bytes_def)
  have m: "put_bytes 0 (te_bytes e) heap i = mem_of (te_bytes e) i" if "i < 256" for i using that l p by (simp add: mem_of_nth)
  have le: "le32 (put_bytes 0 (te_bytes e) heap) k = le32 (mem_of (te_bytes e)) k" if "k < 250" for k
    using that by (simp add: le32_def le16_def m)
  have "le32 (mem_of (te_bytes e)) 0 = te_magic e"
    using le32_at [of "[]" 0 "te_magic e"] by (simp add: te_bytes_def)
  moreover have "le32 (mem_of (te_bytes e)) 4 = te_crc e"
    using le32_at [of "put32_le (te_magic e)" 4 "te_crc e"] by (simp add: te_bytes_def)
  moreover have "le32 (mem_of (te_bytes e)) 8 = te_size e"
    using le32_at [of "put32_le (te_magic e) @ put32_le (te_crc e)" 8 "te_size e"] by (simp add: te_bytes_def)
  moreover have "mem_take (mem_at (put_bytes 0 (te_bytes e) heap) 12) tlv_room = mem_take (te_tlv e) tlv_room"
  proof (rule nth_equalityI)
    fix i assume "i < length (mem_take (mem_at (put_bytes 0 (te_bytes e) heap) 12) tlv_room)"
    then have i: "i < 244" by (simp add: tlv_room_def)
    have "te_bytes e ! (12 + i) = mem_take (te_tlv e) tlv_room ! i"
      unfolding te_bytes_def by (simp add: nth_append)
    then show "mem_take (mem_at (put_bytes 0 (te_bytes e) heap) 12) tlv_room ! i = mem_take (te_tlv e) tlv_room ! i"
      using i p by (simp add: mem_at_def tlv_room_def)
  qed simp
  ultimately show ?thesis by (simp add: te_of_def te_bytes_def [of "te_of _"] le) (simp add: te_bytes_def)
qed

lemma sealed_fields:
  "te_magic (sealed_eeprom s) = USRP_EEPROM_MAGIC"
  "te_tlv (sealed_eeprom s) = snd (fold (write_value s) [0..<length parsers] (0, \<lambda>_. 0))"
  "te_size (sealed_eeprom s) = of_nat (fst (fold (write_value s) [0..<length parsers] (0, \<lambda>_. 0)))"
  "te_crc (sealed_eeprom s) = tlv_eeprom_crc (sealed_eeprom s)"
  by (simp_all add: sealed_eeprom_def tlv_eeprom_seal_def Let_def case_prod_unfold tlv_eeprom_crc_def)

text \<open>Whatever reads as a sealed image validates, and holds its values.\<close>

lemma sealed_image:
  assumes ok: "tool_ok s" and f: "te_bytes f = te_bytes (sealed_eeprom s)"
  shows "unat (te_size f) = length (tlv_encode (tool_values s))" "holds_at (te_tlv f) 0 (tlv_encode (tool_values s))"
    "tlv_eeprom_validate f USRP_EEPROM_MAGIC = 0"
proof -
  let ?n = "length (tlv_encode (tool_values s))"
  note w = write_values [OF ok order.refl, of "\<lambda>_. 0"] and room = image_room [OF ok]
  have n: "unat (of_nat ?n :: u32) = ?n" using room by (simp add: unat_of_nat take_bit_nat_eq_self)
  show size: "unat (te_size f) = ?n"
    using w n by (simp add: te_bytes_eq(3) [OF f] sealed_fields(3))
  show "holds_at (te_tlv f) 0 (tlv_encode (tool_values s))"
    using w room tlv_agrees [OF f] by (auto simp: holds_at_def sealed_fields(2) tlv_room_def)
  have "mem_take (te_tlv f) ?n = mem_take (te_tlv (sealed_eeprom s)) ?n"
    using room tlv_agrees [OF f] by (intro nth_equalityI) (simp_all add: tlv_room_def)
  then have "tlv_eeprom_crc f = tlv_eeprom_crc (sealed_eeprom s)"
    using size by (simp add: tlv_eeprom_crc_def te_bytes_eq(3) [OF f])
  then show "tlv_eeprom_validate f USRP_EEPROM_MAGIC = 0"
    using room size by (simp add: tlv_eeprom_validate_def te_bytes_eq(1,2) [OF f] sealed_fields(1,4) [of s])
qed

subsection \<open>Tags\<close>

lemma parser_tags: "distinct (map ap_tag parsers)" "0 \<notin> set (map ap_tag parsers)"
  by (simp_all add: parsers_def mac_parser_def tlv_tag_defs)

lemma parser_of_tag_Some:
  "parser_of_tag tag = Some i \<longleftrightarrow> i < length parsers \<and> ap_tag (parsers ! i) = tag"
proof -
  let ?f = "\<lambda>i found. if ap_tag (parsers ! i) = tag then Some i else found"
  have "n \<le> length parsers \<Longrightarrow> fold ?f [0..<n] None = Some i \<longleftrightarrow> i < n \<and> ap_tag (parsers ! i) = tag" for n
  proof (induction n)
    case (Suc n)
    have "ap_tag (parsers ! i) = ap_tag (parsers ! n) \<longleftrightarrow> i = n" if "i < Suc n"
      using parser_tags(1) Suc.prems that nth_eq_iff_index_eq [of "map ap_tag parsers" i n] by simp
    then show ?case using Suc by (auto simp: less_Suc_eq)
  qed simp
  then show ?thesis by (simp add: parser_of_tag_def)
qed

lemma parser_of_tag_nth: "i < length parsers \<Longrightarrow> parser_of_tag (ap_tag (parsers ! i)) = Some i"
  by (simp add: parser_of_tag_Some)

lemma tool_values_map_of:
  "n \<le> length parsers \<Longrightarrow> i < length parsers \<Longrightarrow>
    map_of (tool_values_upto s n) (ap_tag (parsers ! i)) = (if i < n \<and> dirty s ! i then Some (stores s ! i) else None)"
proof (induction n)
  case 0
  then show ?case by (simp add: tool_values_upto_def)
next
  case (Suc n)
  have "ap_tag (parsers ! i) = ap_tag (parsers ! n) \<longleftrightarrow> i = n"
    using parser_tags(1) Suc.prems nth_eq_iff_index_eq [of "map ap_tag parsers" i n] by simp
  then show ?case using Suc by (auto simp: tool_values_Suc map_add_def split: option.split)
qed

end
