(* ===== verification/TlvProps.thy ===== *)
theory TlvProps
  imports TlvImage
begin

unbundle bit_operations_syntax

section \<open>What the EEPROM tools write and read\<close>

subsection \<open>Updating\<close>

lemma tlv_each_keeps:
  "P s \<Longrightarrow> tlv_each fn buf p fin s = Cont s' \<Longrightarrow> (\<And>t l q u u'. P u \<Longrightarrow> fn t l q u = Cont u' \<Longrightarrow> P u') \<Longrightarrow> P s'"
proof (induction fn buf p fin s rule: tlv_each.induct)
  case (1 fn buf p fin s)
  from 1(3) show ?case
    unfolding tlv_each.simps [of fn buf p fin s]
    using 1(1,4) 1(4) [OF 1(2)] by (auto split: process.splits option.splits)
qed

lemma tlv_update_ok: "tool_ok s \<Longrightarrow> tlv_update buf tag len val s = Cont s' \<Longrightarrow> tool_ok s'"
proof -
  assume ok: "tool_ok s" and u: "tlv_update buf tag len val s = Cont s'"
  obtain i where i: "parser_of_tag tag = Some i" "unat len = ap_size (parsers ! i)"
    and s': "s' = s\<lparr>stores := (stores s)[i := mem_take (mem_at buf val) (unat len)], dirty := (dirty s)[i := True]\<rparr>"
    using u by (simp add: tlv_update_def split: option.splits if_splits)
  then show "tool_ok s'"
    unfolding s' using ok parser_of_tag_Some by (intro tool_ok_store) auto
qed

lemma handle_update_ok:
  assumes "tool_ok s" "handle_update update heap fd s = Cont s'"
  shows "tool_ok s'"
proof (cases update)
  case True
  then obtain e where "tlv_eeprom_read_from_file heap fd = Some e"
    using assms(2) by (cases "tlv_eeprom_read_from_file heap fd") (simp_all add: handle_update_def)
  then have "tlv_each (tlv_update (te_tlv e)) (te_tlv e) 0 (unat (te_size e)) s = Cont s'"
    using True assms(2) by (simp add: handle_update_def tlv_for_each_def split: if_splits)
  with assms(1) show ?thesis by (rule tlv_each_keeps) (rule tlv_update_ok)
qed (use assms in \<open>simp add: handle_update_def\<close>)

lemma each_value_append:
  "each_value f (xs @ ys) s = (case each_value f xs s of End x s \<Rightarrow> End x s | Cont s \<Rightarrow> each_value f ys s)"
  by (induction f xs s rule: each_value.induct) (auto split: process.split)

definition update_value :: "u8 \<Rightarrow> u8 list \<Rightarrow> tool \<Rightarrow> tool process" where
  "update_value t v s =
     (case parser_of_tag t of
        None \<Rightarrow> End (Status 1) s
      | Some i \<Rightarrow> if length v \<noteq> ap_size (parsers ! i) then End Assertion_failed s
                  else Cont (s\<lparr>stores := (stores s)[i := v], dirty := (dirty s)[i := True]\<rparr>))"

text \<open>What updating an empty process with the values of another makes of it.\<close>

lemma update_values:
  assumes "tool_ok s"
  shows "n \<le> length parsers \<Longrightarrow> \<exists>t. each_value update_value (tool_values_upto s n) tool_start = Cont t \<and> tool_ok t \<and> out_bytes t = []
    \<and> (\<forall>i < length parsers. dirty t ! i = (i < n \<and> dirty s ! i)
        \<and> stores t ! i = (if i < n \<and> dirty s ! i then stores s ! i else replicate (ap_size (parsers ! i)) 0))"
proof (induction n)
  case 0
  show ?case by (simp add: tool_values_upto_def tool_start_ok) (simp add: tool_start_def)
next
  case (Suc n)
  then obtain t where t: "each_value update_value (tool_values_upto s n) tool_start = Cont t" "tool_ok t" "out_bytes t = []"
    "\<forall>i < length parsers. dirty t ! i = (i < n \<and> dirty s ! i)
        \<and> stores t ! i = (if i < n \<and> dirty s ! i then stores s ! i else replicate (ap_size (parsers ! i)) 0)"
    by auto
  have n: "n < length parsers" using Suc.prems by simp
  have l: "length (stores s ! n) = ap_size (parsers ! n)" using tool_okD(1) [OF assms n] .
  show ?case
  proof (cases "dirty s ! n")
    case True
    let ?t = "t\<lparr>stores := (stores t)[n := stores s ! n], dirty := (dirty t)[n := True]\<rparr>"
    have "each_value update_value (tool_values_upto s (Suc n)) tool_start = Cont ?t"
      using True t(1) l n by (simp add: tool_values_Suc each_value_append update_value_def parser_of_tag_nth)
    moreover have "tool_ok ?t" using t(2) n l by (rule tool_ok_store)
    moreover have "length (stores t) = length parsers" "length (dirty t) = length parsers"
      using tool_okD(2) [OF t(2)] t(2) by (simp_all add: tool_ok_def)
    ultimately show ?thesis
      using t(3,4) True n by (intro exI [of _ ?t]) (auto simp: nth_list_update less_Suc_eq)
  next
    case False
    then show ?thesis
      using t by (intro exI [of _ t]) (auto simp: tool_values_Suc less_Suc_eq)
  qed
qed

lemma handle_update_image:
  assumes "tool_ok s" "tlv_eeprom_read_from_file heap fd = Some f" "te_bytes f = te_bytes (sealed_eeprom s)" "tool_values s \<noteq> []"
  shows "handle_update True heap fd tool_start = each_value update_value (tool_values s) tool_start"
proof -
  note im = sealed_image [OF assms(1,3)]
  have "tlv_each (tlv_update (te_tlv f)) (te_tlv f) 0 (0 + length (tlv_encode (tool_values s))) tool_start
      = each_value update_value (tool_values s) tool_start"
  proof (rule tlv_each_values [OF _ assms(4) tool_values_short [OF assms(1) order.refl] im(2)])
    show "tlv_update (te_tlv f) t l q s = update_value t (mem_take (mem_at (te_tlv f) q) (unat l)) s" for t l q s
      by (simp add: tlv_update_def update_value_def split: option.split)
  qed
  then show ?thesis using assms(2) im(1,3) by (simp add: handle_update_def tlv_for_each_def)
qed

lemma tool_values_empty: "tool_values s = [] \<longleftrightarrow> (\<forall>i < length parsers. \<not> dirty s ! i)"
  by (auto simp: tool_values_upto_def filter_empty_conv)

text \<open>C33. Updating keeps an EEPROM.  Run as \<^verbatim>\<open>eeprom-update\<close> on an EEPROM that the tool has written and that has a value at
  all, the tool takes over exactly the values there were, marks them and no others to be written, and would write the same
  256 bytes again.\<close>

theorem eeprom_update_keeps:
  assumes "tool_ok s" "\<exists>i < length parsers. dirty s ! i"
    and "tlv_eeprom_read_from_file heap fd = Some f" "te_bytes f = te_bytes (sealed_eeprom s)"
  shows "\<exists>t. handle_update True heap fd tool_start = Cont t \<and> te_bytes (sealed_eeprom t) = te_bytes (sealed_eeprom s)
    \<and> (\<forall>i < length parsers. dirty t ! i = dirty s ! i
        \<and> stores t ! i = (if dirty s ! i then stores s ! i else replicate (ap_size (parsers ! i)) 0))"
proof -
  have "tool_values s \<noteq> []" using assms(2) by (simp add: tool_values_empty)
  note u = handle_update_image [OF assms(1,3,4) this] 
  obtain t where t: "each_value update_value (tool_values s) tool_start = Cont t"
    and f: "\<forall>i < length parsers. dirty t ! i = dirty s ! i
        \<and> stores t ! i = (if dirty s ! i then stores s ! i else replicate (ap_size (parsers ! i)) 0)"
    using update_values [OF assms(1) order.refl] by auto
  have "write_value t i pm = write_value s i pm" if "i < length parsers" for i pm
    using f that by (simp add: write_value_def)
  then have "fold (write_value t) [0..<length parsers] pm = fold (write_value s) [0..<length parsers] pm" for pm
    by (intro fold_cong) auto
  then have "sealed_eeprom t = sealed_eeprom s" by (simp add: sealed_eeprom_def)
  then show ?thesis using u t f by auto
qed

text \<open>A process that holds a single value.\<close>

definition tool_demo :: tool where
  "tool_demo = tool_start\<lparr>stores := (stores tool_start)[18 := [50, 0]], dirty := (dirty tool_start)[18 := True]\<rparr>"

lemma tool_demo_ok: "tool_ok tool_demo"
  unfolding tool_demo_def
  by (rule tool_ok_store [OF tool_start_ok]) (simp_all add: parsers_def mac_parser_def tlv_sizeof_defs)

lemma length_parsers: "length parsers = 20"
  by (simp add: parsers_def)

lemma length_te_bytes: "length (te_bytes e) = 256"
  by (simp add: te_bytes_def tlv_room_def)

lemma read_whole:
  "tlv_eeprom_read_from_file heap (Some (\<lambda>_. Some (te_bytes e))) = Some (te_of (put_bytes 0 (te_bytes e) heap))"
proof -
  have "read_loop (\<lambda>_. Some (te_bytes e)) 0 256 [] = Some (te_bytes e)"
    using length_te_bytes [of e] by (subst read_loop.simps) (auto simp: Let_def read_loop.simps [of _ _ 0])
  then show ?thesis by (simp add: tlv_eeprom_read_from_file_def)
qed

lemma eeprom_update_keeps_witness:
  "\<exists>t. handle_update True (\<lambda>_. 0) (Some (\<lambda>_. Some (te_bytes (sealed_eeprom tool_demo)))) tool_start = Cont t \<and> stores t ! 18 = [50, 0]"
proof -
  have d: "\<exists>i < length parsers. dirty tool_demo ! i" "dirty tool_demo ! 18" "stores tool_demo ! 18 = [50, 0]"
    by (intro exI [of _ 18]) (simp_all add: tool_demo_def tool_start_def length_parsers)
  show ?thesis
    using eeprom_update_keeps [OF tool_demo_ok d(1) read_whole te_bytes_of_put] d(2,3) length_parsers by fastforce
qed

lemma no_values_zero:
  assumes "\<forall>i < length parsers. \<not> dirty s ! i" shows "fold (write_value s) [0..<length parsers] pm = pm"
proof -
  have "n \<le> length parsers \<Longrightarrow> fold (write_value s) [0..<n] pm = pm" for n
    using assms by (induction n) (simp_all add: write_value_def [of s "_ :: nat"])
  then show ?thesis by simp
qed

text \<open>An EEPROM without values, which the tool writes when it is run without arguments, is a dead end: it validates, but visiting
  its values reads one that is not there, with tag 0, and so every update of it fails with status 1.\<close>

theorem empty_eeprom_not_updatable:
  assumes "tool_ok s" "\<forall>i < length parsers. \<not> dirty s ! i"
    and "tlv_eeprom_read_from_file heap fd = Some f" "te_bytes f = te_bytes (sealed_eeprom s)"
  shows "tlv_eeprom_validate f USRP_EEPROM_MAGIC = 0
    \<and> eeprom_init_main True heap (prog # file # args) fd wr after = Some (End (Status 1) tool_start)"
proof -
  note im = sealed_image [OF assms(1,4)]
  have e: "tool_values s = []" using assms(2) by (simp add: tool_values_empty)
  have "te_tlv f 0 = 0"
    using assms(2) tlv_agrees [OF assms(4), of 0] no_values_zero by (simp add: sealed_fields(2) tlv_room_def)
  moreover have "parser_of_tag 0 = None"
    using parser_tags(2) parser_of_tag_Some [of 0] by (cases "parser_of_tag 0") (auto simp: image_iff dest: nth_mem)
  ultimately have "tlv_for_each (te_tlv f) (unat (te_size f)) (tlv_update (te_tlv f)) tool_start = End (Status 1) tool_start"
    unfolding tlv_for_each_def by (subst tlv_each.simps) (simp add: tlv_tag_def tlv_update_def)
  then show ?thesis using im(3) assms(3) by (simp add: eeprom_init_main_def handle_update_def)
qed

lemma empty_eeprom_not_updatable_witness:
  "eeprom_init_main True (\<lambda>_. 0) [''eeprom-update'', ''eeprom'', ''--mcu_flags''] (Some (\<lambda>_. Some (te_bytes (sealed_eeprom tool_start)))) None None
    = Some (End (Status 1) tool_start)"
proof -
  have "\<forall>i < length parsers. \<not> dirty tool_start ! i" by (simp add: tool_start_def)
  then show ?thesis using empty_eeprom_not_updatable [OF tool_start_ok _ read_whole te_bytes_of_put] by blast
qed

subsection \<open>Writing\<close>

text \<open>Success is reported at the end only.\<close>

lemma tlv_each_failure:
  "tlv_each fn buf p fin s = End x s' \<Longrightarrow> (\<And>t l q u u'. fn t l q u \<noteq> End y u') \<Longrightarrow> x \<noteq> y"
proof (induction fn buf p fin s rule: tlv_each.induct)
  case (1 fn buf p fin s)
  from 1(2) show ?case
    unfolding tlv_each.simps [of fn buf p fin s]
    using 1(1,3) by (auto split: process.splits option.splits)
qed

lemma handle_update_failure: "handle_update update heap fd s \<noteq> End (Status 0) s'"
proof
  assume e: "handle_update update heap fd s = End (Status 0) s'"
  then obtain e where "tlv_eeprom_read_from_file heap fd = Some e"
    by (cases "tlv_eeprom_read_from_file heap fd") (simp_all add: handle_update_def split: if_splits)
  then have "tlv_each (tlv_update (te_tlv e)) (te_tlv e) 0 (unat (te_size e)) s = End (Status 0) s'"
    using e by (simp add: handle_update_def tlv_for_each_def split: if_splits)
  then have "Status 0 \<noteq> Status 0"
    by (rule tlv_each_failure) (simp add: tlv_update_def split: option.split)
  then show False by simp
qed

lemma obj_put_failure: "obj_put k bs ob = End x ob' \<Longrightarrow> x = Out_of_bounds"
  by (auto simp: obj_put_def split: if_splits)

lemma parse_steps_failure: "parse_steps i n argv sq = End x sq' \<Longrightarrow> x = Out_of_bounds"
  by (induction i n argv sq rule: parse_steps.induct) (auto dest!: obj_put_failure split: process.splits)

lemma returns_End: "returns n p = End x u \<Longrightarrow> \<exists>ob. p = End x ob"
  by (auto simp: returns_def split: process.splits)

lemma run_parse_failure: "run_parse f args ob = End x u \<Longrightarrow> x = Out_of_bounds \<or> x = Assertion_failed"
proof -
  have p: "proc_then (obj_put 0 bs ob) (parse_steps i n argv) = End x u' \<Longrightarrow> x = Out_of_bounds" for bs i n argv x u'
    by (cases "obj_put 0 bs ob") (auto dest: obj_put_failure parse_steps_failure)
  show "run_parse f args ob = End x u \<Longrightarrow> x = Out_of_bounds \<or> x = Assertion_failed"
    by (cases f)
      (auto simp: parser_defs obj_put_string_def Let_def dest!: returns_End dest: obj_put_failure p split: if_splits)
qed

lemma parse_args_failure: "parse_args args s \<noteq> End (Status 0) s'"
proof (induction args s rule: parse_args.induct)
  case (2 a args s)
  show ?case
  proof
    assume e: "parse_args (a # args) s = End (Status 0) s'"
    then obtain i where i: "parser_lookup (drop 2 a) = Some i" "take 2 a = ''--''"
      by (auto split: if_splits option.splits)
    show False
    proof (cases "run_parse (ap_parse (parsers ! i)) args (stores s ! i)")
      case (Cont ro)
      then show ?thesis using e i 2 by (cases ro) auto
    next
      case (End x u)
      then show ?thesis using e i run_parse_failure [OF End] by auto
    qed
  qed
qed simp

lemma init_success:
  assumes "eeprom_init_main update heap argv before wr after = Some (End (Status 0) s)"
  shows "\<exists>u out. proc_then (handle_update update heap before tool_start) (parse_args (drop 2 argv)) = Cont u
    \<and> validate_file_matches heap (sealed_eeprom u) after (u\<lparr>out_bytes := out\<rparr>) = Cont s"
proof (cases "proc_then (handle_update update heap before tool_start) (parse_args (drop 2 argv))")
  case (Cont u)
  obtain st out where w: "tlv_eeprom_write_to_file (sealed_eeprom u) wr = Some (st, out)"
    and "(case validate_file_matches heap (sealed_eeprom u) after (u\<lparr>out_bytes := out\<rparr>) of
        End x s \<Rightarrow> End x s | Cont s \<Rightarrow> End (Status 0) s) = End (Status 0) s"
    using assms Cont by (auto simp: eeprom_init_main_def split: if_splits)
  then have "validate_file_matches heap (sealed_eeprom u) after (u\<lparr>out_bytes := out\<rparr>) = Cont s"
    by (auto simp: validate_file_matches_def split: process.splits option.splits if_splits)
  then show ?thesis using Cont by blast
next
  case (End x u)
  then have "x \<noteq> Status 0"
    using handle_update_failure parse_args_failure by (cases "handle_update update heap before tool_start") auto
  then show ?thesis using assms End by (simp add: eeprom_init_main_def split: if_splits)
qed

text \<open>When the tool succeeds, the EEPROM holds what the tool does: the file read back validates, its values fill at most 194 of
  the 244 bytes, and looking up the tag of any of the twenty kinds of values gives exactly the bytes the tool holds for it,
  or nothing if neither an argument nor an update has set it.\<close>

theorem eeprom_init_file:
  assumes "eeprom_init_main update heap argv before wr after = Some (End (Status 0) s)"
  shows "\<exists>f. tlv_eeprom_read_from_file heap after = Some f \<and> tlv_eeprom_validate f USRP_EEPROM_MAGIC = 0 \<and> unat (te_size f) \<le> 194
    \<and> (\<forall>i < length parsers. case tlv_lookup (te_tlv f) (unat (te_size f)) (ap_tag (parsers ! i)) of
          None \<Rightarrow> \<not> dirty s ! i
        | Some q \<Rightarrow> dirty s ! i \<and> mem_take (mem_at (te_tlv f) q) (ap_size (parsers ! i)) = stores s ! i)"
proof -
  obtain u out where u: "proc_then (handle_update update heap before tool_start) (parse_args (drop 2 argv)) = Cont u"
    and v: "validate_file_matches heap (sealed_eeprom u) after (u\<lparr>out_bytes := out\<rparr>) = Cont s"
    using init_success [OF assms] by blast
  obtain f where f: "tlv_eeprom_read_from_file heap after = Some f" "te_bytes f = te_bytes (sealed_eeprom u)" "s = u\<lparr>out_bytes := out\<rparr>"
    using v by (auto simp: validate_file_matches_def split: option.splits if_splits)
  have ok: "tool_ok u"
    using u handle_update_ok [OF tool_start_ok] parse_args_ok by (auto simp: proc_then_Cont)
  note im = sealed_image [OF ok f(2)]
  have "case tlv_lookup (te_tlv f) (unat (te_size f)) (ap_tag (parsers ! i)) of
      None \<Rightarrow> \<not> dirty s ! i
    | Some q \<Rightarrow> dirty s ! i \<and> mem_take (mem_at (te_tlv f) q) (ap_size (parsers ! i)) = stores s ! i" if i: "i < length parsers" for i
  proof (cases "tool_values u = []")
    case True
    have "te_tlv f 0 = 0"
      using True i tlv_agrees [OF f(2), of 0] no_values_zero [of u] by (simp add: sealed_fields(2) tlv_room_def tool_values_empty)
    moreover have "ap_tag (parsers ! i) \<noteq> 0" using parser_tags(2) nth_mem [OF i] by (force simp: image_iff)
    ultimately have "tlv_lookup (te_tlv f) (unat (te_size f)) (ap_tag (parsers ! i)) = None"
      using im(1) True unfolding tlv_lookup_def by (subst tlv_find.simps) (simp add: tlv_tag_def tlv_next_def)
    then show ?thesis using True i f(3) by (simp add: tool_values_empty)
  next
    case False
    show ?thesis
      using tlv_lookup_spec [OF False tool_values_short [OF ok order.refl] im(2), of "ap_tag (parsers ! i)"]
        tool_values_map_of [OF order.refl i, of u] tool_okD(1) [OF ok i] i f(3)
      by (simp add: im(1) split: option.splits if_splits)
  qed
  then show ?thesis using f(1) im image_room [OF ok] by auto
qed

lemma tool_demo_parsed: "parse_args [''--fan_fixed_capacity'', ''50''] tool_start = Cont tool_demo"
  by code_simp

lemma write_whole: "tlv_eeprom_write_to_file e (Some (\<lambda>_. Some 256)) = Some (0, te_bytes e)"
proof -
  have "write_loop (\<lambda>_. Some 256) 0 256 0 = Some 256"
    by (simp add: write_loop.simps)
  then show ?thesis using length_te_bytes [of e] by (simp add: tlv_eeprom_write_to_file_def)
qed

lemma eeprom_init_file_witness:
  "\<exists>f. tlv_eeprom_validate f USRP_EEPROM_MAGIC = 0 \<and> tlv_lookup (te_tlv f) (unat (te_size f)) 0x22 \<noteq> None"
proof -
  let ?fd = "Some (\<lambda>_. Some (te_bytes (sealed_eeprom tool_demo)))" and ?s = "tool_demo\<lparr>out_bytes := te_bytes (sealed_eeprom tool_demo)\<rparr>"
  have "eeprom_init_main False (\<lambda>_. 0) [''eeprom-init'', ''eeprom'', ''--fan_fixed_capacity'', ''50''] None (Some (\<lambda>_. Some 256)) ?fd
      = Some (End (Status 0) ?s)"
    by (simp add: eeprom_init_main_def handle_update_def tool_demo_parsed write_whole validate_file_matches_def read_whole te_bytes_of_put
        del: parse_args.simps)
  from eeprom_init_file [OF this] obtain f where f: "tlv_eeprom_validate f USRP_EEPROM_MAGIC = 0"
    "\<forall>i < length parsers. case tlv_lookup (te_tlv f) (unat (te_size f)) (ap_tag (parsers ! i)) of
        None \<Rightarrow> \<not> dirty ?s ! i | Some q \<Rightarrow> dirty ?s ! i
          \<and> mem_take (mem_at (te_tlv f) q) (ap_size (parsers ! i)) = stores ?s ! i"
    by blast
  have "dirty ?s ! 18" "ap_tag (parsers ! 18) = 0x22"
    by (simp_all add: tool_demo_def tool_start_def length_parsers) (simp add: parsers_def tlv_tag_defs)
  then show ?thesis using f length_parsers by (intro exI [of _ f]) (auto split: option.splits dest!: spec [of _ 18])
qed

subsection \<open>Checking\<close>

lemma put_bytes_split:
  assumes "k + length bs \<le> n"
  shows "mem_take (put_bytes k bs m) n = mem_take m k @ bs @ mem_take (mem_at m (k + length bs)) (n - k - length bs)"
  using assms by (intro nth_equalityI) (auto simp: put_bytes_def nth_append mem_at_def not_less)

text \<open>C34. The checksum finds every burst of errors: an EEPROM that validates no longer does when up to four
  neighbouring bytes of its values are overwritten with anything else.\<close>

theorem tlv_burst_detected:
  assumes "tlv_eeprom_validate e magic = 0" "length bs \<le> 4" "k + length bs \<le> unat (te_size e)"
    and "mem_take (mem_at (te_tlv e) k) (length bs) \<noteq> bs"
  shows "tlv_eeprom_validate (e\<lparr>te_tlv := put_bytes k bs (te_tlv e)\<rparr>) magic = -3"
proof -
  let ?ys = "mem_take (mem_at (te_tlv e) k) (length bs)" and ?n = "unat (te_size e)"
  have "put_bytes k ?ys (te_tlv e) = te_tlv e"
    by (rule ext) (auto simp: put_bytes_def mem_at_def)
  then have old: "mem_take (te_tlv e) ?n = mem_take (te_tlv e) k @ ?ys @ mem_take (mem_at (te_tlv e) (k + length bs)) (?n - k - length bs)"
    using put_bytes_split [of k ?ys ?n "te_tlv e"] assms(3) by simp
  have "tlv_eeprom_crc e = tlv_eeprom_crc (e\<lparr>te_tlv := put_bytes k bs (te_tlv e)\<rparr>) \<longleftrightarrow> ?ys = bs"
    unfolding tlv_eeprom_crc_def tlv_crc32_def
    using crc32_burst [of ?ys bs 0 "put32_le (te_size e) @ mem_take (te_tlv e) k"] assms(2,3)
    by (simp add: old put_bytes_split)
  then show ?thesis using assms(1,4) by (simp add: tlv_eeprom_validate_def split: if_splits)
qed

lemma tlv_burst_detected_witness:
  "\<exists>e. tlv_eeprom_validate e USRP_EEPROM_MAGIC = 0 \<and> tlv_eeprom_validate (e\<lparr>te_tlv := put_bytes 2 [7] (te_tlv e)\<rparr>) USRP_EEPROM_MAGIC = -3"
proof -
  let ?e = "tlv_eeprom_seal USRP_EEPROM_MAGIC 8 \<lparr>te_magic = 0, te_crc = 0, te_size = 0, te_tlv = \<lambda>_. 0\<rparr>"
  have v: "tlv_eeprom_validate ?e USRP_EEPROM_MAGIC = 0"
    by (simp add: tlv_eeprom_validate_def tlv_eeprom_seal_def tlv_eeprom_crc_def)
  have "tlv_eeprom_validate (?e\<lparr>te_tlv := put_bytes 2 [7] (te_tlv ?e)\<rparr>) USRP_EEPROM_MAGIC = -3"
    by (rule tlv_burst_detected [OF v]) (simp_all add: tlv_eeprom_seal_def mem_at_def mem_take_def)
  then show ?thesis using v by blast
qed

text \<open>The check lets sizes pass that the array does not have: for each size from 245 to 256 there are two EEPROMs with the same
  256 bytes of which one validates and one does not, because the checksum runs on into whatever lies behind the structure.\<close>

theorem oversize_validates:
  assumes "tlv_room < n" "n \<le> TLV_EEPROM_SIZE"
  shows "\<exists>e e'. te_bytes e = te_bytes e' \<and> unat (te_size e) = n
    \<and> tlv_eeprom_validate e magic = 0 \<and> tlv_eeprom_validate e' magic = -3"
proof -
  define e where "e = tlv_eeprom_seal magic n \<lparr>te_magic = 0, te_crc = 0, te_size = 0, te_tlv = \<lambda>_. 0\<rparr>"
  have n: "unat (te_size e) = n"
    using assms(2) by (simp add: e_def tlv_eeprom_seal_def unat_of_nat take_bit_nat_eq_self)
  have "te_magic e = magic" "te_crc e = tlv_eeprom_crc e" "te_tlv e = (\<lambda>_. 0)"
    by (simp_all add: e_def tlv_eeprom_seal_def tlv_eeprom_crc_def)
  then have v: "tlv_eeprom_validate e magic = 0" using n assms(2) by (simp add: tlv_eeprom_validate_def)
  let ?e = "e\<lparr>te_tlv := put_bytes tlv_room [1] (te_tlv e)\<rparr>"
  have "tlv_eeprom_validate ?e magic = -3"
    using tlv_burst_detected [OF v, of "[1]" tlv_room] n assms(1) \<open>te_tlv e = (\<lambda>_. 0)\<close> by (simp add: mem_at_def mem_take_def)
  moreover have "te_bytes ?e = te_bytes e"
    by (simp add: te_bytes_def) (simp add: mem_take_def put_bytes_def)
  ultimately show ?thesis using v n by (intro exI [of _ e] exI [of _ ?e]) simp
qed

lemma oversize_validates_witness:
  "\<exists>e e'. te_bytes e = te_bytes e' \<and> unat (te_size e) = 250
    \<and> tlv_eeprom_validate e USRP_EEPROM_MAGIC = 0 \<and> tlv_eeprom_validate e' USRP_EEPROM_MAGIC = -3"
  by (rule oversize_validates) (simp_all add: tlv_room_def)

end
