(* ===== verification/TlvCommand.thy ===== *)
theory TlvCommand
  imports TlvProps
begin

unbundle bit_operations_syntax

section \<open>What the command line of the EEPROM tools says\<close>

text \<open>
  The meaning of the arguments of \<^verbatim>\<open>eeprom-init\<close> and \<^verbatim>\<open>eeprom-update\<close>, said without the table of parsers and their objects: which option sets the
  value of which tag to which bytes.  The tools are shown to write just that.  The state of the specification is a map from tags to values.
\<close>

subsection \<open>The options\<close>

definition option_tags :: "(string \<times> u8) list" where
  "option_tags =
     [(''board_info'', 0x10), (''module_info'', 0x11), (''db_pwr_seq'', 0x12), (''mcu_flags'', 0x20), (''fan_limits'', 0x21),
      (''fan_fixed_capacity'', 0x22), (''clkaux_tuning_word'', 0x23), (''eth0_mac'', 0xA0), (''qsfp0_mac'', 0xA1), (''qsfp1_mac'', 0xA2),
      (''mac_addr_0'', 0xA0), (''mac_addr_1'', 0xA1), (''mac_addr_2'', 0xA2), (''mac_addr_3'', 0xA3), (''mac_addr_4'', 0xA4),
      (''mac_addr_5'', 0xA5), (''mac_addr_6'', 0xA6), (''mac_addr_7'', 0xA7), (''mac_addr_8'', 0xA8), (''mac_addr_9'', 0xA9),
      (''mac_addr_10'', 0xAA), (''mac_addr_11'', 0xAB), (''mac_addr_12'', 0xAC)]"

text \<open>Numbers, in the notations of C, and the seven characters of a serial number.\<close>

definition num8 :: "string \<Rightarrow> u8" where "num8 w = ucast (strtoul w 0)"
definition num16 :: "string \<Rightarrow> u8 list" where "num16 w = put16_le (ucast (strtoul w 0))"
definition serial8 :: "string \<Rightarrow> u8 list" where
  "serial8 w = take 7 (map char_byte w @ replicate 7 0) @ [0]"

text \<open>An Ethernet address: conversions with a colon between two of them; what follows the last is not looked at.\<close>

inductive mac_text :: "string \<Rightarrow> u8 list \<Rightarrow> bool" where
  last: "scan_hhx w = Some (b, rest) \<Longrightarrow> mac_text w [b]"
| more: "scan_hhx w = Some (b, CHR '':'' # rest) \<Longrightarrow> mac_text rest bs \<Longrightarrow> mac_text w (b # bs)"

text \<open>The words behind an option, and the value they make of the one there was.  A power sequence and the fan capacity leave
  bytes of the old value: the padding, and the steps that are not given.\<close>

inductive setting :: "u8 \<Rightarrow> string list \<Rightarrow> u8 list \<Rightarrow> u8 list \<Rightarrow> bool" where
  board_info: "setting 0x10 [a, b, c, d] old (num16 a @ num16 b @ num16 c @ serial8 d)"
| module_info: "setting 0x11 [a, b, c] old (num16 a @ num16 b @ serial8 c)"
| mac_addr: "0xA0 \<le> tag \<Longrightarrow> tag \<le> 0xAC \<Longrightarrow> mac_text w bs \<Longrightarrow> length bs = 6 \<Longrightarrow> setting tag [w] old bs"
| db_pwr_seq: "n \<le> 8 \<Longrightarrow> length ws = 2 * n \<Longrightarrow> num8 w = of_nat n \<Longrightarrow> length old = 34 \<Longrightarrow> length new = 34 \<Longrightarrow> new ! 0 = of_nat n
    \<Longrightarrow> (\<forall>k<n. [new ! (2 + 4 * k), new ! (3 + 4 * k)] = num16 (ws ! (2 * k)) \<and> new ! (4 + 4 * k) = num8 (ws ! (2 * k + 1)))
    \<Longrightarrow> (\<forall>j<34. j mod 4 = 1 \<or> 2 + 4 * n \<le> j \<longrightarrow> new ! j = old ! j)
    \<Longrightarrow> setting 0x12 (w # ws) old new"
| mcu_flags: "length ws = 6 \<Longrightarrow> (\<forall>w\<in>set ws. strtoul w 0 \<le> 0xFF) \<Longrightarrow> setting 0x20 ws old (map num8 ws)"
| fan_limits: "setting 0x21 [a, b, c] old (num16 a @ num16 b @ num16 c)"
| fan_fixed_capacity: "setting 0x22 [w] [x, y] [num8 w, y]"
| clkaux_tuning_word: "setting 0x23 [w] old (num16 w)"

text \<open>A value that has not been set is zero.\<close>

definition old_value :: "(u8 \<rightharpoonup> u8 list) \<Rightarrow> u8 \<Rightarrow> u8 list" where
  "old_value v tag = (case v tag of Some bs \<Rightarrow> bs | None \<Rightarrow> if tag = 0x12 then replicate 34 0 else [0, 0])"

text \<open>The arguments one after another.  An option that comes last without its words gets the help text as its value where that fits, which is
  for the power sequence only.\<close>

inductive command :: "string list \<Rightarrow> (u8 \<rightharpoonup> u8 list) \<Rightarrow> (u8 \<rightharpoonup> u8 list) \<Rightarrow> bool" where
  no_args: "command [] v v"
| option: "(name, tag) \<in> set option_tags \<Longrightarrow> setting tag words (old_value v tag) new \<Longrightarrow> command rest (v(tag \<mapsto> new)) v'
    \<Longrightarrow> command ((''--'' @ name) # words @ rest) v v'"
| help_text: "command [''--db_pwr_seq''] v (v(0x12 \<mapsto> map char_byte ''<nsteps> [delay supply_mask]...'' @ 0 # drop 32 (old_value v 0x12)))"

text \<open>The values in an EEPROM, from an offset on: they are visited up to the first that ends at or behind the given end.\<close>

inductive holds_values :: "mem \<Rightarrow> nat \<Rightarrow> nat \<Rightarrow> tagged \<Rightarrow> bool" where
  last: "q = p + 2 + unat (m (p + 1)) \<Longrightarrow> fin \<le> q \<Longrightarrow> holds_values m p fin [(m p, map m [p + 2..<q])]"
| more: "q = p + 2 + unat (m (p + 1)) \<Longrightarrow> q < fin \<Longrightarrow> holds_values m q fin kvs \<Longrightarrow> holds_values m p fin ((m p, map m [p + 2..<q]) # kvs)"

subsection \<open>The tool's objects as a map\<close>

definition vals :: "tool \<Rightarrow> u8 \<rightharpoonup> u8 list" where
  "vals s tag = (case parser_of_tag tag of None \<Rightarrow> None | Some i \<Rightarrow> if dirty s ! i then Some (stores s ! i) else None)"

definition clean :: "tool \<Rightarrow> bool" where
  "clean s \<longleftrightarrow> tool_ok s \<and> (\<forall>i<length parsers. \<not> dirty s ! i \<longrightarrow> stores s ! i = replicate (ap_size (parsers ! i)) 0)"

lemma vals_nth: "i < length parsers \<Longrightarrow> vals s (ap_tag (parsers ! i)) = (if dirty s ! i then Some (stores s ! i) else None)"
  by (simp add: vals_def parser_of_tag_nth)

lemma vals_store:
  assumes "tool_ok s" and "i < length parsers"
  shows "vals (s\<lparr>stores := (stores s)[i := ob], dirty := (dirty s)[i := True]\<rparr>) = (vals s)(ap_tag (parsers ! i) \<mapsto> ob)"
proof
  fix tag
  have l: "length (stores s) = length parsers" "length (dirty s) = length parsers"
    using assms(1) tool_okD(2) by (auto simp: tool_ok_def)
  show "vals (s\<lparr>stores := (stores s)[i := ob], dirty := (dirty s)[i := True]\<rparr>) tag = ((vals s)(ap_tag (parsers ! i) \<mapsto> ob)) tag"
  proof (cases "tag = ap_tag (parsers ! i)")
    case True
    then show ?thesis using assms(2) l by (simp add: vals_nth)
  next
    case False
    then have "parser_of_tag tag \<noteq> Some i" by (simp add: parser_of_tag_Some)
    with False show ?thesis by (auto simp: vals_def split: option.split)
  qed
qed

lemma clean_store:
  assumes "clean s" and "i < length parsers" and "length ob = ap_size (parsers ! i)"
  shows "clean (s\<lparr>stores := (stores s)[i := ob], dirty := (dirty s)[i := True]\<rparr>)"
  using assms tool_ok_store [of s i ob True] by (auto simp: clean_def nth_list_update tool_ok_def)

lemma clean_start: "clean tool_start"
  by (simp add: clean_def tool_start_ok) (simp add: tool_start_def)

lemma vals_start: "vals tool_start = Map.empty"
  by (auto simp: vals_def tool_start_def parser_of_tag_Some split: option.split)

lemma stored_value:
  "clean s \<Longrightarrow> i < length parsers \<Longrightarrow>
    stores s ! i = (case vals s (ap_tag (parsers ! i)) of Some bs \<Rightarrow> bs | None \<Rightarrow> replicate (ap_size (parsers ! i)) 0)"
  by (simp add: vals_nth clean_def)

subsection \<open>The parsers\<close>

lemma obj_put_nth:
  assumes "obj_put k bs ob = Cont ob'"
  shows "k + length bs \<le> length ob" and "j < length ob \<Longrightarrow> ob' ! j = (if k \<le> j \<and> j < k + length bs then bs ! (j - k) else ob ! j)"
  using assms by (auto simp: obj_put_def nth_append min_def split: if_splits)

lemma obj_put_whole: "obj_put 0 bs ob = Cont ob' \<Longrightarrow> length bs = length ob \<Longrightarrow> ob' = bs"
  by (auto simp: obj_put_def split: if_splits)

lemma serial8: "(strncpy w 8)[7 := 0] = serial8 w"
proof -
  have "take 8 xs = take 7 xs @ [xs ! 7]" if "7 < length xs" for xs :: "u8 list"
    using take_Suc_conv_app_nth [OF that] by simp
  moreover have "take 7 (map char_byte w @ replicate 8 0) = take 7 (map char_byte w @ replicate 7 0)"
    by (simp add: take_replicate min_def)
  moreover have "replicate (8 - length w) 0 = replicate (7 - length w) 0 @ [0 :: u8]" if "length w \<le> 7"
    using that by (simp add: replicate_append_same Suc_diff_le flip: replicate_Suc)
  ultimately show ?thesis by (simp add: strncpy_def serial8_def list_update_append not_less)
qed

lemma length_fields [simp]: "length (num16 w) = 2" "length (serial8 w) = 8"
  by (simp_all add: num16_def serial8_def min_def)

lemma mac_scanned: "scan_mac n w = bs \<Longrightarrow> length bs = n \<Longrightarrow> 0 < n \<Longrightarrow> mac_text w bs"
proof (induction n arbitrary: w bs)
  case (Suc n)
  then obtain b rest where s: "scan_hhx w = Some (b, rest)"
    and bs: "bs = b # (if n > 0 \<and> rest \<noteq> [] \<and> hd rest = CHR '':'' then scan_mac n (tl rest) else [])"
    by (auto simp del: scan_hhx.simps split: option.splits)
  show ?case
  proof (cases "n = 0")
    case True
    then show ?thesis using s bs by (simp add: mac_text.last)
  next
    case False
    then have "rest = CHR '':'' # tl rest" "bs = b # scan_mac n (tl rest)"
      using bs Suc.prems(2) by (cases rest; auto split: if_splits)+
    moreover have "mac_text (tl rest) (scan_mac n (tl rest))"
      using Suc.IH [OF refl, of "tl rest"] Suc.prems(2) calculation(2) False by simp
    ultimately show ?thesis using s mac_text.more by metis
  qed
qed simp

lemma steps_stored:
  "parse_steps i n argv sq = Cont sq' \<Longrightarrow> 2 * n \<le> length argv \<Longrightarrow>
    length sq' = length sq \<and> (n = 0 \<or> 2 + 4 * (i + n) \<le> length sq + 1)
    \<and> (\<forall>k<n. [sq' ! (2 + 4 * (i + k)), sq' ! (3 + 4 * (i + k))] = num16 (argv ! (2 * k)) \<and> sq' ! (4 + 4 * (i + k)) = num8 (argv ! (2 * k + 1)))
    \<and> (\<forall>j<length sq. j mod 4 = 1 \<or> j < 2 + 4 * i \<or> 2 + 4 * (i + n) \<le> j \<longrightarrow> sq' ! j = sq ! j)"
proof (induction n arbitrary: i argv sq)
  case (Suc n)
  from Suc.prems(1) obtain s1 s2 where p1: "obj_put (2 + 4 * i) (num16 (argv ! 0)) sq = Cont s1"
      and p2: "obj_put (2 + 4 * i + 2) [num8 (argv ! 1)] s1 = Cont s2" and r: "parse_steps (i + 1) n (drop 2 argv) s2 = Cont sq'"
    by (auto simp: num16_def num8_def split: process.splits)
  have l: "length s1 = length sq" "length s2 = length sq" using obj_put_length [OF p1] obj_put_length [OF p2] by simp_all
  note IH = Suc.IH [OF r]
  have two: "num16 w = [num16 w ! 0, num16 w ! 1]" for w by (simp add: num16_def put16_le_def)
  have b: "2 + 4 * i + 2 + 1 \<le> length sq" using obj_put_nth(1) [OF p2] l by simp
  have s2: "s2 ! (2 + 4 * i) = num16 (argv ! 0) ! 0" "s2 ! (3 + 4 * i) = num16 (argv ! 0) ! 1" "s2 ! (4 + 4 * i) = num8 (argv ! 1)"
    using obj_put_nth(2) [OF p1] obj_put_nth(2) [OF p2] l b by (simp_all add: num16_def put16_le_def)
  have s2_else: "s2 ! j = sq ! j" if "j < length sq" "j < 2 + 4 * i \<or> 5 + 4 * i \<le> j" for j
    using obj_put_nth(2) [OF p1, of j] obj_put_nth(2) [OF p2, of j] l that by (auto simp: num16_def put16_le_def)
  have keep: "sq' ! j = s2 ! j" if "j < length sq" "j < 6 + 4 * i" for j
    using IH Suc.prems(2) l that by simp
  have first: "[sq' ! (2 + 4 * i), sq' ! (3 + 4 * i)] = num16 (argv ! 0)" "sq' ! (4 + 4 * i) = num8 (argv ! 1)"
    using keep [of "2 + 4 * i"] keep [of "3 + 4 * i"] keep [of "4 + 4 * i"] s2 b two [of "argv ! 0"] by simp_all
  have rest: "[sq' ! (2 + 4 * (i + k)), sq' ! (3 + 4 * (i + k))] = num16 (argv ! (2 * k)) \<and> sq' ! (4 + 4 * (i + k)) = num8 (argv ! (2 * k + 1))"
    if "k < Suc n" for k
  proof (cases k)
    case 0
    then show ?thesis using first by simp
  next
    case (Suc m)
    with that have "m < n" by simp
    then have "[sq' ! (2 + 4 * (i + 1 + m)), sq' ! (3 + 4 * (i + 1 + m))] = num16 (drop 2 argv ! (2 * m))
        \<and> sq' ! (4 + 4 * (i + 1 + m)) = num8 (drop 2 argv ! (2 * m + 1))" using IH Suc.prems(2) by simp
    moreover have "i + 1 + m = i + k" "drop 2 argv ! (2 * m) = argv ! (2 * k)" "drop 2 argv ! (2 * m + 1) = argv ! (2 * k + 1)"
      using Suc Suc.prems(2) by simp_all
    ultimately show ?thesis by (simp only:)
  qed
  have other: "sq' ! j = sq ! j" if "j < length sq" "j mod 4 = 1 \<or> j < 2 + 4 * i \<or> 2 + 4 * (i + Suc n) \<le> j" for j
  proof -
    have "j mod 4 = 1 \<Longrightarrow> j < 2 + 4 * i \<or> 5 + 4 * i \<le> j" by presburger
    then have "j < 2 + 4 * i \<or> 5 + 4 * i \<le> j" using that(2) by auto
    then have "s2 ! j = sq ! j" using s2_else that(1) by simp
    moreover have "sq' ! j = s2 ! j" using IH Suc.prems(2) l that by auto
    ultimately show ?thesis by simp
  qed
  have room: "2 + 4 * (i + Suc n) \<le> length sq + 1" using IH Suc.prems(2) l b by (cases n) auto
  show ?case using IH Suc.prems(2) l rest other room by simp
qed simp

lemma take_nths: "n \<le> length xs \<Longrightarrow> take n xs = map (\<lambda>i. xs ! i) [0..<n]"
  by (intro nth_equalityI) simp_all

text \<open>Each parser makes the setting of its tag.\<close>

definition parser_tag_ok :: "parse_fn \<Rightarrow> u8 \<Rightarrow> nat \<Rightarrow> bool" where
  "parser_tag_ok f tag n \<longleftrightarrow> (case f of
       Board_info \<Rightarrow> tag = 0x10 \<and> n = 14 | Module_info \<Rightarrow> tag = 0x11 \<and> n = 12 | Mac \<Rightarrow> 0xA0 \<le> tag \<and> tag \<le> 0xAC \<and> n = 6
     | Db_pwr_seq \<Rightarrow> tag = 0x12 \<and> n = 34 | Mcu_flags \<Rightarrow> tag = 0x20 \<and> n = 6 | Fan_limits \<Rightarrow> tag = 0x21 \<and> n = 6
     | Fan_fixed_capacity \<Rightarrow> tag = 0x22 \<and> n = 2 | Clkaux_tuning_word \<Rightarrow> tag = 0x23 \<and> n = 2)"

lemma parsers_ok: "i < length parsers \<Longrightarrow> parser_tag_ok (ap_parse (parsers ! i)) (ap_tag (parsers ! i)) (ap_size (parsers ! i))"
proof -
  have "\<forall>p\<in>set parsers. parser_tag_ok (ap_parse p) (ap_tag p) (ap_size p)"
    by (simp add: parsers_def mac_parser_def parser_tag_ok_def tlv_tag_defs tlv_sizeof_defs)
  then show "i < length parsers \<Longrightarrow> parser_tag_ok (ap_parse (parsers ! i)) (ap_tag (parsers ! i)) (ap_size (parsers ! i))" by simp
qed

lemma parser_lookup_option:
  assumes "parser_lookup name = Some i"
  shows "i < length parsers \<and> (name, ap_tag (parsers ! i)) \<in> set option_tags"
proof -
  have "\<forall>p\<in>set parsers. (ap_arg p, ap_tag p) \<in> set option_tags \<and> (\<forall>al. ap_alias p = Some al \<longrightarrow> (al, ap_tag p) \<in> set option_tags)"
    by (simp add: parsers_def mac_parser_def option_tags_def tlv_tag_defs)
  moreover have i: "i < length parsers" "ap_arg (parsers ! i) = name \<or> ap_alias (parsers ! i) = Some name"
    using assms by (simp_all add: parser_lookup_def find_index_Some_iff)
  ultimately show ?thesis using nth_mem [OF i(1)] by blast
qed

lemma no_help: "obj_put_string w ob = Cont ob' \<Longrightarrow> Suc (length w) \<le> length ob"
  by (simp add: obj_put_string_def obj_put_def split: if_splits)

lemma parsed_setting:
  assumes "run_parse f args ob = Cont (r, ob')" and "parser_tag_ok f tag (length ob)" and "args \<noteq> []"
  shows "r \<le> length args \<and> setting tag (take r args) ob ob'"
proof (cases f)
  case Board_info
  with assms have l: "4 \<le> length args" "r = 4" "length ob = 14" "tag = 0x10"
      and p: "obj_put 0 (num16 (args ! 0) @ num16 (args ! 1) @ num16 (args ! 2) @ serial8 (args ! 3)) ob = Cont ob'"
    by (auto simp: parse_board_info_def returns_Cont parser_tag_ok_def num16_def serial8 split: if_splits)
  have "take 4 args = [args ! 0, args ! 1, args ! 2, args ! 3]" using l(1) by (simp add: take_nths upt_rec numeral_2_eq_2 numeral_3_eq_3)
  with l obj_put_whole [OF p] show ?thesis by (simp add: setting.board_info)
next
  case Module_info
  with assms have l: "3 \<le> length args" "r = 3" "length ob = 12" "tag = 0x11"
      and p: "obj_put 0 (num16 (args ! 0) @ num16 (args ! 1) @ serial8 (args ! 2)) ob = Cont ob'"
    by (auto simp: parse_module_info_def returns_Cont parser_tag_ok_def num16_def serial8 split: if_splits)
  have "take 3 args = [args ! 0, args ! 1, args ! 2]" using l(1) by (simp add: take_nths upt_rec numeral_2_eq_2 numeral_3_eq_3)
  with l obj_put_whole [OF p] show ?thesis by (simp add: setting.module_info)
next
  case Mac
  with assms have l: "r = 1" "length ob = 6" "0xA0 \<le> tag" "tag \<le> 0xAC" "length (scan_mac 6 (args ! 0)) = 6"
      and p: "obj_put 0 (scan_mac 6 (args ! 0)) ob = Cont ob'"
    by (auto simp: parse_mac_def returns_Cont parser_tag_ok_def Let_def split: if_splits)
  have "ob' = scan_mac 6 (args ! 0)" using obj_put_whole [OF p] l by simp
  moreover have "take 1 args = [args ! 0]" using assms(3) by (cases args) simp_all
  ultimately show ?thesis using l assms(3) mac_scanned [OF refl l(5)] by (cases args) (simp_all add: setting.mac_addr)
next
  case Db_pwr_seq
  let ?n = "unat (num8 (args ! 0))"
  from Db_pwr_seq assms obtain sq where l: "r = 1 + 2 * ?n" "length ob = 34" "tag = 0x12" "1 + 2 * ?n \<le> length args"
      and p: "obj_put 0 [num8 (args ! 0)] ob = Cont sq" "parse_steps 0 ?n (drop 1 args) sq = Cont ob'"
    by (auto simp: parse_db_pwr_seq_def returns_Cont proc_then_Cont parser_tag_ok_def Let_def num8_def split: if_splits)
  have sq: "length sq = 34" "sq ! 0 = num8 (args ! 0)" "\<forall>j<34. 0 < j \<longrightarrow> sq ! j = ob ! j"
    using obj_put_length [OF p(1)] obj_put_nth [OF p(1)] l(2) by simp_all
  have "2 * ?n \<le> length (drop 1 args)" using l(4) by simp
  note st = steps_stored [OF p(2) this]
  have "?n = 0 \<or> 2 + 4 * (0 + ?n) \<le> length sq + 1" using st by blast
  then have "?n \<le> 8" using sq(1) by auto
  moreover have "length ob' = 34" "ob' ! 0 = num8 (args ! 0)" using st l(4) sq by simp_all
  moreover have "[ob' ! (2 + 4 * k), ob' ! (3 + 4 * k)] = num16 (take (2 * ?n) (drop 1 args) ! (2 * k))
      \<and> ob' ! (4 + 4 * k) = num8 (take (2 * ?n) (drop 1 args) ! (2 * k + 1))" if "k < ?n" for k
    using st l(4) that by simp
  moreover have "ob' ! j = ob ! j" if "j < 34" "j mod 4 = 1 \<or> 2 + 4 * ?n \<le> j" for j
  proof -
    have "0 < j" using that(2) by (cases j) simp_all
    then have "sq ! j = ob ! j" using sq(3) that(1) by simp
    moreover have "ob' ! j = sq ! j" using st sq(1) that by auto
    ultimately show ?thesis by simp
  qed
  ultimately have "setting 0x12 (args ! 0 # take (2 * ?n) (drop 1 args)) ob ob'"
    using l(2,4) by (intro setting.db_pwr_seq [of ?n]) simp_all
  moreover have "take r args = args ! 0 # take (2 * ?n) (drop 1 args)" using assms(3) l(1) by (cases args) simp_all
  ultimately show ?thesis using l by simp
next
  case Mcu_flags
  with assms have l: "r = 6" "length ob = 6" "tag = 0x20" "6 \<le> length args" "\<forall>i<6. strtoul (args ! i) 0 \<le> 0xFF"
      and p: "obj_put 0 (map (\<lambda>i. num8 (args ! i)) [0..<6]) ob = Cont ob'"
    by (auto simp: parse_mcu_flags_def returns_Cont parser_tag_ok_def Let_def num8_def sizeof_mcu_flags_def comp_def not_le[symmetric]
        split: if_splits)
  have "map num8 (take 6 args) = map (\<lambda>i. num8 (args ! i)) [0..<6]" using l(4) by (intro nth_equalityI) simp_all
  moreover have "\<forall>w\<in>set (take 6 args). strtoul w 0 \<le> 0xFF" using l(4,5) by (auto simp: in_set_conv_nth)
  moreover have "length (take 6 args) = 6" using l(4) by simp
  ultimately show ?thesis using l(1-4) obj_put_whole [OF p] setting.mcu_flags [of "take 6 args" ob] by simp
next
  case Fan_limits
  with assms have l: "3 \<le> length args" "r = 3" "length ob = 6" "tag = 0x21"
      and p: "obj_put 0 (num16 (args ! 0) @ num16 (args ! 1) @ num16 (args ! 2)) ob = Cont ob'"
    by (auto simp: parse_fan_limits_def returns_Cont parser_tag_ok_def num16_def split: if_splits)
  have "take 3 args = [args ! 0, args ! 1, args ! 2]" using l(1) by (simp add: take_nths upt_rec numeral_2_eq_2 numeral_3_eq_3)
  with l obj_put_whole [OF p] show ?thesis by (simp add: setting.fan_limits)
next
  case Fan_fixed_capacity
  with assms have l: "r = 1" "length ob = 2" "tag = 0x22" and p: "obj_put 0 [num8 (args ! 0)] ob = Cont ob'"
    by (auto simp: parse_fan_fixed_capacity_def returns_Cont parser_tag_ok_def num8_def split: if_splits)
  obtain x y where "ob = [x, y]" using l(2) by (auto simp: length_Suc_conv numeral_2_eq_2)
  then show ?thesis using assms(3) l p by (cases args) (auto simp: obj_put_def setting.fan_fixed_capacity)
next
  case Clkaux_tuning_word
  with assms have l: "r = 1" "length ob = 2" "tag = 0x23" and p: "obj_put 0 (num16 (args ! 0)) ob = Cont ob'"
    by (auto simp: parse_clkaux_tuning_word_def returns_Cont parser_tag_ok_def num16_def split: if_splits)
  show ?thesis using assms(3) l obj_put_whole [OF p] by (cases args) (auto intro: setting.clkaux_tuning_word)
qed

text \<open>Without arguments only the help text of the power sequence fits.\<close>

lemma parsed_help:
  assumes "run_parse f [] ob = Cont (r, ob')" and "parser_tag_ok f tag (length ob)"
  shows "r = 0 \<and> tag = 0x12 \<and> ob' = map char_byte ''<nsteps> [delay supply_mask]...'' @ 0 # drop 32 ob"
proof (cases "f = Db_pwr_seq")
  case True
  then show ?thesis
    using assms by (auto simp: parse_db_pwr_seq_def returns_Cont parser_tag_ok_def obj_put_string_def obj_put_def split: if_splits)
      (simp_all add: eval_nat_numeral)
next
  case False
  with assms show ?thesis by (cases f) (auto simp: parser_defs returns_Cont parser_tag_ok_def dest!: no_help)
qed

subsection \<open>From arguments to values\<close>

lemma parse_args_command:
  "parse_args args s = Cont t \<Longrightarrow> clean s \<Longrightarrow> clean t \<and> command args (vals s) (vals t)"
proof (induction args s rule: parse_args.induct)
  case (1 s)
  then show ?case by (simp add: command.no_args)
next
  case (2 a args s)
  from "2.prems"(1) obtain i r ob where i: "take 2 a = ''--''" "parser_lookup (drop 2 a) = Some i"
      "run_parse (ap_parse (parsers ! i)) args (stores s ! i) = Cont (r, ob)"
    and t: "parse_args (drop r args) (s\<lparr>stores := (stores s)[i := ob], dirty := (dirty s)[i := True]\<rparr>) = Cont t"
    by (auto split: if_splits option.splits process.splits)
  let ?s = "s\<lparr>stores := (stores s)[i := ob], dirty := (dirty s)[i := True]\<rparr>" and ?tag = "ap_tag (parsers ! i)"
  have n: "i < length parsers" and o: "(drop 2 a, ?tag) \<in> set option_tags" using parser_lookup_option [OF i(2)] by simp_all
  have ok: "tool_ok s" using "2.prems"(2) by (simp add: clean_def)
  have len: "length ob = ap_size (parsers ! i)" using run_parse_length [OF i(3)] tool_okD(1) [OF ok n] by simp
  have k: "parser_tag_ok (ap_parse (parsers ! i)) ?tag (length (stores s ! i))" using parsers_ok [OF n] tool_okD(1) [OF ok n] by simp
  have "clean ?s" using clean_store [OF "2.prems"(2) n len] .
  then have "clean t \<and> command (drop r args) (vals ?s) (vals t)" using "2.IH" [OF _ i(2,3) refl t] i(1) by blast
  then have IH: "clean t \<and> command (drop r args) ((vals s)(?tag \<mapsto> ob)) (vals t)" unfolding vals_store [OF ok n] .
  have a: "a = ''--'' @ drop 2 a" using i(1) append_take_drop_id [of 2 a] by metis
  have used: "?tag \<in> {0x12, 0x22} \<Longrightarrow> old_value (vals s) ?tag = stores s ! i"
  proof -
    assume "?tag \<in> {0x12, 0x22}"
    then have "ap_size (parsers ! i) = (if ?tag = 0x12 then 34 else 2)"
      using parsers_ok [OF n] by (auto simp: parser_tag_ok_def split: parse_fn.splits)
    then show ?thesis
      using stored_value [OF "2.prems"(2) n] by (auto simp: old_value_def numeral_2_eq_2 split: option.splits)
  qed
  show ?case
  proof (cases "args = []")
    case True
    then have h: "?tag = 0x12" "ob = map char_byte ''<nsteps> [delay supply_mask]...'' @ 0 # drop 32 (stores s ! i)" "r = 0"
      using parsed_help [OF _ k] i(3) by simp_all
    have "drop 2 a = ''db_pwr_seq''" using o h(1) by (auto simp: option_tags_def)
    moreover have "vals t = (vals s)(0x12 \<mapsto> ob)" using t h vals_store [OF ok n] True by auto
    moreover have "old_value (vals s) 0x12 = stores s ! i" using used h(1) by simp
    then have "command [''--db_pwr_seq''] (vals s) ((vals s)(0x12 \<mapsto> ob))"
      unfolding h(2) by (rule subst) (rule command.help_text)
    moreover have "a = ''--db_pwr_seq''" using a calculation(1) by simp
    ultimately show ?thesis using IH True by (simp only: simp_thms)
  next
    case False
    have s: "r \<le> length args" "setting ?tag (take r args) (stores s ! i) ob" using parsed_setting [OF i(3) k False] by simp_all
    have "setting ?tag (take r args) (old_value (vals s) ?tag) ob"
    proof (cases "?tag \<in> {0x12, 0x22}")
      case True
      then show ?thesis using s used by simp
    next
      case False
      from s(2) show ?thesis by (cases rule: setting.cases) (use False in \<open>auto intro: setting.intros\<close>)
    qed
    from command.option [OF o this] IH have "command ((''--'' @ drop 2 a) # take r args @ drop r args) (vals s) (vals t)" by blast
    then show ?thesis using IH a by simp
  qed
qed

subsection \<open>From an EEPROM to values\<close>

lemma tlv_each_walk:
  "tlv_each (tlv_update m) m p fin s = Cont t \<Longrightarrow> \<exists>kvs. holds_values m p fin kvs \<and> each_value update_value kvs s = Cont t"
proof (induction "tlv_update m" m p fin s rule: tlv_each.induct)
  case (1 m p fin s)
  let ?q = "p + 2 + unat (m (p + 1))"
  have v: "tlv_update m (tlv_tag m p) (tlv_len m p) (tlv_val p) u = update_value (m p) (map m [p + 2..<?q]) u" for u
  proof -
    have e: "map m [p + 2..<?q] = mem_take (mem_at m (tlv_val p)) (unat (tlv_len m p))"
      by (intro nth_equalityI) (simp_all add: mem_take_def mem_at_def tlv_val_def tlv_len_def del: upt_Suc)
    show ?thesis unfolding e tlv_update_def update_value_def by (simp add: tlv_tag_def split: option.split)
  qed
  obtain u where u: "update_value (m p) (map m [p + 2..<?q]) s = Cont u"
    and r: "(case tlv_next m p fin of None \<Rightarrow> Cont u | Some q \<Rightarrow> tlv_each (tlv_update m) m q fin u) = Cont t"
  proof -
    have "(case update_value (m p) (map m [p + 2..<?q]) s of End x s \<Rightarrow> End x s
        | Cont s \<Rightarrow> (case tlv_next m p fin of None \<Rightarrow> Cont s | Some q \<Rightarrow> tlv_each (tlv_update m) m q fin s)) = Cont t"
      using "1.prems" unfolding v [symmetric] by (subst (asm) tlv_each.simps)
    then show ?thesis using that by (auto simp del: upt_Suc split: process.splits)
  qed
  have q: "tlv_next m p fin = (if fin \<le> ?q then None else Some ?q)"
    by (simp add: tlv_next_def tlv_val_def tlv_len_def)
  show ?case
  proof (cases "fin \<le> ?q")
    case True
    then have "holds_values m p fin [(m p, map m [p + 2..<?q])]" by (rule holds_values.last [OF refl])
    moreover have "each_value update_value [(m p, map m [p + 2..<?q])] s = Cont t" using r u True q by (simp del: upt_Suc)
    ultimately show ?thesis by blast
  next
    case False
    then have "tlv_each (tlv_update m) m ?q fin u = Cont t" using r q by simp
    moreover have "tlv_update m (tlv_tag m p) (tlv_len m p) (tlv_val p) s = Cont u" using u v by simp
    ultimately obtain kvs where k: "holds_values m ?q fin kvs" "each_value update_value kvs u = Cont t"
      using "1.hyps" [of u ?q] q False by auto
    have "holds_values m p fin ((m p, map m [p + 2..<?q]) # kvs)" using False by (intro holds_values.more [OF refl _ k(1)]) simp
    moreover have "each_value update_value ((m p, map m [p + 2..<?q]) # kvs) s = Cont t" using u k(2) by (simp del: upt_Suc)
    ultimately show ?thesis by blast
  qed
qed

lemma each_update_vals:
  "each_value update_value kvs s = Cont t \<Longrightarrow> clean s \<Longrightarrow> clean t \<and> vals t = vals s ++ map_of (rev kvs)"
proof (induction kvs arbitrary: s)
  case (Cons kv kvs)
  obtain g w where kv: "kv = (g, w)" by force
  obtain u where u: "update_value g w s = Cont u" and u': "each_value update_value kvs u = Cont t"
    using Cons.prems(1) by (auto simp: kv split: process.splits)
  obtain i where i: "parser_of_tag g = Some i" "length w = ap_size (parsers ! i)"
    and "u = s\<lparr>stores := (stores s)[i := w], dirty := (dirty s)[i := True]\<rparr>"
    using u by (auto simp: update_value_def split: option.splits if_splits)
  with u' have r: "each_value update_value kvs (s\<lparr>stores := (stores s)[i := w], dirty := (dirty s)[i := True]\<rparr>) = Cont t" by simp
  have n: "i < length parsers" "ap_tag (parsers ! i) = g" using i(1) by (simp_all add: parser_of_tag_Some)
  have "tool_ok s" using Cons.prems(2) by (simp add: clean_def)
  have "vals s ++ map_of (rev (kv # kvs)) = (vals s)(g \<mapsto> w) ++ map_of (rev kvs)"
    by (rule ext) (simp add: kv map_add_def split: option.split)
  moreover have "vals (s\<lparr>stores := (stores s)[i := w], dirty := (dirty s)[i := True]\<rparr>) = (vals s)(g \<mapsto> w)"
    unfolding n(2) [symmetric] by (rule vals_store [OF \<open>tool_ok s\<close> n(1)])
  ultimately show ?case using Cons.IH [OF r clean_store [OF Cons.prems(2) n(1) i(2)]] by metis
qed simp

lemma start_values:
  assumes "handle_update update heap before tool_start = Cont t"
  shows "clean t \<and> (if update then \<exists>e kvs. tlv_eeprom_read_from_file heap before = Some e \<and> tlv_eeprom_validate e USRP_EEPROM_MAGIC = 0
        \<and> holds_values (te_tlv e) 0 (unat (te_size e)) kvs \<and> vals t = map_of (rev kvs)
      else vals t = Map.empty)"
proof (cases update)
  case True
  then obtain e where e: "tlv_eeprom_read_from_file heap before = Some e"
    using assms by (cases "tlv_eeprom_read_from_file heap before") (simp_all add: handle_update_def)
  then have ok: "tlv_eeprom_validate e USRP_EEPROM_MAGIC = 0"
    and r: "tlv_each (tlv_update (te_tlv e)) (te_tlv e) 0 (unat (te_size e)) tool_start = Cont t"
    using True assms by (simp_all add: handle_update_def tlv_for_each_def split: if_splits)
  obtain kvs where k: "holds_values (te_tlv e) 0 (unat (te_size e)) kvs" "each_value update_value kvs tool_start = Cont t"
    using tlv_each_walk [OF r] by blast
  have "clean t" "vals t = map_of (rev kvs)" using each_update_vals [OF k(2) clean_start] by (simp_all add: vals_start)
  with True e ok k(1) show ?thesis by auto
next
  case False
  with assms have "t = tool_start" by (simp add: handle_update_def)
  with False show ?thesis by (simp add: clean_start vals_start)
qed

lemma option_tags_parsers: "snd ` set option_tags = set (map ap_tag parsers)"
proof -
  have "set (map snd option_tags) = set (map ap_tag parsers)"
    by (simp add: option_tags_def parsers_def mac_parser_def tlv_tag_defs insert_commute)
  then show ?thesis by simp
qed

lemma tool_values_vals: "map_of (tool_values s) = vals s" "distinct (map fst (tool_values s))"
proof -
  show "map_of (tool_values s) = vals s"
  proof
    fix tag
    show "map_of (tool_values s) tag = vals s tag"
    proof (cases "parser_of_tag tag")
      case None
      then have "tag \<notin> set (map ap_tag parsers)" by (metis in_set_conv_nth length_map nth_map option.distinct(1) parser_of_tag_nth)
      then have "tag \<notin> fst ` set (tool_values s)" by (auto simp: tool_values_upto_def dest: nth_mem)
      then have "map_of (tool_values s) tag = None" by (simp add: map_of_eq_None_iff)
      with None show ?thesis by (simp add: vals_def)
    next
      case (Some i)
      then have "i < length parsers" "ap_tag (parsers ! i) = tag" by (simp_all add: parser_of_tag_Some)
      with tool_values_map_of [OF order.refl this(1), of s] show ?thesis by (auto simp: vals_nth)
    qed
  qed
  have "map fst (tool_values s) = map (\<lambda>i. map ap_tag parsers ! i) (filter (\<lambda>i. dirty s ! i) [0..<length parsers])"
    by (simp add: tool_values_upto_def comp_def)
  moreover have "inj_on (\<lambda>i. map ap_tag parsers ! i) {0..<length parsers}"
    using parser_tags(1) by (auto simp: inj_on_def nth_eq_iff_index_eq simp del: nth_map)
  then have "inj_on (\<lambda>i. map ap_tag parsers ! i) (set (filter (\<lambda>i. dirty s ! i) [0..<length parsers]))"
    by (rule inj_on_subset) auto
  ultimately show "distinct (map fst (tool_values s))" by (simp add: distinct_map)
qed

text \<open>C32. When the tool succeeds, the EEPROM holds what the command line says.  It starts from no values, or, to update, from those of the EEPROM there
  is, which validates; the arguments, read one option after another, make of them the values to be written.  The file read back
  validates, and is exactly those values one after another, each tag once, in at most 194 of the 244 bytes; looking up any of the tags of
  the options finds its value, or nothing if it has none.\<close>

theorem eeprom_init_written:
  assumes "eeprom_init_main update heap argv before wr after = Some (End (Status 0) s)"
  shows "\<exists>v v' f kvs'.
      (if update then \<exists>e kvs. tlv_eeprom_read_from_file heap before = Some e \<and> tlv_eeprom_validate e 0x55535250 = 0
          \<and> holds_values (te_tlv e) 0 (unat (te_size e)) kvs \<and> v = map_of (rev kvs)
       else v = Map.empty)
    \<and> command (drop 2 argv) v v'
    \<and> tlv_eeprom_read_from_file heap after = Some f \<and> tlv_eeprom_validate f 0x55535250 = 0 \<and> unat (te_size f) \<le> 194
    \<and> map_of kvs' = v' \<and> distinct (map fst kvs') \<and> mem_take (te_tlv f) (unat (te_size f)) = tlv_encode kvs'
    \<and> dom v' \<subseteq> snd ` set option_tags
    \<and> (\<forall>tag \<in> snd ` set option_tags. case tlv_lookup (te_tlv f) (unat (te_size f)) tag of
          None \<Rightarrow> v' tag = None
        | Some q \<Rightarrow> \<exists>bs. v' tag = Some bs \<and> mem_take (mem_at (te_tlv f) q) (length bs) = bs)"
proof -
  obtain u out where u: "proc_then (handle_update update heap before tool_start) (parse_args (drop 2 argv)) = Cont u"
    and m: "validate_file_matches heap (sealed_eeprom u) after (u\<lparr>out_bytes := out\<rparr>) = Cont s"
    using init_success [OF assms] by blast
  obtain u0 where u0: "handle_update update heap before tool_start = Cont u0" "parse_args (drop 2 argv) u0 = Cont u"
    using u by (auto simp: proc_then_Cont)
  note st = start_values [OF u0(1)]
  then have cmd: "clean u" "command (drop 2 argv) (vals u0) (vals u)" using parse_args_command [OF u0(2)] by simp_all
  obtain f where f: "tlv_eeprom_read_from_file heap after = Some f" "tlv_eeprom_validate f USRP_EEPROM_MAGIC = 0" "unat (te_size f) \<le> 194"
    and look: "\<forall>i < length parsers. case tlv_lookup (te_tlv f) (unat (te_size f)) (ap_tag (parsers ! i)) of
          None \<Rightarrow> \<not> dirty s ! i
        | Some q \<Rightarrow> dirty s ! i \<and> mem_take (mem_at (te_tlv f) q) (ap_size (parsers ! i)) = stores s ! i"
    using eeprom_init_file [OF assms] by blast
  have same: "te_bytes f = te_bytes (sealed_eeprom u)" "dirty s = dirty u" "stores s = stores u"
    using m f(1) by (auto simp: validate_file_matches_def split: if_splits)
  have ok: "tool_ok u" using cmd(1) by (simp add: clean_def)
  note im = sealed_image [OF ok same(1)]
  have enc: "mem_take (te_tlv f) (unat (te_size f)) = tlv_encode (tool_values u)"
    using im(1,2) by (simp add: holds_at_take mem_at_def)
  have tags: "case tlv_lookup (te_tlv f) (unat (te_size f)) tag of None \<Rightarrow> vals u tag = None
      | Some q \<Rightarrow> \<exists>bs. vals u tag = Some bs \<and> mem_take (mem_at (te_tlv f) q) (length bs) = bs"
    if tag: "tag \<in> snd ` set option_tags" for tag
  proof -
    obtain i where i: "i < length parsers" "tag = ap_tag (parsers ! i)"
      using tag by (auto simp: option_tags_parsers in_set_conv_nth)
    show ?thesis
      using look [rule_format, OF i(1)] i tool_okD(1) [OF ok i(1)] by (auto simp: vals_nth same split: option.splits)
  qed
  have dom: "dom (vals u) \<subseteq> snd ` set option_tags"
    by (auto simp: vals_def option_tags_parsers parser_of_tag_Some split: option.splits)
  have magic: "USRP_EEPROM_MAGIC = 0x55535250" by (simp add: USRP_EEPROM_MAGIC_def)
  show ?thesis
    using st cmd(2) f tool_values_vals [of u] enc dom tags unfolding magic
    by (intro exI [of _ "vals u0"] exI [of _ "vals u"] exI [of _ f] exI [of _ "tool_values u"]) auto
qed

text \<open>Two options, and the values the specification gives them.\<close>

definition demo_args :: "string list" where
  "demo_args = [''--clkaux_tuning_word'', ''0x123'', ''--fan_limits'', ''100'', ''0x200'', ''3'']"

definition demo_tool :: tool where
  "demo_tool = tool_start\<lparr>stores := (stores tool_start)[19 := [0x23, 1], 17 := [100, 0, 0, 2, 3, 0]],
     dirty := (dirty tool_start)[19 := True, 17 := True]\<rparr>"

lemma demo_parsed: "parse_args demo_args tool_start = Cont demo_tool"
  by code_simp

inductive_cases command_Nil: "command [] v v'"
inductive_cases command_Cons: "command (a # args) v v'"
inductive_cases setting_clkaux: "setting 0x23 ws old new"
inductive_cases setting_limits: "setting 0x21 ws old new"

lemma demo_command:
  assumes "command demo_args Map.empty v"
  shows "v = [0x23 \<mapsto> [0x23, 1], 0x21 \<mapsto> [100, 0, 0, 2, 3, 0]]"
proof -
  have n: "num16 ''0x123'' = [0x23, 1]" "num16 ''100'' = [100, 0]" "num16 ''0x200'' = [0, 2]" "num16 ''3'' = [3, 0]"
    by (code_simp, code_simp, code_simp, code_simp)
  obtain ws rest new where 1: "[''0x123'', ''--fan_limits'', ''100'', ''0x200'', ''3''] = ws @ rest" "setting 0x23 ws (old_value Map.empty 0x23) new"
      "command rest [0x23 \<mapsto> new] v"
    using assms unfolding demo_args_def by (elim command_Cons) (auto simp: option_tags_def)
  then have "command [''--fan_limits'', ''100'', ''0x200'', ''3''] [0x23 \<mapsto> [0x23, 1]] v"
    by (elim setting_clkaux) (auto simp: n)
  then obtain ws rest new old where 2: "[''100'', ''0x200'', ''3''] = ws @ rest" "setting 0x21 ws old new"
      "command rest [0x23 \<mapsto> [0x23, 1], 0x21 \<mapsto> new] v"
    by (elim command_Cons) (auto simp: option_tags_def)
  then have "command [] [0x23 \<mapsto> [0x23, 1], 0x21 \<mapsto> [100, 0, 0, 2, 3, 0]] v"
    by (elim setting_limits) (auto simp: n Cons_eq_append_conv)
  then show ?thesis by (elim command_Nil) simp
qed

lemma eeprom_init_written_witness:
  "\<exists>f q. tlv_eeprom_validate f 0x55535250 = 0 \<and> tlv_lookup (te_tlv f) (unat (te_size f)) 0x21 = Some q
    \<and> mem_take (mem_at (te_tlv f) q) 6 = [100, 0, 0, 2, 3, 0] \<and> tlv_lookup (te_tlv f) (unat (te_size f)) 0x10 = None"
proof -
  let ?fd = "Some (\<lambda>_. Some (te_bytes (sealed_eeprom demo_tool)))" and ?s = "demo_tool\<lparr>out_bytes := te_bytes (sealed_eeprom demo_tool)\<rparr>"
  have "eeprom_init_main False (\<lambda>_. 0) (''eeprom-init'' # ''eeprom'' # demo_args) None (Some (\<lambda>_. Some 256)) ?fd = Some (End (Status 0) ?s)"
    by (simp add: eeprom_init_main_def handle_update_def demo_parsed write_whole validate_file_matches_def read_whole te_bytes_of_put
        del: parse_args.simps)
  from eeprom_init_written [OF this] obtain v' f where f: "tlv_eeprom_validate f 0x55535250 = 0" "command demo_args Map.empty v'"
    and l: "\<forall>tag \<in> snd ` set option_tags. case tlv_lookup (te_tlv f) (unat (te_size f)) tag of
          None \<Rightarrow> v' tag = None
        | Some q \<Rightarrow> \<exists>bs. v' tag = Some bs \<and> mem_take (mem_at (te_tlv f) q) (length bs) = bs"
    by auto
  have m: "0x21 \<in> snd ` set option_tags" "0x10 \<in> snd ` set option_tags" by (simp_all add: option_tags_def)
  show ?thesis
    using bspec [OF l m(1)] bspec [OF l m(2)] demo_command [OF f(2)] f(1) by (intro exI [of _ f]) (auto split: option.splits, simp only: eval_nat_numeral BitM.simps)
qed

end
