(* ===== verification/Sulfur.thy ===== *)
theory Sulfur
  imports TlvEeprom CStdlib
begin

unbundle bit_operations_syntax

section \<open>EEPROMs of the N3x0 and E320\<close>

text \<open>
  \<^verbatim>\<open>mpm/tools/eeprom.c\<close> and \<^verbatim>\<open>eeprom.h\<close>: the structure on the EEPROM of the motherboard, and that of the daughterboards.
  Fields have the value a little-endian processor loads, so those kept in network byte order are swapped on use;
  the processor is a 32-bit one.  A pointer to a structure is an \<open>option\<close>, \<open>None\<close> the null pointer.
\<close>

definition SULFUR_MAGIC :: u32 where "SULFUR_MAGIC = 0xF008AD10"
definition SULFUR_DB_MAGIC :: u32 where "SULFUR_DB_MAGIC = 0xF008AD11"
definition SULFUR_VERSION :: u32 where "SULFUR_VERSION = 3"
definition SULFUR_DB_VERSION :: u32 where "SULFUR_DB_VERSION = 2"
definition SULFUR_DEFAULT_MCU_FLAGS :: "u32 list" where "SULFUR_DEFAULT_MCU_FLAGS = [0, 0, 0, 0]"
definition EEPROM_I2C_ADDR :: u8 where "EEPROM_I2C_ADDR = 0x50"

abbreviation (input) ETH_ALEN :: nat where "ETH_ALEN \<equiv> 6"

record sulfur_eeprom =
  se_magic :: u32
  se_version :: u32
  se_mcu_flags :: "u32 list"
  se_pid :: u16
  se_rev :: u16
  se_serial :: "u8 list"
  se_eth_addr0 :: "u8 list"
  se_dt_compat :: u16
  se_eth_addr1 :: "u8 list"
  se_mcu_compat :: u16
  se_eth_addr2 :: "u8 list"
  se_rev_compat :: u16
  se_crc :: u32

text \<open>The union of revisions is its two bytes.\<close>

record sulfur_db_eeprom =
  sd_magic :: u32
  sd_version :: u32
  sd_pid :: u16
  sd_rev :: u8
  sd_dt_compat :: u8
  sd_serial :: "u8 list"
  sd_crc :: u32

definition v1_rev :: "sulfur_db_eeprom \<Rightarrow> u16" where
  "v1_rev ep = word_cat (sd_dt_compat ep) (sd_rev ep)"

text \<open>The bytes before the checksum, and all of them.\<close>

definition se_body :: "sulfur_eeprom \<Rightarrow> u8 list" where
  "se_body ep = put32_le (se_magic ep) @ put32_le (se_version ep) @ concat (map put32_le (se_mcu_flags ep))
     @ put16_le (se_pid ep) @ put16_le (se_rev ep) @ se_serial ep @ se_eth_addr0 ep @ put16_le (se_dt_compat ep)
     @ se_eth_addr1 ep @ put16_le (se_mcu_compat ep) @ se_eth_addr2 ep @ put16_le (se_rev_compat ep)"

definition se_bytes :: "sulfur_eeprom \<Rightarrow> u8 list" where
  "se_bytes ep = se_body ep @ put32_le (se_crc ep)"

definition se_of :: "mem \<Rightarrow> sulfur_eeprom" where
  "se_of m = \<lparr>se_magic = le32 m 0, se_version = le32 m 4, se_mcu_flags = map (\<lambda>i. le32 m (8 + 4 * i)) [0..<4],
     se_pid = le16 m 24, se_rev = le16 m 26, se_serial = mem_take (mem_at m 28) 8, se_eth_addr0 = mem_take (mem_at m 36) ETH_ALEN,
     se_dt_compat = le16 m 42, se_eth_addr1 = mem_take (mem_at m 44) ETH_ALEN, se_mcu_compat = le16 m 50,
     se_eth_addr2 = mem_take (mem_at m 52) ETH_ALEN, se_rev_compat = le16 m 58, se_crc = le32 m 60\<rparr>"

definition sd_body :: "sulfur_db_eeprom \<Rightarrow> u8 list" where
  "sd_body ep = put32_le (sd_magic ep) @ put32_le (sd_version ep) @ put16_le (sd_pid ep) @ [sd_rev ep, sd_dt_compat ep] @ sd_serial ep"

definition sd_bytes :: "sulfur_db_eeprom \<Rightarrow> u8 list" where
  "sd_bytes ep = sd_body ep @ put32_le (sd_crc ep)"

definition sd_of :: "mem \<Rightarrow> sulfur_db_eeprom" where
  "sd_of m = \<lparr>sd_magic = le32 m 0, sd_version = le32 m 4, sd_pid = le16 m 8, sd_rev = m 10, sd_dt_compat = m 11,
     sd_serial = mem_take (mem_at m 12) 8, sd_crc = le32 m 20\<rparr>"

definition sizeof_sulfur_eeprom :: nat where "sizeof_sulfur_eeprom = 4 + 4 + 4 * 4 + 2 + 2 + 8 + 3 * (ETH_ALEN + 2) + 4"
definition sizeof_sulfur_db_eeprom :: nat where "sizeof_sulfur_db_eeprom = 4 + 4 + 2 + 2 + 8 + 4"

subsection \<open>New structures\<close>

text \<open>The first 17 characters are split at colons; what is already in \<open>out\<close> stays where there are too few pieces.\<close>

definition eth_addr_parse :: "u8 list \<Rightarrow> string \<Rightarrow> int \<times> u8 list" where
  "eth_addr_parse out str =
     (if length str < 17 then (-1, out)
      else (let bs = map (\<lambda>tok. ucast (strtoul32 tok 16 AND 0xff)) (take ETH_ALEN (strtok_all CHR '':'' [] (take 17 str)))
            in (0, bs @ drop (length bs) out)))"

definition usrp_sulfur_eeprom_new ::
  "u32 list option \<Rightarrow> u16 \<Rightarrow> u16 \<Rightarrow> string \<Rightarrow> string option \<Rightarrow> string option \<Rightarrow> string option \<Rightarrow> u16 \<Rightarrow> u16 \<Rightarrow> u16 \<Rightarrow> sulfur_eeprom option" where
  "usrp_sulfur_eeprom_new mcu_flags pid rv serial eth_addr0 eth_addr1 eth_addr2 dt_compat mcu_compat rev_compat =
     (let zero = replicate ETH_ALEN 0;
          flags = (case mcu_flags of None \<Rightarrow> SULFUR_DEFAULT_MCU_FLAGS | Some fs \<Rightarrow> fs);
          eth = (\<lambda>a. case a of None \<Rightarrow> zero | Some str \<Rightarrow> snd (eth_addr_parse zero str))
      in if length serial > 8 then None
         else (let ep = \<lparr>se_magic = swab32 SULFUR_MAGIC, se_version = swab32 SULFUR_VERSION,
                         se_mcu_flags = map (\<lambda>i. swab32 (flags ! i)) [0..<4], se_pid = swab16 pid, se_rev = swab16 rv,
                         se_serial = strncpy serial 8, se_eth_addr0 = eth eth_addr0, se_dt_compat = swab16 dt_compat,
                         se_eth_addr1 = eth eth_addr1, se_mcu_compat = swab16 mcu_compat, se_eth_addr2 = eth eth_addr2,
                         se_rev_compat = swab16 rev_compat, se_crc = 0\<rparr>
               in Some (ep\<lparr>se_crc := swab32 (sulfur_crc32 0 (se_body ep))\<rparr>)))"

definition usrp_sulfur_eeprom_recrc :: "sulfur_eeprom \<Rightarrow> sulfur_eeprom" where
  "usrp_sulfur_eeprom_recrc ep = ep\<lparr>se_crc := swab32 (sulfur_crc32 0 (se_body ep))\<rparr>"

definition usrp_sulfur_db_eeprom_new :: "u16 \<Rightarrow> u16 \<Rightarrow> string \<Rightarrow> u16 \<Rightarrow> sulfur_db_eeprom option" where
  "usrp_sulfur_db_eeprom_new pid rv serial dt_compat =
     (if length serial > 8 then None
      else (let ep = \<lparr>sd_magic = swab32 SULFUR_DB_MAGIC, sd_version = swab32 SULFUR_DB_VERSION, sd_pid = swab16 pid,
                      sd_rev = ucast rv, sd_dt_compat = ucast dt_compat, sd_serial = strncpy serial 8, sd_crc = 0\<rparr>
            in Some (ep\<lparr>sd_crc := swab32 (sulfur_crc32 0 (sd_body ep))\<rparr>)))"

subsection \<open>Printing\<close>

text \<open>The checks tell whether the checksum differs; it is compared in host byte order.\<close>

definition sulfur_check_crc :: "sulfur_eeprom \<Rightarrow> bool" where
  "sulfur_check_crc ep \<longleftrightarrow> sulfur_crc32 0 (se_body ep) \<noteq> se_crc ep"

definition sulfur_db_check_crc :: "sulfur_db_eeprom \<Rightarrow> bool" where
  "sulfur_db_check_crc ep \<longleftrightarrow> sulfur_crc32 0 (sd_body ep) \<noteq> sd_crc ep"

text \<open>What is printed: numbers, strings, the word behind the checksum, and the products and revisions of the tools.  The serial number is printed up to the first null
  byte, be it behind its field.\<close>

datatype printed =
    Invalid_pointer | Hex u32 | Line "u8 list" | Address "u8 list" | Crc u32 bool
  | Product string int | Unknown_product u16

definition usrp_sulfur_eeprom_print :: "sulfur_eeprom option \<Rightarrow> printed list" where
  "usrp_sulfur_eeprom_print p =
     (case p of
        None \<Rightarrow> [Invalid_pointer]
      | Some ep \<Rightarrow>
          [Hex (ucast (swab16 (se_pid ep))), Hex (ucast (swab16 (se_rev ep)))]
          @ map (\<lambda>i. Hex (swab32 (se_mcu_flags ep ! i))) [0..<4]
          @ [Line (c_string (drop 28 (se_bytes ep)))]
          @ [Address (se_eth_addr0 ep), Address (se_eth_addr1 ep), Address (se_eth_addr2 ep)]
          @ (if swab32 (se_version ep) \<ge> 2 then [Hex (ucast (swab16 (se_dt_compat ep))), Hex (ucast (swab16 (se_mcu_compat ep)))] else [])
          @ (if swab32 (se_version ep) \<ge> 3 then [Hex (ucast (swab16 (se_rev_compat ep)))] else [])
          @ [Crc (swab32 (se_crc ep)) (sulfur_check_crc ep)])"

definition usrp_sulfur_db_eeprom_print :: "sulfur_db_eeprom option \<Rightarrow> printed list" where
  "usrp_sulfur_db_eeprom_print p =
     (case p of
        None \<Rightarrow> [Invalid_pointer]
      | Some ep \<Rightarrow>
          (if swab32 (sd_version ep) = 1 then [Hex (ucast (swab16 (sd_pid ep))), Hex (ucast (swab16 (v1_rev ep)))]
           else [Hex (ucast (swab16 (sd_pid ep))), Hex (ucast (sd_rev ep))])
          @ [Line (c_string (drop 12 (sd_bytes ep)))]
          @ (if swab32 (sd_version ep) = 2 then [Hex (ucast (sd_dt_compat ep))] else [])
          @ [Crc (swab32 (sd_crc ep)) (sulfur_db_check_crc ep)])"

subsection \<open>Files\<close>

text \<open>
  The loops that fill or write an object take what \<^verbatim>\<open>read\<close> or \<^verbatim>\<open>write\<close> returns as the number of bytes: -1 moves the pointer
  back by one byte and leaves one more to transfer, 0 goes on.  \<open>p\<close> is the offset of the pointer; a transfer at a
  pointer before the object ends the model.  \<open>None\<close>: the loop goes on for ever.
\<close>

partial_function (option) fill_object :: "reads \<Rightarrow> nat \<Rightarrow> int \<Rightarrow> nat \<Rightarrow> u8 list \<Rightarrow> u8 list process option" where
  "fill_object rd k p len ob =
     (if len = 0 then Some (Cont ob)
      else case rd k of
             None \<Rightarrow> fill_object rd (k + 1) (p - 1) (len + 1) ob
           | Some bs \<Rightarrow>
               (let bs = take len bs
                in if bs \<noteq> [] \<and> p < 0 then Some (End Out_of_bounds ob)
                   else fill_object rd (k + 1) (p + int (length bs)) (len - length bs)
                          (take (nat p) ob @ bs @ drop (nat p + length bs) ob)))"

partial_function (option) write_object :: "writes \<Rightarrow> nat \<Rightarrow> int \<Rightarrow> nat \<Rightarrow> u8 list \<Rightarrow> u8 list \<Rightarrow> u8 list process option" where
  "write_object wr k p len ob out =
     (if len = 0 then Some (Cont out)
      else if p < 0 then Some (End Out_of_bounds out)
      else case wr k of
             None \<Rightarrow> write_object wr (k + 1) (p - 1) (len + 1) ob out
           | Some n \<Rightarrow> write_object wr (k + 1) (p + int (min n len)) (len - min n len) ob (out @ take (min n len) (drop (nat p) ob)))"

text \<open>\<open>heap\<close> is what \<^verbatim>\<open>malloc\<close> finds.\<close>

definition usrp_sulfur_eeprom_from_file :: "u8 list \<Rightarrow> reads option \<Rightarrow> sulfur_eeprom option process option" where
  "usrp_sulfur_eeprom_from_file heap fd =
     (case fd of
        None \<Rightarrow> Some (Cont None)
      | Some rd \<Rightarrow>
          map_option (\<lambda>r. case r of
               End x _ \<Rightarrow> End x None
             | Cont bs \<Rightarrow> (let ep = se_of (mem_of bs) in Cont (if se_magic ep \<noteq> swab32 SULFUR_MAGIC then None else Some ep)))
            (fill_object rd 0 0 sizeof_sulfur_eeprom heap))"

definition usrp_sulfur_db_eeprom_from_file :: "u8 list \<Rightarrow> reads option \<Rightarrow> sulfur_db_eeprom option process option" where
  "usrp_sulfur_db_eeprom_from_file heap fd =
     (case fd of
        None \<Rightarrow> Some (Cont None)
      | Some rd \<Rightarrow>
          map_option (\<lambda>r. case r of
               End x _ \<Rightarrow> End x None
             | Cont bs \<Rightarrow> (let ep = sd_of (mem_of bs) in Cont (if sd_magic ep \<noteq> swab32 SULFUR_DB_MAGIC then None else Some ep)))
            (fill_object rd 0 0 sizeof_sulfur_db_eeprom heap))"

text \<open>What ends up in the file; nothing if it cannot be opened.  The kernel refuses to read from a null pointer, which the
  loop takes as above; the model ends there.\<close>

definition object_to_file :: "nat \<Rightarrow> u8 list option \<Rightarrow> writes option \<Rightarrow> u8 list process option" where
  "object_to_file n ob fd =
     (case fd of
        None \<Rightarrow> Some (Cont [])
      | Some wr \<Rightarrow> (case ob of None \<Rightarrow> Some (End Null_pointer []) | Some bs \<Rightarrow> write_object wr 0 0 n bs []))"

definition usrp_sulfur_eeprom_to_file :: "sulfur_eeprom option \<Rightarrow> writes option \<Rightarrow> u8 list process option" where
  "usrp_sulfur_eeprom_to_file ep fd = object_to_file sizeof_sulfur_eeprom (map_option se_bytes ep) fd"

definition usrp_sulfur_db_eeprom_to_file :: "sulfur_db_eeprom option \<Rightarrow> writes option \<Rightarrow> u8 list process option" where
  "usrp_sulfur_db_eeprom_to_file ep fd = object_to_file sizeof_sulfur_db_eeprom (map_option sd_bytes ep) fd"

subsection \<open>I2C\<close>

text \<open>The transactions handed to the kernel, each with its result; \<open>io\<close> gives the result of the \<open>k\<close>-th.\<close>

record i2c_msg =
  im_addr :: u8
  im_read :: bool
  im_buf :: "u8 list"

type_synonym transfers = "(i2c_msg list \<times> int) list"

definition ioctl_i2c :: "(nat \<Rightarrow> int) \<Rightarrow> i2c_msg list \<Rightarrow> transfers \<Rightarrow> int \<times> transfers" where
  "ioctl_i2c io msgs log = (io (length log), log @ [(msgs, io (length log))])"

definition set_i2c_reg :: "(nat \<Rightarrow> int) \<Rightarrow> u8 \<Rightarrow> u8 \<Rightarrow> u8 \<Rightarrow> transfers \<Rightarrow> int \<times> transfers" where
  "set_i2c_reg io addr reg val log =
     (let (ret, log) = ioctl_i2c io [\<lparr>im_addr = addr, im_read = False, im_buf = [reg, val]\<rparr>] log
      in (if ret < 0 then ret else 0, log))"

text \<open>The byte the kernel reads is an argument; it is handed on if the transaction succeeds.\<close>

definition get_i2c_reg :: "(nat \<Rightarrow> int) \<Rightarrow> u8 \<Rightarrow> u8 \<Rightarrow> u8 \<Rightarrow> u8 \<Rightarrow> transfers \<Rightarrow> int \<times> u8 \<times> transfers" where
  "get_i2c_reg io inbuf addr reg val log =
     (let (ret, log) = ioctl_i2c io [\<lparr>im_addr = addr, im_read = False, im_buf = [reg]\<rparr>, \<lparr>im_addr = addr, im_read = True, im_buf = [inbuf]\<rparr>] log
      in if ret < 0 then (ret, val, log) else (0, inbuf, log))"

definition usrp_sulfur_eeprom_to_i2c :: "(nat \<Rightarrow> int) option \<Rightarrow> sulfur_eeprom option \<Rightarrow> transfers \<Rightarrow> transfers process" where
  "usrp_sulfur_eeprom_to_i2c fd p log =
     (case fd of
        None \<Rightarrow> Cont log
      | Some io \<Rightarrow>
          (case p of
             None \<Rightarrow> End Null_pointer log
           | Some ep \<Rightarrow> Cont (fold (\<lambda>i log. snd (set_i2c_reg io EEPROM_I2C_ADDR (of_nat i) (se_bytes ep ! i) log)) [0..<sizeof_sulfur_eeprom] log)))"

end
