(* ===== verification/SulfurTools.thy ===== *)
theory SulfurTools
  imports Sulfur
begin

unbundle bit_operations_syntax

section \<open>The EEPROM tools of the N3x0 and E320\<close>

text \<open>
  The programs of \<^verbatim>\<open>mpm/tools\<close>: \<^verbatim>\<open>eeprom-init.c\<close>, \<^verbatim>\<open>eeprom-set-flags.c\<close>, \<^verbatim>\<open>fan-limits.c\<close>, \<^verbatim>\<open>eeprom-blank.c\<close>, \<^verbatim>\<open>eeprom-dump.c\<close>,
  \<^verbatim>\<open>eeprom-id.c\<close>, \<^verbatim>\<open>db-init.c\<close>, \<^verbatim>\<open>db-id.c\<close> and \<^verbatim>\<open>db-dump.c\<close>.  The arguments of a program model are those of \<^verbatim>\<open>main\<close>
  and its surroundings: each file opened with what reading it gives and the memory it is read into, and the results of
  the kernel for the I2C bus.  What a program has printed of the EEPROM and sent on the bus is its state when it ends.
\<close>

definition N310_PID :: int where "N310_PID = 0x4242"
definition N300_PID :: int where "N300_PID = 0x4240"
definition E320_PID :: int where "E320_PID = 0xe320"

record sulfur_tool =
  st_printed :: "printed list"
  st_log :: transfers

definition sulfur_tool_start :: sulfur_tool where
  "sulfur_tool_start = \<lparr>st_printed = [], st_log = []\<rparr>"

type_synonym file_read = "u8 list \<times> reads option"

subsection \<open>eeprom-init\<close>

definition derive_rev_compat :: "int \<Rightarrow> int \<Rightarrow> int" where
  "derive_rev_compat rv pid =
     (if pid = E320_PID then (if rv \<ge> 2 then 2 else rv)
      else (if rv > 5 then 5 else rv))"

definition derive_dt_compat :: "int \<Rightarrow> int \<Rightarrow> int" where
  "derive_dt_compat rv pid =
     (if pid = E320_PID then 0
      else (if rv > 5 then 5 else rv))"

definition derive_mcu_compat :: "int \<Rightarrow> int \<Rightarrow> int" where
  "derive_mcu_compat rv pid =
     (if pid = E320_PID then 2
      else (if rv > 5 then 5 else rv))"

definition arg_rev :: "string list \<Rightarrow> u16" where
  "arg_rev argv = word_of_int (atoi32 (argv ! 2))"

definition choose_pid :: "string list \<Rightarrow> sulfur_eeprom option \<Rightarrow> int option" where
  "choose_pid argv stored =
     (if length argv \<ge> 7 then Some (fst (strtol32 (argv ! 6) 0))
      else map_option (\<lambda>ep. uint (swab16 (se_pid ep))) stored)"

definition choose_dt_compat :: "string list \<Rightarrow> sulfur_eeprom option \<Rightarrow> int \<Rightarrow> u16" where
  "choose_dt_compat argv stored pid =
     (if length argv \<ge> 8 then word_of_int (fst (strtol32 (argv ! 7) 0))
      else case stored of
             Some ep \<Rightarrow> swab16 (se_dt_compat ep)
           | None \<Rightarrow> word_of_int (derive_dt_compat (uint (arg_rev argv)) pid))"

definition choose_mcu_compat :: "string list \<Rightarrow> sulfur_eeprom option \<Rightarrow> int \<Rightarrow> u16" where
  "choose_mcu_compat argv stored pid =
     (if length argv \<ge> 9 then word_of_int (fst (strtol32 (argv ! 8) 0))
      else case stored of
             Some ep \<Rightarrow> swab16 (se_mcu_compat ep)
           | None \<Rightarrow> word_of_int (derive_mcu_compat (uint (arg_rev argv)) pid))"

text \<open>The stored revision is compared as it is loaded.\<close>

definition choose_rev_compat :: "string list \<Rightarrow> sulfur_eeprom option \<Rightarrow> int \<Rightarrow> u16" where
  "choose_rev_compat argv stored pid =
     (if length argv \<ge> 10 then word_of_int (fst (strtol32 (argv ! 9) 0))
      else case stored of
             Some ep \<Rightarrow> if arg_rev argv = se_rev ep then swab16 (se_rev_compat ep)
                        else word_of_int (derive_rev_compat (uint (arg_rev argv)) pid)
           | None \<Rightarrow> word_of_int (derive_rev_compat (uint (arg_rev argv)) pid))"

definition init_new :: "string list \<Rightarrow> sulfur_eeprom option \<Rightarrow> int \<Rightarrow> sulfur_eeprom option" where
  "init_new argv stored pid =
     usrp_sulfur_eeprom_new None (word_of_int pid) (arg_rev argv) (argv ! 1) (Some (argv ! 3)) (Some (argv ! 4)) (Some (argv ! 5))
       (choose_dt_compat argv stored pid) (choose_mcu_compat argv stored pid) (choose_rev_compat argv stored pid)"

text \<open>Reading a file into the rest of a program, and printing what is there afterwards.\<close>

definition with_file :: "file_read \<Rightarrow> 's \<Rightarrow> (sulfur_eeprom option \<Rightarrow> 's process option) \<Rightarrow> 's process option" where
  "with_file file s f =
     (case usrp_sulfur_eeprom_from_file (fst file) (snd file) of
        None \<Rightarrow> None
      | Some (End x _) \<Rightarrow> Some (End x s)
      | Some (Cont p) \<Rightarrow> f p)"

definition burn_and_read_back :: "(nat \<Rightarrow> int) option \<Rightarrow> file_read \<Rightarrow> sulfur_eeprom option \<Rightarrow> sulfur_tool \<Rightarrow> sulfur_tool process option" where
  "burn_and_read_back io after ep s =
     (case usrp_sulfur_eeprom_to_i2c io ep (st_log s) of
        End x log \<Rightarrow> Some (End x (s\<lparr>st_log := log\<rparr>))
      | Cont log \<Rightarrow>
          (let s = s\<lparr>st_log := log\<rparr>
           in with_file after s (\<lambda>p. Some (End (Status 0) (s\<lparr>st_printed := st_printed s @ usrp_sulfur_eeprom_print p\<rparr>)))))"

definition sulfur_init_main :: "string list \<Rightarrow> file_read \<Rightarrow> (nat \<Rightarrow> int) option \<Rightarrow> file_read \<Rightarrow> sulfur_tool process option" where
  "sulfur_init_main argv before io after =
     (let s = sulfur_tool_start in
      if length argv < 6 \<or> length argv > 10 then Some (End (Status 1) s)
      else with_file before s (\<lambda>stored.
             case choose_pid argv stored of
               None \<Rightarrow> Some (End (Status 1) s)
             | Some pid \<Rightarrow>
                 if pid \<noteq> N310_PID \<and> pid \<noteq> N300_PID \<and> pid \<noteq> E320_PID then Some (End (Status 1) s)
                 else (let ep = init_new argv stored pid;
                           s = s\<lparr>st_printed := usrp_sulfur_eeprom_print ep\<rparr>
                       in burn_and_read_back io after ep s)))"

subsection \<open>eeprom-set-flags and fan-limits\<close>

definition set_flags_main :: "string list \<Rightarrow> file_read \<Rightarrow> (nat \<Rightarrow> int) option \<Rightarrow> file_read \<Rightarrow> sulfur_tool process option" where
  "set_flags_main argv before io after =
     (let s = sulfur_tool_start in
      if length argv \<noteq> 2 then Some (End (Status 1) s)
      else (let (flags, errno) = strtol32 (argv ! 1) 16 in
            if errno then Some (End (Status 1) s)
            else with_file before s (\<lambda>p.
                   case p of
                     None \<Rightarrow> Some (End (Status 1) s)
                   | Some ep \<Rightarrow>
                       (let s = s\<lparr>st_printed := usrp_sulfur_eeprom_print (Some ep)\<rparr>;
                            ep = ep\<lparr>se_mcu_flags := (se_mcu_flags ep)[0 := swab32 (word_of_int flags)]\<rparr>;
                            ep = usrp_sulfur_eeprom_recrc ep
                        in burn_and_read_back io after (Some ep) s))))"

text \<open>\<^verbatim>\<open>atoi(arg) / 100\<close>, rounded towards zero, as a byte.\<close>

definition fan_arg :: "string \<Rightarrow> u8" where
  "fan_arg str = (let n = atoi32 str in word_of_int (if n < 0 then - (- n div 100) else n div 100))"

definition fan_flags :: "string list \<Rightarrow> u32" where
  "fan_flags argv =
     (let fan0_min = fan_arg (argv ! 1);
          fan0_max = fan_arg (argv ! 2);
          fan1_min = fan_arg (argv ! 3);
          fan1_max = fan_arg (argv ! 4)
      in ((push_bit 24 (ucast fan1_max) OR push_bit 16 (ucast fan1_min)) OR push_bit 8 (ucast fan0_max)) OR ucast fan0_min)"

definition fan_limits_main :: "string list \<Rightarrow> file_read \<Rightarrow> (nat \<Rightarrow> int) option \<Rightarrow> sulfur_tool process option" where
  "fan_limits_main argv before io =
     (let s = sulfur_tool_start in
      if length argv \<noteq> 5 then Some (End (Status 1) s)
      else with_file before s (\<lambda>p.
             case p of
               None \<Rightarrow> Some (End Null_pointer s)
             | Some ep \<Rightarrow>
                 (let ep = ep\<lparr>se_mcu_flags := (se_mcu_flags ep)[0 := 0, 1 := swab32 (fan_flags argv)]\<rparr>;
                      ep = usrp_sulfur_eeprom_recrc ep
                  in Some (case usrp_sulfur_eeprom_to_i2c io (Some ep) (st_log s) of
                             End x log \<Rightarrow> End x (s\<lparr>st_log := log\<rparr>)
                           | Cont log \<Rightarrow> End (Status 0) (s\<lparr>st_log := log\<rparr>)))))"

subsection \<open>eeprom-blank, eeprom-dump and eeprom-id\<close>

definition blank_main :: "string list \<Rightarrow> (nat \<Rightarrow> int) option \<Rightarrow> sulfur_tool process" where
  "blank_main argv io =
     (let s = sulfur_tool_start in
      if length argv \<noteq> 3 then End (Status 1) s
      else if \<not> (argv ! 1 = ''-c'' \<and> argv ! 2 = ''-f'') then End (Status 1) s
      else case usrp_sulfur_eeprom_to_i2c io (Some (se_of (\<lambda>_. 0xff))) (st_log s) of
             End x log \<Rightarrow> End x (s\<lparr>st_log := log\<rparr>)
           | Cont log \<Rightarrow> End (Status 0) (s\<lparr>st_log := log\<rparr>))"

definition dump_main :: "file_read \<Rightarrow> sulfur_tool process option" where
  "dump_main file =
     with_file file sulfur_tool_start (\<lambda>p.
       case p of
         None \<Rightarrow> Some (End (Status 1) sulfur_tool_start)
       | Some ep \<Rightarrow> Some (End (Status 0) (sulfur_tool_start\<lparr>st_printed := usrp_sulfur_eeprom_print (Some ep)\<rparr>)))"

definition usrp_sulfur_eeprom_print_id :: "sulfur_eeprom \<Rightarrow> printed list" where
  "usrp_sulfur_eeprom_print_id ep =
     (let pid = uint (swab16 (se_pid ep));
          rv = uint (swab16 (se_rev ep)) + 1
      in [if pid = N310_PID then Product ''ni,n310'' rv
          else if pid = N300_PID then Product ''ni,n300'' rv
          else if pid = E320_PID then Product ''ni,e320'' rv
          else Unknown_product (swab16 (se_pid ep)),
          Line (c_string (drop 28 (se_bytes ep)))])"

definition id_main :: "file_read \<Rightarrow> sulfur_tool process option" where
  "id_main file =
     with_file file sulfur_tool_start (\<lambda>p.
       case p of
         None \<Rightarrow> Some (End (Status 1) sulfur_tool_start)
       | Some ep \<Rightarrow> Some (End (Status 0) (sulfur_tool_start\<lparr>st_printed := usrp_sulfur_eeprom_print_id ep\<rparr>)))"

subsection \<open>Daughterboards\<close>

text \<open>The file names of the slots are their numbers here.\<close>

definition get_dt_compat :: "int \<Rightarrow> int" where
  "get_dt_compat rv = (if rv > 3 then 3 else rv)"

text \<open>The status, the slot written, what is printed, and what is written there.\<close>

definition db_init_main :: "string list \<Rightarrow> (nat \<Rightarrow> writes option) \<Rightarrow> (nat \<times> printed list \<times> u8 list) process option" where
  "db_init_main argv slots =
     (if length argv < 5 then Some (End (Status 1) (0, [], []))
      else (let dt_compat = word_of_int (if length argv \<ge> 6 then atoi32 (argv ! 5) else get_dt_compat (atoi32 (argv ! 3))) :: u8;
                slot = (if atoi32 (argv ! 1) = 0 then 0 else 1);
                ep = usrp_sulfur_db_eeprom_new (word_of_int (fst (strtol32 (argv ! 2) 16))) (word_of_int (atoi32 (argv ! 3)))
                       (argv ! 4) (ucast dt_compat);
                out = usrp_sulfur_db_eeprom_print ep
            in map_option (\<lambda>r. case r of End x bs \<Rightarrow> End x (slot, out, bs) | Cont bs \<Rightarrow> End (Status 0) (slot, out, bs))
                 (usrp_sulfur_db_eeprom_to_file ep (slots slot))))"

definition usrp_sulfur_db_eeprom_print_id :: "sulfur_db_eeprom \<Rightarrow> printed list" where
  "usrp_sulfur_db_eeprom_print_id ep =
     (let rv = (if swab32 (sd_version ep) = 1 then uint (swab16 (v1_rev ep)) else uint (sd_rev ep)) + 1;
          pid = swab16 (sd_pid ep)
      in [if pid = 0x150 then Product ''ni,magnesium'' rv
          else if pid = 0x180 then Product ''ni,eiscat'' rv
          else if pid = 0x152 then Product ''ni,rhodium'' rv
          else Unknown_product (sd_pid ep),
          Line (c_string (drop 12 (sd_bytes ep)))])"

text \<open>What is printed for each slot that has an EEPROM.\<close>

definition db_id_slot :: "file_read \<Rightarrow> printed list process option" where
  "db_id_slot file =
     map_option (\<lambda>r. case r of
          End x _ \<Rightarrow> End x []
        | Cont None \<Rightarrow> Cont []
        | Cont (Some ep) \<Rightarrow> Cont (usrp_sulfur_db_eeprom_print_id ep))
       (usrp_sulfur_db_eeprom_from_file (fst file) (snd file))"

definition db_id_main :: "file_read \<Rightarrow> file_read \<Rightarrow> (printed list \<times> printed list) process option" where
  "db_id_main slot_a slot_b =
     (case db_id_slot slot_a of
        None \<Rightarrow> None
      | Some (End x _) \<Rightarrow> Some (End x ([], []))
      | Some (Cont a) \<Rightarrow>
          (case db_id_slot slot_b of
             None \<Rightarrow> None
           | Some (End x _) \<Rightarrow> Some (End x (a, []))
           | Some (Cont b) \<Rightarrow> Some (End (Status 0) (a, b))))"

definition db_dump_main :: "string list \<Rightarrow> file_read \<Rightarrow> file_read \<Rightarrow> printed list process option" where
  "db_dump_main argv slot_a slot_b =
     (if length argv \<noteq> 2 then Some (End (Status 1) [])
      else (let file = (if atoi32 (argv ! 1) = 0 then slot_a else slot_b)
            in map_option (\<lambda>r. case r of
                    End x _ \<Rightarrow> End x []
                  | Cont None \<Rightarrow> End (Status 1) []
                  | Cont (Some ep) \<Rightarrow> End (Status 0) (usrp_sulfur_db_eeprom_print (Some ep)))
                 (usrp_sulfur_db_eeprom_from_file (fst file) (snd file))))"

end
