(* ===== verification/SulfurProps.thy ===== *)
theory SulfurProps
  imports SulfurTools
begin

unbundle bit_operations_syntax

section \<open>What the EEPROM tools of the N3x0 and E320 do\<close>

subsection \<open>Structures and bytes\<close>

text \<open>Arrays have their sizes.\<close>

definition sulfur_ok :: "sulfur_eeprom \<Rightarrow> bool" where
  "sulfur_ok ep \<longleftrightarrow> length (se_mcu_flags ep) = 4 \<and> length (se_serial ep) = 8 \<and> length (se_eth_addr0 ep) = ETH_ALEN
     \<and> length (se_eth_addr1 ep) = ETH_ALEN \<and> length (se_eth_addr2 ep) = ETH_ALEN"

lemma length_eth_addr_parse: "length out = ETH_ALEN \<Longrightarrow> length (snd (eth_addr_parse out str)) = ETH_ALEN"
  by (auto simp: eth_addr_parse_def Let_def)

lemma length_4: "length xs = 4 \<longleftrightarrow> (\<exists>a b c d. xs = [a, b, c, d])"
  by (auto simp: length_Suc_conv numeral_eq_Suc)

lemma length_concat_put32_le: "length (concat (map put32_le ws)) = 4 * length ws"
  by (induction ws) simp_all

lemma length_se_body: "sulfur_ok ep \<Longrightarrow> length (se_body ep) = 60"
  by (simp add: sulfur_ok_def se_body_def length_concat_put32_le)

lemma length_se_bytes: "sulfur_ok ep \<Longrightarrow> length (se_bytes ep) = 64"
  by (simp add: se_bytes_def length_se_body)

lemma be_swab: "be16 m i = swab16 (le16 m i)" "be32 m i = swab32 (le32 m i)"
  by (simp_all add: be32_def be16_def le32_def le16_def swab32_def swab16_def bytes_simps)

lemma mem_take_at: "length xs = k \<Longrightarrow> length ys = n \<Longrightarrow> mem_take (mem_at (mem_of (xs @ ys @ zs)) k) n = ys"
  by (simp add: mem_at_append mem_take_append)

text \<open>Loads from a list of fields, one field after another.\<close>

lemma field_skip:
  assumes "length xs \<le> k"
  shows "le16 (mem_of (xs @ ys)) k = le16 (mem_of ys) (k - length xs)"
    "le32 (mem_of (xs @ ys)) k = le32 (mem_of ys) (k - length xs)"
    "mem_at (mem_of (xs @ ys)) k = mem_at (mem_of ys) (k - length xs)"
    "mem_of (xs @ ys) k = mem_of ys (k - length xs)"
  using assms by (auto simp: le32_def le16_def mem_of_append_right mem_at_def Suc_diff_le)

lemma field_here:
  "le16 (mem_of (put16_le v @ ys)) 0 = v" "le32 (mem_of (put32_le w @ ys)) 0 = w" "le32 (mem_of (put32_le w)) 0 = w"
  "length xs = n \<Longrightarrow> mem_take (mem_of (xs @ ys)) n = xs"
  using le16_at [of "[]" 0 v ys] le32_at [of "[]" 0 w ys] le32_at [of "[]" 0 w "[]"] by (simp_all add: mem_take_append)

text \<open>Loading the bytes of a structure gives the structure.\<close>

lemma se_of_bytes:
  assumes "sulfur_ok ep" shows "se_of (mem_of (se_bytes ep)) = ep"
proof -
  obtain f0 f1 f2 f3 where f: "se_mcu_flags ep = [f0, f1, f2, f3]"
    using assms by (auto simp: sulfur_ok_def length_4)
  have l: "length (se_serial ep) = 8" "length (se_eth_addr0 ep) = 6" "length (se_eth_addr1 ep) = 6" "length (se_eth_addr2 ep) = 6"
    using assms by (simp_all add: sulfur_ok_def)
  have "[0..<4] = [0, 1, 2, 3 :: nat]" by (simp add: upt_rec)
  then show ?thesis
    by (simp add: se_of_def se_bytes_def se_body_def f l field_skip field_here)
qed

lemma se_of_bytes_append: "sulfur_ok ep \<Longrightarrow> se_of (mem_of (se_bytes ep @ rest)) = ep"
proof -
  assume ok: "sulfur_ok ep"
  have "\<And>k. k < 64 \<Longrightarrow> mem_of (se_bytes ep @ rest) k = mem_of (se_bytes ep) k"
    using ok by (simp add: mem_of_append_left length_se_bytes)
  then have "se_of (mem_of (se_bytes ep @ rest)) = se_of (mem_of (se_bytes ep))"
    by (simp add: se_of_def le32_def le16_def mem_at_def mem_take_def)
  then show ?thesis using se_of_bytes [OF ok] by simp
qed

subsection \<open>What is written\<close>

text \<open>The writes that put an image on the chip, byte by byte.\<close>

definition burn_log :: "u8 list \<Rightarrow> i2c_msg list list" where
  "burn_log img = map (\<lambda>i. [\<lparr>im_addr = EEPROM_I2C_ADDR, im_read = False, im_buf = [of_nat i, img ! i]\<rparr>]) [0..<length img]"

lemma fold_set_i2c_reg:
  "map fst (fold (\<lambda>i log. snd (set_i2c_reg io addr (of_nat i) (bs ! i) log)) is log)
     = map fst log @ map (\<lambda>i. [\<lparr>im_addr = addr, im_read = False, im_buf = [of_nat i, bs ! i]\<rparr>]) is"
  by (induction "is" arbitrary: log) (simp_all add: set_i2c_reg_def ioctl_i2c_def)

lemma to_i2c_log:
  assumes "sulfur_ok ep"
  obtains log' where "usrp_sulfur_eeprom_to_i2c (Some io) (Some ep) log = Cont log'" "map fst log' = map fst log @ burn_log (se_bytes ep)"
proof
  show "usrp_sulfur_eeprom_to_i2c (Some io) (Some ep) log
      = Cont (fold (\<lambda>i log. snd (set_i2c_reg io EEPROM_I2C_ADDR (of_nat i) (se_bytes ep ! i) log)) [0..<sizeof_sulfur_eeprom] log)"
    by (simp add: usrp_sulfur_eeprom_to_i2c_def)
  show "map fst (fold (\<lambda>i log. snd (set_i2c_reg io EEPROM_I2C_ADDR (of_nat i) (se_bytes ep ! i) log)) [0..<sizeof_sulfur_eeprom] log)
      = map fst log @ burn_log (se_bytes ep)"
    using length_se_bytes [OF assms] by (simp add: fold_set_i2c_reg burn_log_def sizeof_sulfur_eeprom_def)
qed

lemma new_sulfur_ok: "usrp_sulfur_eeprom_new flags pid rv serial e0 e1 e2 dt mcu rvc = Some ep \<Longrightarrow> sulfur_ok ep"
  by (auto simp: usrp_sulfur_eeprom_new_def sulfur_ok_def Let_def length_eth_addr_parse split: if_splits option.splits)

lemma se_body_crc [simp]: "se_body (ep\<lparr>se_crc := c\<rparr>) = se_body ep"
  by (simp add: se_body_def)

lemma sulfur_ok_recrc [simp]: "sulfur_ok (usrp_sulfur_eeprom_recrc ep) = sulfur_ok ep"
  by (simp add: sulfur_ok_def usrp_sulfur_eeprom_recrc_def)

text \<open>A structure that carries its checksum, as the reader in Python checks it: big-endian behind the body.\<close>

definition sealed_image :: "u8 list \<Rightarrow> bool" where
  "sealed_image img \<longleftrightarrow> length img = 64 \<and> be32 (mem_of img) 60 = sulfur_crc32 0 (take 60 img)"

lemma image_fields:
  assumes "sulfur_ok ep"
  shows "be32 (mem_of (se_bytes ep)) 0 = swab32 (se_magic ep)" "be32 (mem_of (se_bytes ep)) 4 = swab32 (se_version ep)"
    "be16 (mem_of (se_bytes ep)) 24 = swab16 (se_pid ep)" "be16 (mem_of (se_bytes ep)) 26 = swab16 (se_rev ep)"
    "be16 (mem_of (se_bytes ep)) 42 = swab16 (se_dt_compat ep)" "be16 (mem_of (se_bytes ep)) 50 = swab16 (se_mcu_compat ep)"
    "be16 (mem_of (se_bytes ep)) 58 = swab16 (se_rev_compat ep)" "be32 (mem_of (se_bytes ep)) 60 = swab32 (se_crc ep)"
    "mem_take (mem_at (mem_of (se_bytes ep)) 28) 8 = se_serial ep"
    "mem_take (mem_at (mem_of (se_bytes ep)) 36) 6 = se_eth_addr0 ep" "mem_take (mem_at (mem_of (se_bytes ep)) 44) 6 = se_eth_addr1 ep"
    "mem_take (mem_at (mem_of (se_bytes ep)) 52) 6 = se_eth_addr2 ep"
    "i < 4 \<Longrightarrow> be32 (mem_of (se_bytes ep)) (8 + 4 * i) = swab32 (se_mcu_flags ep ! i)"
proof -
  have e: "ep = se_of (mem_of (se_bytes ep))" using se_of_bytes [OF assms] by simp
  note sel = sulfur_eeprom.select_convs
  show "be32 (mem_of (se_bytes ep)) 0 = swab32 (se_magic ep)" "be32 (mem_of (se_bytes ep)) 4 = swab32 (se_version ep)"
    "be16 (mem_of (se_bytes ep)) 24 = swab16 (se_pid ep)" "be16 (mem_of (se_bytes ep)) 26 = swab16 (se_rev ep)"
    "be16 (mem_of (se_bytes ep)) 42 = swab16 (se_dt_compat ep)" "be16 (mem_of (se_bytes ep)) 50 = swab16 (se_mcu_compat ep)"
    "be16 (mem_of (se_bytes ep)) 58 = swab16 (se_rev_compat ep)" "be32 (mem_of (se_bytes ep)) 60 = swab32 (se_crc ep)"
    "mem_take (mem_at (mem_of (se_bytes ep)) 28) 8 = se_serial ep"
    "mem_take (mem_at (mem_of (se_bytes ep)) 36) 6 = se_eth_addr0 ep" "mem_take (mem_at (mem_of (se_bytes ep)) 44) 6 = se_eth_addr1 ep"
    "mem_take (mem_at (mem_of (se_bytes ep)) 52) 6 = se_eth_addr2 ep"
    by (subst (2) e, simp only: se_of_def sel be_swab)+
  show "be32 (mem_of (se_bytes ep)) (8 + 4 * i) = swab32 (se_mcu_flags ep ! i)" if "i < 4"
    using that by (subst (2) e, simp add: se_of_def be_swab)
qed

text \<open>The loop over a file ends with the object or before it, never with a status.\<close>

lemma fill_object_ends: "fill_object rd k p len ob = Some r \<Longrightarrow> (\<exists>bs. r = Cont bs) \<or> (\<exists>bs. r = End Out_of_bounds bs)"
proof (induction rule: fill_object.raw_induct [rotated, consumes 1, case_names step])
  case (step f rd k p len ob r)
  show ?case using step.hyps step.IH by (auto split: if_splits option.splits simp: Let_def)
qed

lemma from_file_ends:
  assumes "usrp_sulfur_eeprom_from_file heap fd = Some r"
  shows "(\<exists>p. r = Cont p) \<or> r = End Out_of_bounds None"
proof (cases fd)
  case (Some rd)
  then obtain z where z: "fill_object rd 0 0 sizeof_sulfur_eeprom heap = Some z"
    using assms by (auto simp: usrp_sulfur_eeprom_from_file_def)
  show ?thesis using assms Some z fill_object_ends [OF z] by (auto simp: usrp_sulfur_eeprom_from_file_def Let_def)
qed (use assms in \<open>auto simp: usrp_sulfur_eeprom_from_file_def\<close>)

lemma with_file_ok:
  assumes "with_file file s f = Some (End (Status 0) t)"
  obtains p where "usrp_sulfur_eeprom_from_file (fst file) (snd file) = Some (Cont p)" "f p = Some (End (Status 0) t)"
proof (cases "usrp_sulfur_eeprom_from_file (fst file) (snd file)")
  case (Some r)
  have "r \<noteq> End (Status 0) q" for q
    using Some from_file_ends by fastforce
  then show ?thesis using assms Some that by (auto simp: with_file_def split: process.splits)
qed (use assms in \<open>simp add: with_file_def\<close>)

text \<open>A file that one read gives whole.\<close>

lemma fill_object_whole:
  "length bs = n \<Longrightarrow> length ob = n \<Longrightarrow> 0 < n \<Longrightarrow> fill_object (\<lambda>_. Some bs) 0 0 n ob = Some (Cont bs)"
  by (subst fill_object.simps, subst fill_object.simps) simp

lemma from_file_whole:
  assumes "sulfur_ok ep" "se_magic ep = swab32 SULFUR_MAGIC" "length heap = 64"
  shows "usrp_sulfur_eeprom_from_file heap (Some (\<lambda>_. Some (se_bytes ep))) = Some (Cont (Some ep))"
  using assms fill_object_whole [OF length_se_bytes [OF assms(1)] assms(3)]
  by (simp add: usrp_sulfur_eeprom_from_file_def sizeof_sulfur_eeprom_def se_of_bytes)

lemma burn_ok:
  assumes "burn_and_read_back io after ep s = Some (End (Status 0) t)"
  obtains log where "usrp_sulfur_eeprom_to_i2c io ep (st_log s) = Cont log" "st_log t = log"
  using assms by (auto simp: burn_and_read_back_def Let_def usrp_sulfur_eeprom_to_i2c_def elim!: with_file_ok split: option.splits process.splits)

lemma init_ok:
  assumes "sulfur_init_main argv before (Some io) after = Some (End (Status 0) s)"
  obtains stored pid ep where "usrp_sulfur_eeprom_from_file (fst before) (snd before) = Some (Cont stored)"
    "choose_pid argv stored = Some pid" "pid \<in> {N310_PID, N300_PID, E320_PID}" "init_new argv stored pid = Some ep"
    "map fst (st_log s) = burn_log (se_bytes ep)" "sulfur_ok ep"
proof -
  have a: "\<not> (length argv < 6 \<or> length argv > 10)"
    using assms by (auto simp: sulfur_init_main_def Let_def)
  obtain stored where st: "usrp_sulfur_eeprom_from_file (fst before) (snd before) = Some (Cont stored)"
    and f: "(case choose_pid argv stored of None \<Rightarrow> Some (End (Status 1) sulfur_tool_start)
        | Some pid \<Rightarrow> if pid \<noteq> N310_PID \<and> pid \<noteq> N300_PID \<and> pid \<noteq> E320_PID then Some (End (Status 1) sulfur_tool_start)
            else (let ep = init_new argv stored pid; s = sulfur_tool_start\<lparr>st_printed := usrp_sulfur_eeprom_print ep\<rparr>
              in burn_and_read_back (Some io) after ep s)) = Some (End (Status 0) s)"
    using assms a unfolding sulfur_init_main_def Let_def by (auto elim!: with_file_ok)
  then obtain pid where pid: "choose_pid argv stored = Some pid" "pid \<in> {N310_PID, N300_PID, E320_PID}"
    and b: "burn_and_read_back (Some io) after (init_new argv stored pid)
      (sulfur_tool_start\<lparr>st_printed := usrp_sulfur_eeprom_print (init_new argv stored pid)\<rparr>) = Some (End (Status 0) s)"
    by (auto simp: Let_def split: option.splits if_splits)
  obtain log where log: "usrp_sulfur_eeprom_to_i2c (Some io) (init_new argv stored pid) [] = Cont log" "st_log s = log"
    using burn_ok [OF b] by (auto simp: sulfur_tool_start_def)
  then obtain ep where ep: "init_new argv stored pid = Some ep" by (auto simp: usrp_sulfur_eeprom_to_i2c_def split: option.splits)
  then have ok: "sulfur_ok ep" by (auto simp: init_new_def dest: new_sulfur_ok)
  show ?thesis using that [OF st pid ep _ ok] to_i2c_log [OF ok, of io "[]"] log ep by auto
qed

definition eth_arg :: "string option \<Rightarrow> u8 list" where
  "eth_arg a = (case a of None \<Rightarrow> replicate ETH_ALEN 0 | Some str \<Rightarrow> snd (eth_addr_parse (replicate ETH_ALEN 0) str))"

lemma new_fields:
  assumes "usrp_sulfur_eeprom_new flags pid rv serial e0 e1 e2 dt mcu rvc = Some ep"
  shows "length serial \<le> 8" "se_magic ep = swab32 SULFUR_MAGIC" "se_version ep = swab32 3"
    "se_mcu_flags ep = map (\<lambda>i. swab32 ((case flags of None \<Rightarrow> SULFUR_DEFAULT_MCU_FLAGS | Some fs \<Rightarrow> fs) ! i)) [0..<4]"
    "se_pid ep = swab16 pid" "se_rev ep = swab16 rv" "se_serial ep = strncpy serial 8" "se_eth_addr0 ep = eth_arg e0"
    "se_dt_compat ep = swab16 dt" "se_eth_addr1 ep = eth_arg e1" "se_mcu_compat ep = swab16 mcu" "se_eth_addr2 ep = eth_arg e2"
    "se_rev_compat ep = swab16 rvc" "se_crc ep = swab32 (sulfur_crc32 0 (se_body ep))"
proof -
  obtain e where e: "ep = usrp_sulfur_eeprom_recrc e"
    using assms unfolding usrp_sulfur_eeprom_new_def Let_def usrp_sulfur_eeprom_recrc_def [symmetric] by (auto split: if_splits)
  show "se_crc ep = swab32 (sulfur_crc32 0 (se_body ep))"
    unfolding e by (simp add: usrp_sulfur_eeprom_recrc_def)
qed (use assms in \<open>auto simp: usrp_sulfur_eeprom_new_def Let_def eth_arg_def SULFUR_VERSION_def split: if_splits\<close>)

lemma sealed_bytes:
  assumes "sulfur_ok ep" "se_crc ep = swab32 (sulfur_crc32 0 (se_body ep))" shows "sealed_image (se_bytes ep)"
  using assms length_se_body [of ep] length_se_bytes [of ep]
  by (simp add: sealed_image_def image_fields) (simp add: se_bytes_def)


subsection \<open>Addresses in arguments\<close>

definition hex_digit :: "nat \<Rightarrow> char" where
  "hex_digit n = char_of (if n < 10 then 48 + n else 87 + n)"

definition hex2 :: "u8 \<Rightarrow> string" where
  "hex2 b = [hex_digit (unat b div 16), hex_digit (unat b mod 16)]"

fun colon_join :: "string list \<Rightarrow> string" where
  "colon_join [] = []"
| "colon_join [x] = x"
| "colon_join (x # y # zs) = x @ CHR '':'' # colon_join (y # zs)"

lemma hex_digit:
  assumes "n < 16"
  shows "digit_of (hex_digit n) = n" "\<not> isspace (hex_digit n)" "hex_digit n \<notin> {CHR ''-'', CHR ''+'', CHR '':''}"
proof -
  have c: "(of_char (hex_digit n) :: nat) = (if n < 10 then 48 + n else 87 + n)"
    using assms by (simp add: hex_digit_def)
  have "hex_digit n \<noteq> d" if "(of_char d :: nat) < 48 \<or> of_char d = (58 :: nat)" for d
    using c that assms by (auto split: if_splits)
  then show "hex_digit n \<notin> {CHR ''-'', CHR ''+'', CHR '':''}" and "\<not> isspace (hex_digit n)"
    using c by (auto simp: isspace_def split: if_splits)
  show "digit_of (hex_digit n) = n"
    using c assms by (auto simp: digit_of_def)
qed

lemma strtoul32_hex2: "ucast (strtoul32 (hex2 b) 16 AND 0xff) = b"
proof -
  have d: "unat b div 16 < 16" "unat b mod 16 < 16" using unat_u8_less [of b] by auto
  have "16 * int (unat b div 16) + int (unat b mod 16) = int (unat b)" by presburger
  then have "digits_value 16 (hex2 b) = int (unat b)"
    using d hex_digit(1) [OF d(1)] hex_digit(1) [OF d(2)] by (simp add: hex2_def digits_value_def)
  then have "strtoul32 (hex2 b) 16 = of_int (int (unat b))"
    using uint_lt2p [of b] hex_digit [OF d(1)]
    by (simp add: strtoul32_def number_start_def hex_prefix_def hex2_def Let_def)
  then have "strtoul32 (hex2 b) 16 = ucast b" by simp
  then show ?thesis unfolding FF_mask by (simp, intro bit_word_eqI) (auto simp: bit_simps)
qed

lemma strtok_all_piece: "d \<notin> set x \<Longrightarrow> strtok_all d acc (x @ cs) = strtok_all d (acc @ x) cs"
  by (induction x arbitrary: acc) auto

lemma strtok_all_join: "\<forall>x \<in> set xs. x \<noteq> [] \<and> CHR '':'' \<notin> set x \<Longrightarrow> strtok_all CHR '':'' [] (colon_join xs) = xs"
proof (induction xs rule: colon_join.induct)
  case (2 x)
  then show ?case using strtok_all_piece [of _ x "[]" "[]"] by simp
qed (auto simp: strtok_all_piece)

text \<open>An Ethernet address written as pairs of digits is read as its bytes.\<close>

theorem eth_addr_parse_printed:
  assumes "length bs = 6" "length out = 6"
  shows "eth_addr_parse out (colon_join (map hex2 bs)) = (0, bs)"
proof -
  have c: "hex2 b \<noteq> [] \<and> CHR '':'' \<notin> set (hex2 b)" for b
  proof -
    have "unat b div 16 < 16" "unat b mod 16 < 16" using unat_u8_less [of b] by auto
    then show ?thesis using hex_digit(3) by (simp add: hex2_def eq_commute [of "CHR '':''"])
  qed
  obtain a b c d e f where "bs = [a, b, c, d, e, f]" using assms(1) by (auto simp: length_Suc_conv numeral_eq_Suc)
  then have "length (colon_join (map hex2 bs)) = 17" by (simp add: hex2_def)
  then show ?thesis
    using c assms by (simp add: eth_addr_parse_def strtok_all_join Let_def o_def strtoul32_hex2)
qed

subsection \<open>Initialisation\<close>

definition demo_argv :: "string list" where
  "demo_argv = [''eeprom-init'', ''310A850'', ''5'', ''00:80:2f:00:00:01'', ''00:80:2f:00:00:02'', ''00:80:2f:00:00:03'', ''0x4242'']"

lemma demo_choice: "choose_pid demo_argv None = Some N310_PID" "arg_rev demo_argv = 5"
  by (code_simp, code_simp)

lemma demo_init: "\<exists>s. sulfur_init_main demo_argv ([], None) (Some (\<lambda>_. 0)) ([], None) = Some (End (Status 0) s)"
proof -
  obtain ep where ep: "init_new demo_argv None N310_PID = Some ep"
    by (simp add: init_new_def usrp_sulfur_eeprom_new_def Let_def demo_argv_def)
  have ok: "sulfur_ok ep" using ep by (auto simp: init_new_def dest: new_sulfur_ok)
  obtain log where "usrp_sulfur_eeprom_to_i2c (Some (\<lambda>_. 0)) (Some ep) [] = Cont log"
    using to_i2c_log [OF ok] by blast
  moreover have "length demo_argv = 7" by (simp add: demo_argv_def)
  ultimately show ?thesis
    using demo_choice ep
    by (simp add: sulfur_init_main_def with_file_def usrp_sulfur_eeprom_from_file_def burn_and_read_back_def sulfur_tool_start_def Let_def)
qed

subsection \<open>Identification\<close>

definition product_name :: "int \<Rightarrow> string" where
  "product_name pid = (if pid = N310_PID then ''ni,n310'' else if pid = N300_PID then ''ni,n300'' else ''ni,e320'')"

lemma c_string_prefix: "0 \<notin> set xs \<Longrightarrow> c_string (xs @ 0 # ys) = xs"
  by (induction xs) (auto simp: c_string_def)

lemma char_byte_0: "char_byte c = 0 \<longleftrightarrow> c = CHR 0x00"
proof -
  have "unat (char_byte c) = (of_char c :: nat)"
  proof -
    have "char_byte c = of_nat (of_char c)" by (simp add: char_byte_def of_nat_of_char)
    then show ?thesis using nat_of_char_less_256 [of c] by (simp only: unat_of_nat) (simp add: take_bit_nat_eq_self)
  qed
  moreover have "(of_char c :: nat) = 0 \<longleftrightarrow> c = CHR 0x00"
    using of_char_eq_iff [of c "CHR 0x00", where ?'a = nat] by simp
  ultimately show ?thesis by (metis unat_eq_zero)
qed

text \<open>What the tool has written \<^verbatim>\<open>eeprom-id\<close> prints: the name of the product, the revision plus one, and the serial number,
  if that leaves room for its null character.\<close>

theorem sulfur_id_after_init:
  assumes "sulfur_init_main argv before (Some io) after = Some (End (Status 0) s)"
    and "length (argv ! 1) < 8" "CHR 0x00 \<notin> set (argv ! 1)" "length heap = 64"
  shows "\<exists>stored pid img. usrp_sulfur_eeprom_from_file (fst before) (snd before) = Some (Cont stored) \<and> choose_pid argv stored = Some pid
    \<and> map fst (st_log s) = burn_log img
    \<and> id_main (heap, Some (\<lambda>_. Some img)) = Some (End (Status 0)
         \<lparr>st_printed = [Product (product_name pid) (uint (arg_rev argv) + 1), Line (map char_byte (argv ! 1))], st_log = []\<rparr>)"
proof -
  obtain stored pid ep where o: "usrp_sulfur_eeprom_from_file (fst before) (snd before) = Some (Cont stored)"
    "choose_pid argv stored = Some pid" "pid \<in> {N310_PID, N300_PID, E320_PID}" "init_new argv stored pid = Some ep"
    "map fst (st_log s) = burn_log (se_bytes ep)" "sulfur_ok ep"
    using init_ok [OF assms(1)] by blast
  note new = new_fields [OF o(4) [unfolded init_new_def]]
  let ?n = "7 - length (argv ! 1)"
  have f: "length (se_mcu_flags ep) = 4" using o(6) by (simp add: sulfur_ok_def)
  have "strncpy (argv ! 1) 8 = map char_byte (argv ! 1) @ 0 # replicate ?n 0"
    using assms(2) by (simp add: strncpy_def flip: replicate_Suc)
  moreover obtain rest where "drop 28 (se_bytes ep) = strncpy (argv ! 1) 8 @ rest"
    using f by (simp add: se_bytes_def se_body_def length_concat_put32_le new(7))
  ultimately have serial: "c_string (drop 28 (se_bytes ep)) = map char_byte (argv ! 1)"
    using assms(3) c_string_prefix [of "map char_byte (argv ! 1)"] char_byte_0 by force
  have "usrp_sulfur_eeprom_print_id ep = [Product (product_name pid) (uint (arg_rev argv) + 1), Line (map char_byte (argv ! 1))]"
    using o(3) by (auto simp: usrp_sulfur_eeprom_print_id_def Let_def new serial product_name_def N310_PID_def N300_PID_def E320_PID_def)
  then show ?thesis
    using o from_file_whole [OF o(6) new(2) assms(4)]
    by (intro exI [of _ stored] exI [of _ pid] exI [of _ "se_bytes ep"]) (simp add: id_main_def with_file_def sulfur_tool_start_def)
qed

lemma sulfur_id_after_init_witness:
  "\<exists>img. id_main (replicate 64 0, Some (\<lambda>_. Some img))
     = Some (End (Status 0) \<lparr>st_printed = [Product ''ni,n310'' 6, Line (map char_byte ''310A850'')], st_log = []\<rparr>)"
proof -
  obtain s where s: "sulfur_init_main demo_argv ([], None) (Some (\<lambda>_. 0)) ([], None) = Some (End (Status 0) s)"
    using demo_init ..
  have a: "demo_argv ! Suc 0 = ''310A850''" by (simp add: demo_argv_def)
  show ?thesis
    using sulfur_id_after_init [OF s, of "replicate 64 0"] demo_choice
    by (auto simp: a usrp_sulfur_eeprom_from_file_def product_name_def)
qed

text \<open>Initialising again with the same revision: unless the two bytes of the revision are the same, the compatible revision
  that was stored is not kept, but derived anew.\<close>

lemma init_forgets_rev_compat:
  assumes "length argv < 10" "swab16 (arg_rev argv) \<noteq> arg_rev argv" "se_rev ep = swab16 (arg_rev argv)"
  shows "choose_rev_compat argv (Some ep) pid = word_of_int (derive_rev_compat (uint (arg_rev argv)) pid)"
  using assms by (auto simp: choose_rev_compat_def)

subsection \<open>The verdict on the checksum\<close>

text \<open>The check of the checksum says the opposite of what it is to say, and takes its bytes in the wrong order: what the
  tools have sealed counts as matching if the checksum is not the same in both orders of its bytes, and so does what
  has changed since, if the new checksum is not the old one in the other order.\<close>

theorem sulfur_crc_verdict:
  "((\<exists>c. last (usrp_sulfur_eeprom_print (Some (usrp_sulfur_eeprom_recrc ep))) = Crc c True)
     \<longleftrightarrow> swab32 (sulfur_crc32 0 (se_body ep)) \<noteq> sulfur_crc32 0 (se_body ep))
   \<and> ((\<exists>c. last (usrp_sulfur_eeprom_print (Some (ep'\<lparr>se_crc := se_crc (usrp_sulfur_eeprom_recrc ep)\<rparr>))) = Crc c True)
     \<longleftrightarrow> swab32 (sulfur_crc32 0 (se_body ep)) \<noteq> sulfur_crc32 0 (se_body ep'))"
  by (auto simp: usrp_sulfur_eeprom_print_def sulfur_check_crc_def usrp_sulfur_eeprom_recrc_def)

subsection \<open>Reading a file\<close>

text \<open>The bytes the first reads give.\<close>

definition bytes_read :: "reads \<Rightarrow> nat \<Rightarrow> nat" where
  "bytes_read rd k = (\<Sum>i<k. length (the (rd i)))"

lemma fill_object_returns:
  assumes "\<forall>i. rd i \<noteq> None" "0 \<le> p" "len \<le> (\<Sum>i\<in>{k..<k + n}. length (the (rd i)))"
  shows "\<exists>r. fill_object rd k p len ob = Some r"
  using assms
proof (induction n arbitrary: k p len ob)
  case 0
  then show ?case by (subst fill_object.simps) simp
next
  case (Suc n)
  obtain bs where bs: "rd k = Some bs" using Suc.prems(1) by blast
  have "(\<Sum>i\<in>{k..<k + Suc n}. length (the (rd i))) = length bs + (\<Sum>i\<in>{Suc k..<Suc k + n}. length (the (rd i)))"
    by (subst sum.atLeast_Suc_lessThan) (simp_all add: bs)
  then have "len - length (take len bs) \<le> (\<Sum>i\<in>{Suc k..<Suc k + n}. length (the (rd i)))" using Suc.prems(3) by auto
  from Suc.IH [OF Suc.prems(1) _ this] show ?case
    using Suc.prems(2) by (subst fill_object.simps) (simp add: bs Let_def)
qed

lemma fill_object_total:
  "fill_object rd k p len ob = Some r \<Longrightarrow> \<forall>i. rd i \<noteq> None \<Longrightarrow> 0 \<le> p
    \<Longrightarrow> \<exists>n. len \<le> (\<Sum>i\<in>{k..<k + n}. length (the (rd i)))"
proof (induction rule: fill_object.raw_induct [rotated, consumes 1, case_names step])
  case (step f rd k p len ob r)
  show ?case
  proof (cases "len = 0")
    case False
    obtain bs where bs: "rd k = Some bs" using step.prems(1) by blast
    obtain ob' where "f rd (Suc k) (p + int (length (take len bs))) (len - length (take len bs)) ob' = Some r"
      using step.hyps step.prems False by (auto simp: bs Let_def split: if_splits)
    from step.IH [OF this step.prems(1)] obtain n
      where n: "len - length (take len bs) \<le> (\<Sum>i\<in>{Suc k..<Suc k + n}. length (the (rd i)))"
      using step.prems(2) by auto
    have "(\<Sum>i\<in>{k..<k + Suc n}. length (the (rd i))) = length bs + (\<Sum>i\<in>{Suc k..<Suc k + n}. length (the (rd i)))"
      by (subst sum.atLeast_Suc_lessThan) (simp_all add: bs)
    then show ?thesis using n by (intro exI [of _ "Suc n"]) auto
  qed auto
qed

text \<open>C37. Reading the EEPROM of the motherboard comes back exactly if the reads give 64 bytes in the end: on a file that is
  shorter the tools hang.\<close>

theorem sulfur_read_returns_iff:
  assumes "\<forall>i. rd i \<noteq> None"
  shows "(\<exists>r. usrp_sulfur_eeprom_from_file heap (Some rd) = Some r) \<longleftrightarrow> (\<exists>k. 64 \<le> bytes_read rd k)"
proof -
  have "(\<exists>r. usrp_sulfur_eeprom_from_file heap (Some rd) = Some r) \<longleftrightarrow> (\<exists>r. fill_object rd 0 0 64 heap = Some r)"
    by (auto simp: usrp_sulfur_eeprom_from_file_def sizeof_sulfur_eeprom_def)
  also have "\<dots> \<longleftrightarrow> (\<exists>k. 64 \<le> bytes_read rd k)"
    using fill_object_returns [OF assms, of 0 64 0 _ heap] fill_object_total [OF _ assms, of 0 0 64 heap]
    by (auto simp: bytes_read_def lessThan_atLeast0)
  finally show ?thesis .
qed

lemma sulfur_read_returns_iff_witness:
  "usrp_sulfur_eeprom_from_file [] (Some (\<lambda>i. Some (if i = 0 then replicate 63 0 else []))) = None"
proof -
  let ?rd = "\<lambda>i. Some (if i = (0 :: nat) then replicate 63 (0 :: u8) else [])"
  have "bytes_read ?rd k \<le> 63" for k
    unfolding bytes_read_def by (induction k) (auto simp: sum.lessThan_Suc_shift simp del: sum.lessThan_Suc)
  then have "\<not> (\<exists>k. 64 \<le> bytes_read ?rd k)" by (simp add: not_le le_less_trans [where y = 63])
  then show ?thesis using sulfur_read_returns_iff [of ?rd "[]"] by auto
qed

end
