(* ===== verification/SulfurInit.thy ===== *)
theory SulfurInit
  imports SulfurProps
begin

unbundle bit_operations_syntax

section \<open>What eeprom-init puts on the chip\<close>

text \<open>
  The transactions of \<^verbatim>\<open>mpm/tools/eeprom-init.c\<close> with the results the kernel gives them, what they leave on the chip, and every
  field of the image in terms of the arguments and of the bytes that were on the chip before.
\<close>

subsection \<open>The chip\<close>



text \<open>The writes of an image, byte by byte, with their results.\<close>

definition burned :: "(nat \<Rightarrow> int) \<Rightarrow> u8 list \<Rightarrow> transfers" where
  "burned io img = map (\<lambda>i. ([\<lparr>im_addr = 0x50, im_read = False, im_buf = [of_nat i, img ! i]\<rparr>], io i)) [0..<length img]"


lemma burned_fst: "map fst (burned io img) = burn_log img"
  by (simp add: burned_def burn_log_def EEPROM_I2C_ADDR_def)


subsection \<open>The tool\<close>











end
