(* ===== verification/SulfurDb.thy ===== *)
theory SulfurDb
  imports SulfurProps
begin

unbundle bit_operations_syntax

section \<open>EEPROMs of daughterboards\<close>

text \<open>What \<^verbatim>\<open>db-init\<close> writes and \<^verbatim>\<open>db-id\<close> finds, whatever pieces the kernel transfers at a time; and the contract behind it,
  which the structures of both kinds of board meet.\<close>

subsection \<open>Transfers in pieces\<close>

lemma write_object_all:
  "write_object wr k p len ob out = Some r \<Longrightarrow> \<forall>i. wr i \<noteq> None \<Longrightarrow> 0 \<le> p \<Longrightarrow> length ob = nat p + len \<Longrightarrow> out = take (nat p) ob
    \<Longrightarrow> r = Cont ob"
proof (induction rule: write_object.raw_induct [rotated, consumes 1, case_names step])
  case (step f wr k p len ob out r)
  show ?case
  proof (cases "len = 0")
    case True
    then show ?thesis using step.hyps step.prems by simp
  next
    case False
    obtain n where n: "wr k = Some n" using step.prems(1) by blast
    let ?n = "min n len"
    have e: "f wr (k + 1) (p + int ?n) (len - ?n) ob (out @ take ?n (drop (nat p) ob)) = Some r"
      using step.hyps step.prems(2) False by (simp add: n)
    have "out @ take ?n (drop (nat p) ob) = take (nat (p + int ?n)) ob"
      using step.prems(2,4) by (simp add: nat_add_distrib take_add)
    then show ?thesis
      using step.IH [OF e] step.prems(1-3) by (simp add: nat_add_distrib)
  qed
qed

text \<open>The first \<open>n\<close> reads from the \<open>k\<close>-th on, one after another.\<close>

definition stream :: "reads \<Rightarrow> nat \<Rightarrow> nat \<Rightarrow> u8 list" where
  "stream rd k n = concat (map (\<lambda>i. the (rd i)) [k..<k + n])"

lemma stream_Suc: "stream rd k (Suc n) = the (rd k) @ stream rd (Suc k) n"
  by (simp add: stream_def upt_rec)

lemma fill_object_stream:
  "\<forall>i. rd i \<noteq> None \<Longrightarrow> 0 \<le> p \<Longrightarrow> length ob = nat p + len \<Longrightarrow> len \<le> length (stream rd k n)
    \<Longrightarrow> fill_object rd k p len ob = Some (Cont (take (nat p) ob @ take len (stream rd k n)))"
proof (induction n arbitrary: k p len ob)
  case 0
  then show ?case by (subst fill_object.simps) (simp add: stream_def)
next
  case (Suc n)
  obtain bs where bs: "rd k = Some bs" using Suc.prems(1) by blast
  show ?case
  proof (cases "len = 0")
    case False
    let ?bs = "take len bs" and ?p = "p + int (length (take len bs))"
    let ?ob = "take (nat p) ob @ ?bs @ drop (nat p + length ?bs) ob"
    have l: "length ?ob = nat ?p + (len - length ?bs)" "len - length ?bs \<le> length (stream rd (Suc k) n)"
      using Suc.prems(2-4) by (auto simp: stream_Suc bs nat_add_distrib)
    have "fill_object rd (Suc k) ?p (len - length ?bs) ?ob
        = Some (Cont (take (nat ?p) ?ob @ take (len - length ?bs) (stream rd (Suc k) n)))"
      using Suc.IH [OF Suc.prems(1) _ l] Suc.prems(2) by simp
    moreover have "take (nat ?p) ?ob = take (nat p) ob @ ?bs"
      using Suc.prems(2,3) by (simp add: nat_add_distrib min_def)
    moreover have "take len (stream rd k (Suc n)) = ?bs @ take (len - length ?bs) (stream rd (Suc k) n)"
      by (simp add: stream_Suc bs min_def)
    ultimately show ?thesis
      using False Suc.prems(2) by (subst fill_object.simps) (simp add: bs Let_def)
  qed (subst fill_object.simps, use Suc.prems(3) in simp)
qed

subsection \<open>The contract of a stored structure\<close>

locale stored_structure =
  fixes bytes_of :: "'s \<Rightarrow> u8 list" and load :: "mem \<Rightarrow> 's" and size_of :: nat and well_formed :: "'s \<Rightarrow> bool"
  assumes length_bytes: "well_formed x \<Longrightarrow> length (bytes_of x) = size_of"
    and load_bytes: "well_formed x \<Longrightarrow> load (mem_of (bytes_of x)) = x"
begin

lemma bytes_inj: "well_formed x \<Longrightarrow> well_formed y \<Longrightarrow> bytes_of x = bytes_of y \<Longrightarrow> x = y"
  using load_bytes by metis

lemma written:
  assumes "well_formed x" "\<forall>i. wr i \<noteq> None" "object_to_file size_of (Some (bytes_of x)) (Some wr) = Some r"
  shows "r = Cont (bytes_of x)"
  using assms write_object_all [of wr 0 0 size_of "bytes_of x" "[]" r] length_bytes by (simp add: object_to_file_def)

lemma read_back:
  assumes "well_formed x" "\<forall>i. rd i \<noteq> None" "length heap = size_of" "size_of \<le> length (stream rd 0 n)" "take size_of (stream rd 0 n) = bytes_of x"
  shows "\<exists>bs. fill_object rd 0 0 size_of heap = Some (Cont bs) \<and> load (mem_of bs) = x"
  using fill_object_stream [OF assms(2), of 0 heap size_of 0 n] assms load_bytes by simp

end

interpretation motherboard: stored_structure se_bytes "\<lambda>m. se_of m" sizeof_sulfur_eeprom sulfur_ok
  by unfold_locales (simp_all add: length_se_bytes se_of_bytes sizeof_sulfur_eeprom_def)

definition db_ok :: "sulfur_db_eeprom \<Rightarrow> bool" where
  "db_ok ep \<longleftrightarrow> length (sd_serial ep) = 8"

interpretation daughterboard: stored_structure sd_bytes "\<lambda>m. sd_of m" sizeof_sulfur_db_eeprom db_ok
proof
  show "length (sd_bytes ep) = sizeof_sulfur_db_eeprom" if "db_ok ep" for ep
    using that by (simp add: db_ok_def sd_bytes_def sd_body_def sizeof_sulfur_db_eeprom_def)
  show "sd_of (mem_of (sd_bytes ep)) = ep" if "db_ok ep" for ep
  proof -
    have two: "mem_of (a # b # cs) 0 = a" "mem_of (a # b # cs) (Suc 0) = b" for a b :: u8 and cs
      by (simp_all add: mem_of_def)
    have skip: "2 \<le> k \<Longrightarrow> mem_at (mem_of (a # b # cs)) k = mem_at (mem_of cs) (k - 2)"
        "2 \<le> k \<Longrightarrow> le32 (mem_of (a # b # cs)) k = le32 (mem_of cs) (k - 2)" for a b :: u8 and cs k
      using field_skip(2,3) [of "[a, b]" k cs] by (simp_all add: numeral_2_eq_2)
    show ?thesis
      using that by (simp add: db_ok_def sd_of_def sd_bytes_def sd_body_def field_skip field_here two skip)
  qed
qed

text \<open>So what is written to the file of a motherboard's EEPROM is read back from it.\<close>

lemma sulfur_file_roundtrip:
  assumes "sulfur_ok ep" "se_magic ep = swab32 SULFUR_MAGIC" "length heap = 64"
    and "\<forall>i. wr i \<noteq> None" "usrp_sulfur_eeprom_to_file (Some ep) (Some wr) = Some (Cont out)"
    and "\<forall>i. rd i \<noteq> None" "64 \<le> length (stream rd 0 n)" "take 64 (stream rd 0 n) = out"
  shows "usrp_sulfur_eeprom_from_file heap (Some rd) = Some (Cont (Some ep))"
proof -
  have "out = se_bytes ep"
    using motherboard.written [OF assms(1,4)] assms(5) by (simp add: usrp_sulfur_eeprom_to_file_def)
  then obtain bs where "fill_object rd 0 0 sizeof_sulfur_eeprom heap = Some (Cont bs)" "se_of (mem_of bs) = ep"
    using motherboard.read_back [OF assms(1,6), of heap n] assms(3,7,8) by (auto simp: sizeof_sulfur_eeprom_def)
  then show ?thesis using assms(2) by (simp add: usrp_sulfur_eeprom_from_file_def)
qed

subsection \<open>The tools\<close>

lemma db_new_ok: "usrp_sulfur_db_eeprom_new pid rv serial dt = Some ep \<Longrightarrow> db_ok ep"
  by (auto simp: usrp_sulfur_db_eeprom_new_def db_ok_def Let_def split: if_splits)

lemma c_string_serial:
  assumes "length str < 8" "CHR 0x00 \<notin> set str" shows "c_string (strncpy str 8 @ rest) = map char_byte str"
proof -
  have "strncpy str 8 = map char_byte str @ 0 # replicate (7 - length str) 0"
    using assms(1) by (simp add: strncpy_def flip: replicate_Suc)
  then show ?thesis using assms(2) c_string_prefix [of "map char_byte str"] char_byte_0 by force
qed

definition db_product :: "u16 \<Rightarrow> int \<Rightarrow> printed" where
  "db_product pid rv =
     (if pid = 0x150 then Product ''ni,magnesium'' rv else if pid = 0x180 then Product ''ni,eiscat'' rv
      else if pid = 0x152 then Product ''ni,rhodium'' rv else Unknown_product (swab16 pid))"

text \<open>C36. Whatever pieces the kernel writes and reads at a time: if \<^verbatim>\<open>db-init\<close> succeeds and the file of the slot could be opened, then
  \<^verbatim>\<open>db-id\<close>, on a file that begins with what has been written, prints the product, the low byte of the revision plus one, and
  the serial number, if that leaves room for its null character; of an unknown product the identifier has its bytes swapped.\<close>

theorem db_id_after_init:
  assumes init: "db_init_main argv slots = Some (End (Status 0) (slot, out, bs))"
    and wr: "slots slot = Some wr" "\<forall>i. wr i \<noteq> None"
    and rd: "\<forall>i. rd i \<noteq> None" "24 \<le> length (stream rd 0 n)" "take 24 (stream rd 0 n) = bs" "length heap = 24"
    and serial: "length (argv ! 4) < 8" "CHR 0x00 \<notin> set (argv ! 4)"
  shows "db_id_slot (heap, Some rd)
    = Some (Cont [db_product (word_of_int (fst (strtol32 (argv ! 2) 16))) (uint (word_of_int (atoi32 (argv ! 3)) :: u8) + 1),
                  Line (map char_byte (argv ! 4))])"
proof -
  let ?pid = "word_of_int (fst (strtol32 (argv ! 2) 16)) :: u16" and ?rv = "word_of_int (atoi32 (argv ! 3)) :: u16"
  define dt :: u16 where "dt = ucast (word_of_int (if length argv \<ge> 6 then atoi32 (argv ! 5) else get_dt_compat (atoi32 (argv ! 3))) :: u8)"
  define sl :: nat where "sl = (if atoi32 (argv ! 1) = 0 then 0 else 1)"
  let ?new = "usrp_sulfur_db_eeprom_new ?pid ?rv (argv ! 4) dt"
  have "map_option (\<lambda>r. case r of End x bs \<Rightarrow> End x (sl, usrp_sulfur_db_eeprom_print ?new, bs)
        | Cont bs \<Rightarrow> End (Status 0) (sl, usrp_sulfur_db_eeprom_print ?new, bs)) (usrp_sulfur_db_eeprom_to_file ?new (slots sl))
      = Some (End (Status 0) (slot, out, bs))"
    using init unfolding db_init_main_def Let_def dt_def sl_def by (simp split: if_splits)
  then obtain r where r: "usrp_sulfur_db_eeprom_to_file ?new (slots slot) = Some r" "r = Cont bs \<or> r = End (Status 0) bs"
  proof (elim exE conjE map_option_eq_Some [THEN iffD1, THEN exE])
    fix z assume z: "usrp_sulfur_db_eeprom_to_file ?new (slots sl) = Some z"
      "(case z of End x bs \<Rightarrow> End x (sl, usrp_sulfur_db_eeprom_print ?new, bs)
        | Cont bs \<Rightarrow> End (Status 0) (sl, usrp_sulfur_db_eeprom_print ?new, bs)) = End (Status 0) (slot, out, bs)"
    then have "sl = slot" "z = Cont bs \<or> z = End (Status 0) bs" by (cases z; simp)+
    with z(1) show thesis using that by simp
  qed
  obtain ep where ep: "usrp_sulfur_db_eeprom_new ?pid ?rv (argv ! 4) dt = Some ep"
    using r wr by (auto simp: usrp_sulfur_db_eeprom_to_file_def object_to_file_def split: option.splits)
  note ok = db_new_ok [OF ep]
  have rc: "r = Cont (sd_bytes ep)"
    using daughterboard.written [OF ok wr(2)] r(1) wr(1) by (simp add: ep usrp_sulfur_db_eeprom_to_file_def)
  then have bs: "bs = sd_bytes ep" using r(2) by simp
  obtain ob where ob: "fill_object rd 0 0 sizeof_sulfur_db_eeprom heap = Some (Cont ob)" "sd_of (mem_of ob) = ep"
    using daughterboard.read_back [OF ok rd(1), of heap n] rd(2-4) by (auto simp: bs sizeof_sulfur_db_eeprom_def)
  have f: "sd_magic ep = swab32 SULFUR_DB_MAGIC" "sd_version ep = swab32 2" "sd_pid ep = swab16 ?pid" "sd_rev ep = ucast ?rv"
      "sd_serial ep = strncpy (argv ! 4) 8"
    using ep by (auto simp: usrp_sulfur_db_eeprom_new_def Let_def SULFUR_DB_VERSION_def split: if_splits)
  have "drop 12 (sd_bytes ep) = strncpy (argv ! 4) 8 @ put32_le (sd_crc ep)"
    by (simp add: sd_bytes_def sd_body_def f)
  then have "c_string (drop 12 (sd_bytes ep)) = map char_byte (argv ! 4)"
    using c_string_serial [OF serial] by simp
  moreover have "(ucast ?rv :: u8) = word_of_int (atoi32 (argv ! 3))"
    by (rule bit_word_eqI) (auto simp: bit_simps bit_word_of_int_iff)
  ultimately show ?thesis
    by (simp add: db_id_slot_def usrp_sulfur_db_eeprom_from_file_def ob f usrp_sulfur_db_eeprom_print_id_def db_product_def Let_def)
qed

lemma db_id_after_init_witness:
  "\<exists>bs. db_id_slot (replicate 24 0, Some (\<lambda>_. Some bs)) = Some (Cont [Product ''ni,magnesium'' 4, Line (map char_byte ''310A850'')])"
proof -
  let ?argv = "[''db-init'', ''0'', ''0x150'', ''3'', ''310A850'']" and ?wr = "\<lambda>_ :: nat. Some (24 :: nat)"
  have n: "fst (strtol32 ''0x150'' 16) = 0x150" "atoi32 ''3'' = 3" "atoi32 ''0'' = 0"
    by (code_simp, code_simp, code_simp)
  obtain ep where ep: "usrp_sulfur_db_eeprom_new 0x150 3 ''310A850'' 3 = Some ep"
    by (simp add: usrp_sulfur_db_eeprom_new_def Let_def)
  have l: "length (sd_bytes ep) = 24"
    using daughterboard.length_bytes [OF db_new_ok [OF ep]] by (simp add: sizeof_sulfur_db_eeprom_def)
  have "write_object ?wr 0 0 24 (sd_bytes ep) [] = Some (Cont (sd_bytes ep))"
    using l by (simp add: write_object.simps)
  then have i: "db_init_main ?argv (\<lambda>_. Some ?wr) = Some (End (Status 0) (0, usrp_sulfur_db_eeprom_print (Some ep), sd_bytes ep))"
    using ep by (simp add: db_init_main_def n get_dt_compat_def usrp_sulfur_db_eeprom_to_file_def object_to_file_def
        sizeof_sulfur_db_eeprom_def)
  have "stream (\<lambda>_. Some (sd_bytes ep)) 0 1 = sd_bytes ep" by (simp add: stream_def)
  then show ?thesis
    using db_id_after_init [OF i, of ?wr "\<lambda>_. Some (sd_bytes ep)" 1 "replicate 24 0"] l
    by (auto simp: n db_product_def)
qed

end
