(* ===== verification/Enc28j60.thy ===== *)
theory Enc28j60
  imports LeBytes
begin

unbundle bit_operations_syntax

section \<open>Ethernet controller of the OctoClock\<close>

text \<open>
  \<^verbatim>\<open>firmware/octoclock/lib/enc28j60.c\<close>: the driver of the ENC28J60, a controller behind the SPI bus.  While the chip is selected
  it receives one byte for each it sends; as the driver never lets what it sends in one selection depend on what it gets
  in it, the chip is a function, an argument \<open>spi\<close> of the operations, from the bytes of one selection and its state to the bytes
  it answers and its new state.  The waits for the SPI unit are part of a byte.
\<close>

type_synonym 'c spi = "u8 list \<Rightarrow> 'c \<Rightarrow> u8 list \<times> 'c"

record 'c enc28j60 =
  current_bank :: u8
  next_pkt_ptr :: u16
  spi_ddr :: u8
  spi_port :: u8
  spcr :: u8
  spsr :: u8
  chip :: 'c

subsection \<open>Registers and instructions\<close>

text \<open>Bits 5 and 6 of an address are the bank, bit 7 marks registers of the MAC, which answer one byte later.\<close>

definition ADDR_MASK :: u8 where "ADDR_MASK = 0x1F"
definition BANK_MASK :: u8 where "BANK_MASK = 0x60"

definition EIR :: u8 where "EIR = 0x1C"
definition ECON2 :: u8 where "ECON2 = 0x1E"
definition ECON1 :: u8 where "ECON1 = 0x1F"
definition ERDPTL :: u8 where "ERDPTL = 0x00"
definition ERDPTH :: u8 where "ERDPTH = 0x01"
definition EWRPTL :: u8 where "EWRPTL = 0x02"
definition EWRPTH :: u8 where "EWRPTH = 0x03"
definition ETXSTL :: u8 where "ETXSTL = 0x04"
definition ETXSTH :: u8 where "ETXSTH = 0x05"
definition ETXNDL :: u8 where "ETXNDL = 0x06"
definition ETXNDH :: u8 where "ETXNDH = 0x07"
definition ERXSTL :: u8 where "ERXSTL = 0x08"
definition ERXSTH :: u8 where "ERXSTH = 0x09"
definition ERXNDL :: u8 where "ERXNDL = 0x0A"
definition ERXNDH :: u8 where "ERXNDH = 0x0B"
definition ERXRDPTL :: u8 where "ERXRDPTL = 0x0C"
definition ERXRDPTH :: u8 where "ERXRDPTH = 0x0D"
definition EPMM0 :: u8 where "EPMM0 = 0x28"
definition EPMM1 :: u8 where "EPMM1 = 0x29"
definition EPMCSL :: u8 where "EPMCSL = 0x30"
definition EPMCSH :: u8 where "EPMCSH = 0x31"
definition ERXFCON :: u8 where "ERXFCON = 0x38"
definition EPKTCNT :: u8 where "EPKTCNT = 0x39"
definition MACON1 :: u8 where "MACON1 = 0xC0"
definition MACON2 :: u8 where "MACON2 = 0xC1"
definition MACON3 :: u8 where "MACON3 = 0xC2"
definition MABBIPG :: u8 where "MABBIPG = 0xC4"
definition MAIPGL :: u8 where "MAIPGL = 0xC6"
definition MAIPGH :: u8 where "MAIPGH = 0xC7"
definition MAMXFLL :: u8 where "MAMXFLL = 0xCA"
definition MAMXFLH :: u8 where "MAMXFLH = 0xCB"
definition MAADR1 :: u8 where "MAADR1 = 0xE0"
definition MAADR0 :: u8 where "MAADR0 = 0xE1"
definition MAADR3 :: u8 where "MAADR3 = 0xE2"
definition MAADR2 :: u8 where "MAADR2 = 0xE3"
definition MAADR5 :: u8 where "MAADR5 = 0xE4"
definition MAADR4 :: u8 where "MAADR4 = 0xE5"

definition UCEN :: u16 where "UCEN = 0x80"
definition CRCEN :: u16 where "CRCEN = 0x20"
definition PMEN :: u16 where "PMEN = 0x10"
definition BCEN :: u16 where "BCEN = 0x01"
definition TXERIF :: u8 where "TXERIF = 0x02"
definition PKTDEC :: u8 where "PKTDEC = 0x40"
definition TXRST :: u8 where "TXRST = 0x80"
definition TXRTS :: u8 where "TXRTS = 0x08"
definition ENCRXEN :: u8 where "ENCRXEN = 0x04"
definition BSEL1 :: u8 where "BSEL1 = 0x02"
definition BSEL0 :: u8 where "BSEL0 = 0x01"
definition TXPAUS :: u16 where "TXPAUS = 0x08"
definition RXPAUS :: u16 where "RXPAUS = 0x04"
definition MARXEN :: u16 where "MARXEN = 0x01"
definition PADCFG0 :: u8 where "PADCFG0 = 0x20"
definition TXCRCEN :: u8 where "TXCRCEN = 0x10"
definition FRMLNEN :: u8 where "FRMLNEN = 0x02"

definition RCR :: u8 where "RCR = 0x00"
definition RBM :: u8 where "RBM = 0x3A"
definition WCR :: u8 where "WCR = 0x40"
definition WBM :: u8 where "WBM = 0x7A"
definition BFS :: u8 where "BFS = 0x80"
definition BFC :: u8 where "BFC = 0xA0"
definition SC :: u8 where "SC = 0xFF"

definition RXSTART_INIT :: u16 where "RXSTART_INIT = 0x0000"
definition RXSTOP_INIT :: u16 where "RXSTOP_INIT = 0x1FFF - 0x0600 - 1"
definition TXSTART_INIT :: u16 where "TXSTART_INIT = 0x1FFF - 0x0600"
definition TXSTOP_INIT :: u16 where "TXSTOP_INIT = 0x1FFF"
definition MAX_FRAMELEN :: u16 where "MAX_FRAMELEN = 1500"

subsection \<open>Selections\<close>

definition spi_select :: "'c spi \<Rightarrow> u8 list \<Rightarrow> 'c enc28j60 \<Rightarrow> u8 list \<times> 'c enc28j60" where
  "spi_select spi tx s = (let (rx, c) = spi tx (chip s) in (rx, s\<lparr>chip := c\<rparr>))"

definition enc28j60_read_op :: "'c spi \<Rightarrow> u8 \<Rightarrow> u8 \<Rightarrow> 'c enc28j60 \<Rightarrow> u8 \<times> 'c enc28j60" where
  "enc28j60_read_op spi opc addr s =
     (let (rx, s) = spi_select spi ([opc OR (addr AND ADDR_MASK), 0x00] @ (if addr AND 0x80 \<noteq> 0 then [0x00] else [])) s
      in (last rx, s))"

definition enc28j60_write_op :: "'c spi \<Rightarrow> u8 \<Rightarrow> u8 \<Rightarrow> u8 \<Rightarrow> 'c enc28j60 \<Rightarrow> 'c enc28j60" where
  "enc28j60_write_op spi opc addr val s = snd (spi_select spi [opc OR (addr AND ADDR_MASK), val] s)"

text \<open>The bytes stored in the buffer: those received, and a null byte.\<close>

definition enc28j60_read_buffer :: "'c spi \<Rightarrow> u16 \<Rightarrow> 'c enc28j60 \<Rightarrow> u8 list \<times> 'c enc28j60" where
  "enc28j60_read_buffer spi len s =
     (let (rx, s) = spi_select spi (RBM # replicate (unat len) 0x00) s in (tl rx @ [0], s))"

definition enc28j60_write_buffer :: "'c spi \<Rightarrow> mem \<Rightarrow> u16 \<Rightarrow> 'c enc28j60 \<Rightarrow> 'c enc28j60" where
  "enc28j60_write_buffer spi buf len s = snd (spi_select spi (WBM # mem_take buf (unat len)) s)"

definition enc28j60_set_bank :: "'c spi \<Rightarrow> u8 \<Rightarrow> 'c enc28j60 \<Rightarrow> 'c enc28j60" where
  "enc28j60_set_bank spi addr s =
     (if addr AND BANK_MASK \<noteq> current_bank s then
        (let s = enc28j60_write_op spi BFC ECON1 (BSEL1 OR BSEL0) s;
             s = enc28j60_write_op spi BFS ECON1 (drop_bit 5 (addr AND BANK_MASK)) s
         in s\<lparr>current_bank := addr AND BANK_MASK\<rparr>)
      else s)"

definition enc28j60_read :: "'c spi \<Rightarrow> u8 \<Rightarrow> 'c enc28j60 \<Rightarrow> u8 \<times> 'c enc28j60" where
  "enc28j60_read spi addr s = enc28j60_read_op spi RCR addr (enc28j60_set_bank spi addr s)"

definition enc28j60_write :: "'c spi \<Rightarrow> u8 \<Rightarrow> u16 \<Rightarrow> 'c enc28j60 \<Rightarrow> 'c enc28j60" where
  "enc28j60_write spi addr val s = enc28j60_write_op spi WCR addr (ucast val) (enc28j60_set_bank spi addr s)"

definition write_pair :: "'c spi \<Rightarrow> u8 \<Rightarrow> u8 \<Rightarrow> u16 \<Rightarrow> 'c enc28j60 \<Rightarrow> 'c enc28j60" where
  "write_pair spi low high val s = enc28j60_write spi high (drop_bit 8 val) (enc28j60_write spi low (val AND 0xFF) s)"

subsection \<open>Initialisation\<close>

text \<open>The pins and the control register of the SPI unit.\<close>

definition spi_setup :: "'c enc28j60 \<Rightarrow> 'c enc28j60" where
  "spi_setup s =
     (let s = s\<lparr>spi_ddr := spi_ddr s OR 1\<rparr>;
          s = s\<lparr>spi_port := spi_port s OR 1\<rparr>;
          s = s\<lparr>spi_ddr := spi_ddr s OR 6\<rparr>;
          s = s\<lparr>spi_ddr := spi_ddr s AND NOT 8\<rparr>;
          s = s\<lparr>spi_port := spi_port s AND NOT 4\<rparr>;
          s = s\<lparr>spi_port := spi_port s AND NOT 2\<rparr>;
          s = s\<lparr>spcr := 0x50\<rparr>
      in s\<lparr>spsr := spsr s OR 1\<rparr>)"

definition enc28j60_init :: "'c spi \<Rightarrow> u8 list \<Rightarrow> 'c enc28j60 \<Rightarrow> 'c enc28j60" where
  "enc28j60_init spi mac_addr s =
     (let s = spi_setup s;
          s = enc28j60_write_op spi SC 0 SC s;
          s = s\<lparr>next_pkt_ptr := RXSTART_INIT\<rparr>;
          s = write_pair spi ERXSTL ERXSTH RXSTART_INIT s;
          s = write_pair spi ERXNDL ERXNDH RXSTOP_INIT s;
          s = write_pair spi ETXSTL ETXSTH TXSTART_INIT s;
          s = write_pair spi ETXNDL ETXNDH TXSTOP_INIT s;
          s = enc28j60_write spi ERXFCON (((UCEN OR CRCEN) OR PMEN) OR BCEN) s;
          s = enc28j60_write spi EPMM0 0x3F s;
          s = enc28j60_write spi EPMM1 0x30 s;
          s = enc28j60_write spi EPMCSL 0xF9 s;
          s = enc28j60_write spi EPMCSH 0xF7 s;
          s = enc28j60_write spi MACON1 ((MARXEN OR TXPAUS) OR RXPAUS) s;
          s = enc28j60_write spi MACON2 0x00 s;
          s = enc28j60_write_op spi BFS MACON3 ((PADCFG0 OR TXCRCEN) OR FRMLNEN) s;
          s = enc28j60_write spi MAIPGL 0x12 s;
          s = enc28j60_write spi MAIPGH 0x0C s;
          s = enc28j60_write spi MABBIPG 0x12 s;
          s = write_pair spi MAMXFLL MAMXFLH MAX_FRAMELEN s;
          s = enc28j60_write spi MAADR5 (ucast (mac_addr ! 0)) s;
          s = enc28j60_write spi MAADR4 (ucast (mac_addr ! 1)) s;
          s = enc28j60_write spi MAADR3 (ucast (mac_addr ! 2)) s;
          s = enc28j60_write spi MAADR2 (ucast (mac_addr ! 3)) s;
          s = enc28j60_write spi MAADR1 (ucast (mac_addr ! 4)) s;
          s = enc28j60_write spi MAADR0 (ucast (mac_addr ! 5)) s;
          s = enc28j60_set_bank spi ECON1 s
      in enc28j60_write_op spi BFS ECON1 ENCRXEN s)"

subsection \<open>Receiving\<close>

text \<open>\<^verbatim>\<open>enc28j60_read_op(RBM, 0) | (enc28j60_read_op(RBM, 0) << 8)\<close>: the language leaves the order of the two reads open; the
  model has the one that makes sense, from left to right.\<close>

definition read_u16 :: "'c spi \<Rightarrow> 'c enc28j60 \<Rightarrow> u16 \<times> 'c enc28j60" where
  "read_u16 spi s =
     (let (lo, s) = enc28j60_read_op spi RBM 0 s;
          (hi, s) = enc28j60_read_op spi RBM 0 s
      in (ucast lo OR push_bit 8 (ucast hi), s))"

definition free_packet :: "'c spi \<Rightarrow> 'c enc28j60 \<Rightarrow> 'c enc28j60" where
  "free_packet spi s =
     (let s = write_pair spi ERXRDPTL ERXRDPTH (next_pkt_ptr s) s;
          s = (if next_pkt_ptr s - 1 < RXSTART_INIT \<or> next_pkt_ptr s - 1 > RXSTOP_INIT then write_pair spi ERXRDPTL ERXRDPTH RXSTOP_INIT s
               else write_pair spi ERXRDPTL ERXRDPTH (next_pkt_ptr s - 1) s)
      in enc28j60_write_op spi BFS ECON2 PKTDEC s)"

text \<open>The length returned and the bytes stored at the start of \<^verbatim>\<open>buf\<close>.\<close>

definition enc28j60_recv :: "'c spi \<Rightarrow> u16 \<Rightarrow> 'c enc28j60 \<Rightarrow> u16 \<times> u8 list \<times> 'c enc28j60" where
  "enc28j60_recv spi max_len s =
     (let (n, s) = enc28j60_read spi EPKTCNT s in
      if n = 0 then (0, [], s)
      else (let s = write_pair spi ERDPTL ERDPTH (next_pkt_ptr s) s;
                (p, s) = read_u16 spi s;
                s = s\<lparr>next_pkt_ptr := p\<rparr>;
                (len, s) = read_u16 spi s;
                len = len - 4;
                (rxstat, s) = read_u16 spi s;
                len = (if len > max_len - 1 then max_len - 1 else len);
                (len, bs, s) = (if rxstat AND 0x80 = 0 then (0, [], s)
                                else (let (bs, s) = enc28j60_read_buffer spi len s in (len, bs, s)))
            in (len, bs, free_packet spi s)))"

subsection \<open>Sending\<close>

partial_function (option) wait_transmitter :: "'c spi \<Rightarrow> 'c enc28j60 \<Rightarrow> 'c enc28j60 option" where
  "wait_transmitter spi s =
     (let (econ1, s) = enc28j60_read_op spi RCR ECON1 s in
      if econ1 AND TXRTS = 0 then Some s
      else (let (eir, s) = enc28j60_read spi EIR s;
                s = (if eir AND TXERIF \<noteq> 0 then enc28j60_write_op spi BFC ECON1 TXRST (enc28j60_write_op spi BFS ECON1 TXRST s) else s)
            in wait_transmitter spi s))"

definition enc28j60_send :: "'c spi \<Rightarrow> mem \<Rightarrow> u16 \<Rightarrow> 'c enc28j60 \<Rightarrow> 'c enc28j60 option" where
  "enc28j60_send spi buf len s =
     map_option (\<lambda>s.
       let s = write_pair spi EWRPTL EWRPTH TXSTART_INIT s;
           s = write_pair spi ETXNDL ETXNDH (TXSTART_INIT + len) s;
           s = enc28j60_write_op spi WBM 0 0x00 s;
           s = enc28j60_write_buffer spi buf len s
       in enc28j60_write_op spi BFS ECON1 TXRTS s)
      (wait_transmitter spi s)"

end
