(* ===== verification/Enc28j60Chip.thy ===== *)
theory Enc28j60Chip
  imports Enc28j60
begin

unbundle bit_operations_syntax

section \<open>The Ethernet controller behind its driver\<close>

text \<open>
  The chip as its data sheet describes it, as far as the driver uses it: registers by bank and address, those from 0x1B on in every
  bank, and the buffer memory with its read pointer, which stays in the receive ring, and its write pointer.
\<close>

record enc_chip =
  eregs :: "u8 \<Rightarrow> u8"
  eram :: "u16 \<Rightarrow> u8"

definition chip_key :: "enc_chip \<Rightarrow> u8 \<Rightarrow> u8" where
  "chip_key c a = (if a \<ge> 0x1B then a else push_bit 5 (eregs c ECON1 AND 3) OR a)"

definition reg16 :: "enc_chip \<Rightarrow> u8 \<Rightarrow> u16" where
  "reg16 c low = word_cat (eregs c (low + 1)) (eregs c low)"

definition set_reg16 :: "u8 \<Rightarrow> u16 \<Rightarrow> enc_chip \<Rightarrow> enc_chip" where
  "set_reg16 low v c = c\<lparr>eregs := (eregs c)(low := lo8 v, low + 1 := hi8 v)\<rparr>"

definition chip_put :: "u8 \<Rightarrow> u8 \<Rightarrow> enc_chip \<Rightarrow> enc_chip" where
  "chip_put k v c =
     (if k = ECON2 \<and> v AND PKTDEC \<noteq> 0 then
        c\<lparr>eregs := (eregs c)(ECON2 := v AND NOT PKTDEC, EPKTCNT := eregs c EPKTCNT - 1)\<rparr>
      else c\<lparr>eregs := (eregs c)(k := v)\<rparr>)"

definition ring_next :: "enc_chip \<Rightarrow> u16 \<Rightarrow> u16" where
  "ring_next c p = (if p = reg16 c ERXNDL then reg16 c ERXSTL else p + 1)"

fun ring_bytes :: "enc_chip \<Rightarrow> u16 \<Rightarrow> nat \<Rightarrow> u8 list" where
  "ring_bytes c p 0 = []"
| "ring_bytes c p (Suc n) = eram c p # ring_bytes c (ring_next c p) n"

fun put_ram :: "u16 \<Rightarrow> u8 list \<Rightarrow> (u16 \<Rightarrow> u8) \<Rightarrow> (u16 \<Rightarrow> u8)" where
  "put_ram p [] m = m"
| "put_ram p (b # bs) m = put_ram (p + 1) bs (m(p := b))"

definition slow_register :: "u8 \<Rightarrow> bool" where
  "slow_register k \<longleftrightarrow> k AND 0x60 = 0x40 \<and> k AND 0x1F < 0x1B \<or> k \<in> {0x60, 0x61, 0x62, 0x63, 0x64, 0x65, 0x6A}"

fun chip_step :: "u8 list \<Rightarrow> enc_chip \<Rightarrow> u8 list \<times> enc_chip" where
  "chip_step [] c = ([], c)"
| "chip_step (b # bs) c =
     (let k = chip_key c (b AND 0x1F); v = eregs c k; opc = b AND 0xE0; n = length bs
      in if b = 0xFF then (replicate (Suc n) 0, c\<lparr>eregs := (\<lambda>_. 0)(ECON2 := 0x80)\<rparr>)
         else if opc = 0x00 then (take (Suc n) (0 # (if slow_register k then [0] else []) @ replicate n v), c)
         else if opc = 0x20 then (0 # ring_bytes c (reg16 c ERDPTL) n, set_reg16 ERDPTL ((ring_next c ^^ n) (reg16 c ERDPTL)) c)
         else if opc = 0x60 then
           (replicate (Suc n) 0, set_reg16 EWRPTL (reg16 c EWRPTL + of_nat n) (c\<lparr>eram := put_ram (reg16 c EWRPTL) bs (eram c)\<rparr>))
         else (replicate (Suc n) 0,
           chip_put k (if opc = 0x40 then hd bs else if opc = 0x80 then v OR hd bs else v AND NOT (hd bs)) c))"

lemmas enc_defs = ADDR_MASK_def BANK_MASK_def EIR_def ECON2_def ECON1_def ERDPTL_def ERDPTH_def EWRPTL_def EWRPTH_def
  ETXSTL_def ETXSTH_def ETXNDL_def ETXNDH_def ERXSTL_def ERXSTH_def ERXNDL_def ERXNDH_def ERXRDPTL_def ERXRDPTH_def EPMM0_def
  EPMM1_def EPMCSL_def EPMCSH_def ERXFCON_def EPKTCNT_def MACON1_def MACON2_def MACON3_def MABBIPG_def MAIPGL_def MAIPGH_def
  MAMXFLL_def MAMXFLH_def MAADR0_def MAADR1_def MAADR2_def MAADR3_def MAADR4_def MAADR5_def UCEN_def CRCEN_def PMEN_def BCEN_def
  TXERIF_def PKTDEC_def TXRST_def TXRTS_def ENCRXEN_def BSEL1_def BSEL0_def TXPAUS_def RXPAUS_def MARXEN_def PADCFG0_def
  TXCRCEN_def FRMLNEN_def RCR_def RBM_def WCR_def WBM_def BFS_def BFC_def SC_def RXSTART_INIT_def RXSTOP_INIT_def
  TXSTART_INIT_def TXSTOP_INIT_def MAX_FRAMELEN_def

subsection \<open>Banks\<close>

text \<open>The bank the driver thinks selected is the one selected.\<close>

definition bank_ok :: "enc_chip enc28j60 \<Rightarrow> bool" where
  "bank_ok s \<longleftrightarrow> current_bank s = push_bit 5 (eregs (chip s) ECON1 AND 3)"

definition with_bank :: "u8 \<Rightarrow> enc_chip \<Rightarrow> enc_chip" where
  "with_bank b c = c\<lparr>eregs := (eregs c)(ECON1 := (eregs c ECON1 AND NOT 3) OR b)\<rparr>"

lemma mask_3: "(3 :: u8) = mask 2" and mask_7F: "(0x7F :: u8) = mask 7" and mask_1F: "(0x1F :: u8) = mask 5"
  by (simp_all add: mask_eq_exp_minus_1)

lemma mask_60: "(0x60 :: u8) = push_bit 5 (mask 2)"
  by (simp add: mask_eq_exp_minus_1 push_bit_eq_mult)

lemma bank_bits:
  fixes e b addr :: u8
  shows "(e AND NOT 3) OR (e AND 3) = e" "drop_bit 5 (push_bit 5 (e AND 3)) = e AND 3"
    "((e AND NOT 3) OR drop_bit 5 (addr AND 0x60)) AND 3 = drop_bit 5 (addr AND 0x60)"
    "push_bit 5 (drop_bit 5 (addr AND 0x60)) = addr AND 0x60"
    "(addr AND 0x60) OR (addr AND 0x1F) = addr AND 0x7F"
  unfolding mask_3 mask_60 mask_7F mask_1F
  by (intro bit_word_eqI; auto simp: bit_simps)+

lemma set_bank_chip:
  assumes "bank_ok s"
  shows "enc28j60_set_bank chip_step addr s = s\<lparr>chip := with_bank (drop_bit 5 (addr AND 0x60)) (chip s), current_bank := addr AND 0x60\<rparr>"
proof (cases "addr AND 0x60 = current_bank s")
  case True
  then have "drop_bit 5 (addr AND 0x60) = eregs (chip s) ECON1 AND 3"
    using assms bank_bits(2) by (simp add: bank_ok_def)
  then have "with_bank (drop_bit 5 (addr AND 0x60)) (chip s) = chip s"
    using bank_bits(1) [of "eregs (chip s) ECON1"] by (simp add: with_bank_def)
  then show ?thesis using True by (simp add: enc28j60_set_bank_def enc_defs)
next
  case False
  then show ?thesis
    by (simp add: enc28j60_set_bank_def enc28j60_write_op_def spi_select_def chip_key_def chip_put_def with_bank_def Let_def
        enc_defs)
qed

text \<open>A register address below the common ones, and the register it names in the bank it selects.\<close>

abbreviation banked :: "u8 \<Rightarrow> bool" where
  "banked addr \<equiv> addr AND 0x1F < 0x1B"

lemma key_with_bank:
  assumes "banked addr"
  shows "chip_key (with_bank (drop_bit 5 (addr AND 0x60)) c) (addr AND 0x1F) = addr AND 0x7F"
proof -
  have "chip_key (with_bank (drop_bit 5 (addr AND 0x60)) c) (addr AND 0x1F)
      = push_bit 5 (((eregs c ECON1 AND NOT 3) OR drop_bit 5 (addr AND 0x60)) AND 3) OR (addr AND 0x1F)"
    using assms by (simp add: chip_key_def with_bank_def)
  then show ?thesis by (simp only: bank_bits(3-5))
qed

lemma bank_ok_with_bank: "bank_ok (s\<lparr>chip := with_bank (drop_bit 5 (addr AND 0x60)) c, current_bank := addr AND 0x60\<rparr>)"
proof -
  have "eregs (with_bank (drop_bit 5 (addr AND 0x60)) c) ECON1 AND 3 = drop_bit 5 (addr AND 0x60)"
    using bank_bits(3) [of "eregs c ECON1" addr] by (simp add: with_bank_def)
  then show ?thesis by (simp add: bank_ok_def bank_bits(4) del: drop_bit_and)
qed

lemma set_bank_ok: "bank_ok s \<Longrightarrow> bank_ok (enc28j60_set_bank chip_step addr s)"
  by (simp only: set_bank_chip bank_ok_with_bank)

lemma bit_opcodes:
  "bit (0x40 :: u8) n \<longleftrightarrow> n = 6" "bit (0x80 :: u8) n \<longleftrightarrow> n = 7" "bit (0xA0 :: u8) n \<longleftrightarrow> n = 5 \<or> n = 7"
  "bit (0xE0 :: u8) n \<longleftrightarrow> 5 \<le> n \<and> n < 8" "bit (0x1F :: u8) n \<longleftrightarrow> n < 5"
proof -
  have "\<forall>n \<in> set [0..<8]. bit (0x40 :: u8) n = (n = 6) \<and> bit (0x80 :: u8) n = (n = 7) \<and> bit (0xA0 :: u8) n = (n = 5 \<or> n = 7)
      \<and> bit (0xE0 :: u8) n = (5 \<le> n \<and> n < 8) \<and> bit (0x1F :: u8) n = (n < 5)"
    by (simp add: upt_rec)
  then show "bit (0x40 :: u8) n \<longleftrightarrow> n = 6" "bit (0x80 :: u8) n \<longleftrightarrow> n = 7" "bit (0xA0 :: u8) n \<longleftrightarrow> n = 5 \<or> n = 7"
    "bit (0xE0 :: u8) n \<longleftrightarrow> 5 \<le> n \<and> n < 8" "bit (0x1F :: u8) n \<longleftrightarrow> n < 5"
    by (cases "n < 8"; auto dest: bit_imp_le_length)+
qed

lemma opcode_bits:
  fixes addr :: u8
  shows "(0x40 OR (addr AND 0x1F)) AND 0xE0 = 0x40" "(0x80 OR (addr AND 0x1F)) AND 0xE0 = 0x80"
    "(0xA0 OR (addr AND 0x1F)) AND 0xE0 = 0xA0" "(addr AND 0x1F) AND 0xE0 = 0x00"
    "(0x40 OR (addr AND 0x1F)) AND 0x1F = addr AND 0x1F" "(0x80 OR (addr AND 0x1F)) AND 0x1F = addr AND 0x1F"
    "(0xA0 OR (addr AND 0x1F)) AND 0x1F = addr AND 0x1F" "(addr AND 0x1F) AND 0x1F = addr AND 0x1F"
  by (intro bit_word_eqI; simp only: bit_and_iff bit_or_iff bit_0_eq bot_apply bit_opcodes; auto)+

subsection \<open>Register accesses\<close>

definition put_reg :: "u8 \<Rightarrow> u8 \<Rightarrow> enc_chip \<Rightarrow> enc_chip" where
  "put_reg addr v c =
     (let c = with_bank (drop_bit 5 (addr AND 0x60)) c in c\<lparr>eregs := (eregs c)(addr AND 0x7F := v)\<rparr>)"

lemma low_bits: "(addr AND 0x7F) AND 0x1F = addr AND (0x1F :: u8)"
  unfolding mask_7F mask_1F by (intro bit_word_eqI) (auto simp: bit_simps)

lemma banked_key: "banked addr \<Longrightarrow> addr AND 0x7F \<notin> {EIR, ECON2, ECON1}"
  using low_bits [of addr] by (auto simp: enc_defs)

lemma eregs_put_reg: "k \<noteq> ECON1 \<Longrightarrow> eregs (put_reg addr v c) k = (if k = addr AND 0x7F then v else eregs c k)"
  by (simp add: put_reg_def with_bank_def Let_def)

lemma put_reg_frame [simp]: "eram (put_reg addr v c) = eram c"
  by (simp add: put_reg_def with_bank_def Let_def)

lemma put_reg_ECON1: "banked addr \<Longrightarrow> eregs (put_reg addr v c) ECON1 AND NOT 3 = eregs c ECON1 AND NOT 3"
proof -
  assume b: "banked addr"
  have e: "((x AND NOT 3) OR drop_bit 5 (addr AND 0x60)) AND NOT 3 = x AND NOT 3" for x
    unfolding mask_3 mask_60 by (intro bit_word_eqI) (auto simp: bit_simps)
  have "eregs (put_reg addr v c) ECON1 = (eregs c ECON1 AND NOT 3) OR drop_bit 5 (addr AND 0x60)"
    using banked_key [OF b] by (auto simp: put_reg_def with_bank_def Let_def)
  then show ?thesis by (simp only: e)
qed

lemma write_chip:
  assumes "bank_ok s" "banked addr"
  shows "enc28j60_write chip_step addr v s = s\<lparr>chip := put_reg addr (ucast v) (chip s), current_bank := addr AND 0x60\<rparr>"
proof -
  let ?c = "with_bank (drop_bit 5 (addr AND 0x60)) (chip s)"
  have n: "0x40 OR (addr AND 0x1F) \<noteq> 0xFF" using opcode_bits(1) [of addr] by force
  have "snd (chip_step [0x40 OR (addr AND 0x1F), ucast v] ?c) = chip_put (addr AND 0x7F) (ucast v) ?c"
    by (simp only: chip_step.simps Let_def n if_False opcode_bits key_with_bank [OF assms(2)]) simp
  moreover have "chip_put (addr AND 0x7F) (ucast v) ?c = put_reg addr (ucast v) (chip s)"
    using banked_key [OF assms(2)] by (simp add: chip_put_def put_reg_def Let_def)
  ultimately show ?thesis
    by (simp add: enc28j60_write_def set_bank_chip [OF assms(1)] enc28j60_write_op_def spi_select_def case_prod_unfold
        WCR_def ADDR_MASK_def del: chip_step.simps)
qed

lemma write_bank_ok:
  assumes "bank_ok s" "banked addr" shows "bank_ok (enc28j60_write chip_step addr v s)"
proof -
  have "eregs (put_reg addr (ucast v) (chip s)) ECON1 = eregs (with_bank (drop_bit 5 (addr AND 0x60)) (chip s)) ECON1"
    using banked_key [OF assms(2)] by (auto simp: put_reg_def Let_def)
  then show ?thesis
    using bank_ok_with_bank [where s = s and addr = addr and c = "chip s"] by (simp add: write_chip [OF assms] bank_ok_def)
qed

text \<open>Several writes one after another.\<close>

fun writes :: "(u8 \<times> u16) list \<Rightarrow> enc_chip enc28j60 \<Rightarrow> enc_chip enc28j60" where
  "writes [] s = s"
| "writes ((a, v) # ws) s = writes ws (enc28j60_write chip_step a v s)"

lemma writes_pair: "writes ws (write_pair chip_step low high v s) = writes ((low, v AND 0xFF) # (high, drop_bit 8 v) # ws) s"
  by (simp add: write_pair_def)

definition all_banked :: "(u8 \<times> u16) list \<Rightarrow> bool" where
  "all_banked ws \<longleftrightarrow> (\<forall>(a, v) \<in> set ws. banked a)"

lemma writes_effect:
  "bank_ok s \<Longrightarrow> all_banked ws \<Longrightarrow>
     bank_ok (writes ws s) \<and> next_pkt_ptr (writes ws s) = next_pkt_ptr s \<and> eram (chip (writes ws s)) = eram (chip s)
     \<and> eregs (chip (writes ws s)) ECON1 AND NOT 3 = eregs (chip s) ECON1 AND NOT 3
     \<and> (\<forall>k. k \<noteq> ECON1 \<longrightarrow> eregs (chip (writes ws s)) k = foldl (\<lambda>x (a, v). if k = a AND 0x7F then ucast v else x) (eregs (chip s) k) ws)"
proof (induction ws arbitrary: s)
  case (Cons w ws)
  obtain a v where w: "w = (a, v)" by force
  have b: "banked a" "all_banked ws" using Cons.prems(2) by (simp_all add: w all_banked_def)
  note wr = write_chip [OF Cons.prems(1) b(1), of v]
  show ?case
    using Cons.IH [OF write_bank_ok [OF Cons.prems(1) b(1)] b(2), of v] put_reg_ECON1 [OF b(1)]
    by (simp add: w wr eregs_put_reg)
qed simp

lemma reg16_writes:
  assumes "bank_ok s" "all_banked ws" "low \<noteq> ECON1" "low + 1 \<noteq> ECON1"
  shows "reg16 (chip (writes ws s)) low
    = word_cat (foldl (\<lambda>x (a, v). if low + 1 = a AND 0x7F then ucast v else x) (eregs (chip s) (low + 1)) ws)
               (foldl (\<lambda>x (a, v). if low = a AND 0x7F then ucast v else x) (eregs (chip s) low) ws)"
  using writes_effect [OF assms(1,2)] assms(3,4) by (simp add: reg16_def)

lemma word_bytes: "word_cat (ucast (drop_bit 8 v) :: u8) (ucast (v AND 0xFF) :: u8) = (v :: u16)"
proof -
  have m: "(0xFF :: u16) = mask 8" by (simp add: mask_eq_exp_minus_1)
  have "(ucast (v AND 0xFF) :: u8) = lo8 v"
    unfolding lo8_def m by (intro bit_word_eqI) (auto simp: bit_simps)
  then show ?thesis using cat_hi8_lo8 [of v] by (simp add: hi8_def)
qed

end
