(* ===== verification/Enc28j60Props.thy ===== *)
theory Enc28j60Props
  imports Enc28j60Chip
begin

unbundle bit_operations_syntax

section \<open>What the driver of the Ethernet controller does to the chip\<close>

text \<open>Sending, receiving and initialisation, on the chip of theory \<open>Enc28j60Chip\<close>; the bound of what is stored holds for any chip.\<close>

subsection \<open>Sending\<close>

lemma put_ram_other: "(\<forall>i < length bs. q \<noteq> p + of_nat i) \<Longrightarrow> put_ram p bs m q = m q"
proof (induction bs arbitrary: p m)
  case (Cons b bs)
  have "q \<noteq> p" using Cons.prems by (auto dest: spec [of _ 0])
  moreover have "\<forall>i < length bs. q \<noteq> p + 1 + of_nat i" using Cons.prems by (auto dest: spec [of _ "Suc _"] simp: add.assoc)
  ultimately show ?case using Cons.IH [of "p + 1" "m(p := b)"] by (simp del: fun_upd_apply) simp
qed simp

lemma of_nat_u16_eq_0: "0 < n \<Longrightarrow> n < 65536 \<Longrightarrow> of_nat n \<noteq> (0 :: u16)"
proof
  assume "0 < n" "n < 65536" "of_nat n = (0 :: u16)"
  then have "unat (of_nat n :: u16) = 0" by simp
  then show False using \<open>0 < n\<close> \<open>n < 65536\<close> by (simp only: unat_of_nat) (simp add: take_bit_nat_eq_self)
qed

lemma put_ram_at: "length bs \<le> 65536 \<Longrightarrow> i < length bs \<Longrightarrow> put_ram p bs m (p + of_nat i) = bs ! i"
proof (induction bs arbitrary: p m i)
  case (Cons b bs)
  show ?case
  proof (cases i)
    case 0
    have "p \<noteq> p + 1 + of_nat j" if "j < length bs" for j
      using of_nat_u16_eq_0 [of "Suc j"] that Cons.prems(1) by (simp add: add.assoc)
    then show ?thesis using put_ram_other [of bs p "p + 1" "m(p := b)"] 0 by simp
  next
    case (Suc j)
    then show ?thesis using Cons.IH [of j "p + 1" "m(p := b)"] Cons.prems by (simp add: add.assoc del: fun_upd_apply)
  qed
qed simp

lemma set_reg16_simps [simp]:
  "eram (set_reg16 low v c) = eram c" "k \<notin> {low, low + 1} \<Longrightarrow> eregs (set_reg16 low v c) k = eregs c k"
  by (simp_all add: set_reg16_def)

lemma reg16_set_same [simp]: "reg16 (set_reg16 low v c) low = v"
  by (simp add: set_reg16_def reg16_def bytes_simps)

lemma transmitter_idle:
  "eregs (chip s) ECON1 AND TXRTS = 0 \<Longrightarrow> wait_transmitter chip_step s = Some s"
  by (subst wait_transmitter.simps)
    (simp add: enc28j60_read_op_def spi_select_def chip_key_def slow_register_def enc_defs)

lemma write_op_WBM:
  "enc28j60_write_op chip_step WBM 0 v s
    = s\<lparr>chip := set_reg16 EWRPTL (reg16 (chip s) EWRPTL + 1) (chip s\<lparr>eram := (eram (chip s))(reg16 (chip s) EWRPTL := v)\<rparr>)\<rparr>"
  by (simp add: enc28j60_write_op_def spi_select_def WBM_def ADDR_MASK_def Let_def)

lemma write_buffer_chip:
  "enc28j60_write_buffer chip_step buf len s
    = s\<lparr>chip := set_reg16 EWRPTL (reg16 (chip s) EWRPTL + len) (chip s\<lparr>eram := put_ram (reg16 (chip s) EWRPTL) (mem_take buf (unat len)) (eram (chip s))\<rparr>)\<rparr>"
  by (simp add: enc28j60_write_buffer_def spi_select_def WBM_def Let_def)

lemma set_econ1_bits:
  "enc28j60_write_op chip_step BFS ECON1 v s = s\<lparr>chip := (chip s)\<lparr>eregs := (eregs (chip s))(ECON1 := eregs (chip s) ECON1 OR v)\<rparr>\<rparr>"
  by (simp add: enc28j60_write_op_def spi_select_def chip_key_def chip_put_def enc_defs Let_def)

lemma set_reg16_again [simp]: "set_reg16 low v ((set_reg16 low w c)\<lparr>eram := m\<rparr>) = set_reg16 low v (c\<lparr>eram := m\<rparr>)"
  by (simp add: set_reg16_def)

lemma reg16_eram [simp]: "reg16 (c\<lparr>eram := m\<rparr>) k = reg16 c k"
  by (simp add: reg16_def)

text \<open>C38. Sending, with the transmitter idle and a frame that fits: the chip's transmit buffer holds the control byte and the frame,
  the end of the frame is programmed, and the transmission has been requested; what has been received, the other registers and
  the record of the bank are as before.\<close>

theorem enc_frame_sent:
  assumes "bank_ok s" "eregs (chip s) ECON1 AND TXRTS = 0" "unat len \<le> 1536"
  shows "\<exists>t. enc28j60_send chip_step buf len s = Some t \<and> bank_ok t
    \<and> map (\<lambda>i. eram (chip t) (TXSTART_INIT + of_nat i)) [0..<Suc (unat len)] = 0 # mem_take buf (unat len)
    \<and> reg16 (chip t) ETXNDL = TXSTART_INIT + len \<and> eregs (chip t) ECON1 AND TXRTS \<noteq> 0
    \<and> (\<forall>p \<le> RXSTOP_INIT. eram (chip t) p = eram (chip s) p)
    \<and> (\<forall>k. k \<notin> {ECON1, EWRPTL, EWRPTH, ETXNDL, ETXNDH} \<longrightarrow> eregs (chip t) k = eregs (chip s) k)"
proof -
  let ?ws = "[(EWRPTL, TXSTART_INIT AND 0xFF), (EWRPTH, drop_bit 8 TXSTART_INIT),
    (ETXNDL, (TXSTART_INIT + len) AND 0xFF), (ETXNDH, drop_bit 8 (TXSTART_INIT + len))]"
  define u where "u = writes ?ws s"
  have ab: "all_banked ?ws" by (simp add: all_banked_def enc_defs)
  note we = writes_effect [OF assms(1) ab, folded u_def] and wr = reg16_writes [OF assms(1) ab, folded u_def]
  have wp: "reg16 (chip u) EWRPTL = TXSTART_INIT" "reg16 (chip u) ETXNDL = TXSTART_INIT + len"
    using wr [of EWRPTL] wr [of ETXNDL] word_bytes [of "TXSTART_INIT + len"] word_bytes [of "TXSTART_INIT"]
    by (simp_all add: enc_defs)
  let ?c = "set_reg16 EWRPTL (TXSTART_INIT + 1 + len)
    (chip u\<lparr>eram := put_ram TXSTART_INIT (0 # mem_take buf (unat len)) (eram (chip s))\<rparr>)"
  let ?t = "u\<lparr>chip := ?c\<lparr>eregs := (eregs ?c)(ECON1 := eregs (chip u) ECON1 OR TXRTS)\<rparr>\<rparr>"
  have pairs: "write_pair chip_step ETXNDL ETXNDH (TXSTART_INIT + len) (write_pair chip_step EWRPTL EWRPTH TXSTART_INIT s) = u"
    by (simp add: u_def write_pair_def)
  have send: "enc28j60_send chip_step buf len s = Some ?t"
    using wp(1) we
    by (simp add: enc28j60_send_def transmitter_idle [OF assms(2)] pairs write_op_WBM write_buffer_chip set_econ1_bits Let_def)
       (simp add: enc_defs)
  have ram: "eram (chip ?t) = put_ram TXSTART_INIT (0 # mem_take buf (unat len)) (eram (chip s))" by simp
  have "map (\<lambda>i. eram (chip ?t) (TXSTART_INIT + of_nat i)) [0..<Suc (unat len)] = 0 # mem_take buf (unat len)"
    unfolding ram using assms(3) put_ram_at [of "0 # mem_take buf (unat len)" _ TXSTART_INIT "eram (chip s)"]
    by (intro nth_equalityI) (simp_all del: put_ram.simps upt_Suc)
  moreover have "eram (chip ?t) p = eram (chip s) p" if "p \<le> RXSTOP_INIT" for p
  proof -
    have "p \<noteq> TXSTART_INIT + of_nat i" if "i \<le> 1536" for i
    proof -
      have "unat (TXSTART_INIT + of_nat i) = 0x19FF + i"
        using that by (simp add: enc_defs unat_word_ariths unat_of_nat take_bit_nat_eq_self)
      moreover have "unat p \<le> 0x19FE" using \<open>p \<le> RXSTOP_INIT\<close> by (simp add: enc_defs word_le_nat_alt)
      ultimately show ?thesis by auto
    qed
    then show ?thesis unfolding ram using assms(3) by (intro put_ram_other) simp
  qed
  moreover have "bank_ok ?t"
    using we by (simp add: bank_ok_def bit.conj_disj_distrib2 enc_defs set_reg16_def)
  moreover have "reg16 (chip ?t) ETXNDL = TXSTART_INIT + len"
    using wp(2) by (simp add: reg16_def set_reg16_def enc_defs)
  moreover have "eregs (chip ?t) ECON1 AND TXRTS \<noteq> 0" by (simp add: bit.conj_disj_distrib2 TXRTS_def)
  moreover have "eregs (chip ?t) k = eregs (chip s) k" if "k \<notin> {ECON1, EWRPTL, EWRPTH, ETXNDL, ETXNDH}" for k
    using we that by (simp add: set_reg16_def enc_defs)
  ultimately show ?thesis using send by (intro exI [of _ ?t]) blast
qed

subsection \<open>Receiving\<close>

lemma ring_cong:
  assumes "reg16 c ERXNDL = reg16 d ERXNDL" "reg16 c ERXSTL = reg16 d ERXSTL" "eram c = eram d"
  shows "ring_next c p = ring_next d p" "ring_bytes c p n = ring_bytes d p n"
proof -
  show n: "ring_next c p = ring_next d p" for p using assms by (simp add: ring_next_def)
  show "ring_bytes c p n = ring_bytes d p n" by (induction n arbitrary: p) (simp_all add: n assms(3))
qed

lemma reg16_set_other: "k \<notin> {low, low + 1} \<Longrightarrow> k + 1 \<notin> {low, low + 1} \<Longrightarrow> reg16 (set_reg16 low v c) k = reg16 c k"
  by (simp add: reg16_def)

lemma set_reg16_set [simp]: "set_reg16 low v (set_reg16 low w c) = set_reg16 low v c"
  by (simp add: set_reg16_def)

lemma ring_set_ptr [simp]: "ring_next (set_reg16 ERDPTL v c) = ring_next c" "ring_bytes (set_reg16 ERDPTL v c) p n = ring_bytes c p n"
proof -
  have "reg16 (set_reg16 ERDPTL v c) ERXNDL = reg16 c ERXNDL" "reg16 (set_reg16 ERDPTL v c) ERXSTL = reg16 c ERXSTL"
    by (simp_all add: reg16_set_other enc_defs)
  then show "ring_next (set_reg16 ERDPTL v c) = ring_next c" "ring_bytes (set_reg16 ERDPTL v c) p n = ring_bytes c p n"
    using ring_cong [of "set_reg16 ERDPTL v c" c] by auto
qed

lemma read_op_RBM:
  "enc28j60_read_op chip_step RBM 0 s
    = (eram (chip s) (reg16 (chip s) ERDPTL), s\<lparr>chip := set_reg16 ERDPTL (ring_next (chip s) (reg16 (chip s) ERDPTL)) (chip s)\<rparr>)"
  by (simp add: enc28j60_read_op_def spi_select_def RBM_def ADDR_MASK_def Let_def)

lemma bytes_word: "ucast lo OR push_bit 8 (ucast hi) = (word_cat hi lo :: u16)" for lo hi :: u8
  by (intro bit_word_eqI) (auto simp: bit_simps dest: bit_imp_le_length)

lemma read_u16_chip:
  "read_u16 chip_step s = (let p = reg16 (chip s) ERDPTL; q = ring_next (chip s) p
     in (word_cat (eram (chip s) q) (eram (chip s) p), s\<lparr>chip := set_reg16 ERDPTL (ring_next (chip s) q) (chip s)\<rparr>))"
  by (simp add: read_u16_def read_op_RBM bytes_word Let_def)

lemma read_buffer_chip:
  "enc28j60_read_buffer chip_step len s
    = (ring_bytes (chip s) (reg16 (chip s) ERDPTL) (unat len) @ [0],
       s\<lparr>chip := set_reg16 ERDPTL ((ring_next (chip s) ^^ unat len) (reg16 (chip s) ERDPTL)) (chip s)\<rparr>)"
  by (simp add: enc28j60_read_buffer_def spi_select_def RBM_def Let_def)

lemma read_packet_count:
  assumes "bank_ok s"
  shows "enc28j60_read chip_step EPKTCNT s = (eregs (chip s) EPKTCNT, s\<lparr>chip := with_bank 1 (chip s), current_bank := 0x20\<rparr>)"
    "bank_ok (s\<lparr>chip := with_bank 1 (chip s), current_bank := 0x20\<rparr>)"
proof -
  have b: "drop_bit 5 (EPKTCNT AND 0x60) = 1" "EPKTCNT AND 0x60 = 0x20" "EPKTCNT AND 0x1F = 0x19" "EPKTCNT AND 0x7F = EPKTCNT"
    by (simp_all add: enc_defs)
  have k: "chip_key (with_bank 1 (chip s)) 0x19 = EPKTCNT" "eregs (with_bank 1 (chip s)) EPKTCNT = eregs (chip s) EPKTCNT"
    using key_with_bank [of EPKTCNT "chip s", unfolded b] by (simp_all add: with_bank_def enc_defs)
  have "chip_step [0x19, 0] (with_bank 1 (chip s)) = ([0, eregs (chip s) EPKTCNT], with_bank 1 (chip s))"
    using k by (simp add: Let_def slow_register_def) (simp add: enc_defs)
  then show "enc28j60_read chip_step EPKTCNT s = (eregs (chip s) EPKTCNT, s\<lparr>chip := with_bank 1 (chip s), current_bank := 0x20\<rparr>)"
    using set_bank_chip [OF assms, of EPKTCNT, unfolded b]
    by (simp add: enc28j60_read_def enc28j60_read_op_def spi_select_def RCR_def ADDR_MASK_def b del: chip_step.simps) (simp add: enc_defs)
  show "bank_ok (s\<lparr>chip := with_bank 1 (chip s), current_bank := 0x20\<rparr>)"
    using bank_ok_with_bank [where s = s and addr = EPKTCNT and c = "chip s", unfolded b] by simp
qed

text \<open>What a packet in the ring begins with.\<close>

lemma ring_header:
  assumes "ring_bytes c p (6 + n) = put16_le nxt @ put16_le len @ put16_le status @ frame"
  shows "word_cat (eram c (ring_next c p)) (eram c p) = nxt"
    "word_cat (eram c ((ring_next c ^^ 3) p)) (eram c ((ring_next c ^^ 2) p)) = len"
    "word_cat (eram c ((ring_next c ^^ 5) p)) (eram c ((ring_next c ^^ 4) p)) = status"
    "ring_bytes c ((ring_next c ^^ 6) p) n = frame"
  using assms by (auto simp: eval_nat_numeral put16_le_def cat_hi8_lo8)

text \<open>The place given back to the chip: behind it the ring is free.\<close>

definition freed :: "u16 \<Rightarrow> u16" where
  "freed nxt = (if nxt - 1 > RXSTOP_INIT then RXSTOP_INIT else nxt - 1)"

lemma free_packet_chip:
  assumes "bank_ok s"
  shows "bank_ok (free_packet chip_step s) \<and> next_pkt_ptr (free_packet chip_step s) = next_pkt_ptr s
    \<and> eram (chip (free_packet chip_step s)) = eram (chip s) \<and> reg16 (chip (free_packet chip_step s)) ERXRDPTL = freed (next_pkt_ptr s)
    \<and> eregs (chip (free_packet chip_step s)) EPKTCNT = eregs (chip s) EPKTCNT - 1"
proof -
  let ?v = "next_pkt_ptr s" and ?f = "freed (next_pkt_ptr s)"
  let ?ws = "[(ERXRDPTL, ?v AND 0xFF), (ERXRDPTH, drop_bit 8 ?v), (ERXRDPTL, ?f AND 0xFF), (ERXRDPTH, drop_bit 8 ?f)]"
  define u where "u = writes ?ws s"
  have ab: "all_banked ?ws" by (simp add: all_banked_def enc_defs)
  note we = writes_effect [OF assms ab, folded u_def] and wr = reg16_writes [OF assms ab, folded u_def]
  have ptr: "reg16 (chip u) ERXRDPTL = ?f" using wr [of ERXRDPTL] word_bytes [of ?f] by (simp add: enc_defs)
  have one: "next_pkt_ptr (write_pair chip_step ERXRDPTL ERXRDPTH ?v s) = ?v"
    using writes_effect [OF assms, of "[(ERXRDPTL, ?v AND 0xFF), (ERXRDPTH, drop_bit 8 ?v)]"]
    by (simp add: write_pair_def all_banked_def enc_defs)
  have u: "u = write_pair chip_step ERXRDPTL ERXRDPTH ?f (write_pair chip_step ERXRDPTL ERXRDPTH ?v s)"
    by (simp add: u_def write_pair_def)
  have "free_packet chip_step s = enc28j60_write_op chip_step BFS ECON2 PKTDEC u"
    unfolding free_packet_def Let_def one u by (simp add: freed_def RXSTART_INIT_def)
  moreover have "enc28j60_write_op chip_step BFS ECON2 PKTDEC u = u\<lparr>chip := chip_put ECON2 (eregs (chip u) ECON2 OR PKTDEC) (chip u)\<rparr>"
    by (simp add: enc28j60_write_op_def spi_select_def chip_key_def enc_defs Let_def)
  moreover have "(x OR PKTDEC) AND PKTDEC \<noteq> 0" for x by (simp add: bit.conj_disj_distrib2 PKTDEC_def)
  ultimately have e: "free_packet chip_step s = u\<lparr>chip := (chip u)\<lparr>eregs := (eregs (chip u))(ECON2 := (eregs (chip u) ECON2 OR PKTDEC) AND NOT PKTDEC,
      EPKTCNT := eregs (chip u) EPKTCNT - 1)\<rparr>\<rparr>"
    by (simp add: chip_put_def)
  show ?thesis
    using we ptr unfolding e by (simp add: bank_ok_def reg16_def enc_defs)
qed

text \<open>C39. Receiving: where the ring holds a good packet whose length fits the buffer, its bytes are stored with a null byte behind them,
  its length is returned, the pointer moves on to the next packet, the ring is freed up to there, and the chip counts one packet less.\<close>

theorem enc_packet_received:
  assumes ok: "bank_ok s" and cnt: "eregs (chip s) EPKTCNT \<noteq> 0"
    and pkt: "ring_bytes (chip s) (next_pkt_ptr s) (6 + unat n) = put16_le nxt @ put16_le (n + 4) @ put16_le status @ frame"
    and good: "status AND 0x80 \<noteq> 0" "n \<le> max_len - 1"
  shows "\<exists>t. enc28j60_recv chip_step max_len s = (n, frame @ [0], t) \<and> bank_ok t \<and> next_pkt_ptr t = nxt
    \<and> reg16 (chip t) ERXRDPTL = freed nxt \<and> eregs (chip t) EPKTCNT = eregs (chip s) EPKTCNT - 1 \<and> eram (chip t) = eram (chip s)"
proof -
  let ?p = "next_pkt_ptr s" and ?s1 = "s\<lparr>chip := with_bank 1 (chip s), current_bank := 0x20\<rparr>"
  let ?ws = "[(ERDPTL, ?p AND 0xFF), (ERDPTH, drop_bit 8 ?p)]"
  note cntr = read_packet_count [OF ok]
  have ab: "all_banked ?ws" by (simp add: all_banked_def enc_defs)
  define u where "u = writes ?ws ?s1"
  note we = writes_effect [OF cntr(2) ab, folded u_def] and wr = reg16_writes [OF cntr(2) ab, folded u_def]
  have u: "write_pair chip_step ERDPTL ERDPTH ?p ?s1 = u" by (simp add: u_def write_pair_def)
  have ptr: "reg16 (chip u) ERDPTL = ?p" using wr [of ERDPTL] word_bytes [of ?p] by (simp add: enc_defs)
  have ram: "eram (chip u) = eram (chip s)" using we by (simp add: with_bank_def)
  have regs: "reg16 (chip u) ERXNDL = reg16 (chip s) ERXNDL" "reg16 (chip u) ERXSTL = reg16 (chip s) ERXSTL"
      "eregs (chip u) EPKTCNT = eregs (chip s) EPKTCNT"
    using we by (simp_all add: reg16_def with_bank_def enc_defs)
  let ?nx = "ring_next (chip s)"
  have nx: "ring_next (chip u) = ?nx" "ring_bytes (chip u) q k = ring_bytes (chip s) q k" for q k
    using ring_cong [OF regs(1,2) ram] by auto
  note hd = ring_header [OF pkt]
  define w where "w = u\<lparr>next_pkt_ptr := nxt, chip := set_reg16 ERDPTL ((?nx ^^ unat n) ((?nx ^^ 6) ?p)) (chip u)\<rparr>"
  have "\<not> max_len - 1 < n" using good(2) by simp
  then have "enc28j60_recv chip_step max_len s = (n, frame @ [0], free_packet chip_step w)"
    using cnt good(1) hd
    by (simp add: enc28j60_recv_def cntr(1) u read_u16_chip read_buffer_chip ptr nx ram Let_def w_def eval_nat_numeral)
  moreover have "bank_ok w" using we by (simp add: bank_ok_def w_def enc_defs)
  moreover have "next_pkt_ptr w = nxt" "eregs (chip w) EPKTCNT = eregs (chip s) EPKTCNT" "eram (chip w) = eram (chip s)"
    using regs(3) ram by (simp_all add: w_def enc_defs)
  ultimately show ?thesis using free_packet_chip [of w] by auto
qed

definition demo_enc :: "enc_chip enc28j60" where
  "demo_enc = \<lparr>current_bank = 0, next_pkt_ptr = 0, spi_ddr = 0, spi_port = 0, spcr = 0, spsr = 0,
     chip = \<lparr>eregs = (\<lambda>_. 0)(EPKTCNT := 1, ERXNDL := 0xFE, ERXNDH := 0x19),
             eram = (\<lambda>p. mem_of [8, 0, 6, 0, 0x80, 0, 0xAA, 0xBB] (unat p))\<rparr>\<rparr>"

lemma demo_enc_ok: "bank_ok demo_enc" "eregs (chip demo_enc) ECON1 AND TXRTS = 0" "eregs (chip demo_enc) EPKTCNT = 1"
  by (simp_all add: bank_ok_def demo_enc_def enc_defs)

lemma enc_frame_sent_witness:
  "\<exists>t. enc28j60_send chip_step (mem_of [1, 2, 3]) 3 demo_enc = Some t
    \<and> map (\<lambda>i. eram (chip t) (TXSTART_INIT + of_nat i)) [0..<Suc 3] = 0 # mem_take (mem_of [1, 2, 3]) 3"
proof -
  have "unat (3 :: u16) \<le> 1536" and n: "unat (3 :: u16) = 3" by simp_all
  then show ?thesis
    using enc_frame_sent [OF demo_enc_ok(1,2), of 3 "mem_of [1, 2, 3]", unfolded n] by auto
qed

lemma ring_bytes_numeral: "ring_bytes c p (numeral k) = eram c p # ring_bytes c (ring_next c p) (pred_numeral k)"
  by (simp add: numeral_eq_Suc)

lemma enc_packet_received_witness:
  "\<exists>t. enc28j60_recv chip_step 100 demo_enc = (2, [0xAA, 0xBB, 0], t) \<and> next_pkt_ptr t = 8"
proof -
  have r: "ring_next (chip demo_enc) p = p + 1" if "p < 0x19FE" for p
    using that by (auto simp: ring_next_def reg16_def demo_enc_def enc_defs word_cat_eq)
  have e: "eram (chip demo_enc) = (\<lambda>p. mem_of [8, 0, 6, 0, 0x80, 0, 0xAA, 0xBB] (unat p))" "next_pkt_ptr demo_enc = 0"
    by (simp_all add: demo_enc_def)
  have "ring_bytes (chip demo_enc) 0 8 = [8, 0, 6, 0, 0x80, 0, 0xAA, 0xBB]"
    by (simp add: ring_bytes_numeral r e mem_of_def)
  then have bytes: "ring_bytes (chip demo_enc) (next_pkt_ptr demo_enc) (6 + 2) = [8, 0, 6, 0, 0x80, 0, 0xAA, 0xBB]"
    by (simp add: e)
  have n: "unat (2 :: u16) = 2" by simp
  have "ring_bytes (chip demo_enc) (next_pkt_ptr demo_enc) (6 + unat (2 :: u16))
      = put16_le 8 @ put16_le (2 + 4) @ put16_le 0x80 @ [0xAA, 0xBB]"
    by (simp only: n bytes) (simp add: put16_le_def lo8_def hi8_def)
  from enc_packet_received [OF demo_enc_ok(1) _ this, of 100] demo_enc_ok(3) show ?thesis by auto
qed

text \<open>C40. Whatever the chip answers, receiving stores at most as many bytes as the buffer has, the null byte included.\<close>

theorem enc_recv_bounds:
  assumes "\<And>tx c. length (fst (spi tx c)) = length tx" "max_len \<noteq> 0" "enc28j60_recv spi max_len s = (len, bs, t)"
  shows "length bs \<le> unat max_len \<and> (bs = [] \<and> len = 0 \<or> length bs = Suc (unat len))"
proof -
  have rb: "length (fst (enc28j60_read_buffer spi n u)) = Suc (unat n)" for n u
    using assms(1) [of "RBM # replicate (unat n) 0" "chip u"]
    by (simp add: enc28j60_read_buffer_def spi_select_def case_prod_unfold Let_def)
  have "Suc (unat (max_len - 1)) = unat max_len"
    using assms(2) by (simp add: unat_minus_one unat_gt_0)
  then have "Suc (unat n) \<le> unat max_len" if "n \<le> max_len - 1" for n
    using that by (simp add: word_le_nat_alt)
  then show ?thesis
    using assms(3) rb
    by (auto simp: enc28j60_recv_def Let_def case_prod_unfold split: if_splits)
qed

lemma length_ring_bytes [simp]: "length (ring_bytes c p n) = n"
  by (induction n arbitrary: p) simp_all

lemma chip_step_length: "length (fst (chip_step tx c)) = length tx"
  by (cases tx) (auto simp: Let_def min_def)

lemma enc_recv_bounds_witness: "length (fst (snd (enc28j60_recv chip_step 100 demo_enc))) \<le> 100"
proof -
  obtain len bs t where e: "enc28j60_recv chip_step 100 demo_enc = (len, bs, t)" by (metis prod_cases3)
  show ?thesis using enc_recv_bounds [OF chip_step_length _ e] by (simp add: e)
qed

subsection \<open>Initialisation\<close>

definition mac_regs :: "u8 list" where
  "mac_regs = map (\<lambda>a. a AND 0x7F) [MAADR5, MAADR4, MAADR3, MAADR2, MAADR1, MAADR0]"

lemma ucast_u8_u16_u8: "ucast (ucast m :: u16) = (m :: u8)"
  by (intro bit_word_eqI) (auto simp: bit_simps dest: bit_imp_le_length)

lemma spi_setup_chip [simp]: "chip (spi_setup s) = chip s" "current_bank (spi_setup s) = current_bank s"
  by (simp_all add: spi_setup_def Let_def)

lemma writes_bank:
  "bank_ok s \<Longrightarrow> all_banked ws \<Longrightarrow> ws \<noteq> [] \<Longrightarrow> current_bank (writes ws s) = fst (last ws) AND 0x60"
proof (induction ws arbitrary: s)
  case (Cons w ws)
  obtain a v where w: "w = (a, v)" by force
  have b: "banked a" "all_banked ws" using Cons.prems(2) by (simp_all add: w all_banked_def)
  show ?case
    using Cons.IH [OF write_bank_ok [OF Cons.prems(1) b(1)] b(2), of v] write_chip [OF Cons.prems(1) b(1), of v]
    by (cases ws) (simp_all add: w)
qed simp

text \<open>Initialisation, the record of the bank being 0 as after a reset of the processor: the chip's receive ring and transmit buffer
  divide its memory, its own address is the one given, reception is on, and the record of the bank is right.\<close>

theorem enc_init_programs:
  assumes "current_bank s = 0" "length mac_addr = 6"
  shows "\<exists>t. enc28j60_init chip_step mac_addr s = t \<and> bank_ok t \<and> next_pkt_ptr t = RXSTART_INIT
    \<and> reg16 (chip t) ERXSTL = RXSTART_INIT \<and> reg16 (chip t) ERXNDL = RXSTOP_INIT
    \<and> reg16 (chip t) ETXSTL = TXSTART_INIT \<and> reg16 (chip t) ETXNDL = TXSTOP_INIT
    \<and> map (eregs (chip t)) mac_regs = mac_addr \<and> eregs (chip t) ECON1 AND ENCRXEN \<noteq> 0"
proof -
  obtain m0 m1 m2 m3 m4 m5 where mac: "mac_addr = [m0, m1, m2, m3, m4, m5]"
    using assms(2) by (auto simp: length_Suc_conv numeral_eq_Suc)
  let ?s0 = "(enc28j60_write_op chip_step SC 0 SC (spi_setup s))\<lparr>next_pkt_ptr := RXSTART_INIT\<rparr>"
  let ?w1 = "[(ERXSTL, RXSTART_INIT AND 0xFF), (ERXSTH, drop_bit 8 RXSTART_INIT), (ERXNDL, RXSTOP_INIT AND 0xFF), (ERXNDH, drop_bit 8 RXSTOP_INIT),
    (ETXSTL, TXSTART_INIT AND 0xFF), (ETXSTH, drop_bit 8 TXSTART_INIT), (ETXNDL, TXSTOP_INIT AND 0xFF), (ETXNDH, drop_bit 8 TXSTOP_INIT),
    (ERXFCON, ((UCEN OR CRCEN) OR PMEN) OR BCEN), (EPMM0, 0x3F), (EPMM1, 0x30), (EPMCSL, 0xF9), (EPMCSH, 0xF7),
    (MACON1, (MARXEN OR TXPAUS) OR RXPAUS), (MACON2, 0)]"
  let ?w2 = "[(MAIPGL, 0x12), (MAIPGH, 0x0C), (MABBIPG, 0x12), (MAMXFLL, MAX_FRAMELEN AND 0xFF), (MAMXFLH, drop_bit 8 MAX_FRAMELEN),
    (MAADR5, ucast m0), (MAADR4, ucast m1), (MAADR3, ucast m2), (MAADR2, ucast m3), (MAADR1, ucast m4), (MAADR0, ucast m5)]"
  define u where "u = writes ?w1 ?s0"
  define v where "v = enc28j60_write_op chip_step BFS MACON3 ((PADCFG0 OR TXCRCEN) OR FRMLNEN) u"
  define w where "w = writes ?w2 v"
  have init: "enc28j60_init chip_step mac_addr s = enc28j60_write_op chip_step BFS ECON1 ENCRXEN (enc28j60_set_bank chip_step ECON1 w)"
    by (simp add: enc28j60_init_def mac u_def v_def w_def write_pair_def Let_def)
  have ab: "all_banked ?w1" "all_banked ?w2" by (simp_all add: all_banked_def enc_defs)
  have s0: "bank_ok ?s0" using assms(1)
    by (simp add: bank_ok_def enc28j60_write_op_def spi_select_def enc_defs Let_def)
  note u = writes_effect [OF s0 ab(1), folded u_def]
  have "chip_key (chip u) 2 = 0x42"
    using u writes_bank [OF s0 ab(1), folded u_def] by (simp add: chip_key_def bank_ok_def enc_defs)
  then have v: "v = u\<lparr>chip := (chip u)\<lparr>eregs := (eregs (chip u))(0x42 := eregs (chip u) 0x42 OR 0x32)\<rparr>\<rparr>"
    by (simp add: v_def enc28j60_write_op_def spi_select_def chip_put_def enc_defs Let_def)
  have vok: "bank_ok v" using u by (simp add: bank_ok_def v enc_defs)
  note w = writes_effect [OF vok ab(2), folded w_def]
  define t where "t = w\<lparr>chip := (with_bank 0 (chip w))\<lparr>eregs := (eregs (with_bank 0 (chip w)))(ECON1 := eregs (with_bank 0 (chip w)) ECON1 OR ENCRXEN)\<rparr>,
    current_bank := 0\<rparr>"
  have t: "enc28j60_init chip_step mac_addr s = t"
    using set_bank_chip [of w ECON1] w by (simp add: init set_econ1_bits t_def) (simp add: enc_defs)
  have regs: "eregs (chip t) k = eregs (chip w) k" if "k \<noteq> ECON1" for k
    using that by (simp add: t_def with_bank_def)
  have econ: "eregs (chip t) ECON1 = (eregs (chip w) ECON1 AND NOT 3) OR ENCRXEN"
    by (simp add: t_def with_bank_def)
  have "bank_ok t"
  proof -
    have "((x AND NOT 3) OR ENCRXEN) AND 3 = 0" for x
      by (simp only: ENCRXEN_def bit.conj_disj_distrib2 and.assoc) simp
    then have "eregs (chip t) ECON1 AND 3 = 0" by (simp only: econ)
    then show ?thesis by (simp add: bank_ok_def) (simp add: t_def)
  qed
  moreover have "next_pkt_ptr t = RXSTART_INIT" using u w by (simp add: t_def v)
  moreover have "reg16 (chip t) ERXSTL = RXSTART_INIT" "reg16 (chip t) ERXNDL = RXSTOP_INIT"
      "reg16 (chip t) ETXSTL = TXSTART_INIT" "reg16 (chip t) ETXNDL = TXSTOP_INIT"
    using u w by (simp_all add: reg16_def regs v enc_defs word_cat_eq)
  moreover have "map (eregs (chip t)) mac_regs = mac_addr"
    using w by (simp add: mac_regs_def regs mac ucast_u8_u16_u8 enc_defs)
  moreover have "eregs (chip t) ECON1 AND ENCRXEN \<noteq> 0"
    unfolding econ by (simp add: bit.conj_disj_distrib2 ENCRXEN_def)
  ultimately show ?thesis using t by blast
qed

lemma enc_init_programs_witness:
  "map (eregs (chip (enc28j60_init chip_step [1, 2, 3, 4, 5, 6] demo_enc))) mac_regs = [1, 2, 3, 4, 5, 6]"
  using enc_init_programs [of demo_enc "[1, 2, 3, 4, 5, 6]"] by (simp add: demo_enc_def)

end
