(* ===== verification/Spec2Isabelle.thy ===== *)
theory Spec2Isabelle
  imports X300Start LinkStateRuns ChinchProps SoftReg SpiFlashProps PrintfProps OctoTypes OctoBootProps TlvCommand SulfurInit SulfurDb
  Enc28j60Props
begin

text \<open>
  This development models the C code that is the repository's own: the firmware of the X300 (usrp3) and of the OctoClock, the
  ARP cache of the USRP2, and the EEPROM tools of MPM.  Paths are below the root of the repository.

  \<^bold>\<open>The program.\<close>  The firmware of the X300 runs on a big-endian soft processor (ZPU) beside the FPGA.  Its main loop takes
  packets from the packet interface, answers ARP, ICMP and UDP, lets the host peek and poke registers, claim the device, program
  flash and transport tables, and talk to serial ports; timers drive link checks, gratuitous ARP and a link-state protocol;
  a bridge register lets a host on PCIe do the same accesses.  The OctoClock is an 8-bit AVR (little endian, 16-bit \<^verbatim>\<open>int\<close>)
  with an Ethernet controller on SPI, a clock distribution chip, a GPS receiver on a serial port, lights and a switch; a boot
  loader burns its application.  The EEPROM tools run under Linux on the N3x0, E320 and X4x0.

  \<^bold>\<open>Theories and sources.\<close>  \<open>Prelude\<close>: byte views of memory, words, table search; \<open>LeBytes\<close>: little-endian fields.
  \<^item> \<^verbatim>\<open>firmware/usrp3\<close>: \<open>Bus\<close> (\<^verbatim>\<open>include/wb_utils.h\<close>), \<open>WbDrivers\<close> (\<^verbatim>\<open>lib/wb_uart.c\<close>, \<^verbatim>\<open>lib/wb_pkt_iface64.c\<close>), \<open>WbI2c\<close>
    (\<^verbatim>\<open>lib/wb_i2c.c\<close>), \<open>WbSpi\<close> (\<^verbatim>\<open>lib/wb_spi.c\<close>), \<open>SpiFlash\<close> (\<^verbatim>\<open>lib/flash\<close>), \<open>SoftReg\<close> (\<^verbatim>\<open>include/wb_soft_reg.h\<close>), \<open>Cron\<close>
    (\<^verbatim>\<open>lib/cron.c\<close>), \<open>NetStack\<close> (\<^verbatim>\<open>lib/u3_net_stack.c\<close> and the lwIP header structures it uses), \<open>Ethernet\<close>
    (\<^verbatim>\<open>lib/ethernet.c\<close>), \<open>LinkState\<close> (\<^verbatim>\<open>lib/link_state_route_proto.c\<close>), \<open>Chinch\<close> (\<^verbatim>\<open>lib/chinch.c\<close>), \<open>UdpUart\<close>
    (\<^verbatim>\<open>lib/udp_uart.c\<close>), \<open>Printf\<close> and \<open>PrintAddrs\<close> (\<^verbatim>\<open>lib/printf.c\<close>, \<^verbatim>\<open>lib/print_addrs.c\<close>), and of \<^verbatim>\<open>x300\<close>: \<open>X300Defs\<close>
    (\<^verbatim>\<open>x300_defs.h\<close>, \<^verbatim>\<open>x300_fw_common.h\<close> of the host), \<open>X300Init\<close>, \<open>X300Start\<close> (\<^verbatim>\<open>x300_init.c\<close>), \<open>X300Main\<close>, \<open>X300Uart\<close> (\<^verbatim>\<open>x300_main.c\<close>).
  \<^item> \<^verbatim>\<open>firmware/octoclock\<close>: \<open>ArpCache\<close> (\<^verbatim>\<open>lib/arp_cache.c\<close>, the same as in \<^verbatim>\<open>firmware/usrp2\<close>), \<open>OctoNet\<close> (\<^verbatim>\<open>lib/network.c\<close>),
    \<open>Enc28j60\<close> (\<^verbatim>\<open>lib/enc28j60.c\<close>), \<open>OctoClkdist\<close> (\<^verbatim>\<open>lib/clkdist.c\<close>, \<^verbatim>\<open>lib/state.c\<close>), \<open>OctoApp\<close> (\<^verbatim>\<open>octoclock_r4/octoclock_r4_main.c\<close>,
    \<^verbatim>\<open>lib/init.c\<close>, \<^verbatim>\<open>lib/gpsdo.c\<close>, \<^verbatim>\<open>lib/usart.c\<close>, \<^verbatim>\<open>lib/udp_handlers.c\<close>), \<open>OctoBoot\<close> (\<^verbatim>\<open>bootloader/main.c\<close>).
  \<^item> \<^verbatim>\<open>mpm/tools\<close>: \<open>Crc32\<close> (\<^verbatim>\<open>tlv_eeprom/crc.c\<close> and the checksum of \<^verbatim>\<open>eeprom.c\<close>), \<open>CStdlib\<close> (what is used of the C library),
    \<open>TlvEeprom\<close> (\<^verbatim>\<open>tlv_eeprom/tlv_eeprom.c\<close>, \<^verbatim>\<open>tlv_eeprom_io.c\<close>), \<open>TlvTool\<close> (\<^verbatim>\<open>eeprom-init.c\<close>, \<^verbatim>\<open>eeprom-id.c\<close>, \<^verbatim>\<open>eeprom-pids.c\<close>),
    \<open>Sulfur\<close> (\<^verbatim>\<open>eeprom.c\<close>), \<open>SulfurTools\<close> (the nine programs around it).

  Operations have the names of the C functions, as far as the language of the logic allows it (\<^verbatim>\<open>oc_\<close> marks the
  OctoClock's where both firmwares have one).  A theory whose name ends in \<open>Facts\<close> or \<open>Props\<close>, and \<open>NetFrames\<close>, \<open>NetHw\<close>,
  \<open>OctoTypes\<close>, \<open>LinkStateRuns\<close>, \<open>TlvImage\<close>, \<open>TlvCommand\<close>, \<open>SulfurInit\<close>, \<open>SulfurDb\<close> and \<open>Enc28j60Chip\<close>, holds lemmas and specifications of the component it is named after.

  \<^bold>\<open>State.\<close>  Static variables are fields of records that extend one another along the calls: \<open>bus\<close>, \<open>netstack\<close>, \<open>cron\<close>, \<open>ethdrv\<close>,
  \<open>linkstate\<close>, \<open>chinch\<close>, \<open>udpuart\<close>, \<open>x300\<close>; and \<open>arp_cache\<close>, \<open>octo\<close>, which \<open>octo_app\<close> and the boot loader's state extend.
  An operation that may not return (waiting for hardware) gives an \<open>option\<close>, \<open>None\<close> for never; the others are total functions on
  the state.  A bus access appends to the trace of accesses, and what a read returns is a function of the address and of the
  accesses before it.  Functions registered at run time are constructors of a datatype, run by one
  function (\<open>run_udp\<close>, \<open>call_listener\<close>).  Interrupts of the OctoClock are operations that may come between two turns of the main loop;
  within a turn they are not modelled.  In the EEPROM tools the end of the process is a value (\<open>process\<close>), with
  assertions that fail, stores outside an object and null pointers as ends of their own.

  \<^bold>\<open>What the lemmas show.\<close>  Network stacks: a datagram that one stack sends reaches the handler registered on another; requests
  are answered as the protocols say; caches are sound and of bounded replacement (locale \<open>arp_table\<close> of \<open>ArpSpec\<close>, which both
  caches meet); buffers are not overrun.  Drivers: the accesses to a bus are those of the bus protocol, loops return when the
  hardware does its part, and what a chip is told is what was meant (a reference chip states what its data sheet says:
  the SPI flash, the clock chip, the ENC28J60).  Main programs: host requests perform exactly the access they ask for, the claim
  and the GPS cache refine abstract machines, the choice of the reference agrees with lights and chip through every run, a burnt
  application starts exactly if its checksum is right.  Link state: the search for loops decides reachability, the answers
  kept for a port are those of the last announcement taken on it, and an announcement is taken once while the table has room and
  nothing in it expires.
  An I2C write succeeds exactly when the device acknowledged every byte.  EEPROM tools: what is written is what the
  command line asks for by a specification of its own (\<open>TlvCommand\<close>: the settings of the options, \<open>SulfurInit\<close>: the
  fields by position of the argument), reads back and survives updates; the checksum by table is
  division bit by bit and finds bursts (structures on files meet the locale \<open>stored_structure\<close> of \<open>SulfurDb\<close>).
  Some theorems show that the code does what it should not: the EEPROM of the OctoClock cleared together with its application, a
  datagram to port 0, the verdict on a checksum turned around, a file that is too short, an application started after its
  check failed when the last command of the boot loader is repeated, an announcement taken twice when an earlier entry expires,
  success reported after an I2C transfer that failed.

  \<^bold>\<open>Bounds and fuel.\<close>  Loops with a bound in the code recurse on it: the depth of the search for loops is the number of
  nodes, and 100 link polls, 202 PHY polls and the spin timeouts are those of the source.  Loops over a buffer recurse on what is
  left of it.  Waits without a bound are \<open>partial_function\<close>s, with theorems on when they return.

  \<^bold>\<open>Parameters.\<close>  What the code finds but does not set is an argument or a field without a fixed value: bus
  reads, results of the kernel by number of call, uninitialised stack and heap, memory behind a null pointer, an EEPROM cell after
  a write, misaligned stores and the signedness of \<^verbatim>\<open>char\<close> on the processor, the answers of a chip.

  \<^bold>\<open>Not modelled.\<close>  Vendored and generated code: lwIP beyond its headers, the drivers of the ADRV903x, AD9371 (Mykonos) and of the
  RF data converter, the Zynq initialisation tables.  Code that is almost all calls of a library or registers of a controller
  that are not in the repository: the firmware of the FX2 and FX3 devices.  The rest of the USRP2 firmware, whose network stack
  is an older state of the one modelled, and the battery controller of the E3xx.  Host driver and MPM daemon (C++, Python),
  dissectors, examples and tests.  Of what is modelled, messages for people are left out.
\<close>

end
